(* ===== verification/Utf8_Path.thy ===== *)
theory Utf8_Path
  imports Prelude
begin

text \<open>
  The part of \<open>std::path::Path\<close> (behind \<open>camino::Utf8Path\<close>) that the sources use, on Unix path
  strings: components, \<open>join\<close>, \<open>parent\<close>, \<open>file_name\<close>, \<open>file_stem\<close>, \<open>with_extension\<close>,
  \<open>starts_with\<close> and \<open>strip_prefix\<close>. A path is a string; its components ignore repeated slashes
  and every \<open>.\<close> but a leading one.
\<close>

section \<open>Components\<close>

datatype comp = RootDir | CurDir | ParentDir | Normal string

fun comp_str :: "comp \<Rightarrow> string" where
  "comp_str RootDir = ''/''"
| "comp_str CurDir = ''.''"
| "comp_str ParentDir = ''..''"
| "comp_str (Normal s) = s"

definition piece_comp :: "string \<Rightarrow> comp" where
  "piece_comp p = (if p = ''..'' then ParentDir else Normal p)"

definition path_absolute :: "string \<Rightarrow> bool" where
  "path_absolute s \<longleftrightarrow> (case s of [] \<Rightarrow> False | c # _ \<Rightarrow> c = CHR ''/'')"

text \<open>The root or leading \<open>.\<close> of a path, and the body after it.\<close>

definition before_body :: "string \<Rightarrow> string \<times> string" where
  "before_body s =
     (if path_absolute s then (''/'', tl s)
      else if s = ''.'' \<or> prefix ''./'' s then (''.'', tl s)
      else ([], s))"

definition trivial_piece :: "string \<Rightarrow> bool" where
  "trivial_piece p \<longleftrightarrow> p = [] \<or> p = ''.''"

definition body_pieces :: "string \<Rightarrow> string list" where
  "body_pieces body = filter (\<lambda>p. \<not> trivial_piece p) (split_on CHR ''/'' body)"

definition components :: "string \<Rightarrow> comp list" where
  "components s =
     (let (pre, body) = before_body s in
      (if pre = ''/'' then [RootDir] else if pre = ''.'' then [CurDir] else []) @
      map piece_comp (body_pieces body))"

section \<open>Operations\<close>

definition path_join :: "string \<Rightarrow> string \<Rightarrow> string" where
  "path_join a b =
     (if path_absolute b then b
      else if a = [] \<or> last a = CHR ''/'' then a @ b
      else a @ ''/'' @ b)"

definition trim_pieces :: "string list \<Rightarrow> string list" where
  "trim_pieces ps = rev (dropWhile trivial_piece (rev ps))"

definition path_parent :: "string \<Rightarrow> string option" where
  "path_parent s =
     (let (pre, body) = before_body s; ps = trim_pieces (split_on CHR ''/'' body) in
      if ps = [] then (if pre = ''.'' then Some [] else None)
      else Some (pre @ join_with ''/'' (trim_pieces (butlast ps))))"

definition path_file_name :: "string \<Rightarrow> string option" where
  "path_file_name s =
     (case rev (components s) of Normal p # _ \<Rightarrow> Some p | _ \<Rightarrow> None)"

definition stem_of :: "string \<Rightarrow> string" where
  "stem_of f = (case rfind_char CHR ''.'' f of None \<Rightarrow> f | Some i \<Rightarrow> if i = 0 then f else take i f)"

definition extension_of :: "string \<Rightarrow> string option" where
  "extension_of f =
     (case rfind_char CHR ''.'' f of None \<Rightarrow> None | Some i \<Rightarrow> if i = 0 then None else Some (drop (Suc i) f))"

definition path_file_stem :: "string \<Rightarrow> string option" where
  "path_file_stem s = map_option stem_of (path_file_name s)"

definition path_starts_with :: "string \<Rightarrow> string \<Rightarrow> bool" where
  "path_starts_with s base \<longleftrightarrow> prefix (components base) (components s)"

fun drop_real :: "nat \<Rightarrow> string list \<Rightarrow> string list" where
  "drop_real 0 ps = dropWhile trivial_piece ps"
| "drop_real (Suc k) ps = drop_real k (tl (dropWhile trivial_piece ps))"

definition path_strip_prefix :: "string \<Rightarrow> string \<Rightarrow> string option" where
  "path_strip_prefix s base =
     (if \<not> path_starts_with s base then None
      else let (pre, body) = before_body s; ps = split_on CHR ''/'' body; k = length (components base) in
        if k = 0 then Some (pre @ join_with ''/'' (trim_pieces ps))
        else Some (join_with ''/'' (trim_pieces (drop_real (if pre = [] then k else k - 1) ps))))"

section \<open>Paths built from plain names\<close>

text \<open>A plain name is what one component can be: not empty, no slash, not \<open>.\<close> or \<open>..\<close>.\<close>

definition plain_name :: "string \<Rightarrow> bool" where
  "plain_name p \<longleftrightarrow> p \<noteq> [] \<and> p \<noteq> ''.'' \<and> p \<noteq> ''..'' \<and> CHR ''/'' \<notin> set p"

definition rel_path :: "string list \<Rightarrow> string" where
  "rel_path ps = join_with ''/'' ps"

definition abs_path :: "string list \<Rightarrow> string" where
  "abs_path ps = ''/'' @ join_with ''/'' ps"

lemma plain_name_not_trivial [simp]: "plain_name p \<Longrightarrow> \<not> trivial_piece p"
  by (auto simp: plain_name_def trivial_piece_def)

lemma plain_name_comp [simp]: "plain_name p \<Longrightarrow> piece_comp p = Normal p"
  by (auto simp: plain_name_def piece_comp_def)

lemma path_absolute_simps [simp]:
  "\<not> path_absolute []"
  "path_absolute (c # s) \<longleftrightarrow> c = CHR ''/''"
  by (simp_all add: path_absolute_def)

lemma path_absolute_hd: "path_absolute s \<longleftrightarrow> s \<noteq> [] \<and> hd s = CHR ''/''"
  by (cases s) auto

lemma comp_str_piece [simp]: "comp_str (piece_comp p) = p"
  by (simp add: piece_comp_def)

lemma split_on_plain:
  "ps \<noteq> [] \<Longrightarrow> list_all plain_name ps \<Longrightarrow> split_on CHR ''/'' (join_with ''/'' ps) = ps"
  by (rule split_join) (auto simp: plain_name_def list_all_iff)

lemma before_body_relative:
  assumes "hd (split_on CHR ''/'' s) \<noteq> []" "hd (split_on CHR ''/'' s) \<noteq> ''.''"
  shows "before_body s = ([], s)"
proof -
  from assms(1) have "\<not> path_absolute s"
    by (cases s) (auto simp: hd_split_on)
  moreover from assms(2) have "s \<noteq> ''.''" by (auto simp: hd_split_on)
  moreover from assms(2) have "\<not> prefix ''./'' s"
    by (auto simp: hd_split_on prefix_def)
  ultimately show ?thesis by (simp add: before_body_def)
qed

lemma before_body_rel_path:
  assumes "list_all plain_name ps"
  shows "before_body (rel_path ps) = ([], rel_path ps)"
proof (cases ps)
  case Nil
  then show ?thesis by (simp add: rel_path_def before_body_def)
next
  case (Cons p qs)
  with assms show ?thesis
    by (intro before_body_relative)
       (auto simp: rel_path_def split_on_plain plain_name_def)
qed

lemma before_body_abs_path [simp]: "before_body (abs_path ps) = (''/'', join_with ''/'' ps)"
  by (simp add: before_body_def abs_path_def)

lemma body_pieces_plain:
  "list_all plain_name ps \<Longrightarrow> body_pieces (join_with ''/'' ps) = ps"
proof (cases "ps = []")
  case False
  assume "list_all plain_name ps"
  with False show ?thesis
    by (auto simp: body_pieces_def split_on_plain list_all_iff intro!: filter_True)
qed (simp add: body_pieces_def trivial_piece_def)

lemma map_piece_comp_plain: "list_all plain_name ps \<Longrightarrow> map piece_comp ps = map Normal ps"
  by (simp add: list_all_iff)

lemma components_rel_path:
  "list_all plain_name ps \<Longrightarrow> components (rel_path ps) = map Normal ps"
  by (simp add: components_def before_body_rel_path body_pieces_plain rel_path_def
      map_piece_comp_plain before_body_rel_path [unfolded rel_path_def])

lemma components_abs_path:
  "list_all plain_name ps \<Longrightarrow> components (abs_path ps) = RootDir # map Normal ps"
  by (simp add: components_def body_pieces_plain map_piece_comp_plain)

lemma path_absolute_abs_path [simp]: "path_absolute (abs_path ps)"
  by (simp add: abs_path_def)

lemma path_absolute_rel_path:
  assumes "list_all plain_name ps"
  shows "\<not> path_absolute (rel_path ps)"
  using before_body_rel_path [OF assms] by (auto simp: before_body_def split: if_splits)

lemma trim_pieces_plain: "list_all plain_name ps \<Longrightarrow> trim_pieces ps = ps"
proof (cases ps rule: rev_cases)
  case (snoc qs p)
  assume "list_all plain_name ps"
  with snoc show ?thesis by (simp add: trim_pieces_def)
qed (simp add: trim_pieces_def)

lemma list_all_butlast: "list_all P xs \<Longrightarrow> list_all P (butlast xs)"
  by (auto simp: list_all_iff dest: in_set_butlastD)

lemma path_parent_rel_path:
  assumes "ps \<noteq> []" "list_all plain_name ps"
  shows "path_parent (rel_path ps) = Some (rel_path (butlast ps))"
  using assms
  by (simp add: path_parent_def before_body_rel_path)
     (simp add: rel_path_def split_on_plain trim_pieces_plain list_all_butlast)

lemma path_parent_abs_path:
  assumes "ps \<noteq> []" "list_all plain_name ps"
  shows "path_parent (abs_path ps) = Some (abs_path (butlast ps))"
  using assms
  by (simp add: path_parent_def split_on_plain trim_pieces_plain list_all_butlast)
     (simp add: abs_path_def)

lemma path_parent_root: "path_parent ''/'' = None"
  by (simp add: path_parent_def before_body_def trim_pieces_def trivial_piece_def)

lemma path_file_name_rel_path:
  "ps \<noteq> [] \<Longrightarrow> list_all plain_name ps \<Longrightarrow> path_file_name (rel_path ps) = Some (last ps)"
  by (cases ps rule: rev_cases) (simp_all add: path_file_name_def components_rel_path)

lemma path_file_name_abs_path:
  "ps \<noteq> [] \<Longrightarrow> list_all plain_name ps \<Longrightarrow> path_file_name (abs_path ps) = Some (last ps)"
  by (cases ps rule: rev_cases) (simp_all add: path_file_name_def components_abs_path)

lemma last_join_with_plain:
  assumes "ps \<noteq> []" "list_all plain_name ps"
  shows "join_with ''/'' ps \<noteq> []" "last (join_with ''/'' ps) \<noteq> CHR ''/''"
proof -
  from assms obtain qs p where ps: "ps = qs @ [p]" by (cases ps rule: rev_cases) auto
  with assms have p: "p \<noteq> []" "CHR ''/'' \<notin> set p"
    by (auto simp: plain_name_def)
  have "\<exists>pre. join_with ''/'' ps = pre @ p"
    unfolding ps by (cases "qs = []") (auto simp: join_with_append)
  then obtain pre where pre: "join_with ''/'' ps = pre @ p" ..
  with p show "join_with ''/'' ps \<noteq> []" by simp
  from p have "last p \<noteq> CHR ''/''" by (metis last_in_set)
  with pre p show "last (join_with ''/'' ps) \<noteq> CHR ''/''" by simp
qed

lemma path_join_abs_rel:
  assumes "list_all plain_name ps" "qs \<noteq> []" "list_all plain_name qs"
  shows "path_join (abs_path ps) (rel_path qs) = abs_path (ps @ qs)"
proof (cases "ps = []")
  case True
  with assms path_absolute_rel_path [of qs] show ?thesis
    by (simp add: path_join_def abs_path_def rel_path_def)
next
  case False
  with assms path_absolute_rel_path [of qs] last_join_with_plain [of ps] show ?thesis
    by (simp add: path_join_def abs_path_def rel_path_def join_with_append)
qed

lemma path_join_rel_rel:
  assumes "list_all plain_name ps" "qs \<noteq> []" "list_all plain_name qs"
  shows "path_join (rel_path ps) (rel_path qs) = rel_path (ps @ qs)"
proof (cases "ps = []")
  case True
  with assms path_absolute_rel_path [of qs] show ?thesis
    by (simp add: path_join_def rel_path_def)
next
  case False
  with assms path_absolute_rel_path [of qs] last_join_with_plain [of ps] show ?thesis
    by (simp add: path_join_def rel_path_def join_with_append)
qed

lemma prefix_map_inj: "inj f \<Longrightarrow> prefix (map f xs) (map f ys) \<longleftrightarrow> prefix xs ys"
proof (induction xs arbitrary: ys)
  case (Cons x xs)
  then show ?case by (cases ys) (auto dest: injD)
qed simp

lemma path_starts_with_abs:
  assumes "list_all plain_name ps" "list_all plain_name qs"
  shows "path_starts_with (abs_path qs) (abs_path ps) \<longleftrightarrow> prefix ps qs"
proof -
  have "inj Normal" by (simp add: inj_def)
  with assms show ?thesis
    by (simp add: path_starts_with_def components_abs_path prefix_map_inj)
qed

lemma dropWhile_trivial_plain: "list_all plain_name ps \<Longrightarrow> dropWhile trivial_piece ps = ps"
  by (cases ps) auto

lemma drop_real_plain:
  "list_all plain_name ps \<Longrightarrow> drop_real k ps = drop k ps"
proof (induction k arbitrary: ps)
  case (Suc k)
  then show ?case by (cases ps) (simp_all add: dropWhile_trivial_plain)
qed (simp add: dropWhile_trivial_plain)

lemma split_join_nil_cases:
  "list_all plain_name ps \<Longrightarrow> split_on CHR ''/'' (join_with ''/'' ps) = (if ps = [] then [[]] else ps)"
  by (simp add: split_on_plain)

lemma path_strip_prefix_abs:
  assumes "list_all plain_name ps" "list_all plain_name qs"
  shows "path_strip_prefix (abs_path (ps @ qs)) (abs_path ps) = Some (rel_path qs)"
proof -
  have all: "list_all plain_name (ps @ qs)" using assms by simp
  have "drop_real (length ps) (split_on CHR ''/'' (join_with ''/'' (ps @ qs))) = qs"
  proof (cases "ps @ qs = []")
    case True
    then show ?thesis by (simp add: trivial_piece_def)
  next
    case False
    with all show ?thesis by (simp only: split_join_nil_cases if_False drop_real_plain) simp
  qed
  with assms all path_starts_with_abs [of ps "ps @ qs"] show ?thesis
    by (simp add: path_strip_prefix_def Let_def components_abs_path trim_pieces_plain)
       (simp add: rel_path_def)
qed

lemma path_strip_prefix_abs_None:
  assumes "list_all plain_name ps" "list_all plain_name qs" "\<not> prefix ps qs"
  shows "path_strip_prefix (abs_path qs) (abs_path ps) = None"
  using assms by (simp add: path_strip_prefix_def path_starts_with_abs)

lemma abs_path_inject:
  assumes "list_all plain_name ps" "list_all plain_name qs"
  shows "abs_path ps = abs_path qs \<longleftrightarrow> ps = qs"
proof
  assume "abs_path ps = abs_path qs"
  then have "map Normal ps = map Normal qs"
    using components_abs_path [OF assms(1)] components_abs_path [OF assms(2)] by simp
  moreover have "inj Normal" by (simp add: inj_def)
  ultimately show "ps = qs" by (simp add: inj_map_eq_map)
qed simp

end
