(* ===== verification/Names.thy ===== *)
theory Names
  imports Utf8_Path
begin

text \<open>
  The validated string types of \<open>purgery-core/src/path.rs\<close>: nicknames, run ids, remote hosts,
  client-local paths, the run phases, and the server work directory with the layout
  \<open>work_dir/nickname/phase/run_id\<close> of a run. Three interfaces state what serde relies on when a
  validated value is written as its string and read back.
\<close>

section \<open>Interfaces\<close>

text \<open>
  A type with a validating constructor and a string form can be stored when the string form of
  a valid value is accepted again and gives the same value.
\<close>

locale validated_newtype =
  fixes new :: "string \<Rightarrow> ('e, 'a) result" and str :: "'a \<Rightarrow> string"
  assumes reparse: "new s = Inr x \<Longrightarrow> new (str x) = Inr x"
begin

lemma str_determines: "new s = Inr x \<Longrightarrow> new t = Inr y \<Longrightarrow> str x = str y \<Longrightarrow> x = y"
  by (metis Inr_inject reparse)

lemma reparse_idem: "new s = Inr x \<Longrightarrow> bind_res (new s) (\<lambda>v. new (str v)) = new s"
  by (simp add: reparse)

end

text \<open>Most of the types keep the accepted text itself.\<close>

locale exact_newtype =
  fixes new :: "string \<Rightarrow> ('e, 'a) result" and str :: "'a \<Rightarrow> string"
  assumes keeps: "new s = Inr x \<Longrightarrow> str x = s"
begin

lemma new_inject: "new s = Inr x \<Longrightarrow> new t = Inr x \<Longrightarrow> s = t"
  using keeps by blast

end

sublocale exact_newtype \<subseteq> validated_newtype
  by unfold_locales (metis keeps)

text \<open>An enumeration with a wire name per value and a parser for exactly these names.\<close>

locale named_enum =
  fixes parse :: "string \<Rightarrow> ('e, 'a) result" and name :: "'a \<Rightarrow> string"
  assumes parse_name: "parse (name x) = Inr x"
    and name_parse: "parse s = Inr x \<Longrightarrow> name x = s"
begin

lemma name_inject: "name x = name y \<longleftrightarrow> x = y"
  by (metis Inr_inject parse_name)

lemma rejects_iff: "\<not> is_ok (parse s) \<longleftrightarrow> s \<notin> range name"
  by (metis is_ok_iff name_parse parse_name rangeE rangeI)

end

sublocale named_enum \<subseteq> exact_newtype parse name
  by unfold_locales (rule name_parse)

section \<open>Nicknames\<close>

datatype NicknameError = NicknameEmpty | NicknameInvalidCharacter string

datatype Nickname = Nickname (nickname_str: string)

definition nickname_char :: "string \<Rightarrow> bool" where
  "nickname_char ch \<longleftrightarrow>
     (case ch of [c] \<Rightarrow> is_ascii_alphanumeric c \<or> c = CHR ''-'' \<or> c = CHR ''_'' | _ \<Rightarrow> False)"

definition Nickname_new :: "string \<Rightarrow> (NicknameError, Nickname) result" where
  "Nickname_new s =
     (if s = [] then Inl NicknameEmpty
      else case find (\<lambda>ch. \<not> nickname_char ch) (utf8_chars s) of
        Some ch \<Rightarrow> Inl (NicknameInvalidCharacter ch)
      | None \<Rightarrow> Inr (Nickname s))"

section \<open>Run ids\<close>

datatype RunIdError = RunIdEmpty | RunIdInvalidCharacter string

datatype RunId = RunId (run_id_str: string)

definition run_id_char :: "string \<Rightarrow> bool" where
  "run_id_char ch \<longleftrightarrow>
     (case ch of
        [c] \<Rightarrow> is_ascii_alphanumeric c \<or> c = CHR ''-'' \<or> c = CHR ''_'' \<or> c = CHR ''.''
      | _ \<Rightarrow> False)"

definition RunId_new :: "string \<Rightarrow> (RunIdError, RunId) result" where
  "RunId_new s =
     (if s = [] then Inl RunIdEmpty
      else case find (\<lambda>ch. \<not> run_id_char ch) (utf8_chars s) of
        Some ch \<Rightarrow> Inl (RunIdInvalidCharacter ch)
      | None \<Rightarrow> Inr (RunId s))"

section \<open>Hosts and client-local paths\<close>

datatype RemoteHostError = RemoteHostEmpty

datatype RemoteHost = RemoteHost (remote_host_str: string)

definition RemoteHost_new :: "string \<Rightarrow> (RemoteHostError, RemoteHost) result" where
  "RemoteHost_new s = (if s = [] then Inl RemoteHostEmpty else Inr (RemoteHost s))"

datatype ClientLocalPathError = ClientLocalPathEmpty

datatype ClientLocalPath = ClientLocalPath (client_local_path_str: string)

definition ClientLocalPath_new :: "string \<Rightarrow> (ClientLocalPathError, ClientLocalPath) result" where
  "ClientLocalPath_new s = (if s = [] then Inl ClientLocalPathEmpty else Inr (ClientLocalPath s))"

section \<open>Run phases and the server work directory\<close>

datatype RunPhase = Incoming | Ready | Processing | Done | Failed

fun phase_str :: "RunPhase \<Rightarrow> string" where
  "phase_str Incoming = ''incoming''"
| "phase_str Ready = ''ready''"
| "phase_str Processing = ''processing''"
| "phase_str Done = ''done''"
| "phase_str Failed = ''failed''"

datatype PathValidationError = NotAbsolute | NotRelative | ContainsDotDot | EmptyComponent

datatype ServerWorkDir = ServerWorkDir (work_dir_path: string)

definition ServerWorkDir_new :: "string \<Rightarrow> (PathValidationError, ServerWorkDir) result" where
  "ServerWorkDir_new path =
     (if \<not> path_absolute path then Inl NotAbsolute else Inr (ServerWorkDir path))"

definition nickname_dir :: "ServerWorkDir \<Rightarrow> Nickname \<Rightarrow> string" where
  "nickname_dir wd nickname = path_join (work_dir_path wd) (nickname_str nickname)"

definition run_dir :: "ServerWorkDir \<Rightarrow> Nickname \<Rightarrow> RunId \<Rightarrow> RunPhase \<Rightarrow> string" where
  "run_dir wd nickname run_id phase =
     path_join (path_join (nickname_dir wd nickname) (phase_str phase)) (run_id_str run_id)"

text \<open>\<open>work_dir\<close> of \<open>purgery-core/src/lib.rs\<close>: the transform work area of a processing run.\<close>

definition work_area_dir :: "ServerWorkDir \<Rightarrow> Nickname \<Rightarrow> RunId \<Rightarrow> string" where
  "work_area_dir wd nickname run_id = path_join (run_dir wd nickname run_id Processing) ''work''"

section \<open>What the constructors accept\<close>

lemma find_None_iff_all: "find P xs = None \<longleftrightarrow> (\<forall>x \<in> set xs. \<not> P x)"
  by (auto simp: find_None_iff)

lemma ascii_alphanumeric_facts:
  "is_ascii_alphanumeric c \<Longrightarrow> is_ascii c \<and> c \<noteq> CHR ''/'' \<and> c \<noteq> CHR ''.''"
  by (auto simp: is_ascii_alphanumeric_def is_ascii_def intro: le_less_trans)

lemma utf8_chars_all_single:
  "(\<forall>ch \<in> set (utf8_chars s). case ch of [c] \<Rightarrow> P c | _ \<Rightarrow> False) \<Longrightarrow> \<forall>c \<in> set s. P c"
proof (induction s rule: utf8_chars.induct)
  case (2 c cs)
  then have "takeWhile is_cont cs = []" "P c"
    by (auto split: list.splits)
  then have "dropWhile is_cont cs = cs" by (cases cs) (auto split: if_splits)
  with 2 \<open>P c\<close> show ?case by auto
qed simp

lemma utf8_chars_all_ascii:
  assumes "\<forall>c \<in> set s. is_ascii c \<and> P c"
  shows "\<forall>ch \<in> set (utf8_chars s). case ch of [c] \<Rightarrow> P c | _ \<Rightarrow> False"
  using assms by (simp add: utf8_chars_ascii)

definition nickname_byte :: "char \<Rightarrow> bool" where
  "nickname_byte c \<longleftrightarrow> is_ascii_alphanumeric c \<or> c = CHR ''-'' \<or> c = CHR ''_''"

definition run_id_byte :: "char \<Rightarrow> bool" where
  "run_id_byte c \<longleftrightarrow> nickname_byte c \<or> c = CHR ''.''"

lemma nickname_byte_ascii: "nickname_byte c \<Longrightarrow> is_ascii c"
  using ascii_alphanumeric_facts by (auto simp: nickname_byte_def is_ascii_def)

lemma run_id_byte_ascii: "run_id_byte c \<Longrightarrow> is_ascii c"
  using nickname_byte_ascii by (auto simp: run_id_byte_def is_ascii_def)

lemma nickname_char_byte: "nickname_char = (\<lambda>ch. case ch of [c] \<Rightarrow> nickname_byte c | _ \<Rightarrow> False)"
  by (rule ext) (simp add: nickname_char_def nickname_byte_def split: list.split)

lemma all_nickname_char: "(\<forall>ch \<in> set (utf8_chars s). nickname_char ch) \<longleftrightarrow> (\<forall>c \<in> set s. nickname_byte c)"
  unfolding nickname_char_byte
  using utf8_chars_all_single [of s nickname_byte] utf8_chars_all_ascii [of s nickname_byte] nickname_byte_ascii
  by blast

lemma Nickname_new_Inr_iff:
  "Nickname_new s = Inr n \<longleftrightarrow> s \<noteq> [] \<and> (\<forall>c \<in> set s. nickname_byte c) \<and> n = Nickname s"
proof (cases "find (\<lambda>ch. \<not> nickname_char ch) (utf8_chars s)")
  case None
  then have "\<forall>ch \<in> set (utf8_chars s). nickname_char ch" by (simp add: find_None_iff_all)
  then show ?thesis using None by (auto simp: Nickname_new_def all_nickname_char)
next
  case (Some ch)
  then have "\<not> (\<forall>ch \<in> set (utf8_chars s). nickname_char ch)"
    by (metis find_None_iff_all option.distinct(1))
  then show ?thesis using Some by (simp add: Nickname_new_def all_nickname_char)
qed

lemma run_id_char_byte: "run_id_char = (\<lambda>ch. case ch of [c] \<Rightarrow> run_id_byte c | _ \<Rightarrow> False)"
  by (rule ext) (simp add: run_id_char_def run_id_byte_def nickname_byte_def disj_assoc split: list.split)

lemma all_run_id_char: "(\<forall>ch \<in> set (utf8_chars s). run_id_char ch) \<longleftrightarrow> (\<forall>c \<in> set s. run_id_byte c)"
  unfolding run_id_char_byte
  using utf8_chars_all_single [of s run_id_byte] utf8_chars_all_ascii [of s run_id_byte] run_id_byte_ascii
  by blast

lemma RunId_new_Inr_iff:
  "RunId_new s = Inr r \<longleftrightarrow> s \<noteq> [] \<and> (\<forall>c \<in> set s. run_id_byte c) \<and> r = RunId s"
proof (cases "find (\<lambda>ch. \<not> run_id_char ch) (utf8_chars s)")
  case None
  then have "\<forall>ch \<in> set (utf8_chars s). run_id_char ch" by (simp add: find_None_iff_all)
  then show ?thesis using None by (auto simp: RunId_new_def all_run_id_char)
next
  case (Some ch)
  then have "\<not> (\<forall>ch \<in> set (utf8_chars s). run_id_char ch)"
    by (metis find_None_iff_all option.distinct(1))
  then show ?thesis using Some by (simp add: RunId_new_def all_run_id_char)
qed

interpretation nickname: exact_newtype Nickname_new nickname_str
  by unfold_locales (simp add: Nickname_new_Inr_iff)

interpretation run_id: exact_newtype RunId_new run_id_str
  by unfold_locales (simp add: RunId_new_Inr_iff)

interpretation remote_host: exact_newtype RemoteHost_new remote_host_str
  by unfold_locales (auto simp: RemoteHost_new_def split: if_splits)

interpretation client_local_path: exact_newtype ClientLocalPath_new client_local_path_str
  by unfold_locales (auto simp: ClientLocalPath_new_def split: if_splits)

interpretation server_work_dir: exact_newtype ServerWorkDir_new work_dir_path
  by unfold_locales (auto simp: ServerWorkDir_new_def split: if_splits)

section \<open>Layout of run directories\<close>

lemma components_slash_piece:
  assumes "CHR ''/'' \<notin> set b"
  shows "components (a @ CHR ''/'' # b) =
    components (a @ ''/'') @ (if trivial_piece b then [] else [piece_comp b])"
proof -
  have pieces: "body_pieces (x @ CHR ''/'' # b) = body_pieces (x @ ''/'') @ filter (\<lambda>p. \<not> trivial_piece p) [b]" for x
    using assms split_on_append_sep [of "CHR ''/''" x b] split_on_append_sep [of "CHR ''/''" x "[]"]
    by (simp add: body_pieces_def split_on_no_sep trivial_piece_def)
  have root: "body_pieces b = filter (\<lambda>p. \<not> trivial_piece p) [b]"
    using assms by (simp add: body_pieces_def split_on_no_sep)
  show ?thesis
  proof (cases a)
    case Nil
    then show ?thesis using root by (simp add: components_def before_body_def body_pieces_def trivial_piece_def)
  next
    case (Cons c a')
    have dot: "prefix ''./'' (a @ CHR ''/'' # b) \<longleftrightarrow> prefix ''./'' (a @ ''/'')"
      using Cons by (cases a') auto
    from Cons dot pieces [of a] pieces [of a'] show ?thesis
      by (auto simp: components_def before_body_def)
  qed
qed

lemma components_trailing_slash:
  assumes "a \<noteq> []"
  shows "components (a @ ''/'') = components a"
proof -
  have pieces: "body_pieces (x @ ''/'') = body_pieces x" for x
    using split_on_append_sep [of "CHR ''/''" x "[]"] by (simp add: body_pieces_def trivial_piece_def)
  from assms obtain c a' where a: "a = c # a'" by (cases a) auto
  have dot: "a @ ''/'' = ''.'' \<or> prefix ''./'' (a @ ''/'') \<longleftrightarrow> a = ''.'' \<or> prefix ''./'' a"
    using a by (cases a') auto
  from a dot pieces [of a] pieces [of a'] show ?thesis
    by (auto simp: components_def before_body_def)
qed

lemma components_join_piece:
  assumes "a \<noteq> []" "b \<noteq> []" "CHR ''/'' \<notin> set b"
  shows "components (path_join a b) = components a @ (if trivial_piece b then [] else [piece_comp b])"
proof -
  from assms have "\<not> path_absolute b" by (cases b) auto
  show ?thesis
  proof (cases "last a = CHR ''/''")
    case True
    with assms obtain a' where a: "a = a' @ ''/''" by (metis append_butlast_last_id)
    with \<open>\<not> path_absolute b\<close> assms components_slash_piece [of b a'] show ?thesis
      by (simp add: path_join_def)
  next
    case False
    with \<open>\<not> path_absolute b\<close> assms components_slash_piece [of b a] components_trailing_slash [of a]
    show ?thesis by (simp add: path_join_def)
  qed
qed

lemma body_pieces_slash: "body_pieces (x @ CHR ''/'' # b) = body_pieces x @ body_pieces b"
  by (simp add: body_pieces_def split_on_append_sep)

lemma body_pieces_append_slash: "body_pieces (x @ ''/'') = body_pieces x"
  using body_pieces_slash [of x "[]"] by (simp add: body_pieces_def trivial_piece_def)

lemma body_pieces_before_body: "body_pieces (snd (before_body s)) = body_pieces s"
proof -
  have "body_pieces (CHR ''/'' # t) = body_pieces t" for t
    using body_pieces_slash [of "[]" t] by (simp add: body_pieces_def trivial_piece_def)
  moreover have "body_pieces (''./'' @ t) = body_pieces t" for t
    using body_pieces_slash [of "''.''" t] by (simp add: body_pieces_def trivial_piece_def)
  moreover have "body_pieces ''.'' = []" "body_pieces [] = []"
    by (simp_all add: body_pieces_def trivial_piece_def)
  ultimately show ?thesis
    by (cases s) (auto simp: before_body_def prefix_def)
qed

lemma components_body:
  "components s =
    (if path_absolute s then [RootDir] else if s = ''.'' \<or> prefix ''./'' s then [CurDir] else []) @
    map piece_comp (body_pieces s)"
  unfolding body_pieces_before_body [of s, symmetric] by (simp add: components_def before_body_def)

text \<open>Joining a relative path appends its components, the leading dot apart.\<close>

lemma components_join:
  assumes "a \<noteq> []" "\<not> path_absolute b"
  shows "components (path_join a b) = components a @ map piece_comp (body_pieces b)"
proof -
  have dots: "a @ t = ''.'' \<or> prefix ''./'' (a @ t) \<longleftrightarrow> a = ''.'' \<or> prefix ''./'' a"
    if "last a = CHR ''/'' \<or> (\<exists>u. t = CHR ''/'' # u)" for t
    using assms(1) that by (cases a; cases "tl a") (auto simp: prefix_def)
  have root: "path_absolute (a @ t) = path_absolute a" for t
    using assms(1) by (cases a) auto
  show ?thesis
  proof (cases "last a = CHR ''/''")
    case True
    with assms(1) obtain a' where a: "a = a' @ ''/''" by (metis append_butlast_last_id)
    have "body_pieces (a @ b) = body_pieces a @ body_pieces b"
      unfolding a using body_pieces_slash [of a' b] by (simp add: body_pieces_append_slash)
    with True assms dots [of b] root [of b] show ?thesis
      by (simp add: path_join_def components_body)
  next
    case False
    with assms dots [of "CHR ''/'' # b"] root [of "CHR ''/'' # b"] show ?thesis
      by (simp add: path_join_def components_body body_pieces_slash)
  qed
qed

lemma path_join_nonempty: "a \<noteq> [] \<Longrightarrow> path_join a b \<noteq> []"
  by (auto simp: path_join_def)

lemma not_name_bytes:
  "\<not> nickname_byte CHR ''/''" "\<not> nickname_byte CHR ''.''" "\<not> run_id_byte CHR ''/''"
  by (simp_all add: run_id_byte_def nickname_byte_def is_ascii_alphanumeric_def)

lemma nickname_byte_neq: "nickname_byte c \<Longrightarrow> c \<noteq> CHR ''/'' \<and> c \<noteq> CHR ''.''"
  using not_name_bytes by blast

lemma run_id_byte_neq: "run_id_byte c \<Longrightarrow> c \<noteq> CHR ''/''"
  using not_name_bytes by blast

lemma plain_nameI:
  "s \<noteq> [] \<Longrightarrow> CHR ''/'' \<notin> set s \<Longrightarrow> s \<noteq> ''.'' \<Longrightarrow> s \<noteq> ''..'' \<Longrightarrow> plain_name s"
  by (simp add: plain_name_def)

lemma Nickname_new_plain:
  assumes "Nickname_new s = Inr n"
  shows "plain_name (nickname_str n)"
proof -
  from assms have s: "s \<noteq> []" "\<forall>c \<in> set s. nickname_byte c" "nickname_str n = s"
    unfolding Nickname_new_Inr_iff by simp_all
  then have "CHR ''/'' \<notin> set s" "CHR ''.'' \<notin> set s" using nickname_byte_neq by blast+
  then have "s \<noteq> ''.''" "s \<noteq> ''..''" by (metis list.set_intros(1))+
  with s \<open>CHR ''/'' \<notin> set s\<close> show ?thesis by (simp add: plain_nameI)
qed

lemma RunId_new_no_slash:
  assumes "RunId_new s = Inr r"
  shows "run_id_str r = s \<and> s \<noteq> [] \<and> CHR ''/'' \<notin> set s"
proof -
  from assms have s: "s \<noteq> []" "\<forall>c \<in> set s. run_id_byte c" "run_id_str r = s"
    unfolding RunId_new_Inr_iff by simp_all
  then show ?thesis using run_id_byte_neq by blast
qed

lemma RunId_new_plain:
  "RunId_new s = Inr r \<Longrightarrow> s \<noteq> ''.'' \<Longrightarrow> s \<noteq> ''..'' \<Longrightarrow> plain_name (run_id_str r)"
  using RunId_new_no_slash plain_nameI by metis

lemma plain_name_phase [simp]: "plain_name (phase_str ph)"
  by (cases ph) (simp_all add: plain_name_def)

lemma phase_str_inject: "phase_str p = phase_str q \<longleftrightarrow> p = q"
  by (cases p; cases q) simp_all

lemma run_dir_components_raw:
  assumes "ServerWorkDir_new w = Inr wd" "Nickname_new s = Inr n" "RunId_new t = Inr r"
  shows "components (run_dir wd n r ph) =
    components w @ [Normal (nickname_str n), Normal (phase_str ph)] @
    (if trivial_piece (run_id_str r) then [] else [piece_comp (run_id_str r)])"
proof -
  from assms(1) have w: "work_dir_path wd = w" "w \<noteq> []"
    by (auto simp: ServerWorkDir_new_def split: if_splits)
  have n: "plain_name (nickname_str n)" by (rule Nickname_new_plain [OF assms(2)])
  note r = RunId_new_no_slash [OF assms(3)]
  have pn: "p \<noteq> []" "CHR ''/'' \<notin> set p" if "plain_name p" for p
    using that by (auto simp: plain_name_def)
  show ?thesis
    using w n r pn [OF n] pn [OF plain_name_phase [of ph]]
    by (simp add: run_dir_def nickname_dir_def components_join_piece path_join_nonempty)
qed

text \<open>
  C39. Every run has its own directory for every phase: for accepted nicknames and accepted run
  ids other than \<open>.\<close> and \<open>..\<close>, the components of a run directory are those of the work
  directory followed by nickname, phase and run id, so two run directories under one work
  directory coincide only when nickname, run id and phase do.
\<close>

theorem run_dir_unique:
  assumes "ServerWorkDir_new w = Inr wd"
    and "Nickname_new s = Inr n" "RunId_new t = Inr r" "t \<notin> {''.'', ''..''}"
    and "Nickname_new s' = Inr n'" "RunId_new t' = Inr r'" "t' \<notin> {''.'', ''..''}"
  shows "components (run_dir wd n r ph) =
      components w @ [Normal (nickname_str n), Normal (phase_str ph), Normal (run_id_str r)] \<and>
    (components (run_dir wd n r ph) = components (run_dir wd n' r' ph') \<longleftrightarrow>
      n = n' \<and> r = r' \<and> ph = ph')"
proof -
  have r: "plain_name (run_id_str r)" "plain_name (run_id_str r')"
    using assms by (auto intro: RunId_new_plain)
  then show ?thesis
    using run_dir_components_raw [OF assms(1,2,3)] run_dir_components_raw [OF assms(1,5,6)]
    by (auto simp: phase_str_inject Nickname.expand RunId.expand)
qed

theorem run_dir_unique_witness:
  "components (run_dir (ServerWorkDir ''/w'') (Nickname ''lap'') (RunId ''R1'') Ready) =
     components ''/w'' @ [Normal ''lap'', Normal ''ready'', Normal ''R1'']"
proof -
  have "ServerWorkDir_new ''/w'' = Inr (ServerWorkDir ''/w'')"
    by (simp add: ServerWorkDir_new_def)
  moreover have "Nickname_new ''lap'' = Inr (Nickname ''lap'')"
    by (simp add: Nickname_new_Inr_iff nickname_byte_def is_ascii_alphanumeric_def)
  moreover have "RunId_new ''R1'' = Inr (RunId ''R1'')"
    by (simp add: RunId_new_Inr_iff run_id_byte_def nickname_byte_def is_ascii_alphanumeric_def)
  ultimately show ?thesis
    using run_dir_unique [of "''/w''" "ServerWorkDir ''/w''" "''lap''" "Nickname ''lap''" "''R1''" "RunId ''R1''"
        "''lap''" "Nickname ''lap''" "''R1''" "RunId ''R1''" Ready Ready]
    by simp
qed

text \<open>
  The run id \<open>..\<close> passes validation, and its run directory names the parent of the phase
  directory: the path is the nickname directory's phase directory followed by \<open>..\<close>, whatever
  the phase, so it leaves the phase it is meant to be confined to.
\<close>

theorem run_id_dotdot_escapes:
  "RunId_new ''..'' = Inr (RunId ''..'') \<and>
   (\<forall>w wd s n ph. ServerWorkDir_new w = Inr wd \<and> Nickname_new s = Inr n \<longrightarrow>
      components (run_dir wd n (RunId ''..'') ph) =
        components w @ [Normal (nickname_str n), Normal (phase_str ph), ParentDir])"
proof -
  have *: "RunId_new ''..'' = Inr (RunId ''..'')"
    by (simp add: RunId_new_Inr_iff run_id_byte_def)
  show ?thesis
    using * run_dir_components_raw [OF _ _ *]
    by (auto simp: trivial_piece_def piece_comp_def)
qed

theorem run_id_dotdot_escapes_witness:
  "components (run_dir (ServerWorkDir ''/w'') (Nickname ''lap'') (RunId ''..'') Ready) =
     components ''/w'' @ [Normal ''lap'', Normal ''ready'', ParentDir]"
proof -
  have "ServerWorkDir_new ''/w'' = Inr (ServerWorkDir ''/w'')"
    by (simp add: ServerWorkDir_new_def)
  moreover have "Nickname_new ''lap'' = Inr (Nickname ''lap'')"
    by (simp add: Nickname_new_Inr_iff nickname_byte_def is_ascii_alphanumeric_def)
  ultimately show ?thesis
    using run_id_dotdot_escapes by fastforce
qed

end
