(* ===== verification/Destination.thy ===== *)
theory Destination
  imports Names
begin

text \<open>
  Destination operands, normalised relative paths and rsync's single-source destination decision
  (\<open>purgery-core/src/path.rs\<close>, lines 255 to 593).
\<close>

section \<open>Destination operands\<close>

datatype DestinationIntent = ExactOrExistingDirectory | TrailingSlash | TerminalDot | TerminalDotSlash

record DestinationPath =
  dp_path :: string
  dp_operand :: string
  dp_intent :: DestinationIntent

text \<open>The component loop of \<open>DestinationPath::new\<close>.\<close>

fun destination_components :: "bool \<Rightarrow> comp list \<Rightarrow> (PathValidationError, string list) result" where
  "destination_components absolute [] = Inr []"
| "destination_components absolute (c # cs) =
     (let value = comp_str c in
      if value = ''/'' \<and> absolute then destination_components absolute cs
      else if value = ''..'' then Inl ContainsDotDot
      else if value = ''.'' \<or> value = [] then destination_components absolute cs
      else bind_res (destination_components absolute cs) (\<lambda>vs. Inr (value # vs)))"

definition destination_intent :: "string \<Rightarrow> DestinationIntent" where
  "destination_intent raw =
     (let without_trailing_slashes = trim_end CHR ''/'' raw;
          terminal_dot = without_trailing_slashes = ''.'' \<or> ends_with ''/.'' without_trailing_slashes
      in if ends_with ''/'' raw \<and> terminal_dot then TerminalDotSlash
         else if ends_with ''/'' raw then TrailingSlash
         else if terminal_dot then TerminalDot
         else ExactOrExistingDirectory)"

definition DestinationPath_new :: "string \<Rightarrow> (PathValidationError, DestinationPath) result" where
  "DestinationPath_new raw =
     (if raw = [] then Inl EmptyComponent
      else let absolute = path_absolute raw in
        bind_res (destination_components absolute (components raw)) (\<lambda>cs.
          let normalized =
            (if absolute then (if cs = [] then ''/'' else ''/'' @ join_with ''/'' cs)
             else (if cs = [] then ''.'' else join_with ''/'' cs))
          in Inr \<lparr>dp_path = normalized, dp_operand = raw, dp_intent = destination_intent raw\<rparr>))"

section \<open>Normalised relative paths\<close>

fun relative_components :: "comp list \<Rightarrow> (PathValidationError, string list) result" where
  "relative_components [] = Inr []"
| "relative_components (c # cs) =
     (let value = comp_str c in
      if value = ''..'' then Inl ContainsDotDot
      else if value = ''.'' \<or> value = [] then relative_components cs
      else bind_res (relative_components cs) (\<lambda>vs. Inr (value # vs)))"

definition normalize_relative :: "string \<Rightarrow> (PathValidationError, string) result" where
  "normalize_relative path =
     (if path_absolute path then Inl NotRelative
      else bind_res (relative_components (components path)) (\<lambda>result.
        if result = [] then Inl EmptyComponent else Inr (join_with ''/'' result)))"

datatype NormalizedRelativePath = NormalizedRelativePath (nrp_str: string)

definition NormalizedRelativePath_new ::
    "string \<Rightarrow> (PathValidationError, NormalizedRelativePath) result" where
  "NormalizedRelativePath_new path =
     bind_res (normalize_relative path) (\<lambda>s. Inr (NormalizedRelativePath s))"

definition destination_join :: "DestinationPath \<Rightarrow> NormalizedRelativePath \<Rightarrow> string" where
  "destination_join d relative = path_join (dp_path d) (nrp_str relative)"

section \<open>The destination decision\<close>

datatype ManifestEntryKind = Directory | RegularFile | Symlink

datatype DestinationState = Missing | DirectoryState | NonDirectory | DanglingSymlink

datatype DestinationPlacement = ExactTarget | DirectoryTarget

record ResolvedDestinationPlan =
  operand :: DestinationPath
  target_path :: string
  target_directory :: string
  placement :: DestinationPlacement

datatype DestinationResolutionError = DirectoryRequired | DirectoryOntoNonDirectory | MissingParent

definition resolve_destination ::
    "DestinationPath \<Rightarrow> NormalizedRelativePath \<Rightarrow> ManifestEntryKind \<Rightarrow> bool \<Rightarrow> DestinationState \<Rightarrow>
     (DestinationResolutionError, ResolvedDestinationPlan) result" where
  "resolve_destination opnd entry_path source_kind source_directory_empty destination_state =
     (let forced_directory = dp_intent opnd \<noteq> ExactOrExistingDirectory in
      if forced_directory \<and> (destination_state = NonDirectory \<or> destination_state = DanglingSymlink)
      then Inl DirectoryRequired
      else if source_kind = Directory \<and>
        (destination_state = NonDirectory \<or>
         (destination_state = DanglingSymlink \<and> \<not> source_directory_empty))
      then Inl DirectoryOntoNonDirectory
      else if destination_state = Missing \<and>
        (dp_intent opnd = TerminalDotSlash \<or>
         (dp_intent opnd = TerminalDot \<and> source_kind = Directory \<and> \<not> source_directory_empty))
      then Inl DirectoryRequired
      else
        let directory_target =
              forced_directory \<or> destination_state = DirectoryState \<or>
              (source_kind = Directory \<and> \<not> source_directory_empty \<and> destination_state \<noteq> DanglingSymlink);
            (target, place) =
              (if directory_target then (destination_join opnd entry_path, DirectoryTarget)
               else (dp_path opnd, ExactTarget))
        in case path_parent target of
            None \<Rightarrow> Inl MissingParent
          | Some parent \<Rightarrow> Inr \<lparr>operand = opnd, target_path = target, target_directory = parent, placement = place\<rparr>)"

section \<open>Path safety\<close>

definition path_is_within_root :: "string \<Rightarrow> string \<Rightarrow> bool" where
  "path_is_within_root resolved root = path_starts_with resolved root"

text \<open>What \<open>symlink_metadata\<close> says of one path.\<close>

datatype link_meta = IsSymlink | NotSymlink | MetaNotFound | MetaError

datatype SymlinkCheckError = NotUnderDestination string string | SymlinkDetected string | MetadataUnreadable string

fun symlink_scan :: "(string \<Rightarrow> link_meta) \<Rightarrow> string \<Rightarrow> comp list \<Rightarrow> (SymlinkCheckError, unit) result" where
  "symlink_scan lstat current [] = Inr ()"
| "symlink_scan lstat current (c # cs) =
     (let current = path_join current (comp_str c) in
      case lstat current of
        IsSymlink \<Rightarrow> Inl (SymlinkDetected current)
      | NotSymlink \<Rightarrow> symlink_scan lstat current cs
      | MetaNotFound \<Rightarrow> symlink_scan lstat current cs
      | MetaError \<Rightarrow> Inl (MetadataUnreadable current))"

definition check_symlink_in_path ::
    "(string \<Rightarrow> link_meta) \<Rightarrow> string \<Rightarrow> string \<Rightarrow> (SymlinkCheckError, unit) result" where
  "check_symlink_in_path lstat final_path destination_root =
     (case path_strip_prefix final_path destination_root of
        None \<Rightarrow> Inl (NotUnderDestination final_path destination_root)
      | Some relative \<Rightarrow> symlink_scan lstat destination_root (components relative))"

section \<open>What the component loops return\<close>

lemma body_piece_facts:
  "p \<in> set (body_pieces b) \<Longrightarrow> p \<noteq> [] \<and> p \<noteq> ''.'' \<and> CHR ''/'' \<notin> set p"
  by (auto simp: body_pieces_def trivial_piece_def dest: split_on_pieces)

lemma body_pieces_all_plain:
  "''..'' \<notin> set (body_pieces b) \<Longrightarrow> list_all plain_name (body_pieces b)"
  using body_piece_facts by (fastforce simp: list_all_iff plain_name_def)

lemma relative_components_pieces:
  "\<forall>p \<in> set ps. p \<noteq> [] \<and> p \<noteq> ''.'' \<Longrightarrow>
   relative_components (map piece_comp ps) = (if ''..'' \<in> set ps then Inl ContainsDotDot else Inr ps)"
  by (induction ps) (auto simp: Let_def)

lemma destination_components_pieces:
  "\<forall>p \<in> set ps. p \<noteq> [] \<and> p \<noteq> ''.'' \<and> p \<noteq> ''/'' \<Longrightarrow>
   destination_components ab (map piece_comp ps) = (if ''..'' \<in> set ps then Inl ContainsDotDot else Inr ps)"
  by (induction ps) (simp_all add: Let_def)

lemma body_piece_neq_slash: "p \<in> set (body_pieces b) \<Longrightarrow> p \<noteq> ''/''"
  using body_piece_facts by fastforce

lemma destination_components_eq:
  "destination_components (path_absolute s) (components s) =
    (let ps = body_pieces (snd (before_body s)) in
     if ''..'' \<in> set ps then Inl ContainsDotDot else Inr ps)"
proof -
  let ?ps = "body_pieces (snd (before_body s))"
  have "destination_components (path_absolute s) (map piece_comp ?ps) =
      (if ''..'' \<in> set ?ps then Inl ContainsDotDot else Inr ?ps)"
    using body_piece_facts body_piece_neq_slash by (intro destination_components_pieces) blast
  moreover have "destination_components (path_absolute s) (components s) =
      destination_components (path_absolute s) (map piece_comp ?ps)"
    by (simp add: components_def before_body_def)
  ultimately show ?thesis by (simp only: Let_def)
qed

lemma relative_components_eq:
  "\<not> path_absolute s \<Longrightarrow> relative_components (components s) =
    (let ps = body_pieces (snd (before_body s)) in
     if ''..'' \<in> set ps then Inl ContainsDotDot else Inr ps)"
  using relative_components_pieces [of "body_pieces (snd (before_body s))"] body_piece_facts
  by (auto simp: components_def before_body_def Let_def)

lemma normalize_relative_Inr:
  assumes "normalize_relative s = Inr t"
  obtains ps where "ps \<noteq> []" "list_all plain_name ps" "t = rel_path ps"
    "\<not> path_absolute s" "ps = body_pieces (snd (before_body s))"
  using assms
  by (auto simp: normalize_relative_def relative_components_eq Let_def rel_path_def
      intro: body_pieces_all_plain split: if_splits)

lemma normalize_relative_rel_path:
  assumes "ps \<noteq> []" "list_all plain_name ps"
  shows "normalize_relative (rel_path ps) = Inr (rel_path ps)"
proof -
  have "body_pieces (snd (before_body (rel_path ps))) = ps"
    using assms by (simp add: before_body_rel_path) (simp add: rel_path_def body_pieces_plain)
  moreover have "''..'' \<notin> set ps" using assms by (auto simp: list_all_iff plain_name_def)
  ultimately show ?thesis
    using assms path_absolute_rel_path
    by (simp add: normalize_relative_def relative_components_eq) (simp add: rel_path_def)
qed

lemma NormalizedRelativePath_new_Inr:
  assumes "NormalizedRelativePath_new s = Inr r"
  obtains ps where "ps \<noteq> []" "list_all plain_name ps" "nrp_str r = rel_path ps"
  using assms by (auto simp: NormalizedRelativePath_new_def bind_res_Inr_iff elim!: normalize_relative_Inr)

interpretation nrp: validated_newtype NormalizedRelativePath_new nrp_str
proof
  fix s x
  assume x: "NormalizedRelativePath_new s = Inr x"
  then obtain ps where "ps \<noteq> []" "list_all plain_name ps" "nrp_str x = rel_path ps"
    by (rule NormalizedRelativePath_new_Inr)
  then show "NormalizedRelativePath_new (nrp_str x) = Inr x"
    by (simp add: NormalizedRelativePath_new_def normalize_relative_rel_path)
       (metis NormalizedRelativePath.collapse)
qed

interpretation destination: exact_newtype DestinationPath_new dp_operand
  by unfold_locales
     (auto simp: DestinationPath_new_def Let_def bind_res_Inr_iff split: if_splits)

section \<open>Normal form of a destination\<close>

lemma trim_pieces_Nil_iff: "trim_pieces ps = [] \<longleftrightarrow> filter (\<lambda>p. \<not> trivial_piece p) ps = []"
  by (simp add: trim_pieces_def dropWhile_eq_Nil_conv filter_empty_conv)

lemma components_pieces:
  "components s =
    (if path_absolute s then [RootDir] else if s = ''.'' \<or> prefix ''./'' s then [CurDir] else []) @
    map piece_comp (body_pieces (snd (before_body s)))"
  by (simp add: components_def before_body_def)

lemma piece_comp_not_root [simp]: "piece_comp p \<noteq> RootDir" "piece_comp p \<noteq> CurDir"
  "RootDir \<noteq> piece_comp p" "CurDir \<noteq> piece_comp p"
  by (simp_all add: piece_comp_def)

lemma path_parent_None_iff:
  "path_parent s = None \<longleftrightarrow> components s = [] \<or> components s = [RootDir]"
proof -
  have "path_parent s = None \<longleftrightarrow>
      body_pieces (snd (before_body s)) = [] \<and> fst (before_body s) \<noteq> ''.''"
    by (auto simp: path_parent_def trim_pieces_Nil_iff body_pieces_def Let_def split: prod.splits if_splits)
  also have "\<dots> \<longleftrightarrow> components s = [] \<or> components s = [RootDir]"
    by (simp add: components_pieces) (auto simp: before_body_def)
  finally show ?thesis .
qed

lemma ParentDir_components:
  "ParentDir \<in> set (components s) \<longleftrightarrow> ''..'' \<in> set (body_pieces (snd (before_body s)))"
  by (auto simp: components_pieces piece_comp_def)

lemma destination_intent_forced:
  assumes "raw \<noteq> []" "body_pieces (snd (before_body raw)) = []"
  shows "destination_intent raw \<noteq> ExactOrExistingDirectory"
proof (cases "ends_with ''/'' raw")
  case True
  then show ?thesis by (simp add: destination_intent_def Let_def)
next
  case False
  then have trim: "trim_end CHR ''/'' raw = raw" by (rule trim_end_id)
  have comps: "c \<in> {RootDir, CurDir}" if "c \<in> set (components raw)" for c
    using that assms(2) by (auto simp: components_pieces split: if_splits)
  have "raw = ''.'' \<or> ends_with ''/.'' raw"
  proof (cases "CHR ''/'' \<in> set raw")
    case True
    then obtain x q where raw: "raw = x @ CHR ''/'' # q" and q: "CHR ''/'' \<notin> set q"
      by (metis split_list_last)
    with False have "q \<noteq> []" by (auto simp: ends_with_char)
    have "trivial_piece q"
    proof (rule ccontr)
      assume "\<not> trivial_piece q"
      with raw components_slash_piece [OF q, of x] have "piece_comp q \<in> set (components raw)" by simp
      then show False using comps by fastforce
    qed
    with \<open>q \<noteq> []\<close> raw show ?thesis by (auto simp: trivial_piece_def ends_with_iff)
  next
    case no_slash: False
    then have "\<not> path_absolute raw" "\<not> prefix ''./'' raw"
      using assms(1) by (cases raw; force simp: prefix_def)+
    with assms no_slash show ?thesis
      by (auto simp: before_body_def body_pieces_def split_on_no_sep trivial_piece_def split: if_splits)
  qed
  with trim False show ?thesis by (auto simp: destination_intent_def Let_def)
qed

lemma DestinationPath_new_Inr:
  assumes "DestinationPath_new raw = Inr d"
  obtains ps where "list_all plain_name ps" "ps = body_pieces (snd (before_body raw))"
    "dp_path d = (if path_absolute raw then abs_path ps else if ps = [] then ''.'' else rel_path ps)"
    "dp_operand d = raw" "dp_intent d = destination_intent raw" "raw \<noteq> []"
    "ps = [] \<Longrightarrow> dp_intent d \<noteq> ExactOrExistingDirectory"
proof -
  let ?ps = "body_pieces (snd (before_body raw))"
  from assms have raw: "raw \<noteq> []" and dots: "''..'' \<notin> set ?ps"
    by (auto simp: DestinationPath_new_def destination_components_eq Let_def split: if_splits)
  with assms have d: "d = \<lparr>dp_path = (if path_absolute raw then abs_path ?ps
      else if ?ps = [] then ''.'' else rel_path ?ps),
      dp_operand = raw, dp_intent = destination_intent raw\<rparr>"
    by (auto simp: DestinationPath_new_def destination_components_eq Let_def abs_path_def rel_path_def)
  show thesis
    by (rule that [of ?ps]) (use d raw dots body_pieces_all_plain destination_intent_forced in auto)
qed

lemma components_dot_path:
  assumes "list_all plain_name qs"
  shows "components (''./'' @ rel_path qs) = CurDir # map Normal qs"
proof -
  have "body_pieces (CHR ''/'' # rel_path qs) = body_pieces (rel_path qs)"
    by (simp add: body_pieces_def trivial_piece_def)
  then show ?thesis
    using assms
    by (simp add: components_def before_body_def)
       (simp add: rel_path_def body_pieces_plain map_piece_comp_plain)
qed

lemma components_dot: "components ''.'' = [CurDir]"
  by (simp add: components_def before_body_def body_pieces_def trivial_piece_def)

lemma components_dp_path:
  assumes "DestinationPath_new raw = Inr d"
  shows "components (dp_path d) = (let ps = body_pieces (snd (before_body raw)) in
    if path_absolute raw then RootDir # map Normal ps else if ps = [] then [CurDir] else map Normal ps)"
  using assms
  by (elim DestinationPath_new_Inr)
     (simp add: Let_def components_abs_path components_rel_path components_dot)

lemma components_destination_join:
  assumes "DestinationPath_new raw = Inr d" "NormalizedRelativePath_new e = Inr entry"
  shows "components (destination_join d entry) = components (dp_path d) @ components (nrp_str entry)"
proof -
  from assms(1) obtain ps where ps: "list_all plain_name ps"
    "dp_path d = (if path_absolute raw then abs_path ps else if ps = [] then ''.'' else rel_path ps)"
    by (rule DestinationPath_new_Inr)
  from assms(2) obtain qs where qs: "qs \<noteq> []" "list_all plain_name qs" "nrp_str entry = rel_path qs"
    by (rule NormalizedRelativePath_new_Inr)
  consider "path_absolute raw" | "\<not> path_absolute raw" "ps = []" | "\<not> path_absolute raw" "ps \<noteq> []"
    by blast
  then show ?thesis
  proof cases
    case 1
    with ps qs show ?thesis
      by (simp add: destination_join_def path_join_abs_rel components_abs_path components_rel_path)
  next
    case 2
    with ps qs path_absolute_rel_path [of qs] components_dot_path [of qs] show ?thesis
      by (simp add: destination_join_def path_join_def components_rel_path components_dot)
  next
    case 3
    with ps qs show ?thesis
      by (simp add: destination_join_def path_join_rel_rel components_rel_path)
  qed
qed

lemma DestinationPath_new_error_iff:
  "DestinationPath_new raw = Inl EmptyComponent \<longleftrightarrow> raw = []"
  "DestinationPath_new raw = Inl ContainsDotDot \<longleftrightarrow> raw \<noteq> [] \<and> ParentDir \<in> set (components raw)"
  by (auto simp: DestinationPath_new_def destination_components_eq ParentDir_components Let_def)

lemma filter_map_Normal: "filter (\<lambda>c. c \<noteq> CurDir) (map Normal ps) = map Normal ps"
  by (induction ps) auto

lemma filter_cur_components:
  "list_all plain_name (body_pieces (snd (before_body raw))) \<Longrightarrow>
   filter (\<lambda>c. c \<noteq> CurDir) (components raw) =
     (if path_absolute raw then [RootDir] else []) @ map Normal (body_pieces (snd (before_body raw)))"
  by (simp add: components_pieces map_piece_comp_plain filter_map_Normal)

lemma DestinationPath_new_stable:
  assumes "DestinationPath_new raw = Inr d"
  obtains d' where "DestinationPath_new (dp_path d) = Inr d'" "dp_path d' = dp_path d"
proof -
  from assms obtain ps where ps: "list_all plain_name ps"
    "dp_path d = (if path_absolute raw then abs_path ps else if ps = [] then ''.'' else rel_path ps)"
    by (rule DestinationPath_new_Inr)
  have dots: "''..'' \<notin> set ps" using ps(1) by (auto simp: list_all_iff plain_name_def)
  consider "path_absolute raw" | "\<not> path_absolute raw" "ps = []" | "\<not> path_absolute raw" "ps \<noteq> []"
    by blast
  then have "\<exists>d'. DestinationPath_new (dp_path d) = Inr d' \<and> dp_path d' = dp_path d"
  proof cases
    case 1
    have "body_pieces (snd (before_body (abs_path ps))) = ps"
      using ps(1) by (simp add: body_pieces_plain)
    moreover have "abs_path ps \<noteq> []" by (simp add: abs_path_def)
    ultimately show ?thesis
      using 1 ps dots destination_components_eq [of "abs_path ps"]
      by (simp add: DestinationPath_new_def Let_def) (auto simp: abs_path_def)
  next
    case 2
    with ps show ?thesis
      by (simp add: DestinationPath_new_def components_dot)
  next
    case 3
    have "body_pieces (snd (before_body (rel_path ps))) = ps"
      using ps(1) by (simp add: before_body_rel_path) (simp add: rel_path_def body_pieces_plain)
    moreover have "rel_path ps \<noteq> []"
      using last_join_with_plain [OF 3(2) ps(1)] by (simp add: rel_path_def)
    ultimately show ?thesis
      using 3 ps dots destination_components_eq [of "rel_path ps"] path_absolute_rel_path [OF ps(1)]
      by (simp add: DestinationPath_new_def Let_def) (simp add: rel_path_def)
  qed
  with that show thesis by blast
qed

text \<open>
  \<open>DestinationPath::new\<close> rejects exactly the empty operand and the operands with a \<open>..\<close>
  component; an accepted operand is kept verbatim next to a normal form that has the same
  components apart from \<open>.\<close>, is absolute exactly when the operand is, never climbs, and is its
  own normal form.
\<close>

theorem destination_new_normalizes:
  "case DestinationPath_new raw of
     Inl e \<Rightarrow> (raw = [] \<and> e = EmptyComponent) \<or>
       (raw \<noteq> [] \<and> ParentDir \<in> set (components raw) \<and> e = ContainsDotDot)
   | Inr d \<Rightarrow> raw \<noteq> [] \<and> ParentDir \<notin> set (components raw) \<and>
       dp_operand d = raw \<and> dp_intent d = destination_intent raw \<and>
       filter (\<lambda>c. c \<noteq> CurDir) (components (dp_path d)) = filter (\<lambda>c. c \<noteq> CurDir) (components raw) \<and>
       path_absolute (dp_path d) = path_absolute raw \<and>
       (\<exists>d'. DestinationPath_new (dp_path d) = Inr d' \<and> dp_path d' = dp_path d)"
proof (cases "DestinationPath_new raw")
  case (Inl e)
  then show ?thesis
    by (auto simp: DestinationPath_new_def destination_components_eq ParentDir_components Let_def
        split: if_splits)
next
  case d: (Inr d)
  then obtain ps where ps: "list_all plain_name ps" "ps = body_pieces (snd (before_body raw))"
    "dp_path d = (if path_absolute raw then abs_path ps else if ps = [] then ''.'' else rel_path ps)"
    "dp_operand d = raw" "dp_intent d = destination_intent raw" "raw \<noteq> []"
    by (rule DestinationPath_new_Inr)
  have "ParentDir \<notin> set (components raw)"
    using ps(1,2) by (auto simp: ParentDir_components list_all_iff plain_name_def)
  moreover have "filter (\<lambda>c. c \<noteq> CurDir) (components (dp_path d)) = filter (\<lambda>c. c \<noteq> CurDir) (components raw)"
    using ps components_dp_path [OF d] filter_cur_components [of raw]
    by (auto simp: Let_def filter_map_Normal)
  moreover have "path_absolute (dp_path d) = path_absolute raw"
    using ps path_absolute_rel_path [OF ps(1)] by simp
  moreover obtain d' where "DestinationPath_new (dp_path d) = Inr d'" "dp_path d' = dp_path d"
    using d by (rule DestinationPath_new_stable)
  ultimately show ?thesis using d ps by simp
qed

section \<open>Properties of the decision\<close>

lemma components_nrp:
  assumes "NormalizedRelativePath_new e = Inr entry"
  shows "components (nrp_str entry) \<noteq> []" "ParentDir \<notin> set (components (nrp_str entry))"
    "RootDir \<notin> set (components (nrp_str entry))"
  using assms by (elim NormalizedRelativePath_new_Inr; auto simp: components_rel_path)+

lemma destination_join_has_parent:
  assumes "DestinationPath_new raw = Inr d" "NormalizedRelativePath_new e = Inr entry"
  shows "path_parent (destination_join d entry) \<noteq> None"
  using components_nrp [OF assms(2)]
  by (auto simp: path_parent_None_iff components_destination_join [OF assms] append_eq_Cons_conv)

lemma dp_path_has_parent:
  assumes "DestinationPath_new raw = Inr d" "dp_intent d = ExactOrExistingDirectory"
  shows "path_parent (dp_path d) \<noteq> None"
  using assms by (elim DestinationPath_new_Inr)
    (auto simp: path_parent_None_iff components_abs_path components_rel_path)

lemma dp_path_no_parent_dir:
  "DestinationPath_new raw = Inr d \<Longrightarrow> ParentDir \<notin> set (components (dp_path d))"
  by (auto simp: components_dp_path Let_def)

lemma resolve_not_forced_exact:
  "resolve_destination d entry k emp st = Inr plan \<Longrightarrow> placement plan = ExactTarget \<Longrightarrow>
   dp_intent d = ExactOrExistingDirectory \<and> target_path plan = dp_path d \<and> st \<noteq> DirectoryState \<and>
   (k = Directory \<longrightarrow> st = Missing \<and> emp \<or> st = DanglingSymlink \<and> emp)"
  by (cases st) (auto simp: resolve_destination_def Let_def split: if_splits option.splits)

lemma resolve_directory_target:
  "resolve_destination d entry k emp st = Inr plan \<Longrightarrow> placement plan = DirectoryTarget \<Longrightarrow>
   target_path plan = destination_join d entry \<and> (st = DirectoryState \<or> st = Missing)"
  by (cases st) (auto simp: resolve_destination_def Let_def split: if_splits option.splits)

lemma resolve_plan_parent:
  "resolve_destination d entry k emp st = Inr plan \<Longrightarrow>
   operand plan = d \<and> path_parent (target_path plan) = Some (target_directory plan)"
  by (auto simp: resolve_destination_def Let_def split: if_splits option.splits)

lemma resolve_missing_parent:
  "resolve_destination d entry k emp st = Inl MissingParent \<Longrightarrow>
   path_parent (destination_join d entry) = None \<or>
   (dp_intent d = ExactOrExistingDirectory \<and> path_parent (dp_path d) = None)"
  by (auto simp: resolve_destination_def Let_def split: if_splits option.splits)

text \<open>
  C33. For validated inputs the decision never fails for want of a parent. A resolved target lies
  inside the destination and never climbs out of it, its directory is its parent, and its
  placement respects what is there: an entry goes inside an existing directory and never replaces
  it, an existing file or link is only ever the exact target of a non-directory source (a link
  also of an empty directory), and an operand that ends in a slash or a dot is always a directory.
\<close>

theorem resolve_destination_safe:
  assumes "DestinationPath_new raw = Inr d" "NormalizedRelativePath_new e = Inr entry"
  shows "case resolve_destination d entry k emp st of
      Inl err \<Rightarrow> err \<noteq> MissingParent \<and> st \<noteq> DirectoryState
    | Inr plan \<Rightarrow>
        components (target_path plan) = components (dp_path d) @
          (if placement plan = DirectoryTarget then components (nrp_str entry) else []) \<and>
        path_starts_with (target_path plan) (dp_path d) \<and>
        ParentDir \<notin> set (components (target_path plan)) \<and>
        path_parent (target_path plan) = Some (target_directory plan) \<and>
        (placement plan = DirectoryTarget \<longrightarrow> st \<in> {DirectoryState, Missing}) \<and>
        (placement plan = ExactTarget \<longrightarrow> dp_intent d = ExactOrExistingDirectory \<and>
          st \<noteq> DirectoryState \<and> (k = Directory \<longrightarrow> emp \<and> st \<noteq> NonDirectory))"
proof (cases "resolve_destination d entry k emp st")
  case (Inl err)
  then have "err \<noteq> MissingParent"
    using resolve_missing_parent [of d entry k emp st] destination_join_has_parent [OF assms]
      dp_path_has_parent [OF assms(1)] by blast
  moreover from this Inl have "st \<noteq> DirectoryState"
    by (auto simp: resolve_destination_def Let_def split: if_splits option.splits)
  ultimately show ?thesis using Inl by simp
next
  case (Inr plan)
  note facts = dp_path_no_parent_dir [OF assms(1)] components_nrp [OF assms(2)]
    resolve_plan_parent [OF Inr] components_destination_join [OF assms]
  show ?thesis
  proof (cases "placement plan")
    case ExactTarget
    with facts Inr resolve_not_forced_exact [OF Inr] show ?thesis
      by (auto simp: path_starts_with_def)
  next
    case DirectoryTarget
    with facts Inr resolve_directory_target [OF Inr] show ?thesis
      by (auto simp: path_starts_with_def)
  qed
qed

lemma witness_destination:
  "DestinationPath_new ''/srv/in/'' =
     Inr \<lparr>dp_path = ''/srv/in'', dp_operand = ''/srv/in/'', dp_intent = TrailingSlash\<rparr>"
  "NormalizedRelativePath_new ''a/./b'' = Inr (NormalizedRelativePath ''a/b'')"
  by code_simp+

theorem resolve_destination_safe_witness:
  "resolve_destination \<lparr>dp_path = ''/srv/in'', dp_operand = ''/srv/in/'', dp_intent = TrailingSlash\<rparr>
     (NormalizedRelativePath ''a/b'') RegularFile False Missing \<noteq> Inl MissingParent"
  using resolve_destination_safe [OF witness_destination, where k = RegularFile and emp = False and st = Missing]
  by (auto split: sum.splits)

section \<open>The symlink guard\<close>

definition passable :: "link_meta \<Rightarrow> bool" where
  "passable m \<longleftrightarrow> m = NotSymlink \<or> m = MetaNotFound"

lemma path_join_abs_name:
  "list_all plain_name ps \<Longrightarrow> plain_name q \<Longrightarrow> path_join (abs_path ps) q = abs_path (ps @ [q])"
  using path_join_abs_rel [of ps "[q]"] by (simp add: rel_path_def)

lemma symlink_scan_abs:
  assumes "list_all plain_name ps" "list_all plain_name qs"
  shows "symlink_scan lstat (abs_path ps) (map Normal qs) =
    (case find (\<lambda>k. \<not> passable (lstat (abs_path (ps @ take k qs)))) [1..<Suc (length qs)] of
       None \<Rightarrow> Inr ()
     | Some k \<Rightarrow> let p = abs_path (ps @ take k qs) in
         Inl (if lstat p = IsSymlink then SymlinkDetected p else MetadataUnreadable p))"
  using assms
proof (induction qs arbitrary: ps)
  case (Cons q qs)
  let ?p = "abs_path (ps @ [q])"
  have join: "path_join (abs_path ps) q = ?p"
    using Cons.prems by (simp add: path_join_abs_name)
  have upt: "[1..<Suc (length (q # qs))] = 1 # map Suc [1..<Suc (length qs)]"
    using upt_conv_Cons [of 1 "Suc (Suc (length qs))"] map_Suc_upt [of 1 "Suc (length qs)"]
    by (simp del: upt_Suc)
  have shift: "find P (map Suc xs) = map_option Suc (find (\<lambda>k. P (Suc k)) xs)" for P xs
    by (induction xs) auto
  have ih: "symlink_scan lstat ?p (map Normal qs) =
    (case find (\<lambda>k. \<not> passable (lstat (abs_path ((ps @ [q]) @ take k qs)))) [1..<Suc (length qs)] of
       None \<Rightarrow> Inr ()
     | Some k \<Rightarrow> let p = abs_path ((ps @ [q]) @ take k qs) in
         Inl (if lstat p = IsSymlink then SymlinkDetected p else MetadataUnreadable p))"
    using Cons.prems by (intro Cons.IH) auto
  show ?case
    unfolding upt using join ih
    by (cases "lstat ?p") (auto simp: passable_def shift Let_def split: option.splits)
qed simp

text \<open>
  C34. The symlink guard accepts a path exactly when it lies under the destination root and none
  of its components below the root, the last included, is a symbolic link or has unreadable
  metadata; otherwise it names the first component that is.
\<close>

theorem check_symlink_in_path_exact:
  assumes "list_all plain_name root" "list_all plain_name final"
  shows "check_symlink_in_path lstat (abs_path final) (abs_path root) =
    (if \<not> prefix root final then Inl (NotUnderDestination (abs_path final) (abs_path root))
     else case find (\<lambda>k. lstat (abs_path (take k final)) \<notin> {NotSymlink, MetaNotFound})
            [Suc (length root)..<Suc (length final)] of
        None \<Rightarrow> Inr ()
      | Some k \<Rightarrow> let p = abs_path (take k final) in
          Inl (if lstat p = IsSymlink then SymlinkDetected p else MetadataUnreadable p))"
proof (cases "prefix root final")
  case True
  then obtain qs where f: "final = root @ qs" by (auto simp: prefix_def)
  with assms have q: "list_all plain_name qs" by simp
  have shift: "find P (map (\<lambda>k. k + n) xs) = map_option (\<lambda>k. k + n) (find (\<lambda>k. P (k + n)) xs)"
    for P xs and n :: nat by (induction xs) auto
  have upt: "[Suc (length root)..<Suc (length final)] =
      map (\<lambda>k. k + length root) [1..<Suc (length qs)]"
    unfolding f by (rule nth_equalityI) (simp_all del: upt_Suc)
  show ?thesis
    unfolding upt shift
    using assms f q True
    by (simp add: check_symlink_in_path_def path_strip_prefix_abs components_rel_path
        symlink_scan_abs passable_def option.case_distrib [of "case_option _ _"])
       (simp add: option.map_comp split: option.splits)
next
  case False
  with assms show ?thesis
    by (simp add: check_symlink_in_path_def path_strip_prefix_abs_None)
qed

theorem check_symlink_in_path_exact_witness:
  "check_symlink_in_path
     (\<lambda>p. if p = ''/d/a'' then NotSymlink else if p = ''/d/a/l'' then IsSymlink else MetaError)
     (abs_path [''d'', ''a'', ''l'', ''x'']) (abs_path [''d'']) = Inl (SymlinkDetected ''/d/a/l'')"
  by (subst check_symlink_in_path_exact)
     (simp_all add: plain_name_def abs_path_def upt_conv_Cons Let_def)

end
