(* ===== verification/Version.thy ===== *)
theory Version
  imports Prelude
begin

text \<open>
  Version compatibility (\<open>purgery-core/src/version.rs\<close>): the parser of version strings, the
  major/minor compatibility check and its uses on TOML documents. The TOML parser itself is the
  third-party crate \<open>toml\<close>, a parameter of the definitions.
\<close>

section \<open>Unsigned decimal numbers\<close>

text \<open>\<open>u64::from_str\<close>: an optional plus sign, then at least one digit, with overflow rejected.\<close>

definition digit_val :: "char \<Rightarrow> nat option" where
  "digit_val c = (if CHR ''0'' \<le> c \<and> c \<le> CHR ''9'' then Some (of_char c - 48) else None)"

fun digits_val :: "nat \<Rightarrow> string \<Rightarrow> nat option" where
  "digits_val acc [] = Some acc"
| "digits_val acc (c # cs) =
     (case digit_val c of None \<Rightarrow> None
      | Some d \<Rightarrow> if acc * 10 + d < 2 ^ 64 then digits_val (acc * 10 + d) cs else None)"

definition parse_u64 :: "string \<Rightarrow> u64 option" where
  "parse_u64 s =
     (let ds = (case s of c # cs \<Rightarrow> if c = CHR ''+'' then cs else s | [] \<Rightarrow> s) in
      if ds = [] then None else map_option of_nat (digits_val 0 ds))"

text \<open>The decimal form \<open>{}\<close> prints of an unsigned number.\<close>

definition digit_char :: "nat \<Rightarrow> char" where
  "digit_char d = char_of (48 + d)"

fun nat_str :: "nat \<Rightarrow> string" where
  "nat_str n = (if n < 10 then [digit_char n] else nat_str (n div 10) @ [digit_char (n mod 10)])"

declare nat_str.simps [simp del]

definition u64_str :: "u64 \<Rightarrow> string" where
  "u64_str w = nat_str (unat w)"

section \<open>Versions\<close>

definition PURGERY_VERSION :: string where
  "PURGERY_VERSION = ''0.1.0''"

definition PROTOCOL_VERSION :: u32 where
  "PROTOCOL_VERSION = 3"

record VersionResponse =
  vr_protocol_version :: u32
  vr_purgery_version :: string

record PurgeryVersion =
  major :: u64
  minor :: u64
  patch :: u64

datatype VersionError = InvalidFormat string | VersionIncompatible string string string

definition version_display :: "PurgeryVersion \<Rightarrow> string" where
  "version_display v = u64_str (major v) @ ''.'' @ u64_str (minor v) @ ''.'' @ u64_str (patch v)"

text \<open>\<open>splitn(n, c)\<close>: the last of at most \<open>n\<close> pieces keeps the rest.\<close>

definition splitn :: "nat \<Rightarrow> char \<Rightarrow> string \<Rightarrow> string list" where
  "splitn n c s =
     (let ps = split_on c s in
      if length ps \<le> n then ps else take (n - 1) ps @ [join_with [c] (drop (n - 1) ps)])"

text \<open>Exactly three parts, each a \<open>u64\<close>; all other inputs are the same format error.\<close>

fun version_parts :: "string list \<Rightarrow> PurgeryVersion option" where
  "version_parts [mj, mn, pt] =
     Option.bind (parse_u64 mj) (\<lambda>a. Option.bind (parse_u64 mn) (\<lambda>b. Option.bind (parse_u64 pt) (\<lambda>c.
       Some \<lparr>major = a, minor = b, patch = c\<rparr>)))"
| "version_parts _ = None"

definition parse_purgery_version :: "string \<Rightarrow> (VersionError, PurgeryVersion) result" where
  "parse_purgery_version input =
     (if input = [] then Inl (InvalidFormat ''empty string'')
      else
        let without_build = hd (split_on CHR ''+'' input);
            without_prerelease = hd (split_on CHR ''-'' without_build)
        in case version_parts (splitn 3 CHR ''.'' without_prerelease) of
            None \<Rightarrow> Inl (InvalidFormat input)
          | Some v \<Rightarrow> Inr v)"

definition versions_compatible :: "string \<Rightarrow> string \<Rightarrow> (VersionError, bool) result" where
  "versions_compatible producer consumer =
     bind_res (parse_purgery_version producer) (\<lambda>p.
     bind_res (parse_purgery_version consumer) (\<lambda>c.
       Inr (major p = major c \<and> minor p = minor c)))"

definition require_compatible_purgery_version :: "string \<Rightarrow> string \<Rightarrow> (VersionError, unit) result" where
  "require_compatible_purgery_version producer ctx =
     bind_res (versions_compatible producer PURGERY_VERSION) (\<lambda>ok.
       if \<not> ok then Inl (VersionIncompatible ctx producer PURGERY_VERSION) else Inr ())"

section \<open>Versions of TOML documents\<close>

text \<open>
  What the sources look at of a \<open>toml::Value\<close>: strings and the fields of a table. A parser of
  type \<open>string \<Rightarrow> (string, toml_value) result\<close> stands for \<open>toml::from_str\<close>.
\<close>

datatype toml_value = TString string | TTable "(string \<times> toml_value) list" | TOther

type_synonym toml_parser = "string \<Rightarrow> (string, toml_value) result"

fun toml_get :: "string \<Rightarrow> toml_value \<Rightarrow> toml_value option" where
  "toml_get k (TTable kvs) = map_of kvs k"
| "toml_get k _ = None"

fun toml_as_str :: "toml_value \<Rightarrow> string option" where
  "toml_as_str (TString s) = Some s"
| "toml_as_str _ = None"

definition version_field :: "toml_value \<Rightarrow> string option" where
  "version_field v = Option.bind (toml_get ''purgery_version'' v) toml_as_str"

datatype VersionProbeError = ProbeInvalidToml string | MissingVersion

definition probe_purgery_version_from_toml ::
    "toml_parser \<Rightarrow> string \<Rightarrow> (VersionProbeError, string) result" where
  "probe_purgery_version_from_toml parse input =
     bind_res (map_err ProbeInvalidToml (parse input)) (\<lambda>v.
       case version_field v of Some s \<Rightarrow> Inr s | None \<Rightarrow> Inl MissingVersion)"

datatype IncompatibleReason = ReasonMissing | ReasonMalformed string string | ReasonMismatch string

datatype TomlVersionCheck =
    TomlCompatible
  | TomlIncompatible "string option" IncompatibleReason
  | TomlInvalid string

text \<open>\<open>expect\<close> on the parsed package version; the error branch panics and is never taken.\<close>

definition current_version :: PurgeryVersion where
  "current_version = (case parse_purgery_version PURGERY_VERSION of Inr v \<Rightarrow> v | Inl _ \<Rightarrow> undefined)"

definition check_toml_version :: "toml_parser \<Rightarrow> string \<Rightarrow> TomlVersionCheck" where
  "check_toml_version parse input =
     (case parse input of
        Inl e \<Rightarrow> TomlInvalid e
      | Inr v \<Rightarrow>
        (case version_field v of
           None \<Rightarrow> TomlIncompatible None ReasonMissing
         | Some version_str \<Rightarrow>
           (case parse_purgery_version version_str of
              Inl (InvalidFormat e) \<Rightarrow> TomlIncompatible (Some version_str) (ReasonMalformed version_str e)
            | Inl (VersionIncompatible _ _ _) \<Rightarrow> TomlIncompatible (Some version_str) (ReasonMismatch version_str)
            | Inr parsed \<Rightarrow>
              (let current = current_version in
               if major parsed = major current \<and> minor parsed = minor current then TomlCompatible
               else TomlIncompatible (Some version_str) (ReasonMismatch version_str)))))"

definition require_compatible_toml_version ::
    "toml_parser \<Rightarrow> string \<Rightarrow> string \<Rightarrow> (VersionError, unit) result" where
  "require_compatible_toml_version parse input ctx =
     bind_res
       (map_err
         (\<lambda>e. case e of
            MissingVersion \<Rightarrow> VersionIncompatible ctx ''(missing)'' PURGERY_VERSION
          | ProbeInvalidToml msg \<Rightarrow> InvalidFormat msg)
         (probe_purgery_version_from_toml parse input))
       (\<lambda>version. require_compatible_purgery_version version ctx)"

section \<open>Printed numbers are read back\<close>

lemma of_char_digit: "d < 10 \<Longrightarrow> (of_char (digit_char d) :: nat) = 48 + d"
  by (simp add: digit_char_def)

lemma char_le_of_char: "c \<le> c' \<longleftrightarrow> (of_char c :: nat) \<le> of_char c'"
  by (simp add: less_eq_char_def)

lemma digit_val_digit_char: "d < 10 \<Longrightarrow> digit_val (digit_char d) = Some d"
  by (simp add: digit_val_def char_le_of_char of_char_digit)

lemma digit_char_neq:
  assumes "d < 10" "(of_char c :: nat) < 48 \<or> 57 < (of_char c :: nat)"
  shows "digit_char d \<noteq> c"
  using assms of_char_digit [of d] by auto

lemma digits_val_append:
  "digits_val acc (xs @ ys) = Option.bind (digits_val acc xs) (\<lambda>a. digits_val a ys)"
  by (induction xs arbitrary: acc) (auto split: option.splits)

lemma digits_val_nat_str: "n < 2 ^ 64 \<Longrightarrow> digits_val 0 (nat_str n) = Some n"
proof (induction n rule: nat_str.induct)
  case (1 n)
  show ?case
  proof (cases "n < 10")
    case True
    then show ?thesis by (simp add: nat_str.simps digit_val_digit_char)
  next
    case False
    then have "digits_val 0 (nat_str (n div 10)) = Some (n div 10)"
      using 1 by simp
    moreover have "n div 10 * 10 + n mod 10 = n" by simp
    moreover have "nat_str n = nat_str (n div 10) @ [digit_char (n mod 10)]"
      using False by (simp add: nat_str.simps [of n])
    ultimately show ?thesis
      using "1.prems" by (simp add: digits_val_append digit_val_digit_char)
  qed
qed

lemma nat_str_digits: "\<exists>ds. nat_str n = map digit_char ds \<and> ds \<noteq> [] \<and> (\<forall>d \<in> set ds. d < 10)"
proof (induction n rule: nat_str.induct)
  case (1 n)
  show ?case
  proof (cases "n < 10")
    case True
    then show ?thesis by (intro exI [of _ "[n]"]) (simp add: nat_str.simps)
  next
    case False
    with 1 obtain ds where ds: "nat_str (n div 10) = map digit_char ds" "\<forall>d \<in> set ds. d < 10" by auto
    with False show ?thesis
      by (intro exI [of _ "ds @ [n mod 10]"]) (simp add: nat_str.simps [of n] ball_Un)
  qed
qed

lemma nat_str_no_char:
  assumes "(of_char c :: nat) < 48 \<or> 57 < (of_char c :: nat)"
  shows "c \<notin> set (nat_str n)"
proof
  assume "c \<in> set (nat_str n)"
  moreover obtain ds where "nat_str n = map digit_char ds" "\<forall>d \<in> set ds. d < 10"
    using nat_str_digits by blast
  ultimately obtain d where "d < 10" "c = digit_char d" by auto
  with digit_char_neq [OF _ assms] show False by blast
qed

lemma nat_str_nonempty [simp]: "nat_str n \<noteq> []"
  by (simp add: nat_str.simps [of n])

lemma u64_str_clean: "CHR ''+'' \<notin> set (u64_str w)" "CHR ''-'' \<notin> set (u64_str w)" "CHR ''.'' \<notin> set (u64_str w)"
  by (simp_all add: u64_str_def nat_str_no_char)

lemma parse_u64_str: "parse_u64 (u64_str w) = Some w"
proof -
  have "hd (u64_str w) \<noteq> CHR ''+''"
    using u64_str_clean(1) [of w] by (metis hd_in_set nat_str_nonempty u64_str_def)
  then have "parse_u64 (u64_str w) = map_option of_nat (digits_val 0 (u64_str w))"
    by (cases "u64_str w") (simp_all add: parse_u64_def u64_str_def)
  also have "\<dots> = Some w"
    using unat_u64_less [of w] by (simp add: u64_str_def digits_val_nat_str)
  finally show ?thesis .
qed

section \<open>Properties\<close>

lemma takeWhile_stop: "c \<notin> set xs \<Longrightarrow> takeWhile (\<lambda>x. x \<noteq> c) (xs @ c # ys) = xs"
  by (induction xs) auto

lemma takeWhile_clean: "c \<notin> set xs \<Longrightarrow> takeWhile (\<lambda>x. x \<noteq> c) (xs @ ys) = xs @ takeWhile (\<lambda>x. x \<noteq> c) ys"
  by (induction xs) auto

lemma version_display_clean:
  "CHR ''+'' \<notin> set (version_display v)" "CHR ''-'' \<notin> set (version_display v)" "version_display v \<noteq> []"
  by (simp_all add: version_display_def u64_str_clean)

lemma splitn_version_display:
  "splitn 3 CHR ''.'' (version_display v) = [u64_str (major v), u64_str (minor v), u64_str (patch v)]"
  by (simp add: version_display_def splitn_def u64_str_clean split_on_append_sep split_on_no_sep)

lemma strip_suffix:
  assumes "suf = [] \<or> hd suf = CHR ''-'' \<or> hd suf = CHR ''+''"
  shows "hd (split_on CHR ''-'' (hd (split_on CHR ''+'' (version_display v @ suf)))) = version_display v"
proof (cases suf)
  case Nil
  then show ?thesis by (simp add: split_on_no_sep version_display_clean)
next
  case (Cons c cs)
  with assms show ?thesis
    by (auto simp: hd_split_on takeWhile_clean version_display_clean)
qed

lemma parse_version_display:
  assumes "suf = [] \<or> hd suf = CHR ''-'' \<or> hd suf = CHR ''+''"
  shows "parse_purgery_version (version_display v @ suf) = Inr v"
  using strip_suffix [OF assms] version_display_clean(3)
  by (simp add: parse_purgery_version_def splitn_version_display parse_u64_str Let_def)

text \<open>
  Version strings round-trip: the printed form of any three 64-bit numbers, bare or followed by a
  pre-release or build suffix, parses back to them.
\<close>

text \<open>
  Every version is recovered from its printed form, bare or with a pre-release (\<open>-\<close>) or
  build (\<open>+\<close>) suffix, for all 64-bit major, minor and patch numbers; and of two printed versions
  the compatibility check compares exactly major and minor.
\<close>

theorem version_roundtrip:
  assumes "suf = [] \<or> hd suf = CHR ''-'' \<or> hd suf = CHR ''+''"
  shows "parse_purgery_version (version_display v @ suf) = Inr v \<and>
    versions_compatible (version_display v @ suf) (version_display w) =
      Inr (major v = major w \<and> minor v = minor w)"
  using parse_version_display [OF assms] parse_version_display [of "[]" w]
  by (simp_all add: versions_compatible_def)

theorem version_roundtrip_witness:
  "parse_purgery_version (version_display \<lparr>major = 1, minor = - 1, patch = 7\<rparr> @ ''-rc.1+b2'') =
     Inr \<lparr>major = 1, minor = - 1, patch = 7\<rparr>"
  by (rule version_roundtrip [THEN conjunct1]) simp

lemma parse_current: "parse_purgery_version PURGERY_VERSION = Inr \<lparr>major = 0, minor = 1, patch = 0\<rparr>"
proof -
  have "PURGERY_VERSION = version_display \<lparr>major = 0, minor = 1, patch = 0\<rparr>"
    by (simp add: PURGERY_VERSION_def version_display_def u64_str_def nat_str.simps digit_char_def char_of_def bit_0)
  then show ?thesis
    using parse_version_display [of "[]" "\<lparr>major = 0, minor = 1, patch = 0\<rparr>"] by (simp only: append_Nil2 simp_thms)
qed

lemma current_accepted: "require_compatible_purgery_version PURGERY_VERSION ctxt = Inr ()"
  by (simp add: require_compatible_purgery_version_def versions_compatible_def parse_current)

lemma current_version_eq: "current_version = \<lparr>major = 0, minor = 1, patch = 0\<rparr>"
  by (simp add: current_version_def parse_current)

lemma parse_purgery_version_error:
  "parse_purgery_version s = Inl e \<Longrightarrow> \<exists>m. e = InvalidFormat m"
  by (auto simp: parse_purgery_version_def Let_def split: if_splits option.splits)

lemma require_compatible_iff:
  "require_compatible_purgery_version p ctx = Inr () \<longleftrightarrow>
   (\<exists>v. parse_purgery_version p = Inr v \<and> major v = 0 \<and> minor v = 1)"
  by (auto simp: require_compatible_purgery_version_def versions_compatible_def parse_current
      bind_res_Inr_iff)

lemma check_toml_version_compatible:
  "check_toml_version parse input = TomlCompatible \<longleftrightarrow>
   (\<exists>v s p. parse input = Inr v \<and> version_field v = Some s \<and> parse_purgery_version s = Inr p \<and>
      major p = 0 \<and> minor p = 1)"
  by (auto simp: check_toml_version_def current_version_eq Let_def
      split: sum.splits option.splits VersionError.splits)

text \<open>
  The two version gates agree for every TOML parser: \<open>check_toml_version\<close> says compatible
  exactly when \<open>require_compatible_toml_version\<close> accepts, which is exactly when the document
  parses and its \<open>purgery_version\<close> string is a version 0.1; it says invalid TOML exactly when the
  parser rejects the document.
\<close>

theorem version_gates_agree:
  "(check_toml_version parse input = TomlCompatible) =
     (require_compatible_toml_version parse input ctx = Inr ()) \<and>
   (check_toml_version parse input = TomlCompatible) =
     (\<exists>v s p. parse input = Inr v \<and> version_field v = Some s \<and> parse_purgery_version s = Inr p \<and>
        major p = 0 \<and> minor p = 1) \<and>
   (\<exists>e. check_toml_version parse input = TomlInvalid e) = (\<exists>e. parse input = Inl e)"
proof (intro conjI)
  show "(check_toml_version parse input = TomlCompatible) =
      (require_compatible_toml_version parse input ctx = Inr ())"
    by (cases "parse input")
       (auto simp: check_toml_version_compatible require_compatible_toml_version_def
        probe_purgery_version_from_toml_def require_compatible_iff
        split: option.splits)
  show "(\<exists>e. check_toml_version parse input = TomlInvalid e) = (\<exists>e. parse input = Inl e)"
    by (auto simp: check_toml_version_def Let_def split: sum.splits option.splits VersionError.splits)
qed (rule check_toml_version_compatible)

end
