(* ===== verification/Transform_Def.thy ===== *)
theory Transform_Def
  imports Destination
begin

text \<open>
  Transform definitions (\<open>purgery-core/src/transform.rs\<close>): placeholder expansion, the names a
  definition may declare as outputs, and the paths they resolve to.
\<close>

section \<open>Definitions\<close>

datatype TransformKind = Subprocess

record TransformDefinition =
  td_name :: string
  td_kind :: TransformKind
  td_program :: string
  td_args :: "string list"
  td_expected_outputs :: "string list"

text \<open>The placeholder scanner: a token runs from an opening brace to the next closing one.\<close>

function expand_tokens :: "(string \<Rightarrow> string option) \<Rightarrow> string \<Rightarrow> string" where
  "expand_tokens replacement remaining =
     (case find_char CHR ''{'' remaining of
        None \<Rightarrow> remaining
      | Some opn \<Rightarrow>
        let candidate = drop opn remaining in
        (case find_char CHR ''}'' candidate of
           None \<Rightarrow> take opn remaining @ candidate
         | Some cls \<Rightarrow>
           let token = take (Suc cls) candidate in
           take opn remaining @
           (case replacement token of Some value \<Rightarrow> value | None \<Rightarrow> token) @
           expand_tokens replacement (drop (Suc cls) candidate)))"
  by pat_completeness auto
termination
proof (relation "measure (\<lambda>(_, s). length s)", goal_cases)
  case (2 replacement remaining opn candidate cls token)
  from 2(1) have "opn < length remaining" by (rule find_char_Some [THEN conjunct1])
  with 2(2) show ?case by simp
qed simp

declare expand_tokens.simps [simp del]

definition placeholder_value ::
    "string \<Rightarrow> ResolvedDestinationPlan option \<Rightarrow> string option \<Rightarrow> string \<Rightarrow> string option" where
  "placeholder_value work_path target legacy_target_directory token =
     (let or_empty = (\<lambda>x. case x of Some s \<Rightarrow> s | None \<Rightarrow> []) in
      if token = ''{input}'' then Some work_path
      else if token = ''{parent}'' then Some (or_empty (path_parent work_path))
      else if token = ''{file_name}'' then Some (or_empty (path_file_name work_path))
      else if token = ''{file_stem}'' then Some (or_empty (path_file_stem work_path))
      else if token = ''{target_path}'' then map_option target_path target
      else if token = ''{target_directory}'' then
        (case map_option target_directory target of Some d \<Rightarrow> Some d | None \<Rightarrow> legacy_target_directory)
      else if token = ''{target_file_name}'' then
        map_option (\<lambda>plan. or_empty (path_file_name (target_path plan))) target
      else if token = ''{target_file_stem}'' then
        map_option (\<lambda>plan. or_empty (path_file_stem (target_path plan))) target
      else None)"

definition expand_placeholders ::
    "string \<Rightarrow> ResolvedDestinationPlan option \<Rightarrow> string option \<Rightarrow> string \<Rightarrow> string" where
  "expand_placeholders work_path target legacy_target_directory template =
     expand_tokens (placeholder_value work_path target legacy_target_directory) template"

datatype OutputNameError = OutputNameEmpty | OutputNameDots string | OutputNameParent | OutputNamePlaceholder

definition validate_expected_output_name :: "string \<Rightarrow> (OutputNameError, unit) result" where
  "validate_expected_output_name name =
     (if name = [] then Inl OutputNameEmpty
      else if name = ''.'' \<or> name = ''..'' then Inl (OutputNameDots name)
      else if ''..'' \<in> set (split_on CHR ''/'' name) \<or> ''..'' \<in> set (split_on CHR 0x5C name)
      then Inl OutputNameParent
      else if str_contains ''{input}'' name \<or> str_contains ''{parent}'' name
      then Inl OutputNamePlaceholder
      else Inr ())"

datatype TransformError = ProgramEmpty | BadExpectedOutput string OutputNameError

fun validate_outputs :: "string list \<Rightarrow> (TransformError, unit) result" where
  "validate_outputs [] = Inr ()"
| "validate_outputs (out # outs) =
     bind_res (map_err (BadExpectedOutput out) (validate_expected_output_name out))
       (\<lambda>_. validate_outputs outs)"

definition validate_transform_definition :: "TransformDefinition \<Rightarrow> (TransformError, unit) result" where
  "validate_transform_definition def =
     (if td_program def = [] then Inl ProgramEmpty else validate_outputs (td_expected_outputs def))"

definition build_args_for_target ::
    "TransformDefinition \<Rightarrow> string \<Rightarrow> ResolvedDestinationPlan \<Rightarrow> string list" where
  "build_args_for_target def work_path target =
     map (expand_placeholders work_path (Some target) None) (td_args def)"

definition resolve_output_for_target ::
    "string \<Rightarrow> ResolvedDestinationPlan \<Rightarrow> string \<Rightarrow> (OutputNameError, string) result" where
  "resolve_output_for_target work_path target pat =
     bind_res (validate_expected_output_name pat) (\<lambda>_.
       let expanded = expand_placeholders work_path (Some target) None pat in
       Inr (if path_absolute expanded then expanded
            else path_join (target_directory target) expanded))"

definition resolve_expected_outputs_for_target ::
    "TransformDefinition \<Rightarrow> string \<Rightarrow> ResolvedDestinationPlan \<Rightarrow> (OutputNameError, string list) result" where
  "resolve_expected_outputs_for_target def work_path target =
     map_res (resolve_output_for_target work_path target) (td_expected_outputs def)"

definition resolve_placeholders :: "string \<Rightarrow> string \<Rightarrow> string" where
  "resolve_placeholders work_path s = expand_placeholders work_path None None s"

definition build_args :: "TransformDefinition \<Rightarrow> string \<Rightarrow> string \<Rightarrow> string list" where
  "build_args def work_path target_dir =
     map (expand_placeholders work_path None (Some target_dir)) (td_args def)"

definition resolve_expected_outputs ::
    "TransformDefinition \<Rightarrow> string \<Rightarrow> string \<Rightarrow> string \<Rightarrow> (OutputNameError, string list) result" where
  "resolve_expected_outputs def work_path destination_root target_dir =
     map_res (\<lambda>pat.
       bind_res (validate_expected_output_name pat) (\<lambda>_.
         let expanded = expand_placeholders work_path None (Some target_dir) pat in
         Inr (if path_absolute expanded then expanded else path_join destination_root expanded)))
       (td_expected_outputs def)"

section \<open>Expansion is one pass over the template\<close>

text \<open>A template as a sequence of literal pieces and tokens, and its text.\<close>

datatype piece = Lit string | Token string

fun piece_text :: "piece \<Rightarrow> string" where
  "piece_text (Lit s) = s"
| "piece_text (Token w) = ''{'' @ w @ ''}''"

fun wf_piece :: "piece \<Rightarrow> bool" where
  "wf_piece (Lit s) \<longleftrightarrow> CHR ''{'' \<notin> set s"
| "wf_piece (Token w) \<longleftrightarrow> CHR ''}'' \<notin> set w"

fun piece_value :: "(string \<Rightarrow> string option) \<Rightarrow> piece \<Rightarrow> string" where
  "piece_value replacement (Lit s) = s"
| "piece_value replacement (Token w) =
     (case replacement (''{'' @ w @ ''}'') of Some v \<Rightarrow> v | None \<Rightarrow> ''{'' @ w @ ''}'')"

lemma find_char_append: "c \<notin> set s \<Longrightarrow> find_char c (s @ t) = map_option ((+) (length s)) (find_char c t)"
  by (cases "find_char c t"; induction s) auto

lemma expand_tokens_no_brace: "CHR ''{'' \<notin> set s \<Longrightarrow> expand_tokens f s = s"
  by (subst expand_tokens.simps) (simp add: find_char_None [THEN iffD2])

lemma expand_tokens_literal:
  assumes "CHR ''{'' \<notin> set s"
  shows "expand_tokens f (s @ t) = s @ expand_tokens f t"
  using assms
  by (subst (1 2) expand_tokens.simps)
     (auto simp: find_char_append Let_def split: option.splits)

lemma expand_tokens_token:
  assumes "CHR ''}'' \<notin> set w"
  shows "expand_tokens f (''{'' @ w @ ''}'' @ t) = piece_value f (Token w) @ expand_tokens f t"
  using assms find_char_append [of "CHR ''}''" "CHR ''{'' # w" "CHR ''}'' # t"]
  by (subst expand_tokens.simps) (simp add: Let_def split: option.split)

lemma expand_tokens_open:
  assumes "CHR ''}'' \<notin> set s"
  shows "expand_tokens f s = s"
proof -
  have "find_char CHR ''}'' (drop n s) = None" for n
    using assms by (auto simp: find_char_None dest: in_set_dropD)
  then show ?thesis
    by (subst expand_tokens.simps) (simp add: Let_def split: option.split)
qed

lemma expand_pieces:
  "list_all wf_piece ps \<Longrightarrow> CHR ''{'' \<notin> set rest \<or> CHR ''}'' \<notin> set rest \<Longrightarrow>
   expand_tokens f (concat (map piece_text ps) @ rest) = concat (map (piece_value f) ps) @ rest"
proof (induction ps)
  case Nil
  then show ?case by (auto simp: expand_tokens_no_brace expand_tokens_open)
next
  case (Cons p ps)
  show ?case
  proof (cases p)
    case (Lit s)
    with Cons show ?thesis by (simp add: expand_tokens_literal)
  next
    case (Token w)
    with Cons.prems have w: "CHR ''}'' \<notin> set w" by simp
    show ?thesis
      using Token Cons expand_tokens_token [OF w, of f "concat (map piece_text ps) @ rest"]
      by (simp del: piece_value.simps)
  qed
qed

text \<open>Every template is such a sequence, followed by at most one open brace that is never closed.\<close>

lemma template_pieces:
  obtains ps rest where "list_all wf_piece ps" "CHR ''{'' \<notin> set rest \<or> CHR ''}'' \<notin> set rest"
    "s = concat (map piece_text ps) @ rest"
proof -
  have "\<exists>ps rest. list_all wf_piece ps \<and> (CHR ''{'' \<notin> set rest \<or> CHR ''}'' \<notin> set rest) \<and>
      s = concat (map piece_text ps) @ rest"
  proof (induction s rule: length_induct)
    case (1 s)
    show ?case
    proof (cases "CHR ''{'' \<in> set s")
      case False
      then show ?thesis by (intro exI [of _ "[]"] exI [of _ s]) simp
    next
      case True
      then obtain l t where s: "s = l @ CHR ''{'' # t" "CHR ''{'' \<notin> set l"
        by (meson split_list_first)
      show ?thesis
      proof (cases "CHR ''}'' \<in> set t")
        case False
        with s show ?thesis
          by (intro exI [of _ "[Lit l]"] exI [of _ "CHR ''{'' # t"]) simp
      next
        case True
        then obtain w u where t: "t = w @ CHR ''}'' # u" "CHR ''}'' \<notin> set w"
          by (meson split_list_first)
        with 1 s obtain ps rest where "list_all wf_piece ps"
          "CHR ''{'' \<notin> set rest \<or> CHR ''}'' \<notin> set rest" "u = concat (map piece_text ps) @ rest"
          by (metis (no_types, lifting) length_append length_Cons less_add_Suc2 add_Suc_right less_SucI
              linorder_not_less not_add_less2 trans_less_add2 lessI)
        with s t show ?thesis
          by (intro exI [of _ "Lit l # Token w # ps"] exI [of _ rest]) simp
      qed
    qed
  qed
  with that show thesis by blast
qed

text \<open>
  Placeholder expansion is a single pass: a template that consists of literal text, tokens
  and a tail without a complete token is expanded by replacing each known token by its value and
  keeping everything else, so substituted values are never scanned again for placeholders.
\<close>

theorem expansion_single_pass:
  assumes "list_all wf_piece ps" "CHR ''{'' \<notin> set rest \<or> CHR ''}'' \<notin> set rest"
  shows "expand_placeholders work_path target legacy (concat (map piece_text ps) @ rest) =
    concat (map (piece_value (placeholder_value work_path target legacy)) ps) @ rest"
  using expand_pieces [OF assms] by (simp add: expand_placeholders_def)

theorem expansion_single_pass_witness:
  "expand_placeholders ''/w/{file_name}'' None None ''-i{input} {no} {x'' = ''-i/w/{file_name} {no} {x''"
  using expansion_single_pass [of "[Lit ''-i'', Token ''input'', Lit '' '', Token ''no'', Lit '' '']" "''{x''"
      "''/w/{file_name}''" None None]
  by (simp add: placeholder_value_def)

section \<open>Where outputs can lie\<close>

lemma validate_expected_output_name_Inr:
  "validate_expected_output_name s = Inr u \<longleftrightarrow>
   s \<noteq> [] \<and> s \<noteq> ''.'' \<and> s \<noteq> ''..'' \<and> ''..'' \<notin> set (split_on CHR ''/'' s) \<and>
   ''..'' \<notin> set (split_on CHR 0x5C s) \<and>
   \<not> str_contains ''{input}'' s \<and> \<not> str_contains ''{parent}'' s"
  by (auto simp: validate_expected_output_name_def)

lemma validate_outputs_Inr:
  "validate_outputs outs = Inr u \<longleftrightarrow> (\<forall>out \<in> set outs. validate_expected_output_name out = Inr ())"
  by (induction outs) (auto simp: bind_res_Inr_iff map_err_Inr_iff)

lemma no_parent:
  assumes "''..'' \<notin> set (split_on CHR ''/'' s)"
  shows "ParentDir \<notin> set (components s)" "ParentDir \<notin> set (map piece_comp (body_pieces s))"
proof -
  have "''..'' \<notin> set (body_pieces s)"
    using assms by (auto simp: body_pieces_def)
  then show "ParentDir \<notin> set (map piece_comp (body_pieces s))"
    by (auto simp: piece_comp_def)
  then show "ParentDir \<notin> set (components s)"
    by (auto simp: components_body)
qed

text \<open>
  Expansion makes no segment \<open>..\<close> of its own when every value is an ordinary name: a segment that contains
  such a name is none, and every other segment is in the template. The first segment is taken apart, as
  something may come before it.
\<close>

lemma split_on_append:
  "split_on c (s @ t) = butlast (split_on c s) @ (last (split_on c s) @ hd (split_on c t)) # tl (split_on c t)"
proof (induction s)
  case Nil
  then show ?case by (cases "split_on c t") (use split_on_nonempty in auto)
next
  case (Cons a s)
  then show ?case by (cases "split_on c s") (use split_on_nonempty in auto)
qed

lemma plain_inside: "plain_name v \<Longrightarrow> x @ v @ z \<noteq> ''..''"
  by (auto simp: plain_name_def append_eq_Cons_conv)

lemma expansion_segments:
  fixes f :: "string \<Rightarrow> string option" and ps :: "piece list" and rest :: string
  defines "V \<equiv> \<lambda>ps. split_on CHR ''/'' (concat (map (piece_value f) ps) @ rest)"
    and "T \<equiv> \<lambda>ps. split_on CHR ''/'' (concat (map piece_text ps) @ rest)"
  assumes "\<And>w v. Token w \<in> set ps \<Longrightarrow> f (''{'' @ w @ ''}'') = Some v \<Longrightarrow> plain_name v"
  shows "(''..'' \<in> set (tl (V ps)) \<longrightarrow> ''..'' \<in> set (tl (T ps))) \<and> (hd (V ps) = hd (T ps) \<or> (\<forall>x. x @ hd (V ps) \<noteq> ''..''))"
  using assms(3)
proof (induction ps)
  case Nil
  then show ?case by (simp add: V_def T_def)
next
  case (Cons p ps)
  have IH: "(''..'' \<in> set (tl (V ps)) \<longrightarrow> ''..'' \<in> set (tl (T ps))) \<and> (hd (V ps) = hd (T ps) \<or> (\<forall>x. x @ hd (V ps) \<noteq> ''..''))"
    using Cons.prems by (intro Cons.IH) (meson list.set_intros(2))
  have V: "V (p # ps) = butlast (split_on CHR ''/'' (piece_value f p)) @ (last (split_on CHR ''/'' (piece_value f p)) @ hd (V ps)) # tl (V ps)"
    and T: "T (p # ps) = butlast (split_on CHR ''/'' (piece_text p)) @ (last (split_on CHR ''/'' (piece_text p)) @ hd (T ps)) # tl (T ps)"
    unfolding V_def T_def list.map concat.simps append_assoc by (rule split_on_append)+
  show ?case
  proof (cases "piece_value f p = piece_text p")
    case True
    obtain bs l where "butlast (split_on CHR ''/'' (piece_text p)) = bs" "last (split_on CHR ''/'' (piece_text p)) = l" by blast
    with V T True IH show ?thesis by (cases bs) (auto simp del: append_assoc simp: append_assoc [symmetric])
  next
    case False
    then obtain w v where p: "p = Token w" "f (''{'' @ w @ ''}'') = Some v" by (cases p) (auto split: option.splits)
    from Cons.prems [of w v] p have v: "plain_name v" by simp
    then have "split_on CHR ''/'' v = [v]" by (simp add: plain_name_def split_on_no_sep)
    with p V have V: "V (p # ps) = (v @ hd (V ps)) # tl (V ps)" by simp
    have "set (tl (T ps)) \<subseteq> set (tl (T (p # ps)))"
      unfolding T by (cases "butlast (split_on CHR ''/'' (piece_text p))") auto
    with IH plain_inside [OF v] show ?thesis unfolding V by auto
  qed
qed

text \<open>
  C38. A declared output is confined once its placeholders are expanded, when what they stand for are
  ordinary names (a file name always is one; a stem can be \<open>.\<close> or \<open>..\<close>, and a whole path is none): the
  output is the expansion, with every known placeholder replaced by its value; a relative one is taken below the
  target directory, whose components it extends by ordinary ones, and an absolute one never climbs.
  Every template is a sequence of pieces as assumed (\<open>template_pieces\<close>).
\<close>

theorem expected_output_confined:
  assumes "validate_transform_definition def = Inr ()" "concat (map piece_text ps) @ rest \<in> set (td_expected_outputs def)"
    and "list_all wf_piece ps" "CHR ''{'' \<notin> set rest \<or> CHR ''}'' \<notin> set rest" "target_directory plan \<noteq> []"
    and "\<And>w v. Token w \<in> set ps \<Longrightarrow> placeholder_value work_path (Some plan) None (''{'' @ w @ ''}'') = Some v \<Longrightarrow> plain_name v"
  shows "\<exists>p. resolve_output_for_target work_path plan (concat (map piece_text ps) @ rest) = Inr p \<and>
    (let out = concat (map (piece_value (placeholder_value work_path (Some plan) None)) ps) @ rest in
     if path_absolute out then p = out \<and> ParentDir \<notin> set (components p)
     else p = path_join (target_directory plan) out \<and> path_starts_with p (target_directory plan) \<and>
       ParentDir \<notin> set (drop (length (components (target_directory plan))) (components p)))"
proof -
  let ?pat = "concat (map piece_text ps) @ rest"
  let ?f = "placeholder_value work_path (Some plan) None"
  let ?out = "concat (map (piece_value ?f) ps) @ rest"
  have valid: "validate_expected_output_name ?pat = Inr ()"
    using assms(1,2) by (simp add: validate_transform_definition_def validate_outputs_Inr split: if_splits)
  then have "''..'' \<notin> set (split_on CHR ''/'' ?pat)" by (simp add: validate_expected_output_name_Inr)
  moreover obtain a as b bs where ab: "split_on CHR ''/'' ?out = a # as" "split_on CHR ''/'' ?pat = b # bs"
    using split_on_nonempty by (meson neq_Nil_conv)
  moreover from expansion_segments [of ps ?f rest, OF assms(6)]
  have "(''..'' \<in> set as \<longrightarrow> ''..'' \<in> set bs) \<and> (a = b \<or> (\<forall>x. x @ a \<noteq> ''..''))" by (simp add: ab)
  ultimately have "''..'' \<notin> set (split_on CHR ''/'' ?out)" by (auto dest: spec [of _ "[]"])
  note out = no_parent [OF this] components_join [OF assms(5), of ?out]
  have "expand_placeholders work_path (Some plan) None ?pat = ?out"
    unfolding expand_placeholders_def by (rule expand_pieces [OF assms(3,4)])
  with valid have "resolve_output_for_target work_path plan ?pat =
      Inr (if path_absolute ?out then ?out else path_join (target_directory plan) ?out)"
    by (simp add: resolve_output_for_target_def)
  with out show ?thesis by (simp add: Let_def path_starts_with_def)
qed

lemma witness_plan:
  "validate_transform_definition
     \<lparr>td_name = ''t'', td_kind = Subprocess, td_program = ''p'', td_args = [],
       td_expected_outputs = [''o/{file_name}.x'']\<rparr> = Inr ()"
  by code_simp

theorem expected_output_confined_witness:
  "\<exists>p. resolve_output_for_target ''/w/e''
     \<lparr>operand = \<lparr>dp_path = ''/d'', dp_operand = ''/d'', dp_intent = ExactOrExistingDirectory\<rparr>,
        target_path = ''/d/e'', target_directory = ''/d'', placement = DirectoryTarget\<rparr> ''o/{file_name}.x'' = Inr p \<and>
     p = ''/d/o/e.x'' \<and> path_starts_with p ''/d''"
proof -
  let ?plan = "\<lparr>operand = \<lparr>dp_path = ''/d'', dp_operand = ''/d'', dp_intent = ExactOrExistingDirectory\<rparr>,
        target_path = ''/d/e'', target_directory = ''/d'', placement = DirectoryTarget\<rparr>"
  let ?ps = "[Lit ''o/'', Token ''file_name'', Lit ''.x'']"
  have name: "path_file_name ''/w/e'' = Some ''e''" by code_simp
  have plain: "plain_name v" if "Token w \<in> set ?ps" "placeholder_value ''/w/e'' (Some ?plan) None (''{'' @ w @ ''}'') = Some v" for w v
    using that by (auto simp: placeholder_value_def name plain_name_def)
  have "\<exists>p. resolve_output_for_target ''/w/e'' ?plan (concat (map piece_text ?ps) @ []) = Inr p \<and>
    (let out = concat (map (piece_value (placeholder_value ''/w/e'' (Some ?plan) None)) ?ps) @ [] in
     if path_absolute out then p = out \<and> ParentDir \<notin> set (components p)
     else p = path_join (target_directory ?plan) out \<and> path_starts_with p (target_directory ?plan) \<and>
       ParentDir \<notin> set (drop (length (components (target_directory ?plan))) (components p)))"
  proof (rule expected_output_confined [OF witness_plan])
    fix w v assume "Token w \<in> set ?ps" "placeholder_value ''/w/e'' (Some ?plan) None (''{'' @ w @ ''}'') = Some v"
    then show "plain_name v" by (rule plain)
  qed simp_all
  then show ?thesis by (simp add: placeholder_value_def name path_join_def)
qed

text \<open>
  With a stem placeholder an output can climb: an entry named \<open>...\<close> is an ordinary relative
  path, its stem is \<open>..\<close>, and the accepted output name \<open>{file_stem}\<close> then resolves to the parent
  of the target directory.
\<close>

theorem expected_output_stem_escapes:
  "NormalizedRelativePath_new ''...'' = Inr (NormalizedRelativePath ''...'') \<and>
   validate_expected_output_name ''{file_stem}'' = Inr () \<and>
   resolve_output_for_target ''/w/...'' plan ''{file_stem}'' =
     Inr (path_join (target_directory plan) ''..'')"
proof (intro conjI)
  have stem: "path_file_stem ''/w/...'' = Some ''..''"
    by code_simp
  have "expand_placeholders ''/w/...'' (Some plan) None ''{file_stem}'' = ''..''"
    using expand_pieces [of "[Token ''file_stem'']" "[]"]
    by (simp add: expand_placeholders_def placeholder_value_def stem)
  moreover show "validate_expected_output_name ''{file_stem}'' = Inr ()"
    by code_simp
  ultimately show "resolve_output_for_target ''/w/...'' plan ''{file_stem}'' =
      Inr (path_join (target_directory plan) ''..'')"
    by (simp add: resolve_output_for_target_def)
  show "NormalizedRelativePath_new ''...'' = Inr (NormalizedRelativePath ''...'')"
    by code_simp
qed

end
