(* ===== verification/Shell.thy ===== *)
theory Shell
  imports Utf8_Path
begin

text \<open>
  Command lines: shell escaping, remote commands, rsync arguments and the search for executables
  (\<open>purgery-core/src/lib.rs\<close>, \<open>build_remote_command\<close> of \<open>purgery-server/src/lib.rs\<close>), with a reader
  of POSIX shell words to state what escaping is for.
\<close>

unbundle bit_operations_syntax

section \<open>Escaping\<close>

fun shell_escape_body :: "string \<Rightarrow> string" where
  "shell_escape_body [] = []"
| "shell_escape_body (ch # cs) =
     (if ch = CHR 0x27 then [CHR 0x27, CHR 0x5C, CHR 0x27, CHR 0x27] else [ch]) @ shell_escape_body cs"

definition shell_escape :: "string \<Rightarrow> string" where
  "shell_escape s = [CHR 0x27] @ shell_escape_body s @ [CHR 0x27]"

definition build_remote_command :: "string \<Rightarrow> string list \<Rightarrow> string" where
  "build_remote_command program args =
     foldl (\<lambda>cmd a. cmd @ '' '' @ shell_escape a) program args"

definition build_rsync_args :: "string \<Rightarrow> string \<Rightarrow> string list" where
  "build_rsync_args source destination =
     [''--recursive'', ''--partial'', ''--inplace'', ''--mkpath'', ''--archive'', ''--human-readable'',
      ''--info=progress2,stats2'', ''--protect-args'', ''--'', source, destination]"

section \<open>A reader of shell words\<close>

text \<open>
  POSIX token recognition restricted to what cannot be interpreted: spaces separate words, single
  quotes keep everything up to the next one, a backslash keeps the next character, plain
  characters stand for themselves, and any other character outside quotes is refused, because the
  shell would give it a meaning.
\<close>

definition plain_shell_char :: "char \<Rightarrow> bool" where
  "plain_shell_char c \<longleftrightarrow>
     is_ascii_alphanumeric c \<or> c \<in> {CHR ''-'', CHR ''_'', CHR ''.'', CHR ''/'', CHR '':'', CHR ''+'', CHR '',''}"

definition flush_word :: "string option \<Rightarrow> string list \<Rightarrow> string list" where
  "flush_word w ws = (case w of None \<Rightarrow> ws | Some x \<Rightarrow> x # ws)"

definition grow_word :: "string option \<Rightarrow> string \<Rightarrow> string option" where
  "grow_word w s = Some ((case w of None \<Rightarrow> [] | Some x \<Rightarrow> x) @ s)"

fun sh_words :: "bool \<Rightarrow> string option \<Rightarrow> string \<Rightarrow> string list option" where
  "sh_words True w [] = None"
| "sh_words True w (c # cs) =
     (if c = CHR 0x27 then sh_words False w cs else sh_words True (grow_word w [c]) cs)"
| "sh_words False w [] = Some (flush_word w [])"
| "sh_words False w (c # cs) =
     (if c = CHR '' '' then map_option (flush_word w) (sh_words False None cs)
      else if c = CHR 0x27 then sh_words True (grow_word w []) cs
      else if c = CHR 0x5C then
        (case cs of [] \<Rightarrow> None | d # ds \<Rightarrow> sh_words False (grow_word w [d]) ds)
      else if plain_shell_char c then sh_words False (grow_word w [c]) cs
      else None)"

section \<open>Finding executables\<close>

datatype ExecutableError =
    EmptyProgram
  | ExeNotFound string
  | NotExecutable string
  | AbsoluteNotFound string
  | ExeIo string

record file_meta =
  fm_is_file :: bool
  fm_mode :: u32

text \<open>What \<open>metadata\<close> says of a path; \<open>exists\<close> is its success.\<close>

type_synonym stat_fun = "string \<Rightarrow> file_meta option"

definition check_executable :: "stat_fun \<Rightarrow> string \<Rightarrow> string \<Rightarrow> (ExecutableError, string) result" where
  "check_executable stat path program =
     (case stat path of
        None \<Rightarrow> Inl (ExeIo program)
      | Some meta \<Rightarrow>
        if \<not> fm_is_file meta then Inl (NotExecutable path)
        else if fm_mode meta AND 0x49 = 0 then Inl (NotExecutable program)
        else Inr path)"

fun search_path :: "stat_fun \<Rightarrow> string \<Rightarrow> string list \<Rightarrow> (ExecutableError, string) result" where
  "search_path stat program [] = Inl (ExeNotFound program)"
| "search_path stat program (dir # dirs) =
     (if dir = [] then search_path stat program dirs
      else let candidate = path_join dir program in
        if stat candidate = None then search_path stat program dirs
        else if is_ok (check_executable stat candidate program) then Inr candidate
        else search_path stat program dirs)"

definition resolve_executable :: "stat_fun \<Rightarrow> string \<Rightarrow> string \<Rightarrow> (ExecutableError, string) result" where
  "resolve_executable stat path_var program =
     (if program = [] then Inl EmptyProgram
      else if path_absolute program then
        (if stat program = None then Inl (AbsoluteNotFound program)
         else check_executable stat program program)
      else search_path stat program (split_on CHR '':'' path_var))"

section \<open>Escaped arguments are read back\<close>

lemma grow_word_append [simp]: "grow_word (grow_word w s) t = grow_word w (s @ t)"
  by (simp add: grow_word_def)

lemma grow_word_Some [simp]: "grow_word (Some x) s = Some (x @ s)" "grow_word None s = Some s"
  by (simp_all add: grow_word_def)

lemma sh_words_escape_body:
  "sh_words True w (shell_escape_body s @ [CHR 0x27] @ t) = sh_words False (grow_word w s) t"
  if "w \<noteq> None" for w
  using that
proof (induction s arbitrary: w)
  case Nil
  then show ?case by auto
next
  case (Cons c cs)
  then have "grow_word w [c] \<noteq> None" by (simp add: grow_word_def)
  with Cons.IH [OF this] show ?case by (cases "c = CHR 0x27") simp_all
qed

lemma sh_words_escape:
  "sh_words False None (shell_escape a @ t) = sh_words False (Some a) t"
  using sh_words_escape_body [of "Some []" a t] by (simp add: shell_escape_def)

lemma sh_words_plain:
  "\<forall>c \<in> set p. plain_shell_char c \<Longrightarrow> sh_words False w (p @ t) =
    sh_words False (if p = [] then w else grow_word w p) t"
proof (induction p arbitrary: w)
  case (Cons c cs)
  moreover have "plain_shell_char c \<Longrightarrow> c \<noteq> CHR '' '' \<and> c \<noteq> CHR 0x27 \<and> c \<noteq> CHR 0x5C"
    by (auto simp: plain_shell_char_def is_ascii_alphanumeric_def)
  ultimately show ?case by (auto simp: grow_word_def)
qed simp

lemma build_remote_command_eq:
  "build_remote_command program args = program @ concat (map (\<lambda>a. '' '' @ shell_escape a) args)"
  unfolding build_remote_command_def by (induction args rule: rev_induct) simp_all

lemma sh_words_args:
  "sh_words False (Some w) (concat (map (\<lambda>a. '' '' @ shell_escape a) args)) = Some (w # args)"
  by (induction args arbitrary: w) (simp_all add: sh_words_escape flush_word_def)



section \<open>The executable found is the first one\<close>

definition runnable :: "stat_fun \<Rightarrow> string \<Rightarrow> bool" where
  "runnable stat p = (case stat p of None \<Rightarrow> False | Some m \<Rightarrow> fm_is_file m \<and> fm_mode m AND 0x49 \<noteq> 0)"

lemma check_executable_ok: "check_executable stat p prog = Inr q \<longleftrightarrow> runnable stat p \<and> q = p"
  by (auto simp: check_executable_def runnable_def split: option.splits)

lemma is_ok_check_executable: "is_ok (check_executable stat p prog) \<longleftrightarrow> runnable stat p"
  by (simp add: is_ok_iff check_executable_ok)

lemma search_path_find:
  "search_path stat program dirs =
    (case find (runnable stat) (map (\<lambda>d. path_join d program) (filter (\<lambda>d. d \<noteq> []) dirs)) of
       Some p \<Rightarrow> Inr p | None \<Rightarrow> Inl (ExeNotFound program))"
  by (induction dirs) (auto simp: Let_def is_ok_check_executable, auto simp: runnable_def)

text \<open>
  Executable resolution returns a path exactly when there is a runnable one: an absolute
  program itself, or for any other name the first runnable candidate over the non-empty
  directories of \<open>PATH\<close> in order; entries that exist but are not runnable files never stop the
  search.
\<close>

theorem resolve_executable_first:
  "resolve_executable stat path_var program = Inr p \<longleftrightarrow>
     program \<noteq> [] \<and>
     (if path_absolute program then p = program \<and> runnable stat program
      else find (runnable stat)
        (map (\<lambda>d. path_join d program) (filter (\<lambda>d. d \<noteq> []) (split_on CHR '':'' path_var))) = Some p)"
  by (auto simp: resolve_executable_def search_path_find check_executable_ok runnable_def
      split: option.splits)

end
