(* ===== verification/Records.thy ===== *)
theory Records
  imports Destination Version Transform_Def
begin

text \<open>
  The data that crosses the wire or lands in the run directories: statuses, manifests and
  configuration (\<open>purgery-core/src/status.rs\<close>, \<open>manifest.rs\<close>, \<open>config.rs\<close>) with the checks made
  when they are read. Serde's derived TOML encoders and decoders are parameters; a decoder has
  type \<open>string \<Rightarrow> (string, 'a) result\<close>, an encoder \<open>'a \<Rightarrow> (string, string) result\<close>.
\<close>

type_synonym 'a decoder = "string \<Rightarrow> (string, 'a) result"
type_synonym 'a encoder = "'a \<Rightarrow> (string, string) result"

section \<open>Status\<close>

datatype FileStatus = FsImported | FsFailed | FsSkipped

fun file_status_str :: "FileStatus \<Rightarrow> string" where
  "file_status_str FsImported = ''imported''"
| "file_status_str FsFailed = ''failed''"
| "file_status_str FsSkipped = ''skipped''"

datatype StatusError =
    StatusTomlParse string
  | StatusTomlSerialize string
  | UnknownFileStatus string
  | UnknownRunState string

definition file_status_from_str :: "string \<Rightarrow> (StatusError, FileStatus) result" where
  "file_status_from_str s =
     (if s = ''imported'' then Inr FsImported
      else if s = ''failed'' then Inr FsFailed
      else if s = ''skipped'' then Inr FsSkipped
      else Inl (UnknownFileStatus s))"

datatype RunState = RsDone | RsPartial | RsFailed

fun run_state_str :: "RunState \<Rightarrow> string" where
  "run_state_str RsDone = ''done''"
| "run_state_str RsPartial = ''partial''"
| "run_state_str RsFailed = ''failed''"

definition run_state_from_str :: "string \<Rightarrow> (StatusError, RunState) result" where
  "run_state_from_str s =
     (if s = ''done'' then Inr RsDone
      else if s = ''partial'' then Inr RsPartial
      else if s = ''failed'' then Inr RsFailed
      else Inl (UnknownRunState s))"

record EntryStatusEntry =
  es_kind :: ManifestEntryKind
  es_local_path :: string
  es_relative_path :: string
  es_status :: FileStatus
  es_final_paths :: "string list"
  es_transform :: "string option"
  es_error :: "string option"

record RunStatus =
  rs_purgery_version :: string
  rs_run_id :: RunId
  rs_nickname :: Nickname
  rs_state :: RunState
  rs_entries :: "EntryStatusEntry list"
  rs_error :: "string option"

definition run_status_from_toml :: "RunStatus decoder \<Rightarrow> string \<Rightarrow> (StatusError, RunStatus) result" where
  "run_status_from_toml de input = map_err StatusTomlParse (de input)"

definition run_status_to_toml :: "RunStatus encoder \<Rightarrow> RunStatus \<Rightarrow> (StatusError, string) result" where
  "run_status_to_toml ser st = map_err StatusTomlSerialize (ser st)"

section \<open>Manifest\<close>

record ManifestEntry =
  me_local_path :: ClientLocalPath
  me_staged_path :: NormalizedRelativePath
  me_relative_path :: NormalizedRelativePath
  me_kind :: ManifestEntryKind
  me_size :: u64
  me_mtime_ns :: "64 word"
  me_sha256 :: "string option"
  me_link_target :: "string option"
  me_transform :: "string option"

record Manifest =
  mf_purgery_version :: string
  mf_run_id :: RunId
  mf_nickname :: Nickname
  mf_entries :: "ManifestEntry list"

record ManifestFileIdentity =
  id_local_path :: string
  id_size :: u64
  id_mtime_ns :: "64 word"
  id_sha256 :: "string option"

datatype ManifestError =
    ManifestTomlParse string
  | ManifestTomlSerialize string
  | NoEntries
  | InvalidEntry string ManifestEntryKind

definition manifest_entry_identity :: "ManifestEntry \<Rightarrow> ManifestFileIdentity" where
  "manifest_entry_identity e =
     \<lparr>id_local_path = client_local_path_str (me_local_path e), id_size = me_size e,
      id_mtime_ns = me_mtime_ns e, id_sha256 = me_sha256 e\<rparr>"

definition invalid_entry :: "ManifestEntry \<Rightarrow> bool" where
  "invalid_entry e =
     (case me_kind e of
        Directory \<Rightarrow>
          me_size e \<noteq> 0 \<or> me_mtime_ns e \<noteq> 0 \<or> me_sha256 e \<noteq> None \<or> me_link_target e \<noteq> None
      | RegularFile \<Rightarrow> me_link_target e \<noteq> None
      | Symlink \<Rightarrow>
          me_link_target e = None \<or> me_size e \<noteq> 0 \<or> me_mtime_ns e \<noteq> 0 \<or> me_sha256 e \<noteq> None)"

definition manifest_from_toml :: "Manifest decoder \<Rightarrow> string \<Rightarrow> (ManifestError, Manifest) result" where
  "manifest_from_toml de input =
     bind_res (map_err ManifestTomlParse (de input)) (\<lambda>manifest.
       if mf_entries manifest = [] then Inl NoEntries
       else case find invalid_entry (mf_entries manifest) of
         Some e \<Rightarrow> Inl (InvalidEntry (nrp_str (me_relative_path e)) (me_kind e))
       | None \<Rightarrow> Inr manifest)"

definition manifest_to_toml :: "Manifest encoder \<Rightarrow> Manifest \<Rightarrow> (ManifestError, string) result" where
  "manifest_to_toml ser m = map_err ManifestTomlSerialize (ser m)"

datatype IdentityVerificationError =
    IdentityIo io_error
  | IdentityNotFound string
  | SizeMismatch u64 u64
  | Sha256Mismatch

text \<open>The length reported by \<open>metadata\<close> and the digest of \<open>compute_sha256\<close> are arguments.\<close>

definition verify_staged ::
    "(string \<Rightarrow> (io_error, u64) result) \<Rightarrow> (string \<Rightarrow> (io_error, string) result) \<Rightarrow>
     ManifestEntry \<Rightarrow> string \<Rightarrow> (IdentityVerificationError, unit) result" where
  "verify_staged metadata_len sha256 e staged =
     bind_res
       (map_err (\<lambda>err. if err = IoNotFound then IdentityNotFound staged else IdentityIo err)
         (metadata_len staged))
       (\<lambda>actual_size.
         if actual_size \<noteq> me_size e then Inl (SizeMismatch (me_size e) actual_size)
         else case me_sha256 e of
           None \<Rightarrow> Inr ()
         | Some expected_sha \<Rightarrow>
           bind_res (map_err IdentityIo (sha256 staged)) (\<lambda>actual_sha.
             if actual_sha \<noteq> expected_sha then Inl Sha256Mismatch else Inr ()))"

section \<open>Garbage collection settings\<close>

record GCConfig =
  incoming_lease_secs :: u64
  heartbeat_interval_secs :: u64
  ready_retention_secs :: u64
  processing_retention_secs :: u64
  done_retention_secs :: u64
  failed_retention_secs :: u64
  orphan_retention_secs :: u64

definition GCConfig_default :: GCConfig where
  "GCConfig_default =
     \<lparr>incoming_lease_secs = 1800, heartbeat_interval_secs = 60, ready_retention_secs = 3600,
      processing_retention_secs = 3600, done_retention_secs = 3600, failed_retention_secs = 86400,
      orphan_retention_secs = 86400\<rparr>"

record LeaseFile =
  lf_protocol_version :: u32
  lf_purgery_version :: string
  lf_nickname :: string
  lf_run_id :: string
  lf_created_at :: u64
  lf_last_heartbeat :: u64
  lf_expires_at :: u64

section \<open>Responses and enumerations\<close>

datatype ProcessRunOutcome = Processed | AlreadyTerminal | AlreadyActive | ClaimInProgress

fun outcome_str :: "ProcessRunOutcome \<Rightarrow> string" where
  "outcome_str Processed = ''processed''"
| "outcome_str AlreadyTerminal = ''already_terminal''"
| "outcome_str AlreadyActive = ''already_active''"
| "outcome_str ClaimInProgress = ''claim_in_progress''"

definition outcome_from_str_name :: "string \<Rightarrow> ProcessRunOutcome option" where
  "outcome_from_str_name s =
     (if s = ''processed'' then Some Processed
      else if s = ''already_terminal'' then Some AlreadyTerminal
      else if s = ''already_active'' then Some AlreadyActive
      else if s = ''claim_in_progress'' then Some ClaimInProgress
      else None)"

record ProcessRunResponse =
  pr_protocol_version :: u32
  pr_purgery_version :: string
  pr_nickname :: string
  pr_run_id :: string
  pr_outcome :: string
  pr_run_phase :: "string option"
  pr_status_state :: "string option"
  pr_message :: "string option"

datatype LogLevel = LevelError | LevelWarn | LevelInfo | LevelDebug | LevelTrace
datatype LogFormat = Pretty | Compact | Json
datatype ColorMode = Auto | Always | Never

fun log_level_str :: "LogLevel \<Rightarrow> string" where
  "log_level_str LevelError = ''error''"
| "log_level_str LevelWarn = ''warn''"
| "log_level_str LevelInfo = ''info''"
| "log_level_str LevelDebug = ''debug''"
| "log_level_str LevelTrace = ''trace''"

definition log_level_from_str :: "string \<Rightarrow> (string, LogLevel) result" where
  "log_level_from_str s =
     (if s = ''error'' then Inr LevelError
      else if s = ''warn'' then Inr LevelWarn
      else if s = ''info'' then Inr LevelInfo
      else if s = ''debug'' then Inr LevelDebug
      else if s = ''trace'' then Inr LevelTrace
      else Inl (''unknown log level: '' @ s))"

text \<open>The lower-case names serde gives the two other enumerations.\<close>

fun log_format_str :: "LogFormat \<Rightarrow> string" where
  "log_format_str Pretty = ''pretty''"
| "log_format_str Compact = ''compact''"
| "log_format_str Json = ''json''"

definition log_format_from_str :: "string \<Rightarrow> (string, LogFormat) result" where
  "log_format_from_str s =
     (if s = ''pretty'' then Inr Pretty
      else if s = ''compact'' then Inr Compact
      else if s = ''json'' then Inr Json
      else Inl (''unknown log format: '' @ s))"

fun color_mode_str :: "ColorMode \<Rightarrow> string" where
  "color_mode_str Auto = ''auto''"
| "color_mode_str Always = ''always''"
| "color_mode_str Never = ''never''"

definition color_mode_from_str :: "string \<Rightarrow> (string, ColorMode) result" where
  "color_mode_from_str s =
     (if s = ''auto'' then Inr Auto
      else if s = ''always'' then Inr Always
      else if s = ''never'' then Inr Never
      else Inl (''unknown color mode: '' @ s))"

record LoggingConfig =
  lc_level :: LogLevel
  lc_format :: LogFormat
  lc_color :: ColorMode

definition LoggingConfig_default :: LoggingConfig where
  "LoggingConfig_default = \<lparr>lc_level = LevelInfo, lc_format = Pretty, lc_color = Auto\<rparr>"

text \<open>Each enumeration is written by name and parsed from exactly its names.\<close>

interpretation file_status: named_enum file_status_from_str file_status_str
proof
  show "file_status_from_str (file_status_str x) = Inr x" for x
    by (cases x) (simp_all add: file_status_from_str_def)
  show "file_status_from_str s = Inr x \<Longrightarrow> file_status_str x = s" for s x
    by (auto simp: file_status_from_str_def split: if_splits)
qed

interpretation run_state: named_enum run_state_from_str run_state_str
proof
  show "run_state_from_str (run_state_str x) = Inr x" for x
    by (cases x) (simp_all add: run_state_from_str_def)
  show "run_state_from_str s = Inr x \<Longrightarrow> run_state_str x = s" for s x
    by (auto simp: run_state_from_str_def split: if_splits)
qed

interpretation log_level: named_enum log_level_from_str log_level_str
proof
  show "log_level_from_str (log_level_str x) = Inr x" for x
    by (cases x) (simp_all add: log_level_from_str_def)
  show "log_level_from_str s = Inr x \<Longrightarrow> log_level_str x = s" for s x
    by (auto simp: log_level_from_str_def split: if_splits)
qed

interpretation log_format: named_enum log_format_from_str log_format_str
proof
  show "log_format_from_str (log_format_str x) = Inr x" for x
    by (cases x) (simp_all add: log_format_from_str_def)
  show "log_format_from_str s = Inr x \<Longrightarrow> log_format_str x = s" for s x
    by (auto simp: log_format_from_str_def split: if_splits)
qed

interpretation color_mode: named_enum color_mode_from_str color_mode_str
proof
  show "color_mode_from_str (color_mode_str x) = Inr x" for x
    by (cases x) (simp_all add: color_mode_from_str_def)
  show "color_mode_from_str s = Inr x \<Longrightarrow> color_mode_str x = s" for s x
    by (auto simp: color_mode_from_str_def split: if_splits)
qed

definition outcome_parse :: "string \<Rightarrow> (unit, ProcessRunOutcome) result" where
  "outcome_parse s = (case outcome_from_str_name s of Some x \<Rightarrow> Inr x | None \<Rightarrow> Inl ())"

interpretation outcome: named_enum outcome_parse outcome_str
proof
  show "outcome_parse (outcome_str x) = Inr x" for x
    by (cases x) (simp_all add: outcome_parse_def outcome_from_str_name_def)
  show "outcome_parse s = Inr x \<Longrightarrow> outcome_str x = s" for s x
    by (auto simp: outcome_parse_def outcome_from_str_name_def split: if_splits)
qed

section \<open>Configuration\<close>

datatype ConfigError =
    ConfigTomlParse string
  | ConfigTomlSerialize string
  | ConfigPath PathValidationError
  | DuplicateTransform string
  | InvalidTransform string TransformError
  | HomeNotSet

record ServerConfigFile =
  scf_work_dir :: string
  scf_transform :: "TransformDefinition list"
  scf_gc :: GCConfig
  scf_logging :: LoggingConfig

record ServerConfig =
  sc_work_dir :: ServerWorkDir
  sc_transforms :: "(string \<times> TransformDefinition) list"
  sc_gc :: GCConfig
  sc_logging :: LoggingConfig

fun collect_transforms ::
    "(string \<times> TransformDefinition) list \<Rightarrow> TransformDefinition list \<Rightarrow>
     (ConfigError, (string \<times> TransformDefinition) list) result" where
  "collect_transforms transforms [] = Inr transforms"
| "collect_transforms transforms (td # tds) =
     (if map_of transforms (td_name td) \<noteq> None then Inl (DuplicateTransform (td_name td))
      else bind_res (map_err (InvalidTransform (td_name td)) (validate_transform_definition td))
        (\<lambda>_. collect_transforms (bt_insert (td_name td) td transforms) tds))"

definition server_config_from_toml ::
    "ServerConfigFile decoder \<Rightarrow> string option \<Rightarrow> string \<Rightarrow> (ConfigError, ServerConfig) result" where
  "server_config_from_toml de home input =
     bind_res (map_err ConfigTomlParse (de input)) (\<lambda>config.
     bind_res (collect_transforms [] (scf_transform config)) (\<lambda>transforms.
     bind_res
       (if \<not> path_absolute (scf_work_dir config) then
          (case home of
             Some h \<Rightarrow> Inr (path_join h (scf_work_dir config))
           | None \<Rightarrow> Inl HomeNotSet)
        else Inr (scf_work_dir config)) (\<lambda>work_dir.
     bind_res (map_err ConfigPath (ServerWorkDir_new work_dir)) (\<lambda>wd.
       Inr \<lparr>sc_work_dir = wd, sc_transforms = transforms, sc_gc = scf_gc config,
            sc_logging = scf_logging config\<rparr>))))"

record RunConfig =
  rc_purgery_version :: string
  rc_nickname :: Nickname
  rc_destination :: DestinationPath
  rc_delete_after_import :: bool

definition run_config_from_toml :: "RunConfig decoder \<Rightarrow> string \<Rightarrow> (ConfigError, RunConfig) result" where
  "run_config_from_toml de input = map_err ConfigTomlParse (de input)"

definition run_config_to_toml :: "RunConfig encoder \<Rightarrow> RunConfig \<Rightarrow> (ConfigError, string) result" where
  "run_config_to_toml ser c = map_err ConfigTomlSerialize (ser c)"

datatype EnvelopeError =
    ConfigNicknameMismatch Nickname Nickname
  | ManifestNicknameMismatch Nickname Nickname
  | ManifestRunIdMismatch RunId RunId

definition validate_envelope ::
    "Nickname \<Rightarrow> RunId \<Rightarrow> RunConfig \<Rightarrow> Manifest \<Rightarrow> (EnvelopeError, unit) result" where
  "validate_envelope dir_nickname dir_run_id run_config manifest =
     (if rc_nickname run_config \<noteq> dir_nickname
      then Inl (ConfigNicknameMismatch dir_nickname (rc_nickname run_config))
      else if mf_nickname manifest \<noteq> dir_nickname
      then Inl (ManifestNicknameMismatch (mf_nickname manifest) dir_nickname)
      else if mf_run_id manifest \<noteq> dir_run_id
      then Inl (ManifestRunIdMismatch (mf_run_id manifest) dir_run_id)
      else Inr ())"

section \<open>Protocol responses\<close>

record BeginRunResponse =
  br_protocol_version :: u32
  br_purgery_version :: string
  br_nickname :: string
  br_run_id :: string
  br_incoming_dir :: string
  br_files_dir :: string
  br_run_config_path :: string
  br_manifest_path :: string
  br_heartbeat_interval_secs :: u64

record PrepareRunResponse =
  pp_protocol_version :: u32
  pp_purgery_version :: string
  pp_nickname :: string
  pp_run_id :: string
  pp_destination :: "string option"

record ProtocolErrorDetail =
  pe_code :: string
  pe_message :: string

record ProtocolErrorResponse =
  pe_protocol_version :: u32
  pe_purgery_version :: string
  pe_command :: string
  pe_ok :: bool
  pe_error :: ProtocolErrorDetail

datatype ProtocolErrorReject =
    EnvelopeUnparsable string
  | EnvelopeProtocol u32
  | EnvelopeVersion VersionError
  | EnvelopeCommand string string
  | EnvelopeOk
  | EnvelopeEmptyMessage

text \<open>Unicode white space, as UTF-8 byte groups, for \<open>str::trim\<close>.\<close>

definition is_whitespace :: "string \<Rightarrow> bool" where
  "is_whitespace ch \<longleftrightarrow>
     ch \<in> {[CHR 0x09], [CHR 0x0A], [CHR 0x0B], [CHR 0x0C], [CHR 0x0D], [CHR 0x20],
       [CHR 0xC2, CHR 0x85], [CHR 0xC2, CHR 0xA0], [CHR 0xE1, CHR 0x9A, CHR 0x80],
       [CHR 0xE2, CHR 0x80, CHR 0xA8], [CHR 0xE2, CHR 0x80, CHR 0xA9], [CHR 0xE2, CHR 0x80, CHR 0xAF],
       [CHR 0xE2, CHR 0x81, CHR 0x9F], [CHR 0xE3, CHR 0x80, CHR 0x80]} \<or>
     (length ch = 3 \<and> take 2 ch = [CHR 0xE2, CHR 0x80] \<and> CHR 0x80 \<le> ch ! 2 \<and> ch ! 2 \<le> CHR 0x8A)"

definition trims_to_empty :: "string \<Rightarrow> bool" where
  "trims_to_empty s \<longleftrightarrow> (\<forall>ch \<in> set (utf8_chars s). is_whitespace ch)"

definition parse_protocol_error_response ::
    "ProtocolErrorResponse decoder \<Rightarrow> string \<Rightarrow> string \<Rightarrow> (ProtocolErrorReject, ProtocolErrorResponse) result" where
  "parse_protocol_error_response de stdout expected_command =
     bind_res (map_err EnvelopeUnparsable (de stdout)) (\<lambda>resp.
       if pe_protocol_version resp \<noteq> PROTOCOL_VERSION then Inl (EnvelopeProtocol (pe_protocol_version resp))
       else bind_res
         (map_err EnvelopeVersion
           (require_compatible_purgery_version (pe_purgery_version resp) ''protocol error envelope''))
         (\<lambda>_.
           if pe_command resp \<noteq> expected_command then Inl (EnvelopeCommand (pe_command resp) expected_command)
           else if pe_ok resp then Inl EnvelopeOk
           else if trims_to_empty (pe_message (pe_error resp)) then Inl EnvelopeEmptyMessage
           else Inr resp))"

record RunStateResponse =
  rr_protocol_version :: u32
  rr_purgery_version :: string
  rr_nickname :: string
  rr_run_id :: string
  rr_phase :: string
  rr_terminal :: bool
  rr_message :: string
  rr_updated_at :: u64
  rr_observed_at :: u64
  rr_progress_state :: "string option"
  rr_entry_index :: "nat option"
  rr_entry_total :: "nat option"
  rr_current_entry :: "string option"
  rr_current_transform :: "string option"
  rr_progress_status :: "string option"
  rr_processor_state :: "string option"

record ProcessingProgress =
  pg_protocol_version :: u32
  pg_purgery_version :: string
  pg_nickname :: string
  pg_run_id :: string
  pg_phase :: string
  pg_state :: string
  pg_entry_index :: nat
  pg_entry_total :: nat
  pg_current_entry :: string
  pg_current_transform :: string
  pg_started_at :: u64
  pg_updated_at :: u64

datatype ClientRunPhase =
    UploadCompleteFinishPending
  | WaitingForTerminalState
  | TerminalStatusSeen
  | CleanupComplete
  | Abandoned
  | CorruptPhase

record ClientRunState =
  cr_protocol_version :: u32
  cr_purgery_version :: string
  cr_nickname :: string
  cr_run_id :: string
  cr_host :: string
  cr_server_command :: string
  cr_manifest :: string
  cr_run_config :: string
  cr_phase :: ClientRunPhase
  cr_terminal_status :: "string option"

record CleanupEntry =
  ce_relative_path :: string
  ce_local_path :: string
  ce_kind :: ManifestEntryKind
  ce_size :: u64
  ce_mtime_ns :: "64 word"
  ce_sha256 :: "string option"
  ce_link_target :: "string option"
  ce_import_confirmed :: bool
  ce_cleaned :: bool

record DurableCleanupState =
  cs_purgery_version :: string
  cs_nickname :: string
  cs_operation_id :: string
  cs_entries :: "CleanupEntry list"

section \<open>Accepted manifests and configurations\<close>

text \<open>What each kind of manifest entry may carry.\<close>

definition entry_ok :: "ManifestEntry \<Rightarrow> bool" where
  "entry_ok e \<longleftrightarrow>
     (me_link_target e \<noteq> None) = (me_kind e = Symlink) \<and>
     (me_kind e \<noteq> RegularFile \<longrightarrow> me_size e = 0 \<and> me_mtime_ns e = 0 \<and> me_sha256 e = None)"

lemma entry_ok_iff: "entry_ok e \<longleftrightarrow> \<not> invalid_entry e"
  by (cases "me_kind e") (auto simp: entry_ok_def invalid_entry_def)

text \<open>
  A manifest that can be serialized is read back unchanged exactly when it has entries and
  every entry carries only what its kind allows: a link target for symbolic links and nothing
  else, size, modification time and digest for regular files only. Otherwise reading fails.
\<close>

theorem manifest_roundtrip:
  assumes "ser m = Inr text" "de text = Inr m"
  shows "bind_res (manifest_to_toml ser m) (manifest_from_toml de) = Inr m \<longleftrightarrow>
    mf_entries m \<noteq> [] \<and> list_all entry_ok (mf_entries m)"
  using assms
  by (auto simp: manifest_to_toml_def manifest_from_toml_def entry_ok_iff list_all_iff find_None_iff
      split: option.splits) (auto simp: find_Some_iff)

definition witness_manifest :: Manifest where
  "witness_manifest = \<lparr>mf_purgery_version = ''0.1.0'', mf_run_id = RunId ''R'', mf_nickname = Nickname ''n'',
     mf_entries = [\<lparr>me_local_path = ClientLocalPath ''/a/x'', me_staged_path = NormalizedRelativePath ''x'',
       me_relative_path = NormalizedRelativePath ''x'', me_kind = Symlink, me_size = 0, me_mtime_ns = 0,
       me_sha256 = None, me_link_target = Some ''y'', me_transform = None\<rparr>]\<rparr>"

theorem manifest_roundtrip_witness:
  "bind_res (manifest_to_toml (\<lambda>_. Inr ''t'') witness_manifest) (manifest_from_toml (\<lambda>_. Inr witness_manifest)) =
     Inr witness_manifest"
  using manifest_roundtrip [of "\<lambda>_. Inr ''t''" witness_manifest "''t''" "\<lambda>_. Inr witness_manifest"]
  by (simp add: witness_manifest_def entry_ok_def)

text \<open>
  A staged file passes verification exactly when it has the size the manifest records and,
  where the manifest has a digest, that digest; a missing file is told apart from other errors.
\<close>

theorem verify_staged_exact:
  "(verify_staged stat sha e p = Inr () \<longleftrightarrow>
     stat p = Inr (me_size e) \<and> (me_sha256 e = None \<or> (\<exists>d. sha p = Inr d \<and> me_sha256 e = Some d))) \<and>
   (verify_staged stat sha e p = Inl (IdentityNotFound p) \<longleftrightarrow> stat p = Inl IoNotFound)"
  by (cases "stat p"; cases "sha p") (auto simp: verify_staged_def split: option.splits)

definition transforms_ok :: "(string \<times> TransformDefinition) list \<Rightarrow> bool" where
  "transforms_ok m \<longleftrightarrow>
     bt_sorted m \<and>
     (\<forall>k td. map_of m k = Some td \<longrightarrow> td_name td = k \<and> validate_transform_definition td = Inr ())"

lemma collect_transforms_ok:
  "collect_transforms m tds = Inr m' \<Longrightarrow> transforms_ok m \<Longrightarrow>
   transforms_ok m' \<and>
   map_of m' = (\<lambda>k. case find (\<lambda>td. td_name td = k) tds of Some td \<Rightarrow> Some td | None \<Rightarrow> map_of m k) \<and>
   distinct (map td_name tds) \<and> (\<forall>td \<in> set tds. map_of m (td_name td) = None)"
proof (induction tds arbitrary: m)
  case (Cons td tds)
  then have m: "map_of m (td_name td) = None" "validate_transform_definition td = Inr ()"
    "collect_transforms (bt_insert (td_name td) td m) tds = Inr m'"
    by (auto simp: bind_res_Inr_iff map_err_Inr_iff split: if_splits)
  have "transforms_ok (bt_insert (td_name td) td m)"
    using Cons.prems(2) m(2) by (auto simp: transforms_ok_def bt_sorted_insert)
  from Cons.IH [OF m(3) this, unfolded map_of_bt_insert] m(1) have ih: "transforms_ok m'"
    "map_of m' = (\<lambda>k. case find (\<lambda>td. td_name td = k) tds of Some t \<Rightarrow> Some t
      | None \<Rightarrow> ((map_of m)(td_name td \<mapsto> td)) k)"
    "distinct (map td_name tds)" "\<forall>t \<in> set tds. td_name t \<noteq> td_name td \<and> map_of m (td_name t) = None"
    by (auto split: if_splits)
  moreover have "find (\<lambda>t. td_name t = td_name td) tds = None"
    using ih(4) by (auto simp: find_None_iff)
  ultimately show ?case
    using m(1) by (auto simp: fun_eq_iff split: option.splits)
qed simp

text \<open>
  A server configuration that loads has an absolute work directory and a transform table
  with exactly the transforms of the file, each under its own name and valid; a file with two
  transforms of one name, or with an invalid one, does not load.
\<close>

theorem server_config_sound:
  assumes "server_config_from_toml de home input = Inr c" "de input = Inr file"
  shows "path_absolute (work_dir_path (sc_work_dir c)) \<and>
    bt_sorted (sc_transforms c) \<and>
    map_of (sc_transforms c) = map_of (map (\<lambda>td. (td_name td, td)) (scf_transform file)) \<and>
    distinct (map td_name (scf_transform file)) \<and>
    list_all (\<lambda>td. validate_transform_definition td = Inr ()) (scf_transform file)"
proof -
  from assms obtain wd where c: "collect_transforms [] (scf_transform file) = Inr (sc_transforms c)"
    "ServerWorkDir_new wd = Inr (sc_work_dir c)"
    by (auto simp: server_config_from_toml_def bind_res_Inr_iff map_err_Inr_iff)
  have find_map: "(case find (\<lambda>td. td_name td = k) tds of Some t \<Rightarrow> Some t | None \<Rightarrow> map_of [] k) =
      map_of (map (\<lambda>td. (td_name td, td)) tds) k" for k tds
    by (induction tds) auto
  have "transforms_ok []" by (simp add: transforms_ok_def)
  from collect_transforms_ok [OF c(1) this, unfolded find_map] have ok: "transforms_ok (sc_transforms c)"
    "map_of (sc_transforms c) = map_of (map (\<lambda>td. (td_name td, td)) (scf_transform file))"
    "distinct (map td_name (scf_transform file))"
    by blast+
  have "validate_transform_definition td = Inr ()" if "td \<in> set (scf_transform file)" for td
  proof -
    have "map_of (sc_transforms c) (td_name td) = Some td"
      unfolding ok(2) using that ok(3) by (intro map_of_is_SomeI) (auto simp: comp_def)
    with ok(1) show ?thesis by (simp add: transforms_ok_def)
  qed
  moreover have "path_absolute (work_dir_path (sc_work_dir c))"
    using c(2) by (cases "sc_work_dir c") (simp add: ServerWorkDir_new_def split: if_splits)
  moreover have "bt_sorted (sc_transforms c)"
    using ok(1) by (simp only: transforms_ok_def)
  ultimately show ?thesis
    using ok(2,3) by (simp add: list_all_iff)
qed

definition witness_config_file :: ServerConfigFile where
  "witness_config_file = \<lparr>scf_work_dir = ''w'',
     scf_transform = [\<lparr>td_name = ''t'', td_kind = Subprocess, td_program = ''p'', td_args = [],
       td_expected_outputs = [''o/{file_name}.x'']\<rparr>],
     scf_gc = GCConfig_default, scf_logging = LoggingConfig_default\<rparr>"

lemma witness_config_loads:
  "\<exists>c. server_config_from_toml (\<lambda>_. Inr witness_config_file) (Some ''/h'') ''x'' = Inr c"
  by (simp add: server_config_from_toml_def witness_config_file_def witness_plan path_join_def
      ServerWorkDir_new_def)

theorem server_config_sound_witness:
  "\<exists>c. server_config_from_toml (\<lambda>_. Inr witness_config_file) (Some ''/h'') ''x'' = Inr c \<and>
     path_absolute (work_dir_path (sc_work_dir c)) \<and> map_of (sc_transforms c) ''u'' = None"
proof -
  obtain c where c: "server_config_from_toml (\<lambda>_. Inr witness_config_file) (Some ''/h'') ''x'' = Inr c"
    using witness_config_loads by blast
  have "path_absolute (work_dir_path (sc_work_dir c))"
    "map_of (sc_transforms c) = map_of (map (\<lambda>td. (td_name td, td)) (scf_transform witness_config_file))"
    using server_config_sound [OF c refl] by blast+
  with c show ?thesis by (simp add: witness_config_file_def)
qed

text \<open>
  An error envelope is accepted exactly when it parses, speaks the current protocol, comes
  from a compatible version, answers the expected command, is marked as an error and has a message
  with something other than white space; the client then has the decoded envelope itself.
\<close>

theorem protocol_error_accepted_iff:
  "parse_protocol_error_response de stdout cmd = Inr r \<longleftrightarrow>
     de stdout = Inr r \<and> pe_protocol_version r = 3 \<and>
     (\<exists>v. parse_purgery_version (pe_purgery_version r) = Inr v \<and> major v = 0 \<and> minor v = 1) \<and>
     pe_command r = cmd \<and> \<not> pe_ok r \<and>
     (\<exists>ch \<in> set (utf8_chars (pe_message (pe_error r))). \<not> is_whitespace ch)"
  by (auto simp: parse_protocol_error_response_def bind_res_Inr_iff map_err_Inr_iff PROTOCOL_VERSION_def
      require_compatible_iff trims_to_empty_def split: if_splits)

end
