(* ===== verification/Split.thy ===== *)
theory Split
  imports Names
begin

text \<open>
  Splitting one transfer into entries (\<open>purgery-client/src/split.rs\<close>): rsync filter rules, the
  byte-level glob matcher, discovery with ancestor pruning, and target suffixes. Slicing a string
  off a character boundary panics in Rust; the functions that slice return \<open>None\<close> then.
\<close>

section \<open>Filter rules\<close>

record SplitFilters =
  include_rules :: "string list"
  exclude_rule :: string

definition build_dir_payload :: "string \<Rightarrow> string" where
  "build_dir_payload pat = trim_end CHR ''/'' pat @ ''/***''"

definition build_nested_dir_payload :: "string \<Rightarrow> string" where
  "build_nested_dir_payload pat = ''**/'' @ trim_end CHR ''/'' pat @ ''/***''"

definition build_split_filters :: "string \<Rightarrow> SplitFilters option" where
  "build_split_filters pat =
     (if pat = ''.'' then None
      else Some \<lparr>include_rules =
          [''*/'', build_dir_payload pat] @
          (if CHR ''/'' \<notin> set pat then [build_nested_dir_payload pat] else []) @ [pat],
        exclude_rule = ''*''\<rparr>)"

datatype SplitPatternError = PatternEmpty | OnlySeparators string

definition validate_split_pattern :: "string \<Rightarrow> (SplitPatternError, unit) result" where
  "validate_split_pattern pat =
     (if pat = [] then Inl PatternEmpty
      else
        let stripped = trim_end CHR ''/'' pat;
            stripped = (if path_absolute stripped then tl stripped else stripped)
        in if stripped = [] then Inl (OnlySeparators pat) else Inr ())"

section \<open>Bracket expressions and simple globs\<close>

text \<open>
  What is left of a string at a byte index is a legal slice unless it begins inside a character.
\<close>

definition at_boundary :: "string \<Rightarrow> bool" where
  "at_boundary rest \<longleftrightarrow> rest = [] \<or> \<not> is_cont (hd rest)"

definition slice_from :: "string \<Rightarrow> nat \<Rightarrow> string option" where
  "slice_from s i = (if char_boundary s i then Some (drop i s) else None)"

definition slice_to :: "string \<Rightarrow> nat \<Rightarrow> string option" where
  "slice_to s i = (if char_boundary s i then Some (take i s) else None)"

text \<open>The body of a bracket expression: whether a byte is in it, and the pattern after it.\<close>

fun bracket_scan :: "char \<Rightarrow> bool \<Rightarrow> string \<Rightarrow> (bool \<times> string) option" where
  "bracket_scan ch m [] = None"
| "bracket_scan ch m [p] = (if p = CHR '']'' then Some (m, []) else None)"
| "bracket_scan ch m [p, q] =
     (if p = CHR '']'' then Some (m, [q]) else bracket_scan ch (m \<or> p = ch) [q])"
| "bracket_scan ch m (p # q # hi # ps) =
     (if p = CHR '']'' then Some (m, q # hi # ps)
      else if q = CHR ''-'' \<and> hi \<noteq> CHR '']'' then bracket_scan ch (m \<or> p \<le> ch \<and> ch \<le> hi) ps
      else bracket_scan ch (m \<or> p = ch) (q # hi # ps))"

lemma bracket_scan_length: "bracket_scan ch m ps = Some (b, qs) \<Longrightarrow> length qs < length ps"
  by (induction ch m ps rule: bracket_scan.induct) (auto split: if_splits)

text \<open>One bracket expression after its \<open>[\<close>, on one path byte: the rest of the pattern if it matches.\<close>

definition bracket_match :: "string \<Rightarrow> char \<Rightarrow> string option" where
  "bracket_match ps ch =
     (if ps = [] then None
      else
        let negated = hd ps = CHR ''!''; rest = (if negated then tl ps else ps) in
        if rest = [] then None
        else case bracket_scan ch False rest of
          None \<Rightarrow> None
        | Some (matched, after) \<Rightarrow> if matched \<noteq> negated then Some after else None)"

lemma bracket_match_length: "bracket_match ps ch = Some qs \<Longrightarrow> length qs < length ps"
  by (cases ps) (auto simp: bracket_match_def Let_def dest: bracket_scan_length split: if_splits option.splits)

definition has_meta :: "string \<Rightarrow> bool" where
  "has_meta pat \<longleftrightarrow> CHR ''*'' \<in> set pat \<or> CHR ''?'' \<in> set pat \<or> CHR ''['' \<in> set pat"

function simple_glob :: "string \<Rightarrow> string \<Rightarrow> bool option"
  and glob_loop :: "string \<Rightarrow> string \<Rightarrow> bool option"
  and glob_star :: "string \<Rightarrow> string \<Rightarrow> bool option" where
  "simple_glob pat path =
     (if pat = path then Some True
      else if \<not> has_meta pat then Some (pat = path)
      else glob_loop pat path)"
| "glob_loop [] path = Some (path = [])"
| "glob_loop (p # ps) path =
     (if p = CHR ''*'' then
        (if ps = [] then (if at_boundary path then Some (CHR ''/'' \<notin> set path) else None)
         else glob_star ps path)
      else case path of
        [] \<Rightarrow> Some False
      | c # cs \<Rightarrow>
        if p = CHR ''?'' then (if c = CHR ''/'' then Some False else glob_loop ps cs)
        else if p = CHR ''['' then
          (if c = CHR ''/'' then Some False
           else case bracket_match ps c of None \<Rightarrow> Some False | Some qs \<Rightarrow> glob_loop qs cs)
        else if c = p then glob_loop ps cs
        else Some False)"
| "glob_star ps [] = Some False"
| "glob_star ps (c # cs) =
     (if \<not> at_boundary ps \<or> \<not> at_boundary (c # cs) then None
      else case simple_glob ps (c # cs) of
        None \<Rightarrow> None
      | Some True \<Rightarrow> Some True
      | Some False \<Rightarrow> if c = CHR ''/'' then Some False else glob_star ps cs)"
  by pat_completeness auto
termination
  by (relation "inv_image (less_than <*lex*> less_than <*lex*> less_than)
      (\<lambda>x. case x of Inl (p, s) \<Rightarrow> (length p, length s, 1)
         | Inr (Inl (p, s)) \<Rightarrow> (length p, length s, 0)
         | Inr (Inr (p, s)) \<Rightarrow> (length p, length s, 2))")
     (auto dest: bracket_match_length)

text \<open>The end of the shortest match of a pattern at a position, for patterns around \<open>**\<close>.\<close>

function first_match_len :: "string \<Rightarrow> string \<Rightarrow> nat \<Rightarrow> nat option option"
  and first_match_star :: "string \<Rightarrow> string \<Rightarrow> nat \<Rightarrow> nat option option" where
  "first_match_len [] rest si = Some (Some si)"
| "first_match_len (p # ps) rest si =
     (if p = CHR ''*'' then
        (if ps = [] then
           (if at_boundary rest then Some (Some (si + length (takeWhile (\<lambda>c. c \<noteq> CHR ''/'') rest))) else None)
         else first_match_star ps rest si)
      else case rest of
        [] \<Rightarrow> Some None
      | c # cs \<Rightarrow>
        if p = CHR ''?'' then (if c = CHR ''/'' then Some None else first_match_len ps cs (Suc si))
        else if p = CHR ''['' then
          (if c = CHR ''/'' then Some None
           else case bracket_match ps c of None \<Rightarrow> Some None | Some qs \<Rightarrow> first_match_len qs cs (Suc si))
        else if c = p then first_match_len ps cs (Suc si)
        else Some None)"
| "first_match_star ps [] si = Some None"
| "first_match_star ps (c # cs) si =
     (if c = CHR ''/'' then Some None
      else if \<not> at_boundary ps then None
      else case first_match_len ps (c # cs) si of
        None \<Rightarrow> None
      | Some (Some len) \<Rightarrow> Some (Some len)
      | Some None \<Rightarrow> first_match_star ps cs (Suc si))"
  by pat_completeness auto
termination
  by (relation "inv_image (less_than <*lex*> less_than <*lex*> less_than)
      (\<lambda>x. case x of Inl (p, s, i) \<Rightarrow> (length p, length s, 0)
         | Inr (p, s, i) \<Rightarrow> (length p, length s, 1))")
     (auto dest: bracket_match_length)

section \<open>Globs with \<open>**\<close>\<close>

text \<open>\<open>str::split("**")\<close>.\<close>

fun split_stars :: "string \<Rightarrow> string list" where
  "split_stars [] = [[]]"
| "split_stars [c] = [[c]]"
| "split_stars (c # d # cs) =
     (if c = CHR ''*'' \<and> d = CHR ''*'' then [] # split_stars cs
      else (case split_stars (d # cs) of [] \<Rightarrow> [[c]] | q # qs \<Rightarrow> (c # q) # qs))"

definition strip_slash :: "string \<Rightarrow> string" where
  "strip_slash seg = (if path_absolute seg then tl seg else seg)"

fun glob_segments :: "string list \<Rightarrow> string list" where
  "glob_segments [] = []"
| "glob_segments (part # parts) = part # map strip_slash parts"

text \<open>The search for the last segment: suffixes that start after a slash, from the shortest on.\<close>

function last_segment_match :: "string \<Rightarrow> string \<Rightarrow> nat \<Rightarrow> nat \<Rightarrow> bool option" where
  "last_segment_match segment path search_start suffix_start =
     (case slice_from path suffix_start of
        None \<Rightarrow> None
      | Some suf \<Rightarrow>
        (case simple_glob segment suf of
           None \<Rightarrow> None
         | Some True \<Rightarrow> Some True
         | Some False \<Rightarrow>
           if suffix_start \<le> search_start then Some False
           else
             (case slice_to path (suffix_start - 1) of
                None \<Rightarrow> None
              | Some pre \<Rightarrow>
                (case rfind_char CHR ''/'' pre of
                   Some pos \<Rightarrow> last_segment_match segment path search_start (pos + 1)
                 | None \<Rightarrow> last_segment_match segment path search_start search_start))))"
  by pat_completeness auto
termination
  by (relation "measure (\<lambda>(_, _, _, i). i)")
     (auto simp: slice_to_def split: if_splits dest!: rfind_char_Some)

declare last_segment_match.simps [simp del]

text \<open>The search for a middle segment: every position in turn.\<close>

function middle_segment_match :: "string \<Rightarrow> string \<Rightarrow> nat \<Rightarrow> nat option option" where
  "middle_segment_match segment path pos =
     (if length path < pos then Some None
      else case slice_from path pos of
        None \<Rightarrow> None
      | Some rest \<Rightarrow>
        (case simple_glob segment rest of
           None \<Rightarrow> None
         | Some False \<Rightarrow> middle_segment_match segment path (Suc pos)
         | Some True \<Rightarrow>
           (case first_match_len segment rest 0 of
              None \<Rightarrow> None
            | Some (Some len) \<Rightarrow> Some (Some (pos + len))
            | Some None \<Rightarrow> middle_segment_match segment path (Suc pos))))"
  by pat_completeness auto
termination
  by (relation "measure (\<lambda>(_, path, pos). Suc (length path) - pos)") auto

declare middle_segment_match.simps [simp del]

text \<open>The loop over the non-empty segments, each with its index; \<open>nsegs\<close> counts all segments.\<close>

fun match_segments :: "string \<Rightarrow> nat \<Rightarrow> bool \<Rightarrow> (nat \<times> string) list \<Rightarrow> nat \<Rightarrow> bool option" where
  "match_segments path nsegs is_first [] search_start = Some True"
| "match_segments path nsegs is_first ((seg_idx, segment) # segs) search_start =
     (if is_first \<and> seg_idx = 0 then
        (case first_match_len segment path 0 of
           None \<Rightarrow> None
         | Some None \<Rightarrow> Some False
         | Some (Some len) \<Rightarrow> match_segments path nsegs False segs len)
      else if segs = [] \<and> seg_idx = nsegs - 1 then
        (case slice_from path search_start of
           None \<Rightarrow> None
         | Some rest \<Rightarrow>
           (case last_segment_match segment path search_start
                (case rfind_char CHR ''/'' rest of
                   Some pos \<Rightarrow> search_start + pos + 1 | None \<Rightarrow> search_start) of
              None \<Rightarrow> None
            | Some False \<Rightarrow> Some False
            | Some True \<Rightarrow> match_segments path nsegs False segs search_start))
      else
        (case middle_segment_match segment path search_start of
           None \<Rightarrow> None
         | Some None \<Rightarrow> Some False
         | Some (Some next) \<Rightarrow> match_segments path nsegs False segs next))"

definition glob_match :: "string \<Rightarrow> string \<Rightarrow> bool option" where
  "glob_match pat path =
     (if pat = ''**'' then Some True
      else if \<not> str_contains ''**'' pat then simple_glob pat path
      else
        let segments = glob_segments (split_stars pat);
            positioned = filter (\<lambda>(i, s). s \<noteq> []) (enumerate 0 segments)
        in if positioned = [] then Some True
           else match_segments path (length segments) True positioned 0)"

section \<open>Patterns\<close>

record PatternMatcher =
  pm_pattern :: string
  pm_anchored :: bool
  pm_dir_only :: bool

definition PatternMatcher_new :: "string \<Rightarrow> PatternMatcher" where
  "PatternMatcher_new pat =
     (let anchored = path_absolute pat;
          p = (if anchored then tl pat else pat);
          dir_only = ends_with ''/'' p;
          p = (if dir_only then butlast p else p)
      in \<lparr>pm_pattern = p, pm_anchored = anchored, pm_dir_only = dir_only\<rparr>)"

text \<open>\<open>Iterator::any\<close> stops at the first hit.\<close>

fun any_match :: "(string \<Rightarrow> bool option) \<Rightarrow> string list \<Rightarrow> bool option" where
  "any_match f [] = Some False"
| "any_match f (c # cs) =
     (case f c of None \<Rightarrow> None | Some True \<Rightarrow> Some True | Some False \<Rightarrow> any_match f cs)"

definition is_match :: "PatternMatcher \<Rightarrow> string \<Rightarrow> bool \<Rightarrow> bool option" where
  "is_match m path is_dir =
     (if pm_dir_only m \<and> \<not> is_dir then Some False
      else if pm_dir_only m \<and> path = ''.'' then Some False
      else if CHR ''/'' \<in> set (pm_pattern m) \<or> pm_anchored m then glob_match (pm_pattern m) path
      else any_match (glob_match (pm_pattern m)) (split_on CHR ''/'' path))"

section \<open>Discovery\<close>

record SplitCandidate =
  cand_path :: string
  cand_is_dir :: bool

text \<open>\<open>Iterator::filter\<close> with a predicate that may panic.\<close>

fun filter_opt :: "('a \<Rightarrow> bool option) \<Rightarrow> 'a list \<Rightarrow> 'a list option" where
  "filter_opt f [] = Some []"
| "filter_opt f (x # xs) =
     (case f x of None \<Rightarrow> None
      | Some b \<Rightarrow> map_option (\<lambda>ys. if b then x # ys else ys) (filter_opt f xs))"

definition candidate_relative :: "string \<Rightarrow> SplitCandidate \<Rightarrow> string" where
  "candidate_relative source c =
     (if cand_path c = source then ''.''
      else case path_strip_prefix (cand_path c) source of Some r \<Rightarrow> r | None \<Rightarrow> [])"

definition has_ancestor :: "SplitCandidate list \<Rightarrow> SplitCandidate \<Rightarrow> bool" where
  "has_ancestor matched c =
     list_ex (\<lambda>other. cand_path other \<noteq> cand_path c \<and> path_starts_with (cand_path c) (cand_path other)) matched"

fun prune_matched ::
    "string \<Rightarrow> SplitCandidate list \<Rightarrow> SplitCandidate list \<Rightarrow> SplitCandidate list \<Rightarrow> SplitCandidate list + SplitCandidate list" where
  "prune_matched source matched pruned [] = Inr pruned"
| "prune_matched source matched pruned (c # cs) =
     (if cand_path c = source then Inl [\<lparr>cand_path = source, cand_is_dir = True\<rparr>]
      else prune_matched source matched
        (if has_ancestor matched c then pruned else pruned @ [c]) cs)"

text \<open>
  The metadata of the source (none if it cannot be read: \<open>Some d\<close> says whether it is a directory
  and no link) and the entries the directory walk yields, as relative paths, are arguments.
\<close>

definition discover_split_entries ::
    "bool option \<Rightarrow> (string \<times> bool) list \<Rightarrow> string \<Rightarrow> string \<Rightarrow> SplitCandidate list option" where
  "discover_split_entries source_meta walk source pat =
     (case source_meta of
        None \<Rightarrow> Some []
      | Some source_is_dir \<Rightarrow>
        let matcher = PatternMatcher_new pat;
            candidates = \<lparr>cand_path = source, cand_is_dir = source_is_dir\<rparr> #
              map (\<lambda>(rel, d). \<lparr>cand_path = path_join source rel, cand_is_dir = d\<rparr>) walk
        in (case filter_opt (\<lambda>c. is_match matcher (candidate_relative source c) (cand_is_dir c)) candidates of
              None \<Rightarrow> None
            | Some matched \<Rightarrow>
              (case prune_matched source matched [] matched of
                 Inl res \<Rightarrow> Some res
               | Inr pruned \<Rightarrow> Some (sort_key cand_path pruned))))"

definition split_target_suffix :: "string \<Rightarrow> string \<Rightarrow> string" where
  "split_target_suffix source root =
     (if root = source then []
      else case path_strip_prefix root source of
        None \<Rightarrow> []
      | Some relative \<Rightarrow>
        let parent = (case path_parent relative of None \<Rightarrow> [] | Some p \<Rightarrow> p) in
        if parent = [] then ''/'' else ''/'' @ parent @ ''/'')"

section \<open>The matcher against the usual meaning of a glob\<close>

text \<open>
  The usual meaning, in two steps. A pattern is read into items: a bracket expression reaches to its first
  closing bracket, may start with an exclamation mark, and is a set of ranges and bytes; without a closing
  bracket it matches nothing. The items then describe a set of strings: a star stands for any run without a
  slash, a question mark and a set for one byte other than a slash, everything else for itself.
\<close>

datatype glob_item = AnyRun | AnyByte | ByteSet bool "(char \<times> char) list" | Byte char | Unclosed

fun glob_ranges :: "string \<Rightarrow> (char \<times> char) list" where
  "glob_ranges [] = []"
| "glob_ranges [a] = [(a, a)]"
| "glob_ranges [a, b] = [(a, a), (b, b)]"
| "glob_ranges (a # b # c # cs) =
     (if b = CHR ''-'' then (a, c) # glob_ranges cs else (a, a) # glob_ranges (b # c # cs))"

definition in_ranges :: "char \<Rightarrow> (char \<times> char) list \<Rightarrow> bool" where
  "in_ranges c rs \<longleftrightarrow> (\<exists>(lo, hi) \<in> set rs. lo \<le> c \<and> c \<le> hi)"

function glob_items :: "string \<Rightarrow> glob_item list" where
  "glob_items [] = []"
| "glob_items (p # ps) =
     (if p = CHR ''*'' then AnyRun # glob_items ps
      else if p = CHR ''?'' then AnyByte # glob_items ps
      else if p = CHR ''['' then
        (let negated = ps \<noteq> [] \<and> hd ps = CHR ''!''; body = (if negated then tl ps else ps) in
         if CHR '']'' \<notin> set body then [Unclosed]
         else ByteSet negated (glob_ranges (takeWhile (\<lambda>c. c \<noteq> CHR '']'') body)) #
           glob_items (tl (dropWhile (\<lambda>c. c \<noteq> CHR '']'') body)))
      else Byte p # glob_items ps)"
  by pat_completeness auto
termination
proof (relation "measure length", goal_cases)
  case (4 p ps negated body)
  have "length (tl (dropWhile (\<lambda>c. c \<noteq> CHR '']'') body)) \<le> length body"
    by (metis diff_le_self dual_order.trans length_dropWhile_le length_tl)
  moreover have "length body \<le> length ps" by (simp add: 4)
  ultimately show ?case by simp
qed auto

inductive described_by :: "glob_item list \<Rightarrow> string \<Rightarrow> bool" where
  Done: "described_by [] []"
| Run: "CHR ''/'' \<notin> set r \<Longrightarrow> described_by is s \<Longrightarrow> described_by (AnyRun # is) (r @ s)"
| One: "c \<noteq> CHR ''/'' \<Longrightarrow> described_by is s \<Longrightarrow> described_by (AnyByte # is) (c # s)"
| Set: "c \<noteq> CHR ''/'' \<Longrightarrow> in_ranges c rs \<noteq> negated \<Longrightarrow> described_by is s \<Longrightarrow> described_by (ByteSet negated rs # is) (c # s)"
| Lit: "described_by is s \<Longrightarrow> described_by (Byte c # is) (c # s)"

inductive_simps described_by_simps:
  "described_by [] s" "described_by (AnyRun # is) s" "described_by (AnyByte # is) s"
  "described_by (ByteSet negated rs # is) s" "described_by (Byte c # is) s" "described_by (Unclosed # is) s"

text \<open>The same by recursion on the pattern, with the bracket expressions as the code reads them.\<close>

function glob_spec :: "string \<Rightarrow> string \<Rightarrow> bool" where
  "glob_spec [] s = (s = [])"
| "glob_spec (p # ps) s =
     (if p = CHR ''*'' then
        list_ex (\<lambda>k. glob_spec ps (drop k s)) [0..<Suc (length (takeWhile (\<lambda>c. c \<noteq> CHR ''/'') s))]
      else case s of
        [] \<Rightarrow> False
      | c # cs \<Rightarrow>
        if p = CHR ''?'' then c \<noteq> CHR ''/'' \<and> glob_spec ps cs
        else if p = CHR ''['' then
          c \<noteq> CHR ''/'' \<and> (case bracket_match ps c of None \<Rightarrow> False | Some qs \<Rightarrow> glob_spec qs cs)
        else c = p \<and> glob_spec ps cs)"
  by pat_completeness auto
termination
  by (relation "measure (\<lambda>(p, _). length p)") (auto dest: bracket_match_length)

definition star_spec :: "string \<Rightarrow> string \<Rightarrow> bool" where
  "star_spec ps s = (\<exists>k \<le> length (takeWhile (\<lambda>c. c \<noteq> CHR ''/'') s). glob_spec ps (drop k s))"

declare glob_spec.simps(2) [simp del]

lemma glob_spec_star: "glob_spec (CHR ''*'' # ps) s = star_spec ps s"
  by (subst glob_spec.simps) (auto simp: star_spec_def list_ex_iff less_Suc_eq_le simp del: upt_Suc)

lemma star_spec_Nil: "star_spec ps [] = glob_spec ps []"
  by (simp add: star_spec_def)

lemma star_spec_Cons: "star_spec ps (c # cs) \<longleftrightarrow> glob_spec ps (c # cs) \<or> (c \<noteq> CHR ''/'' \<and> star_spec ps cs)"
proof (cases "c = CHR ''/''")
  case False
  have "(\<exists>k \<le> Suc n. P k) \<longleftrightarrow> P 0 \<or> (\<exists>k \<le> n. P (Suc k))" for P and n :: nat
    by (metis Suc_le_mono le0 not0_implies_Suc)
  with False show ?thesis by (simp add: star_spec_def)
qed (simp add: star_spec_def)

lemma star_spec_end: "star_spec [] s \<longleftrightarrow> CHR ''/'' \<notin> set s"
  by (induction s) (auto simp: star_spec_Nil star_spec_Cons)

lemma bracket_scan_suffix: "bracket_scan ch m ps = Some (b, qs) \<Longrightarrow> suffix qs ps"
  by (induction ch m ps rule: bracket_scan.induct)
     (auto split: if_splits simp: suffix_Cons)

lemma bracket_match_suffix:
  assumes "bracket_match ps ch = Some qs"
  shows "suffix qs ps"
proof -
  define rest where "rest = (if hd ps = CHR ''!'' then tl ps else ps)"
  have "\<exists>b. bracket_scan ch False rest = Some (b, qs)"
    using assms unfolding bracket_match_def rest_def [symmetric] Let_def
    by (cases "bracket_scan ch False rest") (simp_all split: if_splits prod.splits)
  then have "suffix qs rest" using bracket_scan_suffix by blast
  moreover have "suffix rest ps"
    unfolding rest_def by (cases ps) (simp_all add: suffix_Cons)
  ultimately show ?thesis by (rule suffix_order.trans)
qed

definition plain_pattern :: "string \<Rightarrow> bool" where
  "plain_pattern pat \<longleftrightarrow> (\<forall>c \<in> set pat. is_ascii c) \<and> \<not> str_contains ''**'' pat"

lemma plain_pattern_suffix: "suffix qs ps \<Longrightarrow> plain_pattern ps \<Longrightarrow> plain_pattern qs"
  by (auto simp: plain_pattern_def suffix_def str_contains_iff) (metis append_assoc)

lemma plain_pattern_Cons: "plain_pattern (p # ps) \<Longrightarrow> plain_pattern ps"
  by (rule plain_pattern_suffix) (auto simp: suffix_def)

lemma plain_pattern_star: "plain_pattern (CHR ''*'' # ps) \<Longrightarrow> ps = [] \<or> hd ps \<noteq> CHR ''*''"
  by (cases ps) (auto simp: plain_pattern_def)

lemma glob_spec_self: "CHR ''['' \<notin> set pat \<Longrightarrow> glob_spec pat pat"
proof (induction pat)
  case (Cons p ps)
  show ?case
  proof (cases "p = CHR ''*''")
    case True
    with Cons have "star_spec ps ps"
      by (auto simp: star_spec_def intro: exI [of _ 0])
    with True show ?thesis by (simp add: glob_spec_star star_spec_Cons)
  next
    case False
    with Cons show ?thesis by (subst glob_spec.simps) auto
  qed
qed simp

lemma glob_spec_literal: "\<not> has_meta pat \<Longrightarrow> glob_spec pat s \<longleftrightarrow> pat = s"
proof (induction pat arbitrary: s)
  case (Cons p ps)
  then have "\<not> has_meta ps" by (auto simp: has_meta_def)
  with Cons show ?case
    by (subst glob_spec.simps) (auto simp: has_meta_def split: list.split)
qed auto

text \<open>A bracket expression as the code reads it is the set of its ranges and bytes, up to the first closing bracket.\<close>

lemma in_ranges_simps:
  "in_ranges c [] \<longleftrightarrow> False" "in_ranges c ((lo, hi) # rs) \<longleftrightarrow> (lo \<le> c \<and> c \<le> hi) \<or> in_ranges c rs"
  "(a \<le> c \<and> c \<le> a) \<longleftrightarrow> a = c"
  by (auto simp: in_ranges_def)

lemma bracket_scan_ranges:
  "bracket_scan ch m ps =
     (if CHR '']'' \<in> set ps
      then Some (m \<or> in_ranges ch (glob_ranges (takeWhile (\<lambda>c. c \<noteq> CHR '']'') ps)), tl (dropWhile (\<lambda>c. c \<noteq> CHR '']'') ps))
      else None)"
proof (induction ch m ps rule: bracket_scan.induct)
  case (4 ch m p q hi ps)
  show ?case
  proof (cases "p = CHR '']''")
    case False
    show ?thesis
    proof (cases "q = CHR ''-'' \<and> hi \<noteq> CHR '']''")
      case True
      with False 4(1) show ?thesis by (auto simp: in_ranges_simps)
    next
      case no: False
      then have "bracket_scan ch m (p # q # hi # ps) = bracket_scan ch (m \<or> p = ch) (q # hi # ps)"
        by (subst bracket_scan.simps(4)) (use False no in auto)
      moreover have "in_ranges ch (glob_ranges (takeWhile (\<lambda>c. c \<noteq> CHR '']'') (p # q # hi # ps))) \<longleftrightarrow>
        p = ch \<or> in_ranges ch (glob_ranges (takeWhile (\<lambda>c. c \<noteq> CHR '']'') (q # hi # ps)))"
        using False no by (auto simp: in_ranges_simps)
      moreover have "CHR '']'' \<in> set (p # q # hi # ps) \<longleftrightarrow> CHR '']'' \<in> set (q # hi # ps)"
        "dropWhile (\<lambda>c. c \<noteq> CHR '']'') (p # q # hi # ps) = dropWhile (\<lambda>c. c \<noteq> CHR '']'') (q # hi # ps)" using False by auto
      ultimately show ?thesis using 4(2) [OF False no] by (simp only: disj_assoc)
    qed
  qed (simp add: in_ranges_simps)
qed (auto simp: in_ranges_simps)

lemma glob_spec_described: "glob_spec pat s \<longleftrightarrow> described_by (glob_items pat) s"
proof (induction pat s rule: glob_spec.induct)
  case (1 s)
  then show ?case by (simp add: described_by_simps)
next
  case (2 p ps s)
  let ?run = "takeWhile (\<lambda>c. c \<noteq> CHR ''/'') s"
  have star: "(\<exists>k \<le> length ?run. P (drop k s)) \<longleftrightarrow> (\<exists>r t. s = r @ t \<and> CHR ''/'' \<notin> set r \<and> P t)" for P
  proof (intro iffI; elim exE conjE)
    fix k assume k: "k \<le> length ?run" "P (drop k s)"
    have "take k s = take k ?run" using k(1) by (metis takeWhile_eq_take take_take min.absorb1)
    then have "CHR ''/'' \<notin> set (take k s)" by (metis in_set_takeD set_takeWhileD)
    with k(2) show "\<exists>r t. s = r @ t \<and> CHR ''/'' \<notin> set r \<and> P t" by (metis append_take_drop_id)
  next
    fix r t assume "s = r @ t" "CHR ''/'' \<notin> set r" "P t"
    then show "\<exists>k \<le> length ?run. P (drop k s)"
      by (intro exI [of _ "length r"]) (simp, subst takeWhile_append2, auto)
  qed
  show ?case
  proof (cases "p = CHR ''*''")
    case True
    have "glob_spec ps (drop k s) \<longleftrightarrow> described_by (glob_items ps) (drop k s)" if "k \<le> length ?run" for k
      using 2(1) True that by (simp del: upt_Suc)
    then have "star_spec ps s \<longleftrightarrow> (\<exists>r t. s = r @ t \<and> CHR ''/'' \<notin> set r \<and> described_by (glob_items ps) t)"
      unfolding star_spec_def star [symmetric] by blast
    with True show ?thesis by (auto simp: glob_spec_star described_by_simps)
  next
    case False
    show ?thesis
    proof (cases s)
      case Nil
      with False show ?thesis by (auto simp: glob_spec.simps(2) described_by_simps Let_def)
    next
      case (Cons c cs)
      define negated where "negated = (ps \<noteq> [] \<and> hd ps = CHR ''!'')"
      define body where "body = (if negated then tl ps else ps)"
      have bracket: "bracket_match ps c = (if CHR '']'' \<notin> set body then None
          else if in_ranges c (glob_ranges (takeWhile (\<lambda>c. c \<noteq> CHR '']'') body)) \<noteq> negated
          then Some (tl (dropWhile (\<lambda>c. c \<noteq> CHR '']'') body)) else None)"
        by (auto simp: bracket_match_def Let_def bracket_scan_ranges negated_def body_def)
      show ?thesis
      proof (cases "p = CHR ''[''")
        case True
        then have items: "glob_items (p # ps) = (if CHR '']'' \<notin> set body then [Unclosed]
         else ByteSet negated (glob_ranges (takeWhile (\<lambda>c. c \<noteq> CHR '']'') body)) #
           glob_items (tl (dropWhile (\<lambda>c. c \<noteq> CHR '']'') body)))"
          by (simp add: negated_def body_def Let_def)
        show ?thesis using 2(3) [OF False Cons] True bracket
          unfolding items by (auto simp: Cons glob_spec.simps(2) described_by_simps split: if_splits)
      next
        case no: False
        with False 2(2,4) Cons show ?thesis by (auto simp: glob_spec.simps(2) described_by_simps)
      qed
    qed
  qed
qed

lemma at_boundary_ascii: "\<forall>c \<in> set s. is_ascii c \<Longrightarrow> at_boundary s"
  by (cases s) (auto simp: at_boundary_def)

definition plain_subject :: "string \<Rightarrow> string \<Rightarrow> bool" where
  "plain_subject pat s \<longleftrightarrow> (\<forall>c \<in> set s. is_ascii c) \<and> (CHR ''['' \<notin> set pat \<or> CHR ''['' \<notin> set s)"

lemma plain_boundary: "plain_pattern p \<Longrightarrow> at_boundary p" "plain_subject pat s \<Longrightarrow> at_boundary s"
  by (auto simp: plain_pattern_def plain_subject_def intro: at_boundary_ascii)

lemma plain_subject_smaller: "plain_subject pat s \<Longrightarrow> suffix qs pat \<Longrightarrow> suffix t s \<Longrightarrow> plain_subject qs t"
  unfolding plain_subject_def by (meson set_mono_suffix subsetD)

lemma simple_glob_glob_spec:
  "plain_pattern pat \<Longrightarrow> plain_subject pat path \<Longrightarrow> simple_glob pat path = Some (glob_spec pat path)"
  "plain_pattern pat \<Longrightarrow> plain_subject pat path \<Longrightarrow> glob_loop pat path = Some (glob_spec pat path)"
  "plain_pattern pat \<Longrightarrow> plain_subject pat path \<Longrightarrow> pat \<noteq> [] \<Longrightarrow> hd pat \<noteq> CHR ''*'' \<Longrightarrow>
     glob_star pat path = Some (star_spec pat path)"
proof (induction pat path and pat path and pat path rule: simple_glob_glob_loop_glob_star.induct)
  case (1 pat path)
  have "pat = path \<Longrightarrow> glob_spec pat path"
    using 1(3) glob_spec_self [of pat] by (auto simp: plain_subject_def)
  with 1 show ?case by (auto simp: glob_spec_literal)
next
  case (2 path)
  then show ?case by simp
next
  case (3 p ps path)
  have pat: "plain_pattern ps" using 3(5) by (rule plain_pattern_Cons)
  consider (star) "p = CHR ''*''" | (nil) "p \<noteq> CHR ''*''" "path = []"
    | (cons) c cs where "p \<noteq> CHR ''*''" "path = c # cs" by (cases path) auto
  then show ?case
  proof cases
    case star
    have "plain_subject ps path" using plain_subject_smaller [OF 3(6)] by (simp add: suffix_ConsI)
    with 3 pat star show ?thesis
      using plain_pattern_star [of ps] plain_boundary(2) [OF 3(6)]
      by (auto simp: glob_spec_star star_spec_end)
  next
    case nil
    then show ?thesis by (simp add: glob_spec.simps(2))
  next
    case cons
    have sub: "plain_subject qs cs" if "suffix qs ps" for qs
      using plain_subject_smaller [OF 3(6)] that cons(2) by (simp add: suffix_ConsI)
    with 3 cons pat show ?thesis
      using plain_pattern_suffix [OF bracket_match_suffix pat] bracket_match_suffix
      by (auto simp: glob_spec.simps(2) split: option.split)
  qed
next
  case (4 ps)
  then show ?case by (cases ps) (auto simp: star_spec_Nil glob_spec.simps(2))
next
  case (5 ps c cs)
  have "plain_subject ps cs" using plain_subject_smaller [OF 5(4)] by (simp add: suffix_ConsI)
  with 5 show ?case
    by (auto simp: star_spec_Cons plain_boundary plain_boundary(2) [OF 5(4)] split: option.split bool.split)
qed

text \<open>
  C35. For an ASCII pattern without \<open>**\<close> and an ASCII path, the matcher never panics and decides exactly the
  usual meaning of the glob, as long as not both of them contain an opening bracket: a pattern that equals
  the rest of the path matches it before its bracket expressions are looked at, so that the pattern
  \<open>[a]\<close> also matches the path \<open>[a]\<close>.
\<close>

theorem simple_glob_exact:
  assumes "\<forall>c \<in> set pat. is_ascii c" "\<not> str_contains ''**'' pat"
    and "\<forall>c \<in> set path. is_ascii c" "CHR ''['' \<notin> set pat \<or> CHR ''['' \<notin> set path"
  shows "glob_match pat path = Some (described_by (glob_items pat) path)"
proof -
  have "plain_pattern pat" "plain_subject pat path"
    using assms by (auto simp: plain_pattern_def plain_subject_def)
  moreover have "pat \<noteq> ''**''" using assms(2) by auto
  ultimately show ?thesis
    using assms(2) simple_glob_glob_spec(1) by (simp add: glob_match_def glob_spec_described)
qed

theorem simple_glob_exact_witness:
  "glob_match ''*.m[a-p]?'' ''clip.mp4'' = Some (described_by
     [AnyRun, Byte CHR ''.'', Byte CHR ''m'', ByteSet False [(CHR ''a'', CHR ''p'')], AnyByte] ''clip.mp4'')"
proof -
  have "glob_items ''*.m[a-p]?'' = [AnyRun, Byte CHR ''.'', Byte CHR ''m'', ByteSet False [(CHR ''a'', CHR ''p'')], AnyByte]"
    by code_simp
  with simple_glob_exact [of "''*.m[a-p]?''" "''clip.mp4''"] show ?thesis by (simp add: is_ascii_def)
qed

section \<open>Where the matcher departs from it\<close>

lemma split_stars_literal:
  "CHR ''*'' \<notin> set s \<Longrightarrow> split_stars (s @ CHR ''*'' # CHR ''*'' # t) = s # split_stars t"
proof (induction s)
  case (Cons c s)
  then show ?case by (cases s) auto
qed simp

lemma split_stars_no_star: "CHR ''*'' \<notin> set s \<Longrightarrow> split_stars s = [s]"
  by (induction s rule: split_stars.induct) auto

lemma first_match_star_slash: "first_match_star [CHR ''/''] s i = Some None"
  by (induction s arbitrary: i) (auto simp: at_boundary_def is_cont_def)

lemma str_contains_middle: "str_contains q (p @ q @ r)"
  by (auto simp: str_contains_iff)

lemma positioned_first: "s \<noteq> [] \<Longrightarrow>
  filter (\<lambda>(i, s). s \<noteq> []) (enumerate 0 (s # ss)) = (0, s) # filter (\<lambda>(i, s). s \<noteq> []) (enumerate 1 ss)"
  by simp

text \<open>
  A star directly before a slash and \<open>**\<close> never matches anything: the pattern \<open>*/**\<close> with any
  continuation rejects every path, because the search for the end of the first segment stops at
  the slash it should match.
\<close>

theorem star_slash_never_matches: "glob_match (''*/**'' @ rest) path = Some False"
proof -
  have "str_contains ''**'' (''*/**'' @ rest)"
    using str_contains_middle [of "''**''" "''*/''" rest] by simp
  moreover have "split_stars (''*/**'' @ rest) = ''*/'' # split_stars rest"
    by (cases "split_stars rest") (simp_all)
  moreover have "first_match_len ''*/'' path 0 = Some None"
    by (simp add: first_match_star_slash)
  ultimately show ?thesis
    by (simp add: glob_match_def Let_def)
qed

lemma middle_segment_slash:
  assumes "\<not> has_meta seg" "\<forall>c \<in> set path. is_ascii c" "path \<noteq> []" "last path \<noteq> CHR ''/''"
  shows "middle_segment_match (seg @ ''/'') path pos = Some None"
proof (induction seg\<equiv>"seg @ ''/''" path\<equiv>path pos rule: middle_segment_match.induct)
  case (1 pos)
  show ?case
  proof (cases "length path < pos")
    case True
    then show ?thesis by (simp add: middle_segment_match.simps)
  next
    case False
    have "seg @ ''/'' \<noteq> drop pos path"
    proof
      assume *: "seg @ ''/'' = drop pos path"
      then have "drop pos path \<noteq> []" by (metis append_is_Nil_conv not_Cons_self2)
      then have "last (drop pos path) = last path" by simp
      with * assms(4) show False by (metis last_snoc)
    qed
    moreover have "\<not> has_meta (seg @ ''/'')" using assms(1) by (simp add: has_meta_def)
    ultimately have glob: "simple_glob (seg @ ''/'') (drop pos path) = Some False" by simp
    have "slice_from path pos = Some (drop pos path)"
      using False assms(2) by (simp add: slice_from_def char_boundary_def)
    with glob False 1 show ?thesis
      by (subst middle_segment_match.simps) simp
  qed
qed

text \<open>
  A literal segment between two \<open>**\<close> never matches: \<open>**/name/**\<close> rejects every ASCII path that
  does not end in a slash, in particular \<open>a/name/b\<close>, because the segment is compared with the
  whole remaining path.
\<close>

theorem middle_segment_never_matches:
  assumes "\<not> has_meta seg" "\<forall>c \<in> set path. is_ascii c" "path \<noteq> []" "last path \<noteq> CHR ''/''"
  shows "glob_match (''**/'' @ seg @ ''/**'') path = Some False"
proof -
  have "CHR ''*'' \<notin> set (''/'' @ seg @ ''/'')" using assms(1) by (simp add: has_meta_def)
  then have parts: "split_stars (''**/'' @ seg @ ''/**'') = [[], ''/'' @ seg @ ''/'', []]"
    using split_stars_literal [of "''/'' @ seg @ ''/''" "[]"] by simp
  have "str_contains ''**'' (''**/'' @ seg @ ''/**'')"
    using str_contains_middle [of "''**''" "[]" "''/'' @ seg @ ''/**''"] by simp
  with parts middle_segment_slash [OF assms] show ?thesis
    unfolding glob_match_def by (simp add: Let_def strip_slash_def)
qed

theorem middle_segment_never_matches_witness:
  "glob_match ''**/foo/**'' ''a/foo/b'' = Some False"
  using middle_segment_never_matches [of "''foo''" "''a/foo/b''"] by (simp add: has_meta_def is_ascii_def)

text \<open>
  The matcher panics on ordinary names outside ASCII: a star followed by a literal ASCII byte
  against a name whose first character has two or more bytes slices the name inside that character.
\<close>

theorem star_panics_on_multibyte:
  assumes "is_ascii p" "\<not> has_meta [p]" "\<not> str_contains ''**'' (CHR ''*'' # p # ps)"
    and "\<not> is_ascii c" "\<not> is_cont c" "is_cont d"
  shows "glob_match (CHR ''*'' # p # ps) (c # d # cs) = None"
proof -
  have p: "p \<noteq> c" "p \<noteq> CHR ''*''" "p \<noteq> CHR ''?''" "p \<noteq> CHR ''[''"
    using assms(1,2,4) by (auto simp: has_meta_def)
  then have "simple_glob (p # ps) (c # d # cs) = Some False" by auto
  moreover have "c \<noteq> CHR ''/''" "c \<noteq> CHR ''*''" using assms(4) by (auto simp: is_ascii_def)
  moreover have "at_boundary (c # d # cs)" "at_boundary (p # ps)" "\<not> at_boundary (d # cs)"
    using assms by (auto simp: at_boundary_def)
  ultimately have "glob_loop (CHR ''*'' # p # ps) (c # d # cs) = None" by simp
  with assms(3) \<open>c \<noteq> CHR ''*''\<close> show ?thesis
    by (auto simp: glob_match_def has_meta_def)
qed

theorem star_panics_on_multibyte_witness:
  "glob_match ''*.mp4'' ([CHR 0xC3, CHR 0xA9] @ ''.mp4'') = None"
  using star_panics_on_multibyte [of "CHR ''.''" "''mp4''" "CHR 0xC3" "CHR 0xA9" "''.mp4''"]
  by (simp add: is_ascii_def has_meta_def is_cont_def)

section \<open>Discovered entries\<close>

lemma filter_opt_filter: "filter_opt f xs = Some ys \<Longrightarrow> ys = filter (\<lambda>x. f x = Some True) xs"
  by (induction xs arbitrary: ys) (auto split: option.splits)

lemma prune_matched_eq:
  "prune_matched source m acc cs =
    (if \<exists>c \<in> set cs. cand_path c = source then Inl [\<lparr>cand_path = source, cand_is_dir = True\<rparr>]
     else Inr (acc @ filter (\<lambda>c. \<not> has_ancestor m c) cs))"
  by (induction cs arbitrary: acc) auto

lemma shortest_prefix:
  assumes "p \<in> M"
  shows "\<exists>q \<in> M. prefix q p \<and> \<not> (\<exists>r \<in> M. r \<noteq> q \<and> prefix r q)"
  using assms
proof (induction p rule: length_induct)
  case (1 p)
  show ?case
  proof (cases "\<exists>r \<in> M. r \<noteq> p \<and> prefix r p")
    case True
    then obtain r where r: "r \<in> M" "r \<noteq> p" "prefix r p" by blast
    then have "length r < length p" by (metis prefix_length_less strict_prefix_def)
    with 1 r obtain q where "q \<in> M" "prefix q r" "\<not> (\<exists>r' \<in> M. r' \<noteq> q \<and> prefix r' q)" by blast
    with r show ?thesis by (meson prefix_order.trans)
  next
    case False
    with "1.prems" show ?thesis by blast
  qed
qed

text \<open>What the directory walk yields: proper relative paths of plain names.\<close>

definition walk_ok :: "(string list \<times> bool) list \<Rightarrow> bool" where
  "walk_ok walk \<longleftrightarrow> (\<forall>(ps, d) \<in> set walk. ps \<noteq> [] \<and> list_all plain_name ps)"

definition walk_paths :: "(string list \<times> bool) list \<Rightarrow> (string \<times> bool) list" where
  "walk_paths walk = map (\<lambda>(ps, d). (rel_path ps, d)) walk"

definition walk_matched :: "string \<Rightarrow> (string list \<times> bool) list \<Rightarrow> (string list \<times> bool) list" where
  "walk_matched pat walk =
     filter (\<lambda>(ps, d). is_match (PatternMatcher_new pat) (rel_path ps) d = Some True) walk"

lemma discover_cases:
  assumes src: "list_all plain_name src" and walk: "walk_ok walk"
    and res: "discover_split_entries (Some sd) (walk_paths walk) (abs_path src) pat = Some res"
  defines "M \<equiv> map (\<lambda>(ps, d). \<lparr>cand_path = abs_path (src @ ps), cand_is_dir = d\<rparr>) (walk_matched pat walk)"
  shows "res = [\<lparr>cand_path = abs_path src, cand_is_dir = True\<rparr>] \<or>
    res = sort_key cand_path (filter (\<lambda>c. \<not> has_ancestor M c) M)"
proof -
  let ?m = "PatternMatcher_new pat" and ?source = "abs_path src"
  let ?f = "\<lambda>c. is_match ?m (candidate_relative ?source c) (cand_is_dir c)"
  let ?self = "\<lparr>cand_path = ?source, cand_is_dir = sd\<rparr>"
  let ?walked = "map (\<lambda>(rel, d). \<lparr>cand_path = path_join ?source rel, cand_is_dir = d\<rparr>) (walk_paths walk)"
  have walked: "?walked = map (\<lambda>(ps, d). \<lparr>cand_path = abs_path (src @ ps), cand_is_dir = d\<rparr>) walk"
    using walk src by (auto simp: walk_paths_def walk_ok_def path_join_abs_rel)
  have rel: "candidate_relative ?source \<lparr>cand_path = abs_path (src @ ps), cand_is_dir = d\<rparr> = rel_path ps"
    if "ps \<noteq> []" "list_all plain_name ps" for ps d
    using that src abs_path_inject [of "src @ ps" src]
    by (simp add: candidate_relative_def path_strip_prefix_abs)
  have matched_walk: "filter (\<lambda>c. ?f c = Some True) ?walked = M"
    unfolding walked M_def walk_matched_def filter_map comp_def
    by (rule arg_cong [where f = "map _"], rule filter_cong) (use walk rel in \<open>auto simp: walk_ok_def\<close>)
  obtain matched where m: "filter_opt ?f (?self # ?walked) = Some matched"
    using res by (auto simp: discover_split_entries_def Let_def split: option.splits)
  then have matched: "matched = (if ?f ?self = Some True then [?self] else []) @ M"
    using filter_opt_filter [OF m] matched_walk by simp
  have not_source: "cand_path c \<noteq> ?source" if "c \<in> set M" for c
  proof -
    from that obtain ps d where "(ps, d) \<in> set walk" "cand_path c = abs_path (src @ ps)"
      by (auto simp: M_def walk_matched_def)
    with walk src abs_path_inject [of "src @ ps" src] show ?thesis by (auto simp: walk_ok_def)
  qed
  have res': "(case prune_matched ?source matched [] matched of Inl r \<Rightarrow> Some r
      | Inr pruned \<Rightarrow> Some (sort_key cand_path pruned)) = Some res"
    using res m by (simp add: discover_split_entries_def Let_def)
  show ?thesis
  proof (cases "?f ?self = Some True")
    case True
    with matched res' show ?thesis by (simp add: prune_matched_eq)
  next
    case False
    with matched res' not_source show ?thesis by (auto simp: prune_matched_eq)
  qed
qed

text \<open>
  C36. When discovery returns entries, they are in path order, none lies inside another, each is
  the source itself or a walked entry that matches, and every walked entry that matches lies in
  one of them: nothing is transferred twice and nothing that matches is lost.
\<close>

theorem discovery_covers_once:
  assumes src: "list_all plain_name src" and walk: "walk_ok walk"
    and res: "discover_split_entries (Some sd) (walk_paths walk) (abs_path src) pat = Some res"
  shows "sorted (map cand_path res) \<and>
    (\<forall>a \<in> set res. \<forall>b \<in> set res. cand_path a \<noteq> cand_path b \<longrightarrow> \<not> path_starts_with (cand_path a) (cand_path b)) \<and>
    (\<forall>a \<in> set res. cand_path a = abs_path src \<or>
      (\<exists>ps d. (ps, d) \<in> set (walk_matched pat walk) \<and> cand_path a = abs_path (src @ ps))) \<and>
    (\<forall>(ps, d) \<in> set (walk_matched pat walk).
      \<exists>a \<in> set res. path_starts_with (abs_path (src @ ps)) (cand_path a))"
proof -
  let ?mk = "\<lambda>(ps, d). \<lparr>cand_path = abs_path (src @ ps), cand_is_dir = d\<rparr>"
  let ?M = "map ?mk (walk_matched pat walk)"
  have ok: "ps \<noteq> [] \<and> list_all plain_name (src @ ps)" if "(ps, d) \<in> set (walk_matched pat walk)" for ps d
    using that walk src by (auto simp: walk_matched_def walk_ok_def)
  from discover_cases [OF src walk res]
  consider "res = [\<lparr>cand_path = abs_path src, cand_is_dir = True\<rparr>]"
    | "res = sort_key cand_path (filter (\<lambda>c. \<not> has_ancestor ?M c) ?M)" by blast
  then show ?thesis
  proof cases
    case 1
    then show ?thesis using ok src by (fastforce simp: path_starts_with_abs)
  next
    case 2
    then have set_res: "set res = {c \<in> set ?M. \<not> has_ancestor ?M c}" by simp
    have cover: "\<exists>a \<in> set res. path_starts_with (abs_path (src @ ps)) (cand_path a)"
      if pd: "(ps, d) \<in> set (walk_matched pat walk)" for ps d
    proof -
      have "ps \<in> fst ` set (walk_matched pat walk)" using pd by force
      from shortest_prefix [OF this] obtain q e where q: "(q, e) \<in> set (walk_matched pat walk)"
        "prefix q ps" "\<not> (\<exists>r \<in> fst ` set (walk_matched pat walk). r \<noteq> q \<and> prefix r q)" by auto
      have "\<not> has_ancestor ?M (?mk (q, e))"
      proof
        assume "has_ancestor ?M (?mk (q, e))"
        then obtain rs f where rs: "(rs, f) \<in> set (walk_matched pat walk)"
          "abs_path (src @ rs) \<noteq> abs_path (src @ q)" "path_starts_with (abs_path (src @ q)) (abs_path (src @ rs))"
          by (auto simp: has_ancestor_def list_ex_iff)
        then have "rs \<noteq> q" "prefix rs q"
          using ok [OF rs(1)] ok [OF q(1)] by (auto simp: path_starts_with_abs)
        with rs(1) q(3) show False by force
      qed
      with q(1) have "?mk (q, e) \<in> set res" unfolding set_res by force
      moreover have "path_starts_with (abs_path (src @ ps)) (abs_path (src @ q))"
        using q ok [OF pd] ok [OF q(1)] by (simp add: path_starts_with_abs)
      ultimately show ?thesis by force
    qed
    moreover have "sorted (map cand_path res)" using 2 by simp
    moreover have "\<not> path_starts_with (cand_path a) (cand_path b)"
      if "a \<in> set res" "b \<in> set res" "cand_path a \<noteq> cand_path b" for a b
      using that unfolding set_res by (auto simp: has_ancestor_def list_ex_iff)
    moreover have "\<exists>ps d. (ps, d) \<in> set (walk_matched pat walk) \<and> cand_path a = abs_path (src @ ps)"
      if "a \<in> set res" for a
      using that unfolding set_res by force
    ultimately show ?thesis by blast
  qed
qed

theorem discovery_covers_once_witness:
  "\<exists>res. discover_split_entries (Some True)
      (walk_paths [([''a''], True), ([''a'', ''b.x''], False), ([''c.x''], True), ([''c.x'', ''d.x''], False)])
      (abs_path [''s'']) ''*.x'' = Some res \<and> sorted (map cand_path res)"
proof -
  let ?walk = "[([''a''], True), ([''a'', ''b.x''], False), ([''c.x''], True), ([''c.x'', ''d.x''], False)]"
  have "discover_split_entries (Some True) (walk_paths ?walk) (abs_path [''s'']) ''*.x'' =
      Some [\<lparr>cand_path = ''/s/a/b.x'', cand_is_dir = False\<rparr>, \<lparr>cand_path = ''/s/c.x'', cand_is_dir = True\<rparr>]"
    by code_simp
  moreover have "walk_ok ?walk" "list_all plain_name [''s'']"
    by (simp_all add: walk_ok_def plain_name_def)
  ultimately show ?thesis using discovery_covers_once by blast
qed

section \<open>Where a split entry lands\<close>

text \<open>
  A split entry keeps its place: the target with the suffix, a directory operand, followed by
  the entry's name has the components of the target joined with the entry's path relative to the
  source.
\<close>

theorem split_suffix_keeps_place:
  assumes "list_all plain_name src" "list_all plain_name rel" "rel \<noteq> []" "list_all plain_name target"
  shows "components (path_join (abs_path target @ split_target_suffix (abs_path src) (abs_path (src @ rel))) (last rel)) =
      components (path_join (abs_path target) (rel_path rel)) \<and>
    ends_with ''/'' (split_target_suffix (abs_path src) (abs_path (src @ rel))) \<and>
    split_target_suffix (abs_path src) (abs_path src) = []"
proof -
  let ?suf = "split_target_suffix (abs_path src) (abs_path (src @ rel))"
  have bl: "list_all plain_name (butlast rel)" using assms(2) by (rule list_all_butlast)
  have last: "plain_name (last rel)" using assms(2,3) by (simp add: list_all_iff)
  have "abs_path (src @ rel) \<noteq> abs_path src"
    using assms abs_path_inject [of "src @ rel" src] by simp
  moreover have "rel_path (butlast rel) = [] \<longleftrightarrow> butlast rel = []"
    using bl last_join_with_plain(1) by (auto simp: rel_path_def)
  ultimately have suf: "?suf = (if butlast rel = [] then ''/'' else ''/'' @ rel_path (butlast rel) @ ''/'')"
    using assms by (simp add: split_target_suffix_def path_strip_prefix_abs path_parent_rel_path)
  have comps: "components (abs_path target @ ?suf) = RootDir # map Normal (target @ butlast rel)"
  proof (cases "butlast rel = []")
    case True
    then have "components (abs_path target @ ?suf) = components (abs_path target)"
      unfolding suf using components_trailing_slash [of "abs_path target"] by (simp add: abs_path_def)
    with True assms(4) show ?thesis by (simp add: components_abs_path)
  next
    case False
    have "abs_path target @ ?suf = (abs_path target @ ''/'' @ rel_path (butlast rel)) @ ''/''"
      unfolding suf using False by simp
    then have "components (abs_path target @ ?suf) = components (abs_path target @ ''/'' @ rel_path (butlast rel))"
      using components_trailing_slash [of "abs_path target @ ''/'' @ rel_path (butlast rel)"]
      by (simp add: abs_path_def)
    then show ?thesis
      using bl assms(4)
      by (simp add: components_body body_pieces_slash)
         (simp add: abs_path_def rel_path_def body_pieces_plain map_piece_comp_plain
           body_pieces_slash [of "[]", simplified] body_pieces_def [of "[]"] trivial_piece_def)
  qed
  have "components (path_join (abs_path target @ ?suf) (last rel)) = RootDir # map Normal (target @ rel)"
  proof -
    have "last rel \<noteq> []" "CHR ''/'' \<notin> set (last rel)" using last by (simp_all add: plain_name_def)
    moreover have "abs_path target @ ?suf \<noteq> []" by (simp add: abs_path_def)
    ultimately have "components (path_join (abs_path target @ ?suf) (last rel)) =
        components (abs_path target @ ?suf) @ [Normal (last rel)]"
      using components_join_piece last by simp
    also have "\<dots> = RootDir # map Normal (target @ butlast rel @ [last rel])"
      unfolding comps by simp
    finally show ?thesis using assms(3) by simp
  qed
  moreover have "ends_with ''/'' ?suf"
    unfolding suf by (simp add: ends_with_char)
  ultimately show ?thesis
    using assms by (simp add: path_join_abs_rel components_abs_path split_target_suffix_def)
qed

theorem split_suffix_keeps_place_witness:
  "components (path_join (''/d'' @ split_target_suffix ''/s'' ''/s/a/b'') ''b'') = components ''/d/a/b''"
  using split_suffix_keeps_place [of "[''s'']" "[''a'', ''b'']" "[''d'']"]
  by (simp add: plain_name_def abs_path_def rel_path_def path_join_def)

end
