(* ===== verification/Fs.thy ===== *)
theory Fs
  imports Names
begin

text \<open>
  The part of the file system and of \<open>std::fs\<close> that the server uses: files with content,
  modification time and advisory lock, directories, and the operations on them. A path is the list
  of its names. Operations thread a world that also holds a clock and a schedule of faults, one
  entry per operation, so that a statement about every schedule covers every I/O failure and, with
  a schedule that fails from some point on, every crash. Symbolic links below the program's own
  directories and other processes' interleaved writes are not part of this model.
\<close>

section \<open>Nodes\<close>

type_synonym fpath = "string list"

text \<open>Times are nanoseconds since the epoch; the lock of a file names its holder.\<close>

datatype node = FileN string int "nat option" | DirN int

type_synonym fs = "(fpath \<times> node) list"

text \<open>
  The sources of a client, kept apart from the directories the program works in: here a symbolic
  link is a node of its own, and paths are resolved through links (theory \<open>Sources\<close>).
\<close>

datatype source = SourceFile string int | SourceLink string | SourceDir | SourceOther

type_synonym source_tree = "(fpath \<times> source) list"

definition look :: "fs \<Rightarrow> fpath \<Rightarrow> node option" where
  "look fs p = (if p = [] then Some (DirN 0) else map_of fs p)"

definition is_dir_node :: "node option \<Rightarrow> bool" where
  "is_dir_node n = (case n of Some (DirN _) \<Rightarrow> True | _ \<Rightarrow> False)"

definition put_node :: "fpath \<Rightarrow> node \<Rightarrow> fs \<Rightarrow> fs" where
  "put_node p n fs = (p, n) # filter (\<lambda>(k, _). k \<noteq> p) fs"

definition del_tree :: "fpath \<Rightarrow> fs \<Rightarrow> fs" where
  "del_tree p fs = filter (\<lambda>(k, _). \<not> prefix p k) fs"

definition move_tree :: "fpath \<Rightarrow> fpath \<Rightarrow> fs \<Rightarrow> fs" where
  "move_tree p q fs =
     map (\<lambda>(k, n). (q @ drop (length p) k, n)) (filter (\<lambda>(k, _). prefix p k) fs) @
     filter (\<lambda>(k, _). \<not> prefix p k \<and> \<not> prefix q k) fs"

definition children :: "fpath \<Rightarrow> fs \<Rightarrow> string list" where
  "children p fs = map (last \<circ> fst) (filter (\<lambda>(k, _). k \<noteq> [] \<and> butlast k = p) fs)"

text \<open>Creating or removing an entry changes the modification time of its directory.\<close>

definition touch_dir :: "int \<Rightarrow> fpath \<Rightarrow> fs \<Rightarrow> fs" where
  "touch_dir t p fs = map (\<lambda>(k, n). if k = p then (k, case n of DirN _ \<Rightarrow> DirN t | _ \<Rightarrow> n) else (k, n)) fs"

section \<open>The world\<close>

text \<open>
  One fault per operation: none, an error without effect, a write that stores a prefix, a removal
  that deletes what the predicate selects below the directory, a creation of directories that
  stops after some, or a failed metadata query (which makes \<open>exists\<close> say no).
\<close>

datatype fault =
    Pass
  | Fail io_error
  | TornWrite nat io_error
  | TornRemove "fpath \<Rightarrow> bool" io_error
  | TornMkdirs nat io_error
  | StatFail

record world =
  nodes :: fs
  tick :: nat
  clock :: "nat \<Rightarrow> int"
  faults :: "nat \<Rightarrow> fault"
  sources :: source_tree

type_synonym ('e, 'a) io = "world \<Rightarrow> ('e, 'a) result \<times> world"

definition ret_io :: "'a \<Rightarrow> ('e, 'a) io" where
  "ret_io a w = (Inr a, w)"

definition fail_io :: "'e \<Rightarrow> ('e, 'a) io" where
  "fail_io e w = (Inl e, w)"

definition bind_io :: "('e, 'a) io \<Rightarrow> ('a \<Rightarrow> ('e, 'b) io) \<Rightarrow> ('e, 'b) io" where
  "bind_io m f w = (case m w of (Inl e, w') \<Rightarrow> (Inl e, w') | (Inr a, w') \<Rightarrow> f a w')"

text \<open>\<open>with_context\<close>, and using a result as a value (\<open>let _ =\<close>, \<open>if let Err\<close>).\<close>

definition err_io :: "('e \<Rightarrow> 'f) \<Rightarrow> ('e, 'a) io \<Rightarrow> ('f, 'a) io" where
  "err_io h m w = (case m w of (r, w') \<Rightarrow> (map_err h r, w'))"

definition attempt_io :: "('e, 'a) io \<Rightarrow> ('f, ('e, 'a) result) io" where
  "attempt_io m w = (case m w of (r, w') \<Rightarrow> (Inr r, w'))"

definition lift_res :: "('e, 'a) result \<Rightarrow> ('e, 'a) io" where
  "lift_res r w = (r, w)"

fun for_io :: "'a list \<Rightarrow> ('a \<Rightarrow> ('e, unit) io) \<Rightarrow> ('e, unit) io" where
  "for_io [] f = ret_io ()"
| "for_io (x # xs) f = bind_io (f x) (\<lambda>_. for_io xs f)"

text \<open>One operation: its fault and the time are taken from the schedule.\<close>

definition prim_io :: "(fault \<Rightarrow> int \<Rightarrow> fs \<Rightarrow> ('e, 'a) result \<times> fs) \<Rightarrow> ('e, 'a) io" where
  "prim_io f w =
     (case f (faults w (tick w)) (clock w (tick w)) (nodes w) of
        (r, fs) \<Rightarrow> (r, w\<lparr>nodes := fs, tick := Suc (tick w)\<rparr>))"

definition error_of :: "fault \<Rightarrow> io_error option" where
  "error_of f =
     (case f of Pass \<Rightarrow> None | StatFail \<Rightarrow> None | Fail e \<Rightarrow> Some e | TornWrite _ e \<Rightarrow> Some e
      | TornRemove _ e \<Rightarrow> Some e | TornMkdirs _ e \<Rightarrow> Some e)"

section \<open>Operations\<close>

definition fs_exists :: "fpath \<Rightarrow> ('e, bool) io" where
  "fs_exists p = prim_io (\<lambda>flt t fs. (Inr (flt \<noteq> StatFail \<and> look fs p \<noteq> None), fs))"

definition fs_is_dir :: "fpath \<Rightarrow> ('e, bool) io" where
  "fs_is_dir p = prim_io (\<lambda>flt t fs. (Inr (flt \<noteq> StatFail \<and> is_dir_node (look fs p)), fs))"

definition fs_now :: "('e, int) io" where
  "fs_now = prim_io (\<lambda>flt t fs. (Inr t, fs))"

definition fs_read :: "fpath \<Rightarrow> (io_error, string) io" where
  "fs_read p = prim_io (\<lambda>flt t fs.
     (case error_of flt of
        Some e \<Rightarrow> (Inl e, fs)
      | None \<Rightarrow>
        (case look fs p of
           None \<Rightarrow> (Inl IoNotFound, fs)
         | Some (DirN _) \<Rightarrow> (Inl IoOther, fs)
         | Some (FileN c _ _) \<Rightarrow> (Inr c, fs))))"

definition fs_mtime :: "fpath \<Rightarrow> (io_error, int) io" where
  "fs_mtime p = prim_io (\<lambda>flt t fs.
     (case error_of flt of
        Some e \<Rightarrow> (Inl e, fs)
      | None \<Rightarrow>
        (case look fs p of
           None \<Rightarrow> (Inl IoNotFound, fs)
         | Some (DirN m) \<Rightarrow> (Inr m, fs)
         | Some (FileN _ m _) \<Rightarrow> (Inr m, fs))))"

text \<open>A written file keeps its lock; a new one changes its directory.\<close>

definition store_file :: "int \<Rightarrow> fpath \<Rightarrow> string \<Rightarrow> fs \<Rightarrow> fs" where
  "store_file t p c fs =
     (case look fs p of
        Some (FileN _ _ l) \<Rightarrow> put_node p (FileN c t l) fs
      | _ \<Rightarrow> put_node p (FileN c t None) (touch_dir t (butlast p) fs))"

definition fs_write :: "fpath \<Rightarrow> string \<Rightarrow> (io_error, unit) io" where
  "fs_write p c = prim_io (\<lambda>flt t fs.
     (if p = [] \<or> is_dir_node (look fs p) then (Inl IoOther, fs)
      else if \<not> is_dir_node (look fs (butlast p)) then (Inl IoNotFound, fs)
      else case flt of
        TornWrite n e \<Rightarrow> (Inl e, store_file t p (take n c) fs)
      | _ \<Rightarrow>
        (case error_of flt of
           Some e \<Rightarrow> (Inl e, fs)
         | None \<Rightarrow> (Inr (), store_file t p c fs))))"

definition rename_error :: "fs \<Rightarrow> fpath \<Rightarrow> fpath \<Rightarrow> io_error option" where
  "rename_error fs p q =
     (if p = [] \<or> q = [] then Some IoOther
      else case look fs p of
        None \<Rightarrow> Some IoNotFound
      | Some n \<Rightarrow>
        if \<not> is_dir_node (look fs (butlast q)) then Some IoNotFound
        else if p = q then None
        else if prefix p q then Some IoOther
        else
          (case (n, look fs q) of
             (_, None) \<Rightarrow> None
           | (FileN _ _ _, Some (FileN _ _ _)) \<Rightarrow> None
           | (DirN _, Some (DirN _)) \<Rightarrow> if children q fs = [] then None else Some IoDirectoryNotEmpty
           | _ \<Rightarrow> Some IoOther))"

definition fs_rename :: "fpath \<Rightarrow> fpath \<Rightarrow> (io_error, unit) io" where
  "fs_rename p q = prim_io (\<lambda>flt t fs.
     (case error_of flt of
        Some e \<Rightarrow> (Inl e, fs)
      | None \<Rightarrow>
        (case rename_error fs p q of
           Some e \<Rightarrow> (Inl e, fs)
         | None \<Rightarrow>
           if p = q then (Inr (), fs)
           else (Inr (), touch_dir t (butlast p) (touch_dir t (butlast q) (move_tree p q fs))))))"

definition fs_create_dir :: "fpath \<Rightarrow> (io_error, unit) io" where
  "fs_create_dir p = prim_io (\<lambda>flt t fs.
     (case error_of flt of
        Some e \<Rightarrow> (Inl e, fs)
      | None \<Rightarrow>
        if look fs p \<noteq> None then (Inl IoAlreadyExists, fs)
        else if \<not> is_dir_node (look fs (butlast p)) then (Inl IoNotFound, fs)
        else (Inr (), put_node p (DirN t) (touch_dir t (butlast p) fs))))"

text \<open>The ancestors of a path, the path included, from the outermost on.\<close>

definition ancestors :: "fpath \<Rightarrow> fpath list" where
  "ancestors p = map (\<lambda>i. take i p) [1..<Suc (length p)]"

fun make_dirs :: "int \<Rightarrow> fpath list \<Rightarrow> fs \<Rightarrow> (io_error, unit) result \<times> fs" where
  "make_dirs t [] fs = (Inr (), fs)"
| "make_dirs t (p # ps) fs =
     (case look fs p of
        None \<Rightarrow> make_dirs t ps (put_node p (DirN t) (touch_dir t (butlast p) fs))
      | Some (DirN _) \<Rightarrow> make_dirs t ps fs
      | Some (FileN _ _ _) \<Rightarrow> (Inl IoAlreadyExists, fs))"

definition fs_create_dir_all :: "fpath \<Rightarrow> (io_error, unit) io" where
  "fs_create_dir_all p = prim_io (\<lambda>flt t fs.
     (case flt of
        TornMkdirs n e \<Rightarrow> (Inl e, snd (make_dirs t (take n (ancestors p)) fs))
      | _ \<Rightarrow>
        (case error_of flt of
           Some e \<Rightarrow> (Inl e, fs)
         | None \<Rightarrow> make_dirs t (ancestors p) fs)))"

text \<open>What a removal that stops half-way leaves: the directory and what was not yet removed.\<close>

definition del_partly :: "(fpath \<Rightarrow> bool) \<Rightarrow> fpath \<Rightarrow> fs \<Rightarrow> fs" where
  "del_partly sel p fs =
     filter (\<lambda>(k, _). \<not> (strict_prefix p k \<and> list_ex (\<lambda>i. sel (take i k)) [Suc (length p)..<Suc (length k)])) fs"

definition fs_remove_dir_all :: "fpath \<Rightarrow> (io_error, unit) io" where
  "fs_remove_dir_all p = prim_io (\<lambda>flt t fs.
     (if p = [] then (Inl IoOther, fs)
      else case look fs p of
        None \<Rightarrow> (Inl IoNotFound, fs)
      | Some (FileN _ _ _) \<Rightarrow> (Inl IoOther, fs)
      | Some (DirN _) \<Rightarrow>
        (case flt of
           TornRemove sel e \<Rightarrow> (Inl e, del_partly sel p fs)
         | _ \<Rightarrow>
           (case error_of flt of
              Some e \<Rightarrow> (Inl e, fs)
            | None \<Rightarrow> (Inr (), touch_dir t (butlast p) (del_tree p fs))))))"

definition fs_remove_file :: "fpath \<Rightarrow> (io_error, unit) io" where
  "fs_remove_file p = prim_io (\<lambda>flt t fs.
     (case error_of flt of
        Some e \<Rightarrow> (Inl e, fs)
      | None \<Rightarrow>
        (case look fs p of
           None \<Rightarrow> (Inl IoNotFound, fs)
         | Some (DirN _) \<Rightarrow> (Inl IoOther, fs)
         | Some (FileN _ _ _) \<Rightarrow> (Inr (), touch_dir t (butlast p) (del_tree p fs)))))"

definition fs_read_dir :: "fpath \<Rightarrow> (io_error, string list) io" where
  "fs_read_dir p = prim_io (\<lambda>flt t fs.
     (case error_of flt of
        Some e \<Rightarrow> (Inl e, fs)
      | None \<Rightarrow>
        (case look fs p of
           None \<Rightarrow> (Inl IoNotFound, fs)
         | Some (FileN _ _ _) \<Rightarrow> (Inl IoOther, fs)
         | Some (DirN _) \<Rightarrow> (Inr (children p fs), fs))))"

text \<open>
  Opening a lock file (creating it when \<open>create\<close> is set) and taking its exclusive lock without
  blocking: \<open>Some h\<close> names the lock taken, \<open>None\<close> means another holder has it.
\<close>

definition fs_open :: "bool \<Rightarrow> fpath \<Rightarrow> (io_error, unit) io" where
  "fs_open create p = prim_io (\<lambda>flt t fs.
     (case error_of flt of
        Some e \<Rightarrow> (Inl e, fs)
      | None \<Rightarrow>
        (case look fs p of
           Some (FileN _ _ _) \<Rightarrow> (Inr (), fs)
         | Some (DirN _) \<Rightarrow> (Inl IoOther, fs)
         | None \<Rightarrow>
           if \<not> create \<or> \<not> is_dir_node (look fs (butlast p)) then (Inl IoNotFound, fs)
           else (Inr (), store_file t p [] fs))))"

definition fs_try_lock :: "nat \<Rightarrow> fpath \<Rightarrow> (io_error, bool) io" where
  "fs_try_lock holder p = prim_io (\<lambda>flt t fs.
     (case error_of flt of
        Some e \<Rightarrow> (Inl e, fs)
      | None \<Rightarrow>
        (case look fs p of
           Some (FileN c m None) \<Rightarrow> (Inr True, put_node p (FileN c m (Some holder)) fs)
         | Some (FileN c m (Some _)) \<Rightarrow> (Inr False, fs)
         | _ \<Rightarrow> (Inl IoNotFound, fs))))"

text \<open>Closing the descriptor releases the lock wherever the file has been moved to.\<close>

definition fs_unlock :: "nat \<Rightarrow> ('e, unit) io" where
  "fs_unlock holder = prim_io (\<lambda>flt t fs.
     (Inr (), map (\<lambda>(k, n). (k, case n of FileN c m l \<Rightarrow> FileN c m (if l = Some holder then None else l) | _ \<Rightarrow> n)) fs))"

section \<open>Paths of strings\<close>

text \<open>The names a path string denotes, with \<open>..\<close> resolved.\<close>

fun step_comp :: "fpath \<Rightarrow> comp \<Rightarrow> fpath" where
  "step_comp p RootDir = []"
| "step_comp p CurDir = p"
| "step_comp p ParentDir = butlast p"
| "step_comp p (Normal s) = p @ [s]"

definition fpath_of :: "string \<Rightarrow> fpath" where
  "fpath_of s = foldl step_comp [] (components s)"

text \<open>\<open>Path::parent\<close> drops the last component.\<close>

definition parent_of :: "string \<Rightarrow> fpath" where
  "parent_of s = foldl step_comp [] (butlast (components s))"

end
