(* ===== verification/Phases.thy ===== *)
theory Phases
  imports Fs Records
begin

text \<open>
  The life of a run on the server (\<open>purgery-server/src/phases.rs\<close>, with
  \<open>prune_success_terminal\<close> of \<open>gc.rs\<close>): processor locks, atomic publication of statuses and
  progress, and the moves between the phase directories. A run directory is the path of names its
  string denotes; log output is left out.
\<close>

section \<open>Errors, codecs and clock\<close>

text \<open>
  \<open>anyhow\<close> errors: a message of the code's own, or an I/O error under a context message. The
  interpolated values of the messages are left out.
\<close>

datatype server_error = Bail string | IoContext string io_error | SerializeError string string

type_synonym 'a server = "(server_error, 'a) io"

definition ctx :: "string \<Rightarrow> (io_error, 'a) io \<Rightarrow> 'a server" where
  "ctx msg m = err_io (IoContext msg) m"

lemma ctx_ok: "ctx msg m w = (Inr a, w') \<longleftrightarrow> m w = (Inr a, w')"
  by (cases "m w") (simp add: ctx_def err_io_def map_err_Inr_iff)

definition ser_io :: "string \<Rightarrow> (string, 'a) result \<Rightarrow> 'a server" where
  "ser_io msg r = lift_res (map_err (SerializeError msg) r)"

text \<open>The TOML parser and serde's encoders and decoders.\<close>

record codecs =
  cd_toml :: toml_parser
  cd_de_status :: "RunStatus decoder"
  cd_ser_status :: "RunStatus encoder"
  cd_de_lease :: "LeaseFile decoder"
  cd_ser_lease :: "LeaseFile encoder"
  cd_de_progress :: "ProcessingProgress decoder"
  cd_ser_progress :: "ProcessingProgress encoder"
  cd_ser_begin :: "BeginRunResponse encoder"
  cd_de_run_config :: "RunConfig decoder"
  cd_ser_run_config :: "RunConfig encoder"
  cd_de_manifest :: "Manifest decoder"
  cd_ser_prepare :: "PrepareRunResponse encoder"
  cd_de_plan :: "ResolvedDestinationPlan decoder"
  cd_ser_plan :: "ResolvedDestinationPlan encoder"

text \<open>\<open>duration_since(UNIX_EPOCH).unwrap_or_default().as_secs()\<close>.\<close>

definition unix_secs :: "int \<Rightarrow> u64" where
  "unix_secs t = word_of_int (max 0 t div 10 ^ 9)"

definition now_secs :: "u64 server" where
  "now_secs = bind_io fs_now (\<lambda>t. ret_io (unix_secs t))"

definition run_path :: "ServerWorkDir \<Rightarrow> Nickname \<Rightarrow> RunId \<Rightarrow> RunPhase \<Rightarrow> fpath" where
  "run_path wd nickname run_id phase = fpath_of (run_dir wd nickname run_id phase)"

definition run_parent :: "ServerWorkDir \<Rightarrow> Nickname \<Rightarrow> RunId \<Rightarrow> RunPhase \<Rightarrow> fpath" where
  "run_parent wd nickname run_id phase = parent_of (run_dir wd nickname run_id phase)"

section \<open>Processor locks\<close>

datatype ProcessorLockAttempt = Acquired nat | Busy | LockMissing

definition try_lock_existing_dir :: "nat \<Rightarrow> fpath \<Rightarrow> ProcessorLockAttempt server" where
  "try_lock_existing_dir h dir =
     bind_io (fs_exists dir) (\<lambda>ex.
       if \<not> ex then ret_io LockMissing
       else
         let lock_path = dir @ [''processor.lock''] in
         bind_io (ctx ''failed to open processor lock file'' (fs_open True lock_path)) (\<lambda>_.
         bind_io (ctx ''failed to lock processor'' (fs_try_lock h lock_path)) (\<lambda>got.
           ret_io (if got then Acquired h else Busy))))"

definition probe_processor_lock_readonly :: "nat \<Rightarrow> fpath \<Rightarrow> bool option server" where
  "probe_processor_lock_readonly h dir =
     bind_io (fs_exists dir) (\<lambda>ex.
       if \<not> ex then ret_io None
       else
         let lock_path = dir @ [''processor.lock''] in
         bind_io (fs_exists lock_path) (\<lambda>lex.
           if \<not> lex then ret_io (Some False)
           else
             bind_io (attempt_io (fs_open False lock_path)) (\<lambda>opened.
               case opened of
                 Inl e \<Rightarrow>
                   if e = IoNotFound then ret_io (Some False)
                   else fail_io (IoContext ''failed to open processor lock for probe'' e)
               | Inr _ \<Rightarrow>
                   bind_io (ctx ''failed to probe processor lock'' (fs_try_lock h lock_path)) (\<lambda>got.
                     if got then bind_io (fs_unlock h) (\<lambda>_. ret_io (Some False))
                     else ret_io (Some True)))))"

section \<open>Atomic publication\<close>

definition publish_status_atomic :: "codecs \<Rightarrow> fpath \<Rightarrow> RunStatus \<Rightarrow> unit server" where
  "publish_status_atomic cod directory status =
     bind_io (ser_io ''failed to serialize status'' (cd_ser_status cod status)) (\<lambda>content.
       let temporary = directory @ [''status.toml.tmp''];
           final_path = directory @ [''status.toml'']
       in
       bind_io (ctx ''failed to write temporary status'' (fs_write temporary content)) (\<lambda>_.
       ctx ''failed to publish status'' (fs_rename temporary final_path)))"

datatype ExistingProgress = CompatibleStartedAt u64 | ProgressMissing | ProgressIncompatible | ProgressMalformed

definition classify_progress :: "codecs \<Rightarrow> Nickname \<Rightarrow> RunId \<Rightarrow> string \<Rightarrow> ExistingProgress" where
  "classify_progress cod nickname run_id content =
     (case probe_purgery_version_from_toml (cd_toml cod) content of
        Inl MissingVersion \<Rightarrow> ProgressIncompatible
      | Inl (ProbeInvalidToml _) \<Rightarrow> ProgressMalformed
      | Inr version \<Rightarrow>
        if \<not> is_ok (require_compatible_purgery_version version ''progress'') then ProgressIncompatible
        else
          (case cd_de_progress cod content of
             Inl _ \<Rightarrow> ProgressMalformed
           | Inr progress \<Rightarrow>
             if pg_nickname progress \<noteq> nickname_str nickname \<or> pg_run_id progress \<noteq> run_id_str run_id
             then ProgressMalformed
             else CompatibleStartedAt (pg_started_at progress)))"

definition existing_progress_started_at ::
    "codecs \<Rightarrow> fpath \<Rightarrow> Nickname \<Rightarrow> RunId \<Rightarrow> ExistingProgress server" where
  "existing_progress_started_at cod progress_path nickname run_id =
     bind_io (attempt_io (fs_read progress_path)) (\<lambda>r.
       case r of
         Inl _ \<Rightarrow> ret_io ProgressMissing
       | Inr content \<Rightarrow> ret_io (classify_progress cod nickname run_id content))"

definition run_level_states :: "string list" where
  "run_level_states = [''processing_started'', ''publishing_status'']"

definition transform_states :: "string list" where
  "transform_states = [''transform_started'', ''transform_running'', ''transform_finished'']"

definition validate_progress_update ::
    "string \<Rightarrow> nat \<Rightarrow> nat \<Rightarrow> string \<Rightarrow> string \<Rightarrow> (server_error, unit) result" where
  "validate_progress_update state entry_index entry_total current_entry current_transform =
     (if state \<in> set run_level_states then
        (if current_entry \<noteq> [] then Inl (Bail ''run-level progress state must not have current_entry'')
         else if current_transform \<noteq> [] then Inl (Bail ''run-level progress state must not have current_transform'')
         else Inr ())
      else if state = ''processing_entry'' then
        (if entry_total = 0 then Inl (Bail ''per-entry progress state must have entry_total > 0'')
         else if entry_total \<le> entry_index then Inl (Bail ''entry_index must be less than entry_total'')
         else if current_entry = [] then Inl (Bail ''per-entry progress state must have current_entry'')
         else if current_transform \<noteq> [] then Inl (Bail ''processing_entry must not have current_transform'')
         else Inr ())
      else if state \<in> set transform_states then
        (if entry_total = 0 then Inl (Bail ''per-entry progress state must have entry_total > 0'')
         else if entry_total \<le> entry_index then Inl (Bail ''entry_index must be less than entry_total'')
         else if current_entry = [] then Inl (Bail ''per-entry progress state must have current_entry'')
         else if current_transform = [] then Inl (Bail ''transform progress state must have current_transform'')
         else Inr ())
      else Inl (Bail ''unknown progress state''))"

definition write_progress ::
    "codecs \<Rightarrow> fpath \<Rightarrow> Nickname \<Rightarrow> RunId \<Rightarrow> string \<Rightarrow> nat \<Rightarrow> nat \<Rightarrow> string \<Rightarrow> string \<Rightarrow> unit server" where
  "write_progress cod processing_path nickname run_id state entry_index entry_total current_entry current_transform =
     bind_io (lift_res (validate_progress_update state entry_index entry_total current_entry current_transform)) (\<lambda>_.
     bind_io now_secs (\<lambda>now.
       let final_path = processing_path @ [''progress.toml''] in
       bind_io (existing_progress_started_at cod final_path nickname run_id) (\<lambda>existing.
         if existing = ProgressIncompatible then ret_io ()
         else
           let started_at = (case existing of CompatibleStartedAt v \<Rightarrow> v | _ \<Rightarrow> now);
               progress = \<lparr>pg_protocol_version = PROTOCOL_VERSION, pg_purgery_version = PURGERY_VERSION,
                 pg_nickname = nickname_str nickname, pg_run_id = run_id_str run_id,
                 pg_phase = ''processing'', pg_state = state, pg_entry_index = entry_index,
                 pg_entry_total = entry_total, pg_current_entry = current_entry,
                 pg_current_transform = current_transform, pg_started_at = started_at,
                 pg_updated_at = now\<rparr>;
               tmp = processing_path @ [''progress.toml.tmp'']
           in
           bind_io (ser_io ''failed to serialize progress'' (cd_ser_progress cod progress)) (\<lambda>content.
           bind_io (ctx ''failed to write progress'' (fs_write tmp content)) (\<lambda>_.
             ctx ''failed to publish progress'' (fs_rename tmp final_path))))))"

definition write_progress_best_effort ::
    "codecs \<Rightarrow> fpath \<Rightarrow> Nickname \<Rightarrow> RunId \<Rightarrow> string \<Rightarrow> nat \<Rightarrow> nat \<Rightarrow> string \<Rightarrow> string \<Rightarrow> unit server" where
  "write_progress_best_effort cod processing_path nickname run_id state entry_index entry_total current_entry current_transform =
     bind_io
       (attempt_io (write_progress cod processing_path nickname run_id state entry_index entry_total
         current_entry current_transform))
       (\<lambda>_. ret_io ())"

section \<open>Failing a run\<close>

text \<open>The lock file is removed from the terminal directory, whatever comes of it.\<close>

definition drop_lock_file :: "fpath \<Rightarrow> unit server" where
  "drop_lock_file dir =
     bind_io (attempt_io (fs_remove_file (dir @ [''processor.lock'']))) (\<lambda>_. ret_io ())"

definition write_run_failure ::
    "codecs \<Rightarrow> ServerWorkDir \<Rightarrow> Nickname \<Rightarrow> RunId \<Rightarrow> string \<Rightarrow> unit server" where
  "write_run_failure cod wd nickname run_id error_msg =
     (let processing_path = run_path wd nickname run_id Processing;
          status = \<lparr>rs_purgery_version = PURGERY_VERSION, rs_run_id = run_id, rs_nickname = nickname,
            rs_state = RsFailed, rs_entries = [], rs_error = Some error_msg\<rparr>;
          status_path = processing_path @ [''status.toml''];
          tmp_path = processing_path @ [''status.toml.tmp''];
          failed_path = run_path wd nickname run_id Failed
      in
      bind_io (ser_io ''failed to serialize run failure status'' (cd_ser_status cod status)) (\<lambda>status_toml.
      bind_io (ctx ''failed to write temporary run failure status'' (fs_write tmp_path status_toml)) (\<lambda>_.
      bind_io (ctx ''failed to finalize run failure status'' (fs_rename tmp_path status_path)) (\<lambda>_.
      bind_io (ctx ''failed to create failed parent'' (fs_create_dir_all (run_parent wd nickname run_id Failed))) (\<lambda>_.
      bind_io (ctx ''failed to move run-level failure to failed'' (fs_rename processing_path failed_path)) (\<lambda>_.
        drop_lock_file failed_path))))))"

definition move_to_failed :: "ServerWorkDir \<Rightarrow> Nickname \<Rightarrow> RunId \<Rightarrow> unit server" where
  "move_to_failed wd nickname run_id =
     (let processing_path = run_path wd nickname run_id Processing;
          failed_path = run_path wd nickname run_id Failed
      in
      bind_io (fs_exists processing_path) (\<lambda>ex.
        if \<not> ex then ret_io ()
        else
          bind_io (ctx ''failed to create failed parent'' (fs_create_dir_all (run_parent wd nickname run_id Failed))) (\<lambda>_.
          bind_io (ctx ''failed to move run to failed'' (fs_rename processing_path failed_path)) (\<lambda>_.
            drop_lock_file failed_path))))"

section \<open>Finding runs\<close>

fun runs_of_nickname :: "fpath \<Rightarrow> Nickname \<Rightarrow> string list \<Rightarrow> (Nickname \<times> RunId) list server" where
  "runs_of_nickname phase_path nickname [] = ret_io []"
| "runs_of_nickname phase_path nickname (name # names) =
     bind_io (fs_is_dir (phase_path @ [name])) (\<lambda>d.
       case (d, RunId_new name) of
         (True, Inr run_id) \<Rightarrow>
           bind_io (runs_of_nickname phase_path nickname names) (\<lambda>rs. ret_io ((nickname, run_id) # rs))
       | _ \<Rightarrow> runs_of_nickname phase_path nickname names)"

fun runs_of_names :: "fpath \<Rightarrow> RunPhase \<Rightarrow> string list \<Rightarrow> (Nickname \<times> RunId) list server" where
  "runs_of_names root phase [] = ret_io []"
| "runs_of_names root phase (name # names) =
     bind_io (fs_is_dir (root @ [name])) (\<lambda>d.
       case (d, Nickname_new name) of
         (True, Inr nickname) \<Rightarrow>
           let phase_path = root @ [name, phase_str phase] in
           bind_io (fs_exists phase_path) (\<lambda>ex.
             if \<not> ex then runs_of_names root phase names
             else
               bind_io (ctx ''failed to read phase dir'' (fs_read_dir phase_path)) (\<lambda>run_names.
               bind_io (runs_of_nickname phase_path nickname run_names) (\<lambda>rs.
               bind_io (runs_of_names root phase names) (\<lambda>rest. ret_io (rs @ rest)))))
       | _ \<Rightarrow> runs_of_names root phase names)"

definition find_runs_in_phase :: "ServerWorkDir \<Rightarrow> RunPhase \<Rightarrow> (Nickname \<times> RunId) list server" where
  "find_runs_in_phase wd phase =
     (let root = fpath_of (work_dir_path wd) in
      bind_io (fs_exists root) (\<lambda>ex.
        if \<not> ex then ret_io []
        else bind_io (ctx ''failed to read work directory'' (fs_read_dir root)) (\<lambda>names.
          runs_of_names root phase names)))"

definition find_ready_runs :: "ServerWorkDir \<Rightarrow> (Nickname \<times> RunId) list server" where
  "find_ready_runs wd = find_runs_in_phase wd Ready"

definition find_processing_runs :: "ServerWorkDir \<Rightarrow> (Nickname \<times> RunId) list server" where
  "find_processing_runs wd = find_runs_in_phase wd Processing"

section \<open>Finalizing a run\<close>

definition prune_dir :: "fpath \<Rightarrow> string \<Rightarrow> unit server" where
  "prune_dir run name =
     bind_io (fs_exists (run @ [name])) (\<lambda>ex.
       if ex then ctx ''failed to remove'' (fs_remove_dir_all (run @ [name])) else ret_io ())"

definition prune_file :: "fpath \<Rightarrow> string \<Rightarrow> unit server" where
  "prune_file run name =
     bind_io (fs_exists (run @ [name])) (\<lambda>ex.
       if ex then ctx ''failed to remove'' (fs_remove_file (run @ [name])) else ret_io ())"

definition prune_success_terminal :: "fpath \<Rightarrow> unit server" where
  "prune_success_terminal run =
     bind_io (for_io [''files'', ''work''] (prune_dir run)) (\<lambda>_.
     bind_io (for_io [''lease.toml'', ''progress.toml'', ''processor.lock''] (prune_file run)) (\<lambda>_.
     bind_io (ctx ''read_dir'' (fs_read_dir run)) (\<lambda>names.
       for_io names (\<lambda>name.
         if ends_with ''.tmp'' name then ctx ''failed to remove'' (fs_remove_file (run @ [name]))
         else ret_io ()))))"

definition terminal_phase :: "RunState \<Rightarrow> RunPhase" where
  "terminal_phase state = (case state of RsDone \<Rightarrow> Done | RsPartial \<Rightarrow> Done | RsFailed \<Rightarrow> Failed)"

definition finalize_processing_run :: "ServerConfig \<Rightarrow> Nickname \<Rightarrow> RunId \<Rightarrow> RunState \<Rightarrow> unit server" where
  "finalize_processing_run config nickname run_id state =
     (let wd = sc_work_dir config;
          processing_path = run_path wd nickname run_id Processing;
          dest_phase = terminal_phase state;
          dest_path = run_path wd nickname run_id dest_phase
      in
      bind_io (ctx ''failed to create parent'' (fs_create_dir_all (run_parent wd nickname run_id dest_phase))) (\<lambda>_.
      bind_io (ctx ''failed to move run'' (fs_rename processing_path dest_path)) (\<lambda>_.
        if state = RsDone
        then bind_io (attempt_io (prune_success_terminal dest_path)) (\<lambda>_. ret_io ())
        else drop_lock_file dest_path)))"

section \<open>Beginning and finishing a run\<close>

definition all_phases :: "RunPhase list" where
  "all_phases = [Incoming, Ready, Processing, Done, Failed]"

fun first_existing_phase :: "ServerWorkDir \<Rightarrow> Nickname \<Rightarrow> RunId \<Rightarrow> RunPhase list \<Rightarrow> RunPhase option server" where
  "first_existing_phase wd nickname run_id [] = ret_io None"
| "first_existing_phase wd nickname run_id (ph # phs) =
     bind_io (fs_exists (run_path wd nickname run_id ph)) (\<lambda>ex.
       if ex then ret_io (Some ph) else first_existing_phase wd nickname run_id phs)"

definition new_lease :: "ServerConfig \<Rightarrow> Nickname \<Rightarrow> RunId \<Rightarrow> u64 \<Rightarrow> LeaseFile" where
  "new_lease config nickname run_id now =
     \<lparr>lf_protocol_version = PROTOCOL_VERSION, lf_purgery_version = PURGERY_VERSION,
      lf_nickname = nickname_str nickname, lf_run_id = run_id_str run_id,
      lf_created_at = now, lf_last_heartbeat = now,
      lf_expires_at = now + incoming_lease_secs (sc_gc config)\<rparr>"

text \<open>Writing the lease: a temporary file, then a rename.\<close>

definition write_lease :: "fpath \<Rightarrow> string \<Rightarrow> (io_error, unit) io" where
  "write_lease incoming_path content =
     bind_io (fs_write (incoming_path @ [''lease.toml.tmp'']) content) (\<lambda>_.
       fs_rename (incoming_path @ [''lease.toml.tmp'']) (incoming_path @ [''lease.toml'']))"

definition remove_quietly :: "fpath \<Rightarrow> unit server" where
  "remove_quietly p = bind_io (attempt_io (fs_remove_dir_all p)) (\<lambda>_. ret_io ())"

definition begin_response :: "ServerConfig \<Rightarrow> Nickname \<Rightarrow> RunId \<Rightarrow> BeginRunResponse" where
  "begin_response config nickname run_id =
     (let incoming = run_dir (sc_work_dir config) nickname run_id Incoming in
      \<lparr>br_protocol_version = PROTOCOL_VERSION, br_purgery_version = PURGERY_VERSION,
       br_nickname = nickname_str nickname, br_run_id = run_id_str run_id,
       br_incoming_dir = incoming, br_files_dir = path_join incoming ''files'',
       br_run_config_path = path_join incoming ''run.toml'',
       br_manifest_path = path_join incoming ''manifest.toml'',
       br_heartbeat_interval_secs = heartbeat_interval_secs (sc_gc config)\<rparr>)"

definition begin_run :: "codecs \<Rightarrow> ServerConfig \<Rightarrow> Nickname \<Rightarrow> RunId \<Rightarrow> string server" where
  "begin_run cod config nickname run_id =
     (let wd = sc_work_dir config;
          incoming_path = run_path wd nickname run_id Incoming
      in
      bind_io (first_existing_phase wd nickname run_id all_phases) (\<lambda>found.
        if found \<noteq> None then fail_io (Bail ''run already exists'')
        else
          bind_io now_secs (\<lambda>now.
          bind_io (ctx ''failed to create incoming parent'' (fs_create_dir_all (run_parent wd nickname run_id Incoming))) (\<lambda>_.
          bind_io (ctx ''failed to create incoming dir'' (fs_create_dir incoming_path)) (\<lambda>_.
          bind_io (attempt_io (fs_create_dir (incoming_path @ [''files'']))) (\<lambda>made.
            case made of
              Inl e \<Rightarrow> bind_io (remove_quietly incoming_path) (\<lambda>_. fail_io (IoContext ''failed to create files dir'' e))
            | Inr _ \<Rightarrow>
              bind_io (ser_io ''failed to serialize lease'' (cd_ser_lease cod (new_lease config nickname run_id now))) (\<lambda>lease_content.
              bind_io (attempt_io (write_lease incoming_path lease_content)) (\<lambda>written.
                case written of
                  Inl e \<Rightarrow> bind_io (remove_quietly incoming_path) (\<lambda>_. fail_io (IoContext ''failed to write lease file'' e))
                | Inr _ \<Rightarrow>
                  (case cd_ser_begin cod (begin_response config nickname run_id) of
                     Inl e \<Rightarrow> bind_io (remove_quietly incoming_path)
                       (\<lambda>_. fail_io (SerializeError ''failed to serialize begin-run response'' e))
                   | Inr response \<Rightarrow> ret_io response)))))))))"

text \<open>The checks on a lease, with the message for one whose version is not established.\<close>

definition read_lease :: "string \<Rightarrow> codecs \<Rightarrow> Nickname \<Rightarrow> RunId \<Rightarrow> string \<Rightarrow> (server_error, LeaseFile) result" where
  "read_lease unversioned cod nickname run_id content =
     (case probe_purgery_version_from_toml (cd_toml cod) content of
        Inl _ \<Rightarrow> Inl (Bail unversioned)
      | Inr _ \<Rightarrow>
        (case cd_de_lease cod content of
           Inl e \<Rightarrow> Inl (Bail ''failed to parse lease file'')
         | Inr lease \<Rightarrow>
           if \<not> is_ok (require_compatible_purgery_version (lf_purgery_version lease) ''lease'')
           then Inl (Bail ''incompatible lease version'')
           else if lf_protocol_version lease \<noteq> PROTOCOL_VERSION
           then Inl (Bail ''lease protocol version does not match expected'')
           else if lf_nickname lease \<noteq> nickname_str nickname
           then Inl (Bail ''lease nickname does not match expected'')
           else if lf_run_id lease \<noteq> run_id_str run_id
           then Inl (Bail ''lease run_id does not match expected'')
           else Inr lease))"

definition check_lease :: "codecs \<Rightarrow> Nickname \<Rightarrow> RunId \<Rightarrow> string \<Rightarrow> (server_error, LeaseFile) result" where
  "check_lease = read_lease ''cannot finish run: lease is missing purgery_version or has invalid TOML''"

definition finish_run :: "codecs \<Rightarrow> ServerConfig \<Rightarrow> Nickname \<Rightarrow> RunId \<Rightarrow> unit server" where
  "finish_run cod config nickname run_id =
     (let wd = sc_work_dir config;
          incoming_path = run_path wd nickname run_id Incoming;
          lease_path = incoming_path @ [''lease.toml''];
          ready_path = run_path wd nickname run_id Ready
      in
      bind_io (first_existing_phase wd nickname run_id [Ready, Processing, Done, Failed]) (\<lambda>found.
        if found \<noteq> None then ret_io ()
        else
          bind_io (fs_exists incoming_path) (\<lambda>inc.
            if \<not> inc then fail_io (Bail ''incoming directory does not exist'')
            else
              bind_io (fs_exists lease_path) (\<lambda>has_lease.
                if \<not> has_lease then fail_io (Bail ''cannot finish run: no lease file found, run may be incomplete'')
                else
                  bind_io (ctx ''failed to read lease file'' (fs_read lease_path)) (\<lambda>content.
                  bind_io (lift_res (check_lease cod nickname run_id content)) (\<lambda>lease.
                  bind_io now_secs (\<lambda>now.
                    if lf_expires_at lease \<le> now then fail_io (Bail ''cannot finish run: incoming lease expired'')
                    else
                      bind_io (fs_exists ready_path) (\<lambda>rdy.
                        if rdy then fail_io (Bail ''ready directory already exists'')
                        else
                          bind_io (ctx ''failed to create ready parent''
                            (fs_create_dir_all (run_parent wd nickname run_id Ready))) (\<lambda>_.
                            ctx ''failed to move incoming to ready'' (fs_rename incoming_path ready_path))))))))))"

end
