(* ===== verification/Transform_Run.thy ===== *)
theory Transform_Run
  imports Phases
begin

text \<open>
  Running a transform on one staged entry (\<open>purgery-server/src/transform.rs\<close>): the bounded readers
  of the program's output, the wait loop with its progress updates, and the check of the expected
  outputs. The program itself, symbolic links, digests and directory walks are operations that the
  host provides: they are the fields of \<open>payload_ops\<close>, arguments of everything below. A program is
  taken to end after finitely many polls.
\<close>

section \<open>What the host provides\<close>

text \<open>The type of a file as \<open>symlink_metadata\<close> or \<open>metadata\<close> report it.\<close>

datatype file_kind = KFile | KDir | KLink | KOther

text \<open>What one \<open>read\<close> on a pipe gives; the end of the list is the end of the stream.\<close>

datatype read_event = ReadChunk string | ReadInterrupted | ReadFailed string

record exit_status =
  ex_success :: bool
  ex_code :: "int option"

text \<open>
  A spawned program: how often \<open>try_wait\<close> finds it running, how it ends, and its two streams, each
  present when the pipe was set up.
\<close>

record child =
  ch_polls :: nat
  ch_end :: "(io_error, exit_status) result"
  ch_stdout :: "read_event list option"
  ch_stderr :: "read_event list option"

text \<open>
  Metadata without and with following links, length and digest of a file, links, the names in a
  directory, the walk below a directory in the order of the names (relative paths, or the error met),
  and programs: name, arguments and working directory. \<open>pl_text\<close> is \<open>from_utf8_lossy\<close> with \<open>trim\<close>.
\<close>

record payload_ops =
  pl_lstat :: "fpath \<Rightarrow> (io_error, file_kind) io"
  pl_stat :: "fpath \<Rightarrow> (io_error, file_kind) io"
  pl_len :: "fpath \<Rightarrow> (io_error, u64) io"
  pl_sha256 :: "fpath \<Rightarrow> (io_error, string) io"
  pl_read_link :: "fpath \<Rightarrow> (io_error, string) io"
  pl_symlink :: "string \<Rightarrow> fpath \<Rightarrow> (io_error, unit) io"
  pl_names :: "fpath \<Rightarrow> (io_error, string list) io"
  pl_walk :: "fpath \<Rightarrow> (io_error, (string, string) result list) io"
  pl_spawn :: "string \<Rightarrow> string list \<Rightarrow> fpath \<Rightarrow> (io_error, child) io"
  pl_text :: "string \<Rightarrow> string"

text \<open>\<open>fs::copy\<close>, and an operation whose failure does not matter.\<close>

definition fs_copy :: "fpath \<Rightarrow> fpath \<Rightarrow> (io_error, unit) io" where
  "fs_copy src dst = bind_io (fs_read src) (fs_write dst)"

definition quietly :: "('e, 'a) io \<Rightarrow> ('f, unit) io" where
  "quietly m = bind_io (attempt_io m) (\<lambda>_. ret_io ())"

definition fail_with :: "'f \<Rightarrow> ('e, 'a) io \<Rightarrow> ('f, 'a) io" where
  "fail_with msg m = err_io (\<lambda>_. msg) m"

section \<open>Bounded output\<close>

definition MAX_TRANSFORM_OUTPUT_BYTES :: nat where
  "MAX_TRANSFORM_OUTPUT_BYTES = 64 * 1024"

fun drain_pipe :: "read_event list \<Rightarrow> string \<Rightarrow> bool \<Rightarrow> (string, string \<times> bool) result" where
  "drain_pipe [] buf truncated = Inr (buf, truncated)"
| "drain_pipe (ReadChunk chunk # events) buf truncated =
     (if chunk = [] then Inr (buf, truncated)
      else
        let extended = buf @ chunk in
        if MAX_TRANSFORM_OUTPUT_BYTES < length extended
        then drain_pipe events (drop (length extended - MAX_TRANSFORM_OUTPUT_BYTES) extended) True
        else drain_pipe events extended truncated)"
| "drain_pipe (ReadInterrupted # events) buf truncated = drain_pipe events buf truncated"
| "drain_pipe (ReadFailed e # events) buf truncated = Inl (''pipe read error: '' @ e)"

definition truncation_marker :: string where
  "truncation_marker =
     ''...(output truncated; showing last '' @ nat_str MAX_TRANSFORM_OUTPUT_BYTES @ '' bytes)...'' @ [CHR 0x0A]"

definition bounded_output_reader :: "read_event list \<Rightarrow> (string, string) result" where
  "bounded_output_reader events =
     bind_res (drain_pipe events [] False) (\<lambda>(buf, truncated).
       Inr (if truncated then truncation_marker @ buf else buf))"

text \<open>The reader threads do not panic.\<close>

definition join_bounded_output :: "read_event list option \<Rightarrow> (string, string) result" where
  "join_bounded_output handle =
     (case handle of Some events \<Rightarrow> bounded_output_reader events | None \<Rightarrow> Inr [])"

definition output_tail :: "(string \<Rightarrow> string) \<Rightarrow> string \<Rightarrow> (string, string) result \<Rightarrow> string" where
  "output_tail as_text stream captured =
     (case captured of Inr b \<Rightarrow> as_text b | Inl e \<Rightarrow> ''('' @ stream @ '' unavailable: '' @ e @ '')'')"

text \<open>The message of a failed program; the printed exit code is left out.\<close>

definition failure_message :: "(string \<Rightarrow> string) \<Rightarrow> string \<Rightarrow> child \<Rightarrow> string" where
  "failure_message as_text name ch =
     name @ '' failed with exit code'' @ [CHR 0x0A] @ ''stdout: '' @
     output_tail as_text ''stdout'' (join_bounded_output (ch_stdout ch)) @ [CHR 0x0A] @ ''stderr: '' @
     output_tail as_text ''stderr'' (join_bounded_output (ch_stderr ch))"

section \<open>Applying a transform\<close>

definition check_output :: "payload_ops \<Rightarrow> string \<Rightarrow> (string, unit) io" where
  "check_output pl expected =
     bind_io (attempt_io (pl_lstat pl (fpath_of expected))) (\<lambda>r.
       case r of
         Inl e \<Rightarrow> fail_io ((if e = IoNotFound then ''expected output not found: ''
           else ''failed to inspect expected output: '') @ expected)
       | Inr kind \<Rightarrow>
         if kind = KDir \<or> kind = KFile \<or> kind = KLink then ret_io ()
         else fail_io (''expected output is not a supported entry type: '' @ expected))"

text \<open>\<open>results.retain(|p| seen.insert(p))\<close>.\<close>

fun retain_unseen :: "string list \<Rightarrow> string list \<Rightarrow> string list" where
  "retain_unseen seen [] = []"
| "retain_unseen seen (p # ps) =
     (if p \<in> set seen then retain_unseen seen ps else p # retain_unseen (p # seen) ps)"

text \<open>\<open>progress\<close> stands for the callback: it is given the state to report.\<close>

definition apply_transform_for_target ::
    "payload_ops \<Rightarrow> (string \<Rightarrow> unit server) \<Rightarrow> string \<Rightarrow> TransformDefinition \<Rightarrow> string \<Rightarrow>
     ResolvedDestinationPlan \<Rightarrow> (string, string list) io" where
  "apply_transform_for_target pl progress name def work_path target =
     (if \<not> is_ok (validate_transform_definition def) then fail_io ''transform definition is invalid''
      else
        case path_parent work_path of
          None \<Rightarrow> fail_io ''work path has no parent directory''
        | Some work_parent \<Rightarrow>
            bind_io (quietly (progress ''transform_started'')) (\<lambda>_.
            bind_io (fail_with ''failed to spawn''
              (pl_spawn pl (td_program def) (build_args_for_target def work_path target) (fpath_of work_parent))) (\<lambda>ch.
            bind_io (for_io [0..<ch_polls ch] (\<lambda>_. quietly (progress ''transform_running''))) (\<lambda>_.
            bind_io (fail_with ''failed to wait'' (lift_res (ch_end ch))) (\<lambda>transform_status.
              if \<not> ex_success transform_status then fail_io (failure_message (pl_text pl) name ch)
              else
                bind_io (quietly (progress ''transform_finished'')) (\<lambda>_.
                bind_io (fail_with ''expected output does not resolve''
                  (lift_res (resolve_expected_outputs_for_target def work_path target))) (\<lambda>expected.
                bind_io (for_io expected (check_output pl)) (\<lambda>_.
                  ret_io (retain_unseen [] expected)))))))))"

end
