(* ===== verification/Server_Ops.thy ===== *)
theory Server_Ops
  imports Phases Shell
begin

text \<open>
  The operations of \<open>purgery-server/src/lib.rs\<close>: validating and preparing a run, heartbeats, reading
  a run's status and state, and the configuration check. The working directory of the process is
  an argument; log output is left out.
\<close>

section \<open>Validating a transform run\<close>

fun validate_run_entries :: "ServerConfig \<Rightarrow> ManifestEntry list \<Rightarrow> (server_error, unit) result" where
  "validate_run_entries config [] = Inr ()"
| "validate_run_entries config (entry # entries) =
     (case me_transform entry of
        None \<Rightarrow> Inl (Bail ''server run entry has no transform'')
      | Some transform_name \<Rightarrow>
        (case map_of (sc_transforms config) transform_name of
           None \<Rightarrow> Inl (Bail ''transform not defined on server'')
         | Some def \<Rightarrow>
           if \<not> is_ok (validate_transform_definition def)
           then Inl (Bail ''transform definition is invalid'')
           else validate_run_entries config entries))"

definition validate_transform_run :: "ServerConfig \<Rightarrow> Manifest \<Rightarrow> RunConfig \<Rightarrow> (server_error, unit) result" where
  "validate_transform_run config manifest run_config =
     (if \<not> rc_delete_after_import run_config
      then Inl (Bail ''transform runs require delete_after_import = true'')
      else if length (mf_entries manifest) \<noteq> 1
      then Inl (Bail ''server run manifest must contain exactly one entry'')
      else validate_run_entries config (mf_entries manifest))"

section \<open>Preparing a run\<close>

text \<open>The operand a relative destination becomes, below the server's working directory.\<close>

definition resolved_operand :: "string \<Rightarrow> DestinationPath \<Rightarrow> string" where
  "resolved_operand cwd destination =
     (let resolved_utf8 = path_join cwd (dp_path destination);
          resolved_base = trim_end CHR ''/'' resolved_utf8
      in case dp_intent destination of
           ExactOrExistingDirectory \<Rightarrow> resolved_utf8
         | TrailingSlash \<Rightarrow> resolved_base @ ''/''
         | TerminalDot \<Rightarrow> resolved_base @ ''/.''
         | TerminalDotSlash \<Rightarrow> resolved_base @ ''/./'')"

definition bail :: "string \<Rightarrow> ('e, 'a) result \<Rightarrow> 'a server" where
  "bail msg r = lift_res (map_err (\<lambda>_. Bail msg) r)"

text \<open>Reading \<open>run.toml\<close> and \<open>manifest.toml\<close> with their version gates.\<close>

definition read_run_inputs :: "codecs \<Rightarrow> fpath \<Rightarrow> Nickname \<Rightarrow> RunId \<Rightarrow> (RunConfig \<times> Manifest) server" where
  "read_run_inputs cod incoming_path nickname run_id =
     bind_io (ctx ''failed to read run config'' (fs_read (incoming_path @ [''run.toml'']))) (\<lambda>run_config_content.
     bind_io (bail ''incompatible run config'' (require_compatible_toml_version (cd_toml cod) run_config_content ''run config'')) (\<lambda>_.
     bind_io (bail ''failed to parse run config'' (run_config_from_toml (cd_de_run_config cod) run_config_content)) (\<lambda>run_config.
     bind_io (ctx ''failed to read manifest'' (fs_read (incoming_path @ [''manifest.toml'']))) (\<lambda>manifest_content.
     bind_io (bail ''incompatible manifest'' (require_compatible_toml_version (cd_toml cod) manifest_content ''manifest'')) (\<lambda>_.
     bind_io (bail ''failed to parse manifest'' (manifest_from_toml (cd_de_manifest cod) manifest_content)) (\<lambda>manifest.
     bind_io (bail ''envelope validation failed'' (validate_envelope nickname run_id run_config manifest)) (\<lambda>_.
       ret_io (run_config, manifest))))))))"

text \<open>A relative destination is resolved and \<open>run.toml\<close> rewritten with it.\<close>

definition commit_destination ::
    "codecs \<Rightarrow> (io_error, string) result \<Rightarrow> fpath \<Rightarrow> RunConfig \<Rightarrow> string option server" where
  "commit_destination cod cwd incoming_path run_config =
     (if path_absolute (dp_path (rc_destination run_config)) then ret_io None
      else
        bind_io (lift_res (map_err (IoContext ''failed to get current working directory'') cwd)) (\<lambda>dir.
        bind_io (bail ''resolved destination path is invalid''
          (DestinationPath_new (resolved_operand dir (rc_destination run_config)))) (\<lambda>resolved_dest.
        let updated = \<lparr>rc_purgery_version = PURGERY_VERSION, rc_nickname = rc_nickname run_config,
              rc_destination = resolved_dest, rc_delete_after_import = rc_delete_after_import run_config\<rparr>
        in
        bind_io (bail ''failed to serialize updated run config'' (run_config_to_toml (cd_ser_run_config cod) updated)) (\<lambda>updated_toml.
        bind_io (ctx ''failed to write updated run config''
          (fs_write (incoming_path @ [''run.toml.tmp'']) updated_toml)) (\<lambda>_.
        bind_io (ctx ''failed to commit updated run config''
          (fs_rename (incoming_path @ [''run.toml.tmp'']) (incoming_path @ [''run.toml'']))) (\<lambda>_.
          ret_io (Some (dp_operand resolved_dest))))))))"

definition prepare_run ::
    "codecs \<Rightarrow> (io_error, string) result \<Rightarrow> ServerConfig \<Rightarrow> Nickname \<Rightarrow> RunId \<Rightarrow> string server" where
  "prepare_run cod cwd config nickname run_id =
     (let incoming_path = run_path (sc_work_dir config) nickname run_id Incoming in
      bind_io (fs_exists incoming_path) (\<lambda>ex.
        if \<not> ex then fail_io (Bail ''incoming directory does not exist'')
        else
          bind_io (read_run_inputs cod incoming_path nickname run_id) (\<lambda>(run_config, manifest).
          bind_io (bail ''run plan validation failed'' (validate_transform_run config manifest run_config)) (\<lambda>_.
          bind_io (commit_destination cod cwd incoming_path run_config) (\<lambda>resolved_destination.
            ser_io ''failed to serialize prepare-run response''
              (cd_ser_prepare cod
                \<lparr>pp_protocol_version = PROTOCOL_VERSION, pp_purgery_version = PURGERY_VERSION,
                 pp_nickname = nickname_str nickname, pp_run_id = run_id_str run_id,
                 pp_destination = resolved_destination\<rparr>))))))"

section \<open>Heartbeats\<close>

definition heartbeat_run :: "codecs \<Rightarrow> ServerConfig \<Rightarrow> Nickname \<Rightarrow> RunId \<Rightarrow> unit server" where
  "heartbeat_run cod config nickname run_id =
     (let incoming_path = run_path (sc_work_dir config) nickname run_id Incoming;
          lease_path = incoming_path @ [''lease.toml'']
      in
      bind_io (fs_exists incoming_path) (\<lambda>ex.
        if \<not> ex then fail_io (Bail ''run is not in incoming phase'')
        else
          bind_io (ctx ''failed to read lease file'' (fs_read lease_path)) (\<lambda>lease_content.
          bind_io (lift_res (read_lease
            ''cannot heartbeat run: lease is missing purgery_version or has invalid TOML'' cod nickname run_id lease_content)) (\<lambda>lease.
          bind_io now_secs (\<lambda>now.
            let renewed = lease\<lparr>lf_last_heartbeat := now,
                  lf_expires_at := now + incoming_lease_secs (sc_gc config)\<rparr>
            in
            bind_io (ser_io ''failed to serialize lease'' (cd_ser_lease cod renewed)) (\<lambda>new_content.
            bind_io (ctx ''failed to write lease'' (fs_write (incoming_path @ [''lease.toml.tmp'']) new_content)) (\<lambda>_.
              ctx ''failed to commit lease'' (fs_rename (incoming_path @ [''lease.toml.tmp'']) lease_path))))))))"

section \<open>Reading a run's status\<close>

datatype status_reading = Skip | Report RunStatus | Abort server_error

text \<open>What one terminal status file amounts to.\<close>

definition judge_status :: "codecs \<Rightarrow> Nickname \<Rightarrow> RunId \<Rightarrow> string \<Rightarrow> status_reading" where
  "judge_status cod nickname run_id content =
     (case run_status_from_toml (cd_de_status cod) content of
        Inr status \<Rightarrow>
          if \<not> is_ok (require_compatible_purgery_version (rs_purgery_version status) ''status'') then Skip
          else if rs_nickname status \<noteq> nickname \<or> rs_run_id status \<noteq> run_id
          then Abort (Bail ''status envelope mismatch'')
          else Report status
      | Inl _ \<Rightarrow>
          if probe_purgery_version_from_toml (cd_toml cod) content = Inl MissingVersion then Skip
          else Abort (Bail ''malformed status file''))"

fun read_run_status_in :: "codecs \<Rightarrow> ServerConfig \<Rightarrow> Nickname \<Rightarrow> RunId \<Rightarrow> RunPhase list \<Rightarrow> RunStatus server" where
  "read_run_status_in cod config nickname run_id [] =
     fail_io (Bail ''no compatible status found in done or failed'')"
| "read_run_status_in cod config nickname run_id (phase # phases) =
     (let status_path = run_path (sc_work_dir config) nickname run_id phase @ [''status.toml''] in
      bind_io (fs_exists status_path) (\<lambda>ex.
        if \<not> ex then read_run_status_in cod config nickname run_id phases
        else
          bind_io (ctx ''failed to read status'' (fs_read status_path)) (\<lambda>content.
            case judge_status cod nickname run_id content of
              Skip \<Rightarrow> read_run_status_in cod config nickname run_id phases
            | Report status \<Rightarrow> ret_io status
            | Abort e \<Rightarrow> fail_io e)))"

definition read_run_status :: "codecs \<Rightarrow> ServerConfig \<Rightarrow> Nickname \<Rightarrow> RunId \<Rightarrow> RunStatus server" where
  "read_run_status cod config nickname run_id = read_run_status_in cod config nickname run_id [Done, Failed]"

section \<open>Run state\<close>

definition dir_modified_at :: "fpath \<Rightarrow> u64 option server" where
  "dir_modified_at dir =
     bind_io (attempt_io (fs_mtime dir)) (\<lambda>r.
       case r of Inl _ \<Rightarrow> ret_io None
       | Inr t \<Rightarrow> ret_io (if t < 0 then None else Some (unix_secs t)))"

definition modified_or_zero :: "fpath \<Rightarrow> u64 server" where
  "modified_or_zero dir =
     bind_io (dir_modified_at dir) (\<lambda>m. ret_io (case m of Some t \<Rightarrow> t | None \<Rightarrow> 0))"

datatype TerminalStatusOutcome = TsValid | TsIncompatible | TsMalformed string

definition judge_terminal :: "codecs \<Rightarrow> Nickname \<Rightarrow> RunId \<Rightarrow> string \<Rightarrow> TerminalStatusOutcome" where
  "judge_terminal cod nickname run_id content =
     (case run_status_from_toml (cd_de_status cod) content of
        Inr status \<Rightarrow>
          if \<not> is_ok (require_compatible_purgery_version (rs_purgery_version status) ''status'') then TsIncompatible
          else if rs_nickname status \<noteq> nickname \<or> rs_run_id status \<noteq> run_id
          then TsMalformed ''envelope mismatch''
          else TsValid
      | Inl _ \<Rightarrow>
          if probe_purgery_version_from_toml (cd_toml cod) content = Inl MissingVersion then TsIncompatible
          else TsMalformed ''malformed'')"

definition try_read_status :: "codecs \<Rightarrow> fpath \<Rightarrow> Nickname \<Rightarrow> RunId \<Rightarrow> TerminalStatusOutcome server" where
  "try_read_status cod status_path nickname run_id =
     bind_io (attempt_io (fs_read status_path)) (\<lambda>r.
       case r of
         Inl _ \<Rightarrow> ret_io (TsMalformed ''missing/unreadable'')
       | Inr content \<Rightarrow> ret_io (judge_terminal cod nickname run_id content))"

text \<open>The tuple of \<open>read_progress_fields\<close>.\<close>

record progress_fields =
  pf_message :: string
  pf_updated_at :: u64
  pf_state :: "string option"
  pf_entry_index :: "nat option"
  pf_entry_total :: "nat option"
  pf_current_entry :: "string option"
  pf_current_transform :: "string option"
  pf_status :: "string option"

definition bare_fields :: "string \<Rightarrow> u64 \<Rightarrow> string option \<Rightarrow> progress_fields" where
  "bare_fields message updated_at status =
     \<lparr>pf_message = message, pf_updated_at = updated_at, pf_state = None, pf_entry_index = None,
      pf_entry_total = None, pf_current_entry = None, pf_current_transform = None, pf_status = status\<rparr>"

definition full_fields :: "ProcessingProgress \<Rightarrow> progress_fields" where
  "full_fields prog =
     \<lparr>pf_message = ''processing: '' @ nat_str (pg_entry_index prog + 1) @ ''/'' @ nat_str (pg_entry_total prog) @
        '' entries, current: '' @ pg_current_entry prog @ '' transform: '' @ pg_current_transform prog,
      pf_updated_at = pg_updated_at prog, pf_state = Some (pg_state prog),
      pf_entry_index = Some (pg_entry_index prog), pf_entry_total = Some (pg_entry_total prog),
      pf_current_entry = Some (pg_current_entry prog),
      pf_current_transform = Some (pg_current_transform prog), pf_status = Some ''valid''\<rparr>"

text \<open>The fields a progress file gives, or the message and status when it is not usable.\<close>

definition judge_progress ::
    "codecs \<Rightarrow> Nickname \<Rightarrow> RunId \<Rightarrow> string \<Rightarrow> (string \<times> string) + ProcessingProgress" where
  "judge_progress cod nickname run_id content =
     (case cd_de_progress cod content of
        Inr prog \<Rightarrow>
          if \<not> is_ok (require_compatible_purgery_version (pg_purgery_version prog) ''progress'')
          then Inl (''run phase: processing (incompatible progress version)'', ''incompatible_version'')
          else if pg_nickname prog = nickname_str nickname \<and> pg_run_id prog = run_id_str run_id then Inr prog
          else Inl (''run phase: processing (progress envelope mismatch)'', ''envelope_mismatch'')
      | Inl _ \<Rightarrow>
          if probe_purgery_version_from_toml (cd_toml cod) content = Inl MissingVersion
          then Inl (''run phase: processing (progress missing purgery_version)'', ''incompatible_version'')
          else Inl (''run phase: processing (malformed progress)'', ''malformed''))"

definition read_progress_fields :: "codecs \<Rightarrow> fpath \<Rightarrow> Nickname \<Rightarrow> RunId \<Rightarrow> progress_fields server" where
  "read_progress_fields cod dir nickname run_id =
     bind_io (attempt_io (fs_read (dir @ [''progress.toml'']))) (\<lambda>r.
       case r of
         Inl _ \<Rightarrow> bind_io (modified_or_zero dir) (\<lambda>t. ret_io (bare_fields ''run phase: processing'' t (Some ''missing'')))
       | Inr content \<Rightarrow>
         (case judge_progress cod nickname run_id content of
            Inr prog \<Rightarrow> ret_io (full_fields prog)
          | Inl (message, status) \<Rightarrow>
              bind_io (modified_or_zero dir) (\<lambda>t. ret_io (bare_fields message t (Some status)))))"

definition processor_state :: "(server_error, bool option) result \<Rightarrow> string option" where
  "processor_state probed =
     (case probed of
        Inr (Some True) \<Rightarrow> Some ''active''
      | Inr (Some False) \<Rightarrow> Some ''idle''
      | Inr None \<Rightarrow> None
      | Inl _ \<Rightarrow> Some ''unknown'')"

definition state_response ::
    "Nickname \<Rightarrow> RunId \<Rightarrow> u64 \<Rightarrow> string \<Rightarrow> bool \<Rightarrow> progress_fields \<Rightarrow> string option \<Rightarrow> RunStateResponse" where
  "state_response nickname run_id now phase is_terminal pf processor =
     \<lparr>rr_protocol_version = PROTOCOL_VERSION, rr_purgery_version = PURGERY_VERSION,
      rr_nickname = nickname_str nickname, rr_run_id = run_id_str run_id, rr_phase = phase,
      rr_terminal = is_terminal, rr_message = pf_message pf, rr_updated_at = pf_updated_at pf,
      rr_observed_at = now, rr_progress_state = pf_state pf, rr_entry_index = pf_entry_index pf,
      rr_entry_total = pf_entry_total pf, rr_current_entry = pf_current_entry pf,
      rr_current_transform = pf_current_transform pf, rr_progress_status = pf_status pf,
      rr_processor_state = processor\<rparr>"

text \<open>The answer for a run directory in a phase that is not terminal; \<open>h\<close> is the probe's handle.\<close>

definition live_state ::
    "codecs \<Rightarrow> nat \<Rightarrow> Nickname \<Rightarrow> RunId \<Rightarrow> u64 \<Rightarrow> RunPhase \<Rightarrow> fpath \<Rightarrow> RunStateResponse server" where
  "live_state cod h nickname run_id now phase dir =
     (if phase = Processing then
        bind_io (read_progress_fields cod dir nickname run_id) (\<lambda>pf.
        bind_io (attempt_io (probe_processor_lock_readonly h dir)) (\<lambda>probed.
          ret_io (state_response nickname run_id now (phase_str phase) False pf (processor_state probed))))
      else
        bind_io (modified_or_zero dir) (\<lambda>t.
          ret_io (state_response nickname run_id now (phase_str phase) False
            (bare_fields (''run phase: '' @ phase_str phase) t None) None)))"

fun terminal_state ::
    "codecs \<Rightarrow> ServerConfig \<Rightarrow> Nickname \<Rightarrow> RunId \<Rightarrow> u64 \<Rightarrow> RunPhase list \<Rightarrow> RunStateResponse server" where
  "terminal_state cod config nickname run_id now [] =
     ret_io (state_response nickname run_id now ''not_found'' False
       (bare_fields ''no matching run found'' 0 None) None)"
| "terminal_state cod config nickname run_id now (phase # phases) =
     (let dir = run_path (sc_work_dir config) nickname run_id phase in
      bind_io (fs_exists dir) (\<lambda>ex.
        if \<not> ex then terminal_state cod config nickname run_id now phases
        else
          bind_io (try_read_status cod (dir @ [''status.toml'']) nickname run_id) (\<lambda>outcome.
            case outcome of
              TsValid \<Rightarrow>
                bind_io (modified_or_zero dir) (\<lambda>t.
                  ret_io (state_response nickname run_id now (phase_str phase) True
                    (bare_fields (''run is '' @ phase_str phase) t None) None))
            | TsIncompatible \<Rightarrow> terminal_state cod config nickname run_id now phases
            | TsMalformed reason \<Rightarrow>
                bind_io (modified_or_zero dir) (\<lambda>t.
                  ret_io (state_response nickname run_id now ''corrupt'' False
                    (bare_fields (phase_str phase @ '' directory exists but status is '' @ reason) t None) None)))))"

definition run_state :: "codecs \<Rightarrow> nat \<Rightarrow> ServerConfig \<Rightarrow> Nickname \<Rightarrow> RunId \<Rightarrow> RunStateResponse server" where
  "run_state cod h config nickname run_id =
     bind_io now_secs (\<lambda>now.
     bind_io (first_existing_phase (sc_work_dir config) nickname run_id [Incoming, Ready, Processing]) (\<lambda>found.
       case found of
         Some phase \<Rightarrow>
           live_state cod h nickname run_id now phase (run_path (sc_work_dir config) nickname run_id phase)
       | None \<Rightarrow> terminal_state cod config nickname run_id now [Done, Failed]))"

section \<open>Checking and bootstrapping\<close>

text \<open>The settings a check accepts before it looks at the disk.\<close>

definition check_intervals :: "GCConfig \<Rightarrow> (server_error, unit) result" where
  "check_intervals gc =
     (if incoming_lease_secs gc = 0 then Inl (Bail ''gc.incoming_lease_secs must be greater than 0'')
      else if heartbeat_interval_secs gc = 0
      then Inl (Bail ''gc.heartbeat_interval_secs must be greater than 0'')
      else if incoming_lease_secs gc div 2 < heartbeat_interval_secs gc
      then Inl (Bail ''gc.heartbeat_interval_secs must be at most half of gc.incoming_lease_secs'')
      else Inr ())"

fun check_transforms ::
    "stat_fun \<Rightarrow> string \<Rightarrow> (string \<times> TransformDefinition) list \<Rightarrow> (server_error, unit) result" where
  "check_transforms stat path_var [] = Inr ()"
| "check_transforms stat path_var ((_, td) # tds) =
     (if \<not> is_ok (validate_transform_definition td) then Inl (Bail ''invalid transform'')
      else if \<not> is_ok (resolve_executable stat path_var (td_program td)) then Inl (Bail ''transform program not found'')
      else check_transforms stat path_var tds)"

definition server_check :: "stat_fun \<Rightarrow> string \<Rightarrow> ServerConfig \<Rightarrow> unit server" where
  "server_check stat path_var config =
     bind_io (lift_res (check_intervals (sc_gc config))) (\<lambda>_.
       let purgery_path = fpath_of (work_dir_path (sc_work_dir config)) in
       bind_io (fs_exists purgery_path) (\<lambda>ex.
         if \<not> ex then fail_io (Bail ''work_dir does not exist'')
         else
           bind_io (fs_is_dir purgery_path) (\<lambda>d.
             if \<not> d then fail_io (Bail ''work_dir exists but is not a directory'')
             else lift_res (check_transforms stat path_var (sc_transforms config)))))"

definition bootstrap :: "ServerConfig \<Rightarrow> unit server" where
  "bootstrap config =
     ctx ''failed to create work_dir'' (fs_create_dir_all (fpath_of (work_dir_path (sc_work_dir config))))"

definition version_response :: string where
  "version_response =
     ''protocol_version = '' @ nat_str (unat PROTOCOL_VERSION) @ [CHR 0x0A] @
     ''purgery_version = '' @ [CHR 0x22] @ PURGERY_VERSION @ [CHR 0x22, CHR 0x0A]"

end
