(* ===== verification/Entries.thy ===== *)
theory Entries
  imports Transform_Run Server_Ops
begin

text \<open>
  Processing the entry of a run (\<open>purgery-server/src/process.rs\<close>, \<open>prepare_work_entry\<close> to
  \<open>process_manifest_entry\<close>): the staged file is checked against the manifest, the destination is
  planned once and recorded, a work copy is made and the transform applied to it. The interpolated
  values of the messages are left out.
\<close>

section \<open>Outcomes\<close>

datatype EntryOutcome =
    Success ManifestEntryKind string string "string list" "string option"
  | Failure ManifestEntryKind string string string

fun into_entry :: "EntryOutcome \<Rightarrow> EntryStatusEntry" where
  "into_entry (Success kind local_path relative_path final_paths transform) =
     \<lparr>es_kind = kind, es_local_path = local_path, es_relative_path = relative_path, es_status = FsImported,
      es_final_paths = final_paths, es_transform = transform, es_error = None\<rparr>"
| "into_entry (Failure kind local_path relative_path error) =
     \<lparr>es_kind = kind, es_local_path = local_path, es_relative_path = relative_path, es_status = FsFailed,
      es_final_paths = [], es_transform = None, es_error = Some error\<rparr>"

definition failed_entry :: "ManifestEntry \<Rightarrow> string \<Rightarrow> EntryOutcome" where
  "failed_entry entry error =
     Failure (me_kind entry) (client_local_path_str (me_local_path entry)) (nrp_str (me_relative_path entry)) error"

section \<open>The work copy\<close>

text \<open>\<open>if let Some(parent) = path.parent() { create_dir_all(parent) }\<close>.\<close>

definition make_parent :: "string \<Rightarrow> (string, unit) io" where
  "make_parent path =
     (if path_parent path = None then ret_io ()
      else fail_with ''failed to create work parent'' (fs_create_dir_all (parent_of path)))"

definition copy_link :: "payload_ops \<Rightarrow> fpath \<Rightarrow> fpath \<Rightarrow> (string, unit) io" where
  "copy_link pl source work =
     bind_io (fail_with ''failed to read staged symlink'' (pl_read_link pl source)) (\<lambda>target.
       fail_with ''failed to create work symlink'' (pl_symlink pl target work))"

text \<open>One item of the walk below a staged directory.\<close>

definition copy_item :: "payload_ops \<Rightarrow> string \<Rightarrow> string \<Rightarrow> (string, string) result \<Rightarrow> (string, unit) io" where
  "copy_item pl source_path work_path item =
     (case item of
        Inl e \<Rightarrow> fail_io (''failed to walk staged directory: '' @ e)
      | Inr relative \<Rightarrow>
          let staged = fpath_of (path_join source_path relative); work_child = path_join work_path relative in
          bind_io (fail_with ''failed to read staged entry metadata'' (pl_lstat pl staged)) (\<lambda>kind.
            case kind of
              KDir \<Rightarrow> fail_with ''failed to create work subdirectory'' (fs_create_dir (fpath_of work_child))
            | KFile \<Rightarrow>
                bind_io (make_parent work_child) (\<lambda>_.
                  fail_with ''failed to copy staged file to work area'' (fs_copy staged (fpath_of work_child)))
            | KLink \<Rightarrow> bind_io (make_parent work_child) (\<lambda>_. copy_link pl staged (fpath_of work_child))
            | KOther \<Rightarrow> fail_io (''unsupported filesystem object in staged directory: '' @ relative)))"

definition prepare_work_entry :: "payload_ops \<Rightarrow> ManifestEntry \<Rightarrow> string \<Rightarrow> string \<Rightarrow> (string, string) io" where
  "prepare_work_entry pl entry source_path work_area =
     (let work_path = path_join work_area (nrp_str (me_relative_path entry));
          source = fpath_of source_path; work = fpath_of work_path
      in
      bind_io (make_parent work_path) (\<lambda>_.
        case me_kind entry of
          Directory \<Rightarrow>
            bind_io (fail_with ''failed to create work directory'' (fs_create_dir work)) (\<lambda>_.
            bind_io (fail_with ''failed to walk staged directory'' (pl_walk pl source)) (\<lambda>items.
            bind_io (for_io items (copy_item pl source_path work_path)) (\<lambda>_. ret_io work_path)))
        | RegularFile \<Rightarrow>
            bind_io (fail_with ''failed to copy to work area'' (fs_copy source work)) (\<lambda>_. ret_io work_path)
        | Symlink \<Rightarrow> bind_io (copy_link pl source work) (\<lambda>_. ret_io work_path)))"

section \<open>The destination plan\<close>

definition inspect_destination :: "payload_ops \<Rightarrow> DestinationPath \<Rightarrow> (string, DestinationState) io" where
  "inspect_destination pl destination =
     (let p = fpath_of (dp_path destination) in
      bind_io (attempt_io (pl_lstat pl p)) (\<lambda>r.
        case r of
          Inr KLink \<Rightarrow>
            bind_io (attempt_io (pl_stat pl p)) (\<lambda>followed.
              case followed of
                Inr kind \<Rightarrow> ret_io (if kind = KDir then DirectoryState else NonDirectory)
              | Inl e \<Rightarrow>
                  if e = IoNotFound then ret_io DanglingSymlink
                  else fail_io ''failed to inspect destination symlink'')
        | Inr kind \<Rightarrow> ret_io (if kind = KDir then DirectoryState else NonDirectory)
        | Inl e \<Rightarrow> if e = IoNotFound then ret_io Missing else fail_io ''failed to inspect destination''))"

definition source_is_empty :: "payload_ops \<Rightarrow> ManifestEntry \<Rightarrow> string \<Rightarrow> (string, bool) io" where
  "source_is_empty pl entry source_path =
     (if me_kind entry = Directory
      then bind_io (fail_with ''failed to inspect source directory'' (pl_names pl (fpath_of source_path)))
        (\<lambda>names. ret_io (names = []))
      else ret_io False)"

definition load_or_resolve_destination_plan ::
    "codecs \<Rightarrow> payload_ops \<Rightarrow> fpath \<Rightarrow> DestinationPath \<Rightarrow> ManifestEntry \<Rightarrow> string \<Rightarrow> (string, ResolvedDestinationPlan) io" where
  "load_or_resolve_destination_plan cod pl processing_path destination entry source_path =
     (let plan_path = processing_path @ [''destination-plan.toml''];
          temporary = processing_path @ [''destination-plan.toml.tmp'']
      in
      bind_io (fs_exists plan_path) (\<lambda>ex.
        if ex then
          bind_io (fail_with ''failed to read destination plan'' (fs_read plan_path)) (\<lambda>contents.
            fail_with ''failed to parse destination plan'' (lift_res (cd_de_plan cod contents)))
        else
          bind_io (inspect_destination pl destination) (\<lambda>destination_state.
          bind_io (source_is_empty pl entry source_path) (\<lambda>source_directory_empty.
          bind_io (fail_with ''destination does not resolve'' (lift_res
            (resolve_destination destination (me_relative_path entry) (me_kind entry) source_directory_empty
              destination_state))) (\<lambda>plan.
          bind_io (fail_with ''failed to serialize destination plan'' (lift_res (cd_ser_plan cod plan))) (\<lambda>serialized.
          bind_io (fail_with ''failed to write destination plan'' (fs_write temporary serialized)) (\<lambda>_.
          bind_io (fail_with ''failed to publish destination plan'' (fs_rename temporary plan_path)) (\<lambda>_.
            ret_io plan))))))))"

section \<open>The staged file\<close>

definition kind_matches :: "ManifestEntryKind \<Rightarrow> file_kind \<Rightarrow> bool" where
  "kind_matches kind staged =
     (case kind of Directory \<Rightarrow> staged = KDir | RegularFile \<Rightarrow> staged = KFile | Symlink \<Rightarrow> staged = KLink)"

text \<open>Paths are equal when their components are. \<open>verify_staged\<close>: the length is read first, the digest only when the length is the recorded one.\<close>

definition verify_staged_at ::
    "payload_ops \<Rightarrow> ManifestEntry \<Rightarrow> string \<Rightarrow> ('e, (IdentityVerificationError, unit) result) io" where
  "verify_staged_at pl entry source_path =
     bind_io (attempt_io (pl_len pl (fpath_of source_path))) (\<lambda>len.
       if len = Inr (me_size entry) \<and> me_sha256 entry \<noteq> None then
         bind_io (attempt_io (pl_sha256 pl (fpath_of source_path))) (\<lambda>sha.
           ret_io (verify_staged (\<lambda>_. len) (\<lambda>_. sha) entry source_path))
       else ret_io (verify_staged (\<lambda>_. len) (\<lambda>_. Inl IoOther) entry source_path))"

definition check_identity :: "payload_ops \<Rightarrow> ManifestEntry \<Rightarrow> string \<Rightarrow> (string, unit) io" where
  "check_identity pl entry source_path =
     (case me_kind entry of
        RegularFile \<Rightarrow>
          bind_io (verify_staged_at pl entry source_path) (\<lambda>v.
            if is_ok v then ret_io () else fail_io ''staged file identity check failed'')
      | Symlink \<Rightarrow>
          (case me_link_target entry of
             None \<Rightarrow> fail_io ''symlink manifest entry has no link_target''
           | Some expected_target \<Rightarrow>
               bind_io (fail_with ''failed to read staged symlink'' (pl_read_link pl (fpath_of source_path))) (\<lambda>actual.
                 if components actual = components expected_target then ret_io ()
                 else fail_io ''staged symlink target does not match manifest''))
      | Directory \<Rightarrow> ret_io ())"

definition check_staged :: "payload_ops \<Rightarrow> ManifestEntry \<Rightarrow> string \<Rightarrow> (string, unit) io" where
  "check_staged pl entry source_path =
     bind_io (fail_with ''failed to read staged metadata'' (pl_lstat pl (fpath_of source_path))) (\<lambda>staged.
       if \<not> kind_matches (me_kind entry) staged
       then fail_io ''staged filesystem kind does not match manifest kind''
       else check_identity pl entry source_path)"

section \<open>Processing an entry\<close>

text \<open>
  The steps after the first two checks; \<open>process_manifest_entry\<close> turns every error into a failed
  entry. \<open>progress\<close> is given the state and the transform's name.
\<close>

definition import_entry ::
    "codecs \<Rightarrow> payload_ops \<Rightarrow> ServerConfig \<Rightarrow> (string \<Rightarrow> string \<Rightarrow> unit server) \<Rightarrow> ManifestEntry \<Rightarrow> string \<Rightarrow> string \<Rightarrow>
     string \<Rightarrow> DestinationPath \<Rightarrow> (string, string list) io" where
  "import_entry cod pl config progress entry transform_name processing_path work_area destination =
     (let source_path = path_join processing_path (nrp_str (me_staged_path entry)) in
      bind_io (check_staged pl entry source_path) (\<lambda>_.
      bind_io (load_or_resolve_destination_plan cod pl (fpath_of processing_path) destination entry source_path) (\<lambda>target.
      bind_io (prepare_work_entry pl entry source_path work_area) (\<lambda>work_path.
        case map_of (sc_transforms config) transform_name of
          None \<Rightarrow> fail_io ''transform not defined on server''
        | Some def \<Rightarrow>
            apply_transform_for_target pl (\<lambda>state. progress state transform_name) transform_name def work_path target))))"

definition expected_staged :: "ManifestEntry \<Rightarrow> NormalizedRelativePath option" where
  "expected_staged entry =
     (case NormalizedRelativePath_new (path_join ''files'' (nrp_str (me_relative_path entry))) of
        Inr p \<Rightarrow> Some p | Inl _ \<Rightarrow> None)"

definition process_manifest_entry ::
    "codecs \<Rightarrow> payload_ops \<Rightarrow> ServerConfig \<Rightarrow> ManifestEntry \<Rightarrow> Nickname \<Rightarrow> RunId \<Rightarrow> string \<Rightarrow> string \<Rightarrow> nat \<Rightarrow> nat \<Rightarrow>
     DestinationPath \<Rightarrow> ('e, EntryOutcome) io" where
  "process_manifest_entry cod pl config entry nickname run_id processing_path work_area entry_index entry_total destination =
     (case me_transform entry of
        None \<Rightarrow> ret_io (failed_entry entry
          ''server-side non-transform imports are not supported; entry must have a transform'')
      | Some transform_name \<Rightarrow>
        if expected_staged entry = None then ret_io (failed_entry entry ''failed to normalize expected staged path'')
        else if expected_staged entry \<noteq> Some (me_staged_path entry)
        then ret_io (failed_entry entry ''staged_path mismatch'')
        else
          bind_io
            (attempt_io (import_entry cod pl config
              (\<lambda>state transform. write_progress_best_effort cod (fpath_of processing_path) nickname run_id state
                entry_index entry_total (nrp_str (me_relative_path entry)) transform)
              entry transform_name processing_path work_area destination))
            (\<lambda>r.
              case r of
                Inl error \<Rightarrow> ret_io (failed_entry entry error)
              | Inr outputs \<Rightarrow>
                  ret_io (Success (me_kind entry) (client_local_path_str (me_local_path entry))
                    (nrp_str (me_relative_path entry)) outputs (me_transform entry))))"

end
