(* ===== verification/Gc.thy ===== *)
theory Gc
  imports Phases
begin

text \<open>
  Garbage collection of the server's work state (\<open>purgery-server/src/gc.rs\<close>): when a directory
  has expired, and what \<open>run_gc\<close> removes. Times are seconds as 64-bit words; a retention added to a
  time saturates. Log output is left out.
\<close>

section \<open>Expiry\<close>

record ExpiryDecision =
  ed_expired :: bool
  ed_expiry :: u64
  ed_reason :: string

definition mtime_secs :: "fpath \<Rightarrow> u64 server" where
  "mtime_secs p = bind_io (ctx ''metadata'' (fs_mtime p)) (\<lambda>t. ret_io (unix_secs t))"

definition expiry_at :: "u64 \<Rightarrow> u64 \<Rightarrow> u64 \<Rightarrow> string \<Rightarrow> ExpiryDecision" where
  "expiry_at mtime retention now reason =
     (let expiry = saturating_add mtime retention in
      \<lparr>ed_expired = expiry \<le> now, ed_expiry = expiry, ed_reason = reason\<rparr>)"

definition expiry_from_mtime :: "fpath \<Rightarrow> u64 \<Rightarrow> u64 \<Rightarrow> string \<Rightarrow> ExpiryDecision server" where
  "expiry_from_mtime p retention_secs now reason =
     bind_io (mtime_secs p) (\<lambda>mtime. ret_io (expiry_at mtime retention_secs now reason))"

datatype TerminalStatusClassification = ValidTerminal string | Orphan

definition check_toml_version_is_compatible :: "codecs \<Rightarrow> string \<Rightarrow> bool" where
  "check_toml_version_is_compatible cod content \<longleftrightarrow> check_toml_version (cd_toml cod) content = TomlCompatible"

definition state_fits_phase :: "RunPhase \<Rightarrow> RunState \<Rightarrow> bool" where
  "state_fits_phase phase state =
     (case phase of
        Done \<Rightarrow> state = RsDone \<or> state = RsPartial
      | Failed \<Rightarrow> state = RsFailed
      | _ \<Rightarrow> False)"

definition classify_terminal_content ::
    "codecs \<Rightarrow> Nickname \<Rightarrow> RunId \<Rightarrow> RunPhase \<Rightarrow> string \<Rightarrow> TerminalStatusClassification" where
  "classify_terminal_content cod nickname run_id phase content =
     (if \<not> check_toml_version_is_compatible cod content then Orphan
      else case run_status_from_toml (cd_de_status cod) content of
        Inl _ \<Rightarrow> Orphan
      | Inr status \<Rightarrow>
        if rs_nickname status \<noteq> nickname \<or> rs_run_id status \<noteq> run_id then Orphan
        else if \<not> state_fits_phase phase (rs_state status) then Orphan
        else ValidTerminal
          (case phase of Done \<Rightarrow> ''done retention'' | Failed \<Rightarrow> ''failed retention'' | _ \<Rightarrow> ''terminal retention''))"

definition classify_terminal_status ::
    "codecs \<Rightarrow> fpath \<Rightarrow> Nickname \<Rightarrow> RunId \<Rightarrow> RunPhase \<Rightarrow> TerminalStatusClassification server" where
  "classify_terminal_status cod status_path nickname run_id phase =
     bind_io (attempt_io (fs_read status_path)) (\<lambda>r.
       case r of
         Inl _ \<Rightarrow> ret_io Orphan
       | Inr content \<Rightarrow> ret_io (classify_terminal_content cod nickname run_id phase content))"

definition orphan_expiry :: "ServerConfig \<Rightarrow> fpath \<Rightarrow> u64 \<Rightarrow> string \<Rightarrow> ExpiryDecision server" where
  "orphan_expiry config run now reason =
     bind_io (mtime_secs run) (\<lambda>mtime.
       ret_io (expiry_at mtime (orphan_retention_secs (sc_gc config)) now reason))"

definition expiry_for_terminal ::
    "codecs \<Rightarrow> fpath \<Rightarrow> fpath \<Rightarrow> u64 \<Rightarrow> ServerConfig \<Rightarrow> Nickname \<Rightarrow> RunId \<Rightarrow> RunPhase \<Rightarrow> u64 \<Rightarrow> ExpiryDecision server" where
  "expiry_for_terminal cod status_path run retention_secs config nickname run_id phase now =
     bind_io (classify_terminal_status cod status_path nickname run_id phase) (\<lambda>c.
       case c of
         ValidTerminal reason \<Rightarrow> expiry_from_mtime status_path retention_secs now reason
       | Orphan \<Rightarrow> orphan_expiry config run now ''invalid terminal status'')"

section \<open>Collecting one run\<close>

definition remove_run :: "fpath \<Rightarrow> unit server" where
  "remove_run run = ctx ''failed to remove expired run'' (fs_remove_dir_all run)"

text \<open>The orphan policy: remove the directory once its own age exceeds the orphan retention.\<close>

definition collect_orphan :: "ServerConfig \<Rightarrow> fpath \<Rightarrow> u64 \<Rightarrow> string \<Rightarrow> unit server" where
  "collect_orphan config run now reason =
     bind_io (orphan_expiry config run now reason) (\<lambda>d.
       if ed_expired d then remove_run run else ret_io ())"

definition collect_failed ::
    "codecs \<Rightarrow> ServerConfig \<Rightarrow> Nickname \<Rightarrow> RunId \<Rightarrow> fpath \<Rightarrow> u64 \<Rightarrow> unit server" where
  "collect_failed cod config nickname run_id run now =
     bind_io
       (expiry_for_terminal cod (run @ [''status.toml'']) run (failed_retention_secs (sc_gc config)) config
         nickname run_id Failed now)
       (\<lambda>decision. if ed_expired decision then remove_run run else ret_io ())"

definition collect_incoming ::
    "codecs \<Rightarrow> ServerConfig \<Rightarrow> Nickname \<Rightarrow> RunId \<Rightarrow> fpath \<Rightarrow> u64 \<Rightarrow> unit server" where
  "collect_incoming cod config nickname run_id run now =
     bind_io (attempt_io (fs_read (run @ [''lease.toml'']))) (\<lambda>r.
       case r of
         Inl _ \<Rightarrow> collect_orphan config run now ''missing lease''
       | Inr content \<Rightarrow>
         if \<not> check_toml_version_is_compatible cod content
         then collect_orphan config run now ''incompatible purgery_version''
         else
           (case cd_de_lease cod content of
              Inl _ \<Rightarrow> collect_orphan config run now ''malformed lease''
            | Inr lease \<Rightarrow>
              if lf_protocol_version lease \<noteq> PROTOCOL_VERSION
              then collect_orphan config run now ''protocol_version mismatch''
              else if lf_nickname lease \<noteq> nickname_str nickname \<or> lf_run_id lease \<noteq> run_id_str run_id
              then collect_orphan config run now ''lease envelope mismatch''
              else if lf_expires_at lease \<le> now then remove_run run
              else ret_io ()))"

definition collect_processing :: "ServerConfig \<Rightarrow> nat \<Rightarrow> fpath \<Rightarrow> u64 \<Rightarrow> unit server" where
  "collect_processing config h run now =
     bind_io (mtime_secs run) (\<lambda>mtime.
       let expiry = saturating_add mtime (processing_retention_secs (sc_gc config));
           expired = expiry \<le> now
       in
       bind_io (probe_processor_lock_readonly h run) (\<lambda>active.
         if active = Some True then ret_io ()
         else if expired then remove_run run
         else ret_io ()))"

text \<open>Whether the status of a done run allows pruning: current, its own, and exactly done.\<close>

definition prunable_status :: "codecs \<Rightarrow> Nickname \<Rightarrow> RunId \<Rightarrow> string \<Rightarrow> bool" where
  "prunable_status cod nickname run_id content \<longleftrightarrow>
     check_toml_version_is_compatible cod content \<and>
     (case run_status_from_toml (cd_de_status cod) content of
        Inl _ \<Rightarrow> False
      | Inr status \<Rightarrow>
        rs_nickname status = nickname \<and> rs_run_id status = run_id \<and> rs_state status = RsDone)"

definition collect_done ::
    "codecs \<Rightarrow> ServerConfig \<Rightarrow> Nickname \<Rightarrow> RunId \<Rightarrow> fpath \<Rightarrow> u64 \<Rightarrow> unit server" where
  "collect_done cod config nickname run_id run now =
     bind_io
       (expiry_for_terminal cod (run @ [''status.toml'']) run (done_retention_secs (sc_gc config)) config
         nickname run_id Done now)
       (\<lambda>decision.
         if ed_expired decision then remove_run run
         else
           bind_io (attempt_io (fs_read (run @ [''status.toml'']))) (\<lambda>r.
             case r of
               Inl _ \<Rightarrow> ret_io ()
             | Inr content \<Rightarrow>
               if prunable_status cod nickname run_id content then prune_success_terminal run
               else ret_io ()))"

definition expire_by_mtime :: "fpath \<Rightarrow> u64 \<Rightarrow> u64 \<Rightarrow> unit server" where
  "expire_by_mtime run now retention =
     bind_io (mtime_secs run) (\<lambda>mtime.
       if saturating_add mtime retention \<le> now then remove_run run else ret_io ())"

definition collect_run ::
    "codecs \<Rightarrow> ServerConfig \<Rightarrow> nat \<Rightarrow> Nickname \<Rightarrow> RunId \<Rightarrow> RunPhase \<Rightarrow> fpath \<Rightarrow> u64 \<Rightarrow> unit server" where
  "collect_run cod config h nickname run_id phase run now =
     (case phase of
        Incoming \<Rightarrow> collect_incoming cod config nickname run_id run now
      | Ready \<Rightarrow> expire_by_mtime run now (ready_retention_secs (sc_gc config))
      | Processing \<Rightarrow> collect_processing config h run now
      | Done \<Rightarrow> collect_done cod config nickname run_id run now
      | Failed \<Rightarrow> collect_failed cod config nickname run_id run now)"

section \<open>Walking the work directory\<close>

definition collect_unknown :: "ServerConfig \<Rightarrow> fpath \<Rightarrow> u64 \<Rightarrow> string \<Rightarrow> unit server" where
  "collect_unknown config run now reason =
     bind_io (orphan_expiry config run now reason) (\<lambda>d.
       if ed_expired d then ctx ''failed to remove orphan request'' (fs_remove_dir_all run) else ret_io ())"

definition collect_invalid_nickname_dir :: "ServerConfig \<Rightarrow> fpath \<Rightarrow> u64 \<Rightarrow> unit server" where
  "collect_invalid_nickname_dir config p now =
     bind_io (orphan_expiry config p now ''invalid nickname'') (\<lambda>d.
       if ed_expired d then ctx ''failed to remove invalid top-level directory'' (fs_remove_dir_all p)
       else ret_io ())"

definition collect_phase ::
    "codecs \<Rightarrow> ServerConfig \<Rightarrow> nat \<Rightarrow> Nickname \<Rightarrow> fpath \<Rightarrow> u64 \<Rightarrow> RunPhase \<Rightarrow> unit server" where
  "collect_phase cod config h nickname nickname_path now phase =
     (let phase_dir = nickname_path @ [phase_str phase] in
      bind_io (fs_exists phase_dir) (\<lambda>ex.
        if \<not> ex then ret_io ()
        else
          bind_io (ctx ''failed to read phase dir'' (fs_read_dir phase_dir)) (\<lambda>names.
            for_io names (\<lambda>name.
              bind_io (fs_is_dir (phase_dir @ [name])) (\<lambda>d.
                if \<not> d then ret_io ()
                else
                  (case RunId_new name of
                     Inl _ \<Rightarrow> collect_unknown config (phase_dir @ [name]) now ''invalid run id''
                   | Inr run_id \<Rightarrow>
                     collect_run cod config h nickname run_id phase (phase_dir @ [name]) now))))))"

definition run_gc :: "codecs \<Rightarrow> ServerConfig \<Rightarrow> nat \<Rightarrow> unit server" where
  "run_gc cod config h =
     (let root = fpath_of (work_dir_path (sc_work_dir config)) in
      bind_io (fs_exists root) (\<lambda>ex.
        if \<not> ex then ret_io ()
        else
          bind_io now_secs (\<lambda>now.
          bind_io (ctx ''failed to read work directory'' (fs_read_dir root)) (\<lambda>names.
            for_io names (\<lambda>name.
              bind_io (fs_is_dir (root @ [name])) (\<lambda>d.
                if \<not> d then ret_io ()
                else
                  (case Nickname_new name of
                     Inl _ \<Rightarrow> collect_invalid_nickname_dir config (root @ [name]) now
                   | Inr nickname \<Rightarrow>
                     for_io all_phases (collect_phase cod config h nickname (root @ [name]) now))))))))"

end
