(* ===== verification/Process.thy ===== *)
theory Process
  imports Entries Gc
begin

text \<open>
  Processing runs (\<open>purgery-server/src/process.rs\<close> from \<open>validate_run_lease_protocol\<close> on, and
  \<open>recover.rs\<close>): claiming a ready run under its lock, processing it, recovering an interrupted
  processing run, and the two entry points \<open>process_run_target\<close> and \<open>process_once_raw\<close>. \<open>h\<close> is the
  handle under which this process takes locks; dropping a lock is \<open>fs_unlock\<close>. Log output and the
  interpolated values of the messages are left out.
\<close>

section \<open>Errors\<close>

datatype ProcessingError = Incompatible fpath string | OtherError server_error

type_synonym 'a processing = "(ProcessingError, 'a) io"

text \<open>\<open>Display\<close> of an \<open>anyhow\<close> error: its outermost message.\<close>

fun err_text :: "server_error \<Rightarrow> string" where
  "err_text (Bail msg) = msg"
| "err_text (IoContext msg _) = msg"
| "err_text (SerializeError msg _) = msg"

fun processing_error_text :: "ProcessingError \<Rightarrow> string" where
  "processing_error_text (Incompatible _ msg) = msg"
| "processing_error_text (OtherError e) = err_text e"

datatype RecoveryError = IncompatibleStatus string | OtherRecovery server_error

fun recovery_of_processing :: "ProcessingError \<Rightarrow> RecoveryError" where
  "recovery_of_processing (Incompatible _ msg) = IncompatibleStatus msg"
| "recovery_of_processing (OtherError e) = OtherRecovery e"

section \<open>Reading the inputs of a run\<close>

definition validate_run_lease_protocol :: "codecs \<Rightarrow> fpath \<Rightarrow> unit processing" where
  "validate_run_lease_protocol cod run =
     bind_io (attempt_io (fs_read (run @ [''lease.toml'']))) (\<lambda>r.
       case r of
         Inl e \<Rightarrow> if e = IoNotFound then ret_io () else fail_io (OtherError (Bail ''failed to read run lease''))
       | Inr contents \<Rightarrow>
         (case cd_de_lease cod contents of
            Inl _ \<Rightarrow> fail_io (OtherError (Bail ''failed to parse run lease''))
          | Inr lease \<Rightarrow>
            if lf_protocol_version lease \<noteq> PROTOCOL_VERSION
            then fail_io (Incompatible (run @ [''lease.toml''])
              ''incompatible run lease protocol version; leaving run untouched'')
            else ret_io ()))"

text \<open>The version gate that both inputs pass.\<close>

definition check_input_version :: "codecs \<Rightarrow> fpath \<Rightarrow> string \<Rightarrow> string \<Rightarrow> unit processing" where
  "check_input_version cod path what content =
     (case check_toml_version (cd_toml cod) content of
        TomlCompatible \<Rightarrow> ret_io ()
      | TomlIncompatible _ _ \<Rightarrow> fail_io (Incompatible path (''incompatible '' @ what @ '' version''))
      | TomlInvalid _ \<Rightarrow> fail_io (OtherError (Bail (''invalid '' @ what @ '' TOML''))))"

definition other :: "string \<Rightarrow> ('e, 'a) io \<Rightarrow> 'a processing" where
  "other msg m = fail_with (OtherError (Bail msg)) m"

definition read_compatible_run_inputs ::
    "codecs \<Rightarrow> fpath \<Rightarrow> Nickname \<Rightarrow> RunId \<Rightarrow> (RunConfig \<times> Manifest) processing" where
  "read_compatible_run_inputs cod run nickname run_id =
     bind_io (validate_run_lease_protocol cod run) (\<lambda>_.
     bind_io (other ''failed to read run config'' (fs_read (run @ [''run.toml'']))) (\<lambda>run_config_content.
     bind_io (check_input_version cod (run @ [''run.toml'']) ''run config'' run_config_content) (\<lambda>_.
     bind_io (other ''failed to parse run config''
       (lift_res (run_config_from_toml (cd_de_run_config cod) run_config_content))) (\<lambda>run_config.
     bind_io (other ''failed to read manifest'' (fs_read (run @ [''manifest.toml'']))) (\<lambda>manifest_content.
     bind_io (check_input_version cod (run @ [''manifest.toml'']) ''manifest'' manifest_content) (\<lambda>_.
     bind_io (other ''failed to parse manifest''
       (lift_res (manifest_from_toml (cd_de_manifest cod) manifest_content))) (\<lambda>manifest.
     bind_io (other ''envelope validation failed''
       (lift_res (validate_envelope nickname run_id run_config manifest))) (\<lambda>_.
       ret_io (run_config, manifest)))))))))"

section \<open>Claiming a ready run\<close>

datatype ReadyClaimOutcome =
    Claimed nat
  | AlreadyProcessing
  | AlreadyTerminalPhase
  | ActiveClaimer
  | IncompatibleReady string
  | MalformedReadyMovedToFailed server_error
  | MalformedReadyMoveFailed server_error server_error
  | NotFound
  | ClaimFailed server_error

definition recheck_state :: "ServerConfig \<Rightarrow> Nickname \<Rightarrow> RunId \<Rightarrow> ReadyClaimOutcome server" where
  "recheck_state config nickname run_id =
     (let at = run_path (sc_work_dir config) nickname run_id in
      bind_io (fs_exists (at Processing)) (\<lambda>processing.
        if processing then ret_io AlreadyProcessing
        else
          bind_io (first_existing_phase (sc_work_dir config) nickname run_id [Done, Failed]) (\<lambda>terminal.
            if terminal \<noteq> None then ret_io AlreadyTerminalPhase
            else
              bind_io (fs_exists (at Ready)) (\<lambda>ready.
                if ready then ret_io (ClaimFailed (Bail ''failed to claim run: ready still exists but rename failed''))
                else ret_io NotFound))))"

definition failure_status :: "Nickname \<Rightarrow> RunId \<Rightarrow> string \<Rightarrow> RunStatus" where
  "failure_status nickname run_id msg =
     \<lparr>rs_purgery_version = PURGERY_VERSION, rs_run_id = run_id, rs_nickname = nickname,
      rs_state = RsFailed, rs_entries = [], rs_error = Some msg\<rparr>"

text \<open>The lock is held until the end and then dropped.\<close>

definition handle_malformed_ready ::
    "codecs \<Rightarrow> ServerConfig \<Rightarrow> Nickname \<Rightarrow> RunId \<Rightarrow> server_error \<Rightarrow> ReadyClaimOutcome server" where
  "handle_malformed_ready cod config nickname run_id original_error =
     (let wd = sc_work_dir config;
          ready_path = run_path wd nickname run_id Ready;
          failed_path = run_path wd nickname run_id Failed;
          status = failure_status nickname run_id (err_text original_error)
      in
      bind_io (attempt_io (publish_status_atomic cod ready_path status)) (\<lambda>published.
        case published of
          Inl (e :: server_error) \<Rightarrow>
            bind_io (quietly (fs_remove_file (ready_path @ [''status.toml.tmp'']))) (\<lambda>_.
              ret_io (MalformedReadyMoveFailed original_error (Bail ''failed to write failure status to ready'')))
        | Inr _ \<Rightarrow>
            bind_io (attempt_io (fs_create_dir_all (run_parent wd nickname run_id Failed))) (\<lambda>made.
              case made of
                Inl _ \<Rightarrow> ret_io (MalformedReadyMoveFailed original_error (Bail ''failed to create failed parent''))
              | Inr _ \<Rightarrow>
                  bind_io (attempt_io (fs_rename ready_path failed_path)) (\<lambda>renamed.
                    case renamed of
                      Inl _ \<Rightarrow>
                        bind_io (quietly (fs_remove_file (ready_path @ [''status.toml'']))) (\<lambda>_.
                        bind_io (quietly (fs_remove_file (ready_path @ [''status.toml.tmp'']))) (\<lambda>_.
                          ret_io (MalformedReadyMoveFailed original_error (Bail ''failed to move malformed ready to failed''))))
                    | Inr _ \<Rightarrow>
                        bind_io (drop_lock_file failed_path) (\<lambda>_.
                          ret_io (MalformedReadyMovedToFailed original_error))))))"

text \<open>What follows once the lock of the ready run is held.\<close>

definition claim_locked ::
    "codecs \<Rightarrow> ServerConfig \<Rightarrow> nat \<Rightarrow> Nickname \<Rightarrow> RunId \<Rightarrow> ReadyClaimOutcome server" where
  "claim_locked cod config h nickname run_id =
     (let wd = sc_work_dir config;
          ready_path = run_path wd nickname run_id Ready;
          processing_path = run_path wd nickname run_id Processing
      in
      bind_io (attempt_io (read_compatible_run_inputs cod ready_path nickname run_id)) (\<lambda>inputs.
        case inputs of
          Inl (Incompatible _ msg) \<Rightarrow> bind_io (fs_unlock h) (\<lambda>_. ret_io (IncompatibleReady msg))
        | Inl (OtherError e) \<Rightarrow>
            bind_io (handle_malformed_ready cod config nickname run_id e) (\<lambda>outcome.
            bind_io (fs_unlock h) (\<lambda>_. ret_io outcome))
        | Inr _ \<Rightarrow>
            bind_io (attempt_io (fs_create_dir_all (run_parent wd nickname run_id Processing))) (\<lambda>made.
              case made of
                Inl _ \<Rightarrow> bind_io (fs_unlock h) (\<lambda>_. ret_io (ClaimFailed (Bail ''failed to create processing parent'')))
              | Inr _ \<Rightarrow>
                  bind_io (attempt_io (fs_rename ready_path processing_path)) (\<lambda>renamed.
                    case renamed of
                      Inr _ \<Rightarrow> ret_io (Claimed h)
                    | Inl _ \<Rightarrow> bind_io (fs_unlock h) (\<lambda>_. recheck_state config nickname run_id)))))"

definition claim_ready_run ::
    "codecs \<Rightarrow> ServerConfig \<Rightarrow> nat \<Rightarrow> Nickname \<Rightarrow> RunId \<Rightarrow> ReadyClaimOutcome server" where
  "claim_ready_run cod config h nickname run_id =
     (let ready_path = run_path (sc_work_dir config) nickname run_id Ready in
      bind_io (fs_exists ready_path) (\<lambda>ready.
        if \<not> ready then recheck_state config nickname run_id
        else
          bind_io (attempt_io (try_lock_existing_dir h ready_path)) (\<lambda>lock.
            case lock of
              Inl (_ :: server_error) \<Rightarrow> ret_io (ClaimFailed (Bail ''failed to acquire processor lock''))
            | Inr (Acquired _) \<Rightarrow> claim_locked cod config h nickname run_id
            | Inr Busy \<Rightarrow> ret_io ActiveClaimer
            | Inr LockMissing \<Rightarrow> recheck_state config nickname run_id)))"

section \<open>Processing a claimed run\<close>

definition other_io :: "'a server \<Rightarrow> 'a processing" where
  "other_io m = err_io OtherError m"

text \<open>Publishing the status of a processed run and moving the run.\<close>

definition publish_and_finalize ::
    "codecs \<Rightarrow> ServerConfig \<Rightarrow> Nickname \<Rightarrow> RunId \<Rightarrow> EntryOutcome \<Rightarrow> unit server" where
  "publish_and_finalize cod config nickname run_id outcome =
     (let processing_path = run_path (sc_work_dir config) nickname run_id Processing;
          run_state = (case outcome of Success _ _ _ _ _ \<Rightarrow> RsDone | Failure _ _ _ _ \<Rightarrow> RsFailed);
          run_status = \<lparr>rs_purgery_version = PURGERY_VERSION, rs_run_id = run_id, rs_nickname = nickname,
            rs_state = run_state, rs_entries = [into_entry outcome], rs_error = None\<rparr>
      in
      bind_io (ser_io ''failed to serialize status'' (cd_ser_status cod run_status)) (\<lambda>status_toml.
      bind_io (ctx ''failed to write temporary status'' (fs_write (processing_path @ [''status.toml.tmp'']) status_toml)) (\<lambda>_.
      bind_io (ctx ''failed to finalize status''
        (fs_rename (processing_path @ [''status.toml.tmp'']) (processing_path @ [''status.toml'']))) (\<lambda>_.
        finalize_processing_run config nickname run_id run_state))))"

definition process_inputs ::
    "codecs \<Rightarrow> payload_ops \<Rightarrow> ServerConfig \<Rightarrow> Nickname \<Rightarrow> RunId \<Rightarrow> RunConfig \<Rightarrow> Manifest \<Rightarrow> unit server" where
  "process_inputs cod pl config nickname run_id run_config manifest =
     (let processing_dir = run_dir (sc_work_dir config) nickname run_id Processing;
          processing_path = run_path (sc_work_dir config) nickname run_id Processing;
          work_area = work_area_dir (sc_work_dir config) nickname run_id;
          entry = hd (mf_entries manifest);
          progress = write_progress_best_effort cod processing_path nickname run_id
      in
      bind_io (quietly (fs_remove_dir_all (fpath_of work_area))) (\<lambda>_.
      bind_io (ctx ''failed to create work area'' (fs_create_dir_all (fpath_of work_area))) (\<lambda>_.
      bind_io (progress ''processing_started'' 0 (length (mf_entries manifest)) [] []) (\<lambda>_.
      bind_io (progress ''processing_entry'' 0 1 (nrp_str (me_relative_path entry)) []) (\<lambda>_.
      bind_io (process_manifest_entry cod pl config entry nickname run_id processing_dir work_area 0 1
        (rc_destination run_config)) (\<lambda>outcome.
      bind_io (case outcome of
          Success _ _ _ _ _ \<Rightarrow> quietly (fs_remove_dir_all (fpath_of work_area))
        | Failure _ _ _ _ \<Rightarrow> ret_io ()) (\<lambda>_.
      bind_io (progress ''publishing_status'' 0 1 [] []) (\<lambda>_.
        publish_and_finalize cod config nickname run_id outcome))))))))"

definition process_processing_run ::
    "codecs \<Rightarrow> payload_ops \<Rightarrow> ServerConfig \<Rightarrow> Nickname \<Rightarrow> RunId \<Rightarrow> unit processing" where
  "process_processing_run cod pl config nickname run_id =
     (let wd = sc_work_dir config;
          fail_run = (\<lambda>e. bind_io (other_io (write_run_failure cod wd nickname run_id (err_text e)))
            (\<lambda>_. fail_io (OtherError e)))
      in
      bind_io (attempt_io (read_compatible_run_inputs cod (run_path wd nickname run_id Processing) nickname run_id)) (\<lambda>inputs.
        case inputs of
          Inl (Incompatible path msg) \<Rightarrow> fail_io (Incompatible path msg)
        | Inl (OtherError e) \<Rightarrow> fail_run e
        | Inr (run_config, manifest) \<Rightarrow>
          (case validate_transform_run config manifest run_config of
             Inl e \<Rightarrow> fail_run e
           | Inr _ \<Rightarrow> other_io (process_inputs cod pl config nickname run_id run_config manifest))))"

section \<open>Recovering a processing run\<close>

definition recover_malformed_status ::
    "codecs \<Rightarrow> ServerConfig \<Rightarrow> Nickname \<Rightarrow> RunId \<Rightarrow> (RecoveryError, unit) io" where
  "recover_malformed_status cod config nickname run_id =
     err_io OtherRecovery (write_run_failure cod (sc_work_dir config) nickname run_id
       ''interrupted processing had malformed status file'')"

text \<open>What to do with the status found in a processing run.\<close>

definition recover_by_status ::
    "codecs \<Rightarrow> ServerConfig \<Rightarrow> Nickname \<Rightarrow> RunId \<Rightarrow> string \<Rightarrow> (RecoveryError, unit) io" where
  "recover_by_status cod config nickname run_id content =
     (case probe_purgery_version_from_toml (cd_toml cod) content of
        Inl MissingVersion \<Rightarrow> fail_io (IncompatibleStatus
          ''status file is missing purgery_version (too old); leaving in place for operator inspection'')
      | Inl (ProbeInvalidToml _) \<Rightarrow> recover_malformed_status cod config nickname run_id
      | Inr version \<Rightarrow>
        if \<not> is_ok (require_compatible_purgery_version version ''status'')
        then fail_io (IncompatibleStatus
          ''status file has incompatible purgery_version; leaving in place for operator inspection'')
        else
          (case run_status_from_toml (cd_de_status cod) content of
             Inl _ \<Rightarrow> recover_malformed_status cod config nickname run_id
           | Inr status \<Rightarrow>
             if rs_nickname status \<noteq> nickname \<or> rs_run_id status \<noteq> run_id
             then err_io OtherRecovery (write_run_failure cod (sc_work_dir config) nickname run_id
               ''interrupted processing had mismatched status envelope'')
             else err_io OtherRecovery (finalize_processing_run config nickname run_id (rs_state status))))"

definition recover_or_process_processing_run ::
    "codecs \<Rightarrow> payload_ops \<Rightarrow> ServerConfig \<Rightarrow> Nickname \<Rightarrow> RunId \<Rightarrow> (RecoveryError, unit) io" where
  "recover_or_process_processing_run cod pl config nickname run_id =
     (let processing_path = run_path (sc_work_dir config) nickname run_id Processing in
      bind_io (err_io recovery_of_processing (validate_run_lease_protocol cod processing_path)) (\<lambda>_.
      bind_io (attempt_io (fs_read (processing_path @ [''status.toml'']))) (\<lambda>r.
        case r of
          Inr content \<Rightarrow> recover_by_status cod config nickname run_id content
        | Inl e \<Rightarrow>
            if e = IoNotFound
            then err_io recovery_of_processing (process_processing_run cod pl config nickname run_id)
            else fail_io (OtherRecovery (Bail ''failed to read processing status'')))))"

datatype ProcessingTargetOutcome =
    Recovered
  | ActiveProcessor
  | IncompatibleTarget string
  | TargetNotFound
  | FailedPublished server_error
  | FailurePublishFailed server_error server_error

text \<open>The outcome of a recovery, with the failure published while the lock is still held.\<close>

definition settle_recovery ::
    "codecs \<Rightarrow> ServerConfig \<Rightarrow> Nickname \<Rightarrow> RunId \<Rightarrow> (RecoveryError, unit) result \<Rightarrow> ProcessingTargetOutcome server" where
  "settle_recovery cod config nickname run_id r =
     (case r of
        Inr _ \<Rightarrow> ret_io Recovered
      | Inl (IncompatibleStatus msg) \<Rightarrow> ret_io (IncompatibleTarget msg)
      | Inl (OtherRecovery recovery_error) \<Rightarrow>
          bind_io (fs_exists (run_path (sc_work_dir config) nickname run_id Processing)) (\<lambda>ex.
            if ex then
              bind_io (attempt_io (write_run_failure cod (sc_work_dir config) nickname run_id
                (''processing recovery failed: '' @ err_text recovery_error))) (\<lambda>w.
                case w of
                  Inr _ \<Rightarrow> ret_io (FailedPublished recovery_error)
                | Inl publish_error \<Rightarrow> ret_io (FailurePublishFailed recovery_error publish_error))
            else ret_io (FailedPublished recovery_error)))"

definition recover_processing_run_if_unlocked ::
    "codecs \<Rightarrow> payload_ops \<Rightarrow> ServerConfig \<Rightarrow> nat \<Rightarrow> Nickname \<Rightarrow> RunId \<Rightarrow> ProcessingTargetOutcome server" where
  "recover_processing_run_if_unlocked cod pl config h nickname run_id =
     (let processing_path = run_path (sc_work_dir config) nickname run_id Processing in
      bind_io (fs_exists processing_path) (\<lambda>ex.
        if \<not> ex then ret_io TargetNotFound
        else
          bind_io (attempt_io (try_lock_existing_dir h processing_path)) (\<lambda>lock.
            case lock of
              Inl (_ :: server_error) \<Rightarrow> fail_io (Bail ''failed to check processor lock on processing run'')
            | Inr Busy \<Rightarrow> ret_io ActiveProcessor
            | Inr LockMissing \<Rightarrow> ret_io TargetNotFound
            | Inr (Acquired _) \<Rightarrow>
                bind_io (attempt_io (recover_or_process_processing_run cod pl config nickname run_id)) (\<lambda>r.
                bind_io (settle_recovery cod config nickname run_id r) (\<lambda>outcome.
                bind_io (fs_unlock h) (\<lambda>_. ret_io outcome))))))"

section \<open>Verified terminal status\<close>

definition judge_verified :: "codecs \<Rightarrow> Nickname \<Rightarrow> RunId \<Rightarrow> string \<Rightarrow> (server_error, RunStatus) result" where
  "judge_verified cod nickname run_id content =
     (case run_status_from_toml (cd_de_status cod) content of
        Inl _ \<Rightarrow> Inl (Bail ''terminal status.toml is invalid'')
      | Inr status \<Rightarrow>
        if \<not> is_ok (require_compatible_purgery_version (rs_purgery_version status) ''terminal status'')
        then Inl (Bail ''incompatible terminal status version'')
        else if rs_nickname status \<noteq> nickname \<or> rs_run_id status \<noteq> run_id
        then Inl (Bail ''terminal status envelope mismatch'')
        else Inr status)"

fun verified_terminal_in ::
    "codecs \<Rightarrow> ServerConfig \<Rightarrow> Nickname \<Rightarrow> RunId \<Rightarrow> RunPhase list \<Rightarrow> (string \<times> string) option server" where
  "verified_terminal_in cod config nickname run_id [] = ret_io None"
| "verified_terminal_in cod config nickname run_id (phase # phases) =
     (let dir = run_path (sc_work_dir config) nickname run_id phase in
      bind_io (fs_exists dir) (\<lambda>ex.
        if \<not> ex then verified_terminal_in cod config nickname run_id phases
        else
          bind_io (ctx ''terminal directory exists but status.toml is unreadable''
            (fs_read (dir @ [''status.toml'']))) (\<lambda>content.
          bind_io (lift_res (judge_verified cod nickname run_id content)) (\<lambda>status.
            ret_io (Some (phase_str phase, run_state_str (rs_state status)))))))"

definition verified_terminal_status ::
    "codecs \<Rightarrow> ServerConfig \<Rightarrow> Nickname \<Rightarrow> RunId \<Rightarrow> (string \<times> string) option server" where
  "verified_terminal_status cod config nickname run_id = verified_terminal_in cod config nickname run_id [Done, Failed]"

section \<open>Processing one run\<close>

record ProcessRunInnerResult =
  ir_outcome :: ProcessRunOutcome
  ir_run_phase :: "string option"
  ir_status_state :: "string option"
  ir_message :: "string option"

text \<open>The answer that rests on a verified terminal status, with the error when there is none.\<close>

definition terminal_answer_or ::
    "codecs \<Rightarrow> ServerConfig \<Rightarrow> Nickname \<Rightarrow> RunId \<Rightarrow> ProcessRunOutcome \<Rightarrow> string \<Rightarrow> string \<Rightarrow> ProcessRunInnerResult server" where
  "terminal_answer_or cod config nickname run_id outcome msg missing =
     bind_io (verified_terminal_status cod config nickname run_id) (\<lambda>v.
       case v of
         None \<Rightarrow> fail_io (Bail missing)
       | Some (run_phase, status_state) \<Rightarrow>
           ret_io \<lparr>ir_outcome = outcome, ir_run_phase = Some run_phase, ir_status_state = Some status_state,
             ir_message = Some msg\<rparr>)"

definition terminal_response ::
    "codecs \<Rightarrow> ServerConfig \<Rightarrow> Nickname \<Rightarrow> RunId \<Rightarrow> ProcessRunOutcome \<Rightarrow> string \<Rightarrow> ProcessRunInnerResult server" where
  "terminal_response cod config nickname run_id outcome msg =
     terminal_answer_or cod config nickname run_id outcome msg
       ''expected terminal status after outcome but no verified terminal status exists''"

definition handle_process_run_processing_outcome ::
    "codecs \<Rightarrow> payload_ops \<Rightarrow> ServerConfig \<Rightarrow> nat \<Rightarrow> Nickname \<Rightarrow> RunId \<Rightarrow> ProcessRunInnerResult server" where
  "handle_process_run_processing_outcome cod pl config h nickname run_id =
     bind_io (recover_processing_run_if_unlocked cod pl config h nickname run_id) (\<lambda>outcome.
       case outcome of
         Recovered \<Rightarrow> terminal_response cod config nickname run_id Processed ''processing run recovered and completed''
       | ActiveProcessor \<Rightarrow>
           ret_io \<lparr>ir_outcome = AlreadyActive, ir_run_phase = Some ''processing'', ir_status_state = None,
             ir_message = Some ''processor lock is held by another process''\<rparr>
       | FailedPublished error \<Rightarrow>
           terminal_response cod config nickname run_id Processed (''processing recovery failed: '' @ err_text error)
       | IncompatibleTarget msg \<Rightarrow> fail_io (Bail (''abandoned processing run is incompatible: '' @ msg))
       | TargetNotFound \<Rightarrow>
           terminal_answer_or cod config nickname run_id AlreadyTerminal ''processing run completed before recovery''
             ''run disappeared from processing but no verified terminal status exists''
       | FailurePublishFailed _ _ \<Rightarrow> fail_io (Bail ''processing recovery failed and could not publish failure''))"

text \<open>Processing a claimed run; the caller drops the lock afterwards.\<close>

definition process_claimed ::
    "codecs \<Rightarrow> payload_ops \<Rightarrow> ServerConfig \<Rightarrow> Nickname \<Rightarrow> RunId \<Rightarrow> ProcessRunInnerResult server" where
  "process_claimed cod pl config nickname run_id =
     bind_io (attempt_io (process_processing_run cod pl config nickname run_id)) (\<lambda>r.
       case r of
         Inr _ \<Rightarrow> terminal_response cod config nickname run_id Processed ''run processed successfully''
       | Inl (Incompatible _ msg) \<Rightarrow> fail_io (Bail (''incompatible run in processing: '' @ msg))
       | Inl (OtherError error) \<Rightarrow>
           bind_io (attempt_io (move_to_failed (sc_work_dir config) nickname run_id)) (\<lambda>moved.
             case moved of
               Inr _ \<Rightarrow> terminal_response cod config nickname run_id Processed (err_text error)
             | Inl (move_err :: server_error) \<Rightarrow> fail_io (Bail (err_text error @ ''; failed to move target run to failed''))))"

definition process_run_inner ::
    "codecs \<Rightarrow> payload_ops \<Rightarrow> ServerConfig \<Rightarrow> nat \<Rightarrow> Nickname \<Rightarrow> RunId \<Rightarrow> ProcessRunInnerResult server" where
  "process_run_inner cod pl config h nickname run_id =
     bind_io (claim_ready_run cod config h nickname run_id) (\<lambda>claim.
       case claim of
         Claimed _ \<Rightarrow>
           bind_io (attempt_io (process_claimed cod pl config nickname run_id)) (\<lambda>inner.
           bind_io (fs_unlock h) (\<lambda>_. lift_res inner))
       | ActiveClaimer \<Rightarrow>
           ret_io \<lparr>ir_outcome = ClaimInProgress, ir_run_phase = Some ''ready'', ir_status_state = None,
             ir_message = Some ''another process owns the ready processor lock''\<rparr>
       | AlreadyProcessing \<Rightarrow> handle_process_run_processing_outcome cod pl config h nickname run_id
       | AlreadyTerminalPhase \<Rightarrow>
           terminal_answer_or cod config nickname run_id AlreadyTerminal ''run was already in a terminal phase''
             ''run reported as terminal by claim ready but no verified terminal status found''
       | IncompatibleReady msg \<Rightarrow> fail_io (Bail (''incompatible run left in place: '' @ msg))
       | MalformedReadyMovedToFailed error \<Rightarrow>
           terminal_response cod config nickname run_id Processed
             (''malformed ready run moved to failed: '' @ err_text error)
       | MalformedReadyMoveFailed _ _ \<Rightarrow> fail_io (Bail ''malformed ready run could not be moved to failed'')
       | ClaimFailed error \<Rightarrow> fail_io (Bail (err_text error))
       | NotFound \<Rightarrow>
           bind_io (fs_exists (run_path (sc_work_dir config) nickname run_id Processing)) (\<lambda>processing.
             if processing then handle_process_run_processing_outcome cod pl config h nickname run_id
             else
               terminal_answer_or cod config nickname run_id AlreadyTerminal ''run was already in a terminal phase''
                 ''run not found in ready, processing, or terminal phases''))"

definition process_run_target ::
    "codecs \<Rightarrow> payload_ops \<Rightarrow> ServerConfig \<Rightarrow> nat \<Rightarrow> Nickname \<Rightarrow> RunId \<Rightarrow> ProcessRunResponse server" where
  "process_run_target cod pl config h nickname run_id =
     bind_io (process_run_inner cod pl config h nickname run_id) (\<lambda>r.
       ret_io \<lparr>pr_protocol_version = PROTOCOL_VERSION, pr_purgery_version = PURGERY_VERSION,
         pr_nickname = nickname_str nickname, pr_run_id = run_id_str run_id,
         pr_outcome = outcome_str (ir_outcome r), pr_run_phase = ir_run_phase r,
         pr_status_state = ir_status_state r, pr_message = ir_message r\<rparr>)"

section \<open>Processing everything once\<close>

text \<open>Recovery outcomes are only logged.\<close>

definition recover_one ::
    "codecs \<Rightarrow> payload_ops \<Rightarrow> ServerConfig \<Rightarrow> nat \<Rightarrow> Nickname \<times> RunId \<Rightarrow> unit server" where
  "recover_one cod pl config h run = quietly (recover_processing_run_if_unlocked cod pl config h (fst run) (snd run))"

definition process_ready_one ::
    "codecs \<Rightarrow> payload_ops \<Rightarrow> ServerConfig \<Rightarrow> nat \<Rightarrow> Nickname \<times> RunId \<Rightarrow> unit server" where
  "process_ready_one cod pl config h run =
     bind_io (claim_ready_run cod config h (fst run) (snd run)) (\<lambda>claim.
       case claim of
         Claimed _ \<Rightarrow>
           bind_io (attempt_io (process_processing_run cod pl config (fst run) (snd run))) (\<lambda>r.
           bind_io (case r of
               Inr _ \<Rightarrow> ret_io ()
             | Inl _ \<Rightarrow> quietly (move_to_failed (sc_work_dir config) (fst run) (snd run))) (\<lambda>_.
             fs_unlock h))
       | _ \<Rightarrow> ret_io ())"

definition process_once_raw :: "codecs \<Rightarrow> payload_ops \<Rightarrow> ServerConfig \<Rightarrow> nat \<Rightarrow> unit server" where
  "process_once_raw cod pl config h =
     bind_io (quietly (run_gc cod config h)) (\<lambda>_.
     bind_io (find_processing_runs (sc_work_dir config)) (\<lambda>processing_runs.
     bind_io (find_ready_runs (sc_work_dir config)) (\<lambda>ready_runs.
     bind_io (for_io processing_runs (recover_one cod pl config h)) (\<lambda>_.
       for_io ready_runs (process_ready_one cod pl config h)))))"

end
