(* ===== verification/Fs_Laws.thy ===== *)
theory Fs_Laws
  imports Fs
begin

text \<open>
  What the operations of \<open>Fs\<close> do, in terms of the view of a file system that ignores directory
  times: look-up equations, well-formedness kept by every operation under every fault, and two
  ways to lift facts to composed operations (relations between worlds, and Hoare triples).
\<close>

section \<open>Look-up equations\<close>

lemma look_Nil [simp]: "look fs [] = Some (DirN 0)"
  by (simp add: look_def)

lemma map_of_filter_key: "map_of (filter (\<lambda>(k, _). P k) fs) q = (if P q then map_of fs q else None)"
  by (induction fs) auto

lemma look_put: "look (put_node p n fs) q = (if q = p \<and> q \<noteq> [] then Some n else look fs q)"
  by (auto simp: look_def put_node_def map_of_filter_key)

lemma look_del_tree: "look (del_tree p fs) q = (if prefix p q \<and> q \<noteq> [] then None else look fs q)"
  by (auto simp: look_def del_tree_def map_of_filter_key)

lemma map_of_moved:
  "map_of (map (\<lambda>(k, n). (q @ drop (length p) k, n)) (filter (\<lambda>(k, _). prefix p k) fs)) r =
    (if prefix q r then map_of fs (p @ drop (length q) r) else None)"
proof (induction fs)
  case (Cons kn fs)
  obtain k n where kn: "kn = (k, n)" by (cases kn)
  have "prefix p k \<Longrightarrow> q @ drop (length p) k = r \<longleftrightarrow> prefix q r \<and> k = p @ drop (length q) r"
    by (auto simp: prefix_def)
  moreover have "\<not> prefix p k \<Longrightarrow> k \<noteq> p @ drop (length q) r"
    by (auto simp: prefix_def)
  ultimately show ?case using Cons kn by auto
qed simp

lemma look_move_tree:
  assumes "p \<noteq> []" "q \<noteq> []"
  shows "look (move_tree p q fs) r =
    (if prefix q r then look fs (p @ drop (length q) r) else if prefix p r then None else look fs r)"
proof (cases "r = []")
  case False
  have "map_of (move_tree p q fs) r = (if prefix q r then map_of fs (p @ drop (length q) r)
      else if prefix p r then None else map_of fs r)"
    unfolding move_tree_def map_of_append map_add_def map_of_moved
    by (auto simp: map_of_filter_key split: option.splits)
  with False assms show ?thesis by (auto simp: look_def)
qed (use assms in simp)

lemma look_touch: "look (touch_dir t p fs) q =
    (if q = p \<and> q \<noteq> [] then map_option (\<lambda>n. case n of DirN _ \<Rightarrow> DirN t | _ \<Rightarrow> n) (look fs q) else look fs q)"
proof -
  have "map_of (touch_dir t p fs) q =
      (if q = p then map_option (\<lambda>n. case n of DirN _ \<Rightarrow> DirN t | _ \<Rightarrow> n) (map_of fs q) else map_of fs q)"
  proof (induction fs)
    case (Cons kn fs)
    then show ?case by (cases kn; cases "snd kn") (auto simp: touch_dir_def)
  qed (simp add: touch_dir_def)
  then show ?thesis by (cases "q = p") (simp_all add: look_def)
qed

section \<open>Views\<close>

definition plain_node :: "node \<Rightarrow> node" where
  "plain_node n = (case n of DirN _ \<Rightarrow> DirN 0 | FileN c m l \<Rightarrow> FileN c 0 l)"

definition view :: "fs \<Rightarrow> fpath \<Rightarrow> node option" where
  "view fs p = map_option plain_node (look fs p)"

abbreviation vdir :: "node option" where
  "vdir \<equiv> Some (DirN 0)"

lemma plain_node_simps [simp]:
  "plain_node (DirN t) = DirN 0"
  "plain_node (FileN c m l) = FileN c 0 l"
  by (simp_all add: plain_node_def)

lemma plain_node_DirN_iff: "plain_node n = DirN t \<longleftrightarrow> t = 0 \<and> (\<exists>t'. n = DirN t')"
  by (cases n) auto

lemma view_Nil [simp]: "view fs [] = vdir"
  by (simp add: view_def)

lemma view_touch [simp]: "view (touch_dir t p fs) = view fs"
proof
  fix q
  show "view (touch_dir t p fs) q = view fs q"
  proof (cases "look fs q")
    case (Some n)
    then show ?thesis by (cases n) (auto simp: view_def look_touch)
  qed (auto simp: view_def look_touch)
qed

lemma view_put: "p \<noteq> [] \<Longrightarrow> view (put_node p n fs) = (view fs)(p \<mapsto> plain_node n)"
  by (rule ext) (auto simp: view_def look_put)

lemma view_del_tree: "p \<noteq> [] \<Longrightarrow> view (del_tree p fs) = (\<lambda>q. if prefix p q then None else view fs q)"
  by (rule ext) (auto simp: view_def look_del_tree)

definition vmove :: "fpath \<Rightarrow> fpath \<Rightarrow> (fpath \<Rightarrow> node option) \<Rightarrow> fpath \<Rightarrow> node option" where
  "vmove p q v = (\<lambda>r. if prefix q r then v (p @ drop (length q) r) else if prefix p r then None else v r)"

lemma view_move_tree: "p \<noteq> [] \<Longrightarrow> q \<noteq> [] \<Longrightarrow> view (move_tree p q fs) = vmove p q (view fs)"
  by (rule ext) (simp add: view_def look_move_tree vmove_def)

lemma is_dir_node_view: "is_dir_node (look fs p) \<longleftrightarrow> view fs p = vdir"
  by (auto simp: is_dir_node_def view_def plain_node_DirN_iff split: option.splits node.splits)

lemma look_None_view: "look fs p = None \<longleftrightarrow> view fs p = None"
  by (simp add: view_def)

lemma look_DirN_view: "(\<exists>t. look fs p = Some (DirN t)) \<longleftrightarrow> view fs p = vdir"
  by (auto simp: view_def plain_node_DirN_iff)

lemma look_FileN_view: "(\<exists>m. look fs p = Some (FileN c m l)) \<longleftrightarrow> view fs p = Some (FileN c 0 l)"
proof (cases "look fs p")
  case (Some n)
  then show ?thesis by (cases n) (auto simp: view_def)
qed (simp add: view_def)

lemma view_store: "p \<noteq> [] \<Longrightarrow> \<exists>l. view (store_file t p c fs) = (view fs)(p \<mapsto> FileN c 0 l) \<and>
    (l = None \<or> (\<exists>c' m. look fs p = Some (FileN c' m l)))"
  by (auto simp: store_file_def view_put split: option.splits node.splits)

section \<open>Well-formed trees\<close>

definition keys :: "fs \<Rightarrow> fpath set" where
  "keys fs = set (map fst fs)"

definition fs_wf :: "fs \<Rightarrow> bool" where
  "fs_wf fs \<longleftrightarrow> distinct (map fst fs) \<and> (\<forall>k \<in> keys fs. k \<noteq> [] \<and> is_dir_node (look fs (butlast k)))"

lemma look_None_key: "q \<noteq> [] \<Longrightarrow> look fs q = None \<longleftrightarrow> q \<notin> keys fs"
  by (simp add: look_def map_of_eq_None_iff keys_def)

lemma touch_keys [simp]: "map fst (touch_dir t p fs) = map fst fs"
  unfolding touch_dir_def by (induction fs) auto

lemma keys_touch [simp]: "keys (touch_dir t p fs) = keys fs"
  by (simp only: keys_def touch_keys)

lemma keys_put: "keys (put_node p n fs) = insert p (keys fs)"
  by (auto simp: keys_def put_node_def)

lemma keys_del_tree: "keys (del_tree p fs) = {k \<in> keys fs. \<not> prefix p k}"
  by (force simp: keys_def del_tree_def)

lemma key_list_move_tree:
  "map fst (move_tree p q fs) = map (\<lambda>k. q @ drop (length p) k) (filter (prefix p) (map fst fs)) @
    filter (\<lambda>k. \<not> prefix p k \<and> \<not> prefix q k) (map fst fs)"
  by (simp add: move_tree_def comp_def case_prod_unfold filter_map)

lemma keys_move_tree:
  "keys (move_tree p q fs) = (\<lambda>k. q @ drop (length p) k) ` {k \<in> keys fs. prefix p k} \<union>
    {k \<in> keys fs. \<not> prefix p k \<and> \<not> prefix q k}"
  unfolding keys_def key_list_move_tree by auto

lemma wf_parent_dir:
  assumes "fs_wf fs" "look fs q \<noteq> None" "q \<noteq> []"
  shows "is_dir_node (look fs (butlast q))"
proof -
  have "q \<in> keys fs" using assms(2) look_None_key [OF assms(3), of fs] by argo
  with assms(1) show ?thesis by (simp add: fs_wf_def)
qed

lemma wf_parent_view: "fs_wf fs \<Longrightarrow> view fs q \<noteq> None \<Longrightarrow> view fs (butlast q) = vdir"
  by (cases "q = []") (auto simp: is_dir_node_view [symmetric] look_None_view [symmetric] intro: wf_parent_dir)

lemma wf_prefix_dir:
  assumes "fs_wf fs" "view fs q \<noteq> None" "strict_prefix p q"
  shows "view fs p = vdir"
  using assms(2,3)
proof (induction q rule: rev_induct)
  case (snoc x q)
  have "view fs q = vdir" using wf_parent_view [OF assms(1) snoc.prems(1)] by simp
  then show ?case using snoc by (cases "p = q") (auto simp: strict_prefix_def)
qed (simp add: strict_prefix_def)

lemma wf_iff_view:
  "fs_wf fs \<longleftrightarrow> distinct (map fst fs) \<and> [] \<notin> keys fs \<and> (\<forall>q. view fs q \<noteq> None \<longrightarrow> view fs (butlast q) = vdir)"
proof
  assume "fs_wf fs"
  then show "distinct (map fst fs) \<and> [] \<notin> keys fs \<and> (\<forall>q. view fs q \<noteq> None \<longrightarrow> view fs (butlast q) = vdir)"
    using wf_parent_view [OF \<open>fs_wf fs\<close>] by (auto simp: fs_wf_def)
next
  assume r: "distinct (map fst fs) \<and> [] \<notin> keys fs \<and> (\<forall>q. view fs q \<noteq> None \<longrightarrow> view fs (butlast q) = vdir)"
  have "k \<noteq> [] \<and> is_dir_node (look fs (butlast k))" if "k \<in> keys fs" for k
  proof -
    have "k \<noteq> []" using r that by blast
    then have "look fs k \<noteq> None" using that look_None_key [of k fs] by simp
    with r \<open>k \<noteq> []\<close> show ?thesis by (simp add: is_dir_node_view look_None_view)
  qed
  with r show "fs_wf fs" unfolding fs_wf_def by blast
qed

lemma wf_touch [simp]: "fs_wf (touch_dir t p fs) \<longleftrightarrow> fs_wf fs"
  by (simp add: wf_iff_view)

lemma distinct_filter_keys: "distinct (map fst fs) \<Longrightarrow> distinct (map fst (filter P fs))"
  by (induction fs) auto

lemma wf_put:
  assumes "fs_wf fs" "p \<noteq> []" "view fs (butlast p) = vdir"
    and "plain_node n = DirN 0 \<or> view fs p = None \<or> view fs p \<noteq> vdir"
  shows "fs_wf (put_node p n fs)"
  unfolding wf_iff_view
proof (intro conjI allI impI)
  show "distinct (map fst (put_node p n fs))"
    using assms(1) by (auto simp: put_node_def fs_wf_def distinct_filter_keys)
  show "[] \<notin> keys (put_node p n fs)"
    using assms(1,2) by (auto simp: keys_put fs_wf_def)
  fix q assume "view (put_node p n fs) q \<noteq> None"
  then have "view fs (butlast q) = vdir"
    using assms by (auto simp: view_put wf_parent_view split: if_splits)
  moreover have "butlast q = p \<Longrightarrow> plain_node n = DirN 0"
    using calculation assms(4) by auto
  ultimately show "view (put_node p n fs) (butlast q) = vdir"
    using assms(2) by (auto simp: view_put)
qed

lemma wf_del_tree:
  assumes "fs_wf fs" "p \<noteq> []"
  shows "fs_wf (del_tree p fs)"
  unfolding wf_iff_view
proof (intro conjI allI impI)
  show "distinct (map fst (del_tree p fs))"
    using assms by (auto simp: del_tree_def fs_wf_def distinct_filter_keys)
  show "[] \<notin> keys (del_tree p fs)"
    using assms by (auto simp: keys_del_tree fs_wf_def)
  fix q assume "view (del_tree p fs) q \<noteq> None"
  then have "\<not> prefix p q" "view fs q \<noteq> None" using assms(2) by (auto simp: view_del_tree split: if_splits)
  moreover have "prefix p (butlast q) \<Longrightarrow> prefix p q"
    by (meson prefixeq_butlast prefix_order.trans)
  ultimately show "view (del_tree p fs) (butlast q) = vdir"
    using assms by (auto simp: view_del_tree wf_parent_view)
qed

lemma wf_move_tree:
  assumes "fs_wf fs" "p \<noteq> []" "q \<noteq> []" "\<not> prefix p q" "view fs (butlast q) = vdir"
  shows "fs_wf (move_tree p q fs)"
  unfolding wf_iff_view
proof (intro conjI allI impI)
  let ?mv = "\<lambda>k. q @ drop (length p) k"
  have d: "distinct (map fst fs)" using assms(1) by (simp add: fs_wf_def)
  have "inj_on ?mv {k. prefix p k}" by (auto simp: inj_on_def prefix_def)
  then have "distinct (map ?mv (filter (prefix p) (map fst fs)))"
    using d by (auto simp: distinct_map intro: inj_on_subset)
  then show "distinct (map fst (move_tree p q fs))"
    using d unfolding key_list_move_tree by auto
  show "[] \<notin> keys (move_tree p q fs)"
    using assms(1,3) by (auto simp: keys_move_tree fs_wf_def)
  fix r assume r: "view (move_tree p q fs) r \<noteq> None"
  show "view (move_tree p q fs) (butlast r) = vdir"
  proof (cases "prefix q r")
    case True
    then obtain s where s: "r = q @ s" by (auto simp: prefix_def)
    show ?thesis
    proof (cases "s = []")
      case True
      have "\<not> prefix q (butlast q)" using assms(3) by (metis append_butlast_last_id prefix_order.eq_iff
            prefixeq_butlast append_self_conv list.distinct(1))
      moreover have "\<not> prefix p (butlast q)" using assms(4) by (meson prefixeq_butlast prefix_order.trans)
      ultimately show ?thesis using True s assms by (simp add: view_move_tree vmove_def)
    next
      case False
      with r s assms have "view fs (p @ s) \<noteq> None" by (simp add: view_move_tree vmove_def)
      then have "view fs (butlast (p @ s)) = vdir" using wf_parent_view [OF assms(1)] by blast
      with False s assms show ?thesis by (simp add: view_move_tree vmove_def butlast_append)
    qed
  next
    case False
    with r assms have "view fs r \<noteq> None" "\<not> prefix p r"
      by (auto simp: view_move_tree vmove_def split: if_splits)
    moreover have "\<not> prefix q (butlast r)" "\<not> prefix p (butlast r)"
      using False \<open>\<not> prefix p r\<close> by (meson prefixeq_butlast prefix_order.trans)+
    ultimately show ?thesis using assms wf_parent_view [OF assms(1)]
      by (simp add: view_move_tree vmove_def)
  qed
qed

section \<open>Effects of the operations\<close>

lemma is_dir_look: "is_dir_node (look fs p) \<longleftrightarrow> (\<exists>t. look fs p = Some (DirN t))"
  by (auto simp: is_dir_node_def split: option.splits node.splits)

lemma view_put_file: "p \<noteq> [] \<Longrightarrow> view (put_node p (FileN c t l) fs) = (view fs)(p \<mapsto> FileN c 0 l)"
  by (simp add: view_put)

lemma store_file_effect:
  assumes "p \<noteq> []" "\<not> is_dir_node (look fs p)" "is_dir_node (look fs (butlast p))"
  obtains l where "view (store_file t p c fs) = (view fs)(p \<mapsto> FileN c 0 l)"
    "view fs p = None \<and> l = None \<or> (\<exists>c'. view fs p = Some (FileN c' 0 l))"
    "fs_wf fs \<longrightarrow> fs_wf (store_file t p c fs)"
proof (cases "look fs p")
  case None
  have "view fs p = None" using None by (simp add: view_def)
  moreover have "view fs (butlast p) = vdir" using assms(3) by (simp add: is_dir_node_view)
  ultimately show thesis
    using that [of None] None assms(1)
    by (simp add: store_file_def view_put wf_put)
next
  case (Some n)
  with assms(2) obtain c' m l where n: "n = FileN c' m l"
    by (cases n) (auto simp: is_dir_node_def)
  have "view fs p = Some (FileN c' 0 l)" using Some n by (simp add: view_def)
  moreover have "view fs (butlast p) = vdir" using assms(3) by (simp add: is_dir_node_view)
  ultimately show thesis
    using that [of l] Some n assms(1)
    by (simp add: store_file_def view_put wf_put)
qed

lemma view_del_partly:
  "view (del_partly sel p fs) q =
    (if strict_prefix p q \<and> (\<exists>i. length p < i \<and> i \<le> length q \<and> sel (take i q)) then None else view fs q)"
proof -
  have "map_of (del_partly sel p fs) q =
      (if strict_prefix p q \<and> list_ex (\<lambda>i. sel (take i q)) [Suc (length p)..<Suc (length q)] then None else map_of fs q)"
    unfolding del_partly_def map_of_filter_key by simp
  moreover have "list_ex (\<lambda>i. sel (take i q)) [Suc (length p)..<Suc (length q)] \<longleftrightarrow>
      (\<exists>i. length p < i \<and> i \<le> length q \<and> sel (take i q))"
    by (auto simp: list_ex_iff less_Suc_eq_le Suc_le_eq simp del: upt_Suc)
  ultimately show ?thesis
    by (cases "q = []") (auto simp: view_def look_def)
qed

lemma wf_del_partly:
  assumes "fs_wf fs"
  shows "fs_wf (del_partly sel p fs)"
  unfolding wf_iff_view
proof (intro conjI allI impI)
  show "distinct (map fst (del_partly sel p fs))"
    using assms by (simp add: del_partly_def fs_wf_def distinct_filter_keys)
  show "[] \<notin> keys (del_partly sel p fs)"
    using assms by (auto simp: keys_def del_partly_def fs_wf_def)
  fix q assume q: "view (del_partly sel p fs) q \<noteq> None"
  show "view (del_partly sel p fs) (butlast q) = vdir"
  proof (cases "q = []")
    case False
    have "\<not> (strict_prefix p (butlast q) \<and> (\<exists>i. length p < i \<and> i \<le> length (butlast q) \<and> sel (take i (butlast q))))"
    proof
      assume "strict_prefix p (butlast q) \<and> (\<exists>i. length p < i \<and> i \<le> length (butlast q) \<and> sel (take i (butlast q)))"
      then obtain i where i: "strict_prefix p (butlast q)" "length p < i" "i \<le> length (butlast q)" "sel (take i (butlast q))"
        by blast
      have "strict_prefix p q" using i(1) False
        by (metis append_butlast_last_id prefix_order.less_le_trans prefixI)
      moreover have "sel (take i q)" using i(3,4) by (simp add: butlast_conv_take)
      moreover have "i \<le> length q" using i(3) by simp
      ultimately have "view (del_partly sel p fs) q = None"
        using i(2) unfolding view_del_partly by (subst if_P) blast+
      with q show False by blast
    qed
    moreover have "view fs (butlast q) = vdir"
      using q assms wf_parent_view by (auto simp: view_del_partly split: if_splits)
    ultimately show ?thesis by (simp add: view_del_partly)
  qed simp
qed

text \<open>Everything an operation does to a view, for every fault.\<close>

definition same_env :: "world \<Rightarrow> world \<Rightarrow> bool" where
  "same_env w w' \<longleftrightarrow> clock w' = clock w \<and> faults w' = faults w"

lemma prim_io_env: "prim_io f w = (r, w') \<Longrightarrow>
    same_env w w' \<and> tick w' = Suc (tick w) \<and> f (faults w (tick w)) (clock w (tick w)) (nodes w) = (r, nodes w')"
  by (auto simp: prim_io_def same_env_def split: prod.splits)

lemma prim_io_proj: "prim_io f w = (r, w') \<Longrightarrow>
    r = fst (f (faults w (tick w)) (clock w (tick w)) (nodes w)) \<and>
    nodes w' = snd (f (faults w (tick w)) (clock w (tick w)) (nodes w))"
  by (auto simp: prim_io_def split: prod.splits)

lemma fs_exists_effect:
  "fs_exists p w = (r, w') \<Longrightarrow> same_env w w' \<and> nodes w' = nodes w \<and>
    r = Inr (faults w (tick w) \<noteq> StatFail \<and> view (nodes w) p \<noteq> None)"
  unfolding fs_exists_def by (drule prim_io_env) (auto simp: look_None_view)

lemma fs_is_dir_effect:
  "fs_is_dir p w = (r, w') \<Longrightarrow> same_env w w' \<and> nodes w' = nodes w \<and>
    r = Inr (faults w (tick w) \<noteq> StatFail \<and> view (nodes w) p = vdir)"
  unfolding fs_is_dir_def by (drule prim_io_env) (auto simp: is_dir_node_view)

lemma fs_now_effect:
  "fs_now w = (r, w') \<Longrightarrow> same_env w w' \<and> nodes w' = nodes w \<and> r = Inr (clock w (tick w))"
  unfolding fs_now_def by (drule prim_io_env) auto

lemma fs_read_effect:
  "fs_read p w = (r, w') \<Longrightarrow> same_env w w' \<and> nodes w' = nodes w \<and>
    (\<forall>c. r = Inr c \<longrightarrow> (\<exists>l. view (nodes w) p = Some (FileN c 0 l)))"
  unfolding fs_read_def
  by (drule prim_io_env) (auto simp: view_def split: option.splits node.splits)

lemma fs_mtime_effect:
  "fs_mtime p w = (r, w') \<Longrightarrow> same_env w w' \<and> nodes w' = nodes w \<and>
    (\<forall>t. r = Inr t \<longrightarrow> (\<exists>n. look (nodes w) p = Some n \<and> t = (case n of DirN m \<Rightarrow> m | FileN _ m _ \<Rightarrow> m)))"
  unfolding fs_mtime_def
  by (drule prim_io_env) (auto split: option.splits node.splits)

lemma fs_read_dir_effect:
  "fs_read_dir p w = (r, w') \<Longrightarrow> same_env w w' \<and> nodes w' = nodes w \<and>
    (\<forall>ns. r = Inr ns \<longrightarrow> ns = children p (nodes w) \<and> view (nodes w) p = vdir)"
  unfolding fs_read_dir_def
  by (drule prim_io_env) (auto simp: view_def split: option.splits node.splits)

lemma fs_write_effect:
  assumes "fs_write p c w = (r, w')"
  shows "same_env w w' \<and> (fs_wf (nodes w) \<longrightarrow> fs_wf (nodes w')) \<and>
    (r = Inr () \<longrightarrow> p \<noteq> [] \<and> view (nodes w) (butlast p) = vdir \<and>
      (\<exists>l. view (nodes w') = (view (nodes w))(p \<mapsto> FileN c 0 l))) \<and>
    (\<forall>e. r = Inl e \<longrightarrow> view (nodes w') = view (nodes w) \<or>
      (p \<noteq> [] \<and> view (nodes w) (butlast p) = vdir \<and>
        (\<exists>n l. view (nodes w') = (view (nodes w))(p \<mapsto> FileN (take n c) 0 l))))"
proof -
  note env = prim_io_env [OF assms [unfolded fs_write_def]]
  note proj = prim_io_proj [OF assms [unfolded fs_write_def]]
  show ?thesis
  proof (cases "p = [] \<or> is_dir_node (look (nodes w) p) \<or> \<not> is_dir_node (look (nodes w) (butlast p))")
    case True
    with env have "nodes w' = nodes w" "\<exists>e. r = Inl e" by (auto split: if_splits)
    with env show ?thesis by auto
  next
    case False
    then have p: "p \<noteq> []" "\<not> is_dir_node (look (nodes w) p)" "is_dir_node (look (nodes w) (butlast p))"
      by auto
    then have vp: "view (nodes w) (butlast p) = vdir" by (simp add: is_dir_node_view)
    consider (torn) n e where "r = Inl e" "nodes w' = store_file (clock w (tick w)) p (take n c) (nodes w)"
      | (err) e where "r = Inl e" "nodes w' = nodes w"
      | (ok) "r = Inr ()" "nodes w' = store_file (clock w (tick w)) p c (nodes w)"
      using proj p by (cases "faults w (tick w)") (auto simp: error_of_def)
    then show ?thesis
    proof cases
      case torn
      obtain l where "view (nodes w') = (view (nodes w))(p \<mapsto> FileN (take n c) 0 l)"
        "fs_wf (nodes w) \<longrightarrow> fs_wf (nodes w')"
        unfolding torn(2)
        using store_file_effect [OF p, where t = "clock w (tick w)" and c = "take n c"] by metis
      with torn env p vp show ?thesis by blast
    next
      case err
      with env show ?thesis by auto
    next
      case ok
      obtain l where "view (nodes w') = (view (nodes w))(p \<mapsto> FileN c 0 l)"
        "fs_wf (nodes w) \<longrightarrow> fs_wf (nodes w')"
        unfolding ok(2)
        using store_file_effect [OF p, where t = "clock w (tick w)" and c = c] by metis
      with ok env p vp show ?thesis by blast
    qed
  qed
qed

lemma fs_rename_effect:
  assumes "fs_rename p q w = (r, w')"
  shows "same_env w w' \<and> (fs_wf (nodes w) \<longrightarrow> fs_wf (nodes w')) \<and>
    (r = Inr () \<longrightarrow> p \<noteq> [] \<and> q \<noteq> [] \<and> view (nodes w) p \<noteq> None \<and> view (nodes w) (butlast q) = vdir \<and>
      (p = q \<or> \<not> prefix p q) \<and>
      (p \<noteq> q \<longrightarrow> view (nodes w) p = vdir \<longrightarrow> view (nodes w) q = None \<or> children q (nodes w) = []) \<and>
      (p \<noteq> q \<longrightarrow> view (nodes w) p \<noteq> vdir \<longrightarrow> view (nodes w) q \<noteq> vdir) \<and>
      view (nodes w') = (if p = q then view (nodes w) else vmove p q (view (nodes w)))) \<and>
    (\<forall>e. r = Inl e \<longrightarrow> view (nodes w') = view (nodes w))"
proof -
  note env = prim_io_env [OF assms [unfolded fs_rename_def]]
  show ?thesis
  proof (cases r)
    case (Inl e)
    with env have "nodes w' = nodes w" by (auto split: option.splits if_splits)
    with env Inl show ?thesis by auto
  next
    case (Inr u)
    with env have err: "rename_error (nodes w) p q = None" by (auto split: option.splits if_splits)
    then obtain n where n: "look (nodes w) p = Some n" "p \<noteq> []" "q \<noteq> []"
      "is_dir_node (look (nodes w) (butlast q))" "p = q \<or> \<not> prefix p q"
      by (auto simp: rename_error_def split: if_splits option.splits)
    have dir: "(p \<noteq> q \<longrightarrow> view (nodes w) p = vdir \<longrightarrow> view (nodes w) q = None \<or> children q (nodes w) = []) \<and>
        (p \<noteq> q \<longrightarrow> view (nodes w) p \<noteq> vdir \<longrightarrow> view (nodes w) q \<noteq> vdir)"
      using err n by (cases n; cases "look (nodes w) q")
        (auto simp: rename_error_def view_def split: if_splits node.splits)
    let ?t = "clock w (tick w)"
    have nodes: "nodes w' = (if p = q then nodes w
        else touch_dir ?t (butlast p) (touch_dir ?t (butlast q) (move_tree p q (nodes w))))"
      using env Inr err by (auto split: option.splits if_splits)
    have "fs_wf (nodes w) \<longrightarrow> fs_wf (nodes w')"
      unfolding nodes using n by (auto simp: is_dir_node_view intro: wf_move_tree)
    moreover have "view (nodes w') = (if p = q then view (nodes w) else vmove p q (view (nodes w)))"
      unfolding nodes using n by (simp add: view_move_tree)
    moreover have "view (nodes w) p \<noteq> None" "view (nodes w) (butlast q) = vdir"
      using n by (simp_all add: view_def is_dir_node_view)
    ultimately show ?thesis
      using env n(2,3,5) dir Inr by blast
  qed
qed

lemma fs_create_dir_effect:
  assumes "fs_create_dir p w = (r, w')"
  shows "same_env w w' \<and> (fs_wf (nodes w) \<longrightarrow> fs_wf (nodes w')) \<and>
    (r = Inr () \<longrightarrow> p \<noteq> [] \<and> view (nodes w) p = None \<and> view (nodes w) (butlast p) = vdir \<and>
      view (nodes w') = (view (nodes w))(p \<mapsto> DirN 0)) \<and>
    (\<forall>e. r = Inl e \<longrightarrow> view (nodes w') = view (nodes w))"
proof -
  note env = prim_io_env [OF assms [unfolded fs_create_dir_def]]
  show ?thesis
  proof (cases r)
    case (Inl e)
    with env have "nodes w' = nodes w" by (auto split: option.splits if_splits)
    with env Inl show ?thesis by auto
  next
    case (Inr u)
    with env have l: "look (nodes w) p = None" "is_dir_node (look (nodes w) (butlast p))"
      "nodes w' = put_node p (DirN (clock w (tick w))) (touch_dir (clock w (tick w)) (butlast p) (nodes w))"
      by (auto split: option.splits if_splits)
    have p: "p \<noteq> []" using l(1) by auto
    have v: "view (nodes w) p = None" "view (nodes w) (butlast p) = vdir"
      using l by (simp_all add: is_dir_node_view view_def)
    have "fs_wf (nodes w) \<longrightarrow> fs_wf (nodes w')"
      unfolding l(3) using p v by (simp add: wf_put)
    moreover have "view (nodes w') = (view (nodes w))(p \<mapsto> DirN 0)"
      unfolding l(3) using p by (simp add: view_put)
    ultimately show ?thesis using env p v Inr by simp
  qed
qed

text \<open>Making directories only adds directories, all of them on the list.\<close>

definition adds_dirs :: "fpath set \<Rightarrow> (fpath \<Rightarrow> node option) \<Rightarrow> (fpath \<Rightarrow> node option) \<Rightarrow> bool" where
  "adds_dirs A v v' \<longleftrightarrow> (\<forall>q. v' q = v q \<or> (q \<in> A \<and> v q = None \<and> v' q = vdir))"

lemma adds_dirs_refl [simp]: "adds_dirs A v v"
  by (simp add: adds_dirs_def)

lemma adds_dirs_trans: "adds_dirs A v v' \<Longrightarrow> adds_dirs A v' v'' \<Longrightarrow> adds_dirs A v v''"
  unfolding adds_dirs_def by metis

lemma adds_dirs_mono: "adds_dirs A v v' \<Longrightarrow> A \<subseteq> B \<Longrightarrow> adds_dirs B v v'"
  unfolding adds_dirs_def by blast

lemma adds_dirs_keeps: "adds_dirs A v v' \<Longrightarrow> v q \<noteq> None \<Longrightarrow> v' q = v q"
  unfolding adds_dirs_def by metis

lemma make_dirs_effect:
  "make_dirs t ps fs = (r, fs') \<Longrightarrow> [] \<notin> set ps \<Longrightarrow>
   (\<forall>i < length ps. butlast (ps ! i) = [] \<or> (i > 0 \<and> butlast (ps ! i) = ps ! (i - 1)) \<or> view fs (butlast (ps ! i)) = vdir) \<Longrightarrow>
   (fs_wf fs \<longrightarrow> fs_wf fs') \<and> adds_dirs (set ps) (view fs) (view fs') \<and>
   (r = Inr () \<longrightarrow> (\<forall>p \<in> set ps. view fs' p = vdir))"
proof (induction ps arbitrary: fs)
  case (Cons p ps)
  have p: "p \<noteq> []" using Cons.prems(2) by auto
  have first: "view fs (butlast p) = vdir"
    using Cons.prems(3) [rule_format, of 0] by auto
  have rest: "\<forall>i < length ps. butlast (ps ! i) = [] \<or> (i > 0 \<and> butlast (ps ! i) = ps ! (i - 1)) \<or>
      view g (butlast (ps ! i)) = vdir" if "adds_dirs {p} (view fs) (view g)" "view g p = vdir" for g
  proof (intro allI impI)
    fix i assume "i < length ps"
    with Cons.prems(3) [rule_format, of "Suc i"] consider "butlast (ps ! i) = []"
      | "butlast (ps ! i) = (p # ps) ! i" | "view fs (butlast (ps ! i)) = vdir" by auto
    then show "butlast (ps ! i) = [] \<or> (i > 0 \<and> butlast (ps ! i) = ps ! (i - 1)) \<or> view g (butlast (ps ! i)) = vdir"
    proof cases
      case 2
      with that(2) show ?thesis by (cases i) auto
    next
      case 3
      with adds_dirs_keeps [OF that(1), of "butlast (ps ! i)"] show ?thesis by simp
    qed simp
  qed
  show ?case
  proof (cases "look fs p")
    case None
    let ?g = "put_node p (DirN t) (touch_dir t (butlast p) fs)"
    have g: "view ?g = (view fs)(p \<mapsto> DirN 0)" using p by (simp add: view_put)
    have vn: "view fs p = None" using None by (simp add: view_def)
    have add: "adds_dirs {p} (view fs) (view ?g)" using vn by (simp add: g adds_dirs_def)
    have wf: "fs_wf fs \<longrightarrow> fs_wf ?g" using p first by (simp add: wf_put)
    from Cons.prems(1) None have "make_dirs t ps ?g = (r, fs')" by simp
    moreover have "[] \<notin> set ps" "view ?g p = vdir" using Cons.prems(2) g by simp_all
    ultimately have ih: "fs_wf ?g \<longrightarrow> fs_wf fs'" "adds_dirs (set ps) (view ?g) (view fs')"
      "r = Inr () \<longrightarrow> (\<forall>p \<in> set ps. view fs' p = vdir)"
      using Cons.IH [OF _ _ rest [OF add]] by blast+
    have "adds_dirs (set (p # ps)) (view fs) (view fs')"
      using adds_dirs_trans [OF adds_dirs_mono [OF add] adds_dirs_mono [OF ih(2)]] by auto
    moreover have "view fs' p = vdir" using adds_dirs_keeps [OF ih(2), of p] by (simp add: g)
    ultimately show ?thesis using ih(1,3) wf by simp
  next
    case (Some n)
    show ?thesis
    proof (cases n)
      case (FileN c m l)
      with Some Cons.prems(1) show ?thesis by auto
    next
      case (DirN m)
      have vp: "view fs p = vdir" using Some DirN by (simp add: view_def)
      from Cons.prems(1) Some DirN have "make_dirs t ps fs = (r, fs')" by simp
      moreover have "[] \<notin> set ps" using Cons.prems(2) by simp
      ultimately have ih: "fs_wf fs \<longrightarrow> fs_wf fs'" "adds_dirs (set ps) (view fs) (view fs')"
        "r = Inr () \<longrightarrow> (\<forall>p \<in> set ps. view fs' p = vdir)"
        using Cons.IH [OF _ _ rest [OF adds_dirs_refl vp]] by blast+
      have "adds_dirs (set (p # ps)) (view fs) (view fs')"
        using adds_dirs_mono [OF ih(2)] by auto
      moreover have "view fs' p = vdir" using adds_dirs_keeps [OF ih(2), of p] vp by simp
      ultimately show ?thesis using ih(1,3) by simp
    qed
  qed
qed auto

lemma ancestors_facts:
  "[] \<notin> set (ancestors p)"
  "i < length (ancestors p) \<Longrightarrow> ancestors p ! i = take (Suc i) p"
  "length (ancestors p) = length p"
  by (auto simp: ancestors_def simp del: upt_Suc)

lemma set_ancestors: "set (ancestors p) = {q. q \<noteq> [] \<and> prefix q p}"
proof
  show "set (ancestors p) \<subseteq> {q. q \<noteq> [] \<and> prefix q p}"
    by (auto simp: ancestors_def take_is_prefix simp del: upt_Suc)
  show "{q. q \<noteq> [] \<and> prefix q p} \<subseteq> set (ancestors p)"
  proof
    fix q assume "q \<in> {q. q \<noteq> [] \<and> prefix q p}"
    then obtain s where "q \<noteq> []" "p = q @ s" by (auto simp: prefix_def)
    then have "q = take (length q) p" "length q \<in> {1..<Suc (length p)}" by (auto simp: Suc_le_eq)
    then show "q \<in> set (ancestors p)" unfolding ancestors_def by (metis image_eqI list.set_map set_upt)
  qed
qed

lemma fs_create_dir_all_effect:
  assumes "fs_create_dir_all p w = (r, w')"
  shows "same_env w w' \<and> (fs_wf (nodes w) \<longrightarrow> fs_wf (nodes w')) \<and>
    adds_dirs {q. q \<noteq> [] \<and> prefix q p} (view (nodes w)) (view (nodes w')) \<and>
    (r = Inr () \<longrightarrow> (\<forall>q. prefix q p \<longrightarrow> view (nodes w') q = vdir))"
proof -
  note env = prim_io_env [OF assms [unfolded fs_create_dir_all_def]]
  note proj = prim_io_proj [OF assms [unfolded fs_create_dir_all_def]]
  let ?t = "clock w (tick w)"
  have make: "(fs_wf (nodes w) \<longrightarrow> fs_wf fs') \<and>
      adds_dirs {q. q \<noteq> [] \<and> prefix q p} (view (nodes w)) (view fs') \<and>
      (r' = Inr () \<longrightarrow> n \<ge> length p \<longrightarrow> (\<forall>q. prefix q p \<longrightarrow> view fs' q = vdir))"
    if m: "make_dirs ?t (take n (ancestors p)) (nodes w) = (r', fs')" for n r' fs'
  proof -
    let ?ps = "take n (ancestors p)"
    have nil: "[] \<notin> set ?ps" using ancestors_facts(1) [of p] by (meson in_set_takeD)
    have chain: "\<forall>i < length ?ps. butlast (?ps ! i) = [] \<or> (i > 0 \<and> butlast (?ps ! i) = ?ps ! (i - 1)) \<or>
        view (nodes w) (butlast (?ps ! i)) = vdir"
    proof (intro allI impI)
      fix i assume i: "i < length ?ps"
      then have "?ps ! i = take (Suc i) p" by (simp add: ancestors_facts)
      then have bl: "butlast (?ps ! i) = take i p"
        using i by (simp add: ancestors_facts butlast_take)
      show "butlast (?ps ! i) = [] \<or> (i > 0 \<and> butlast (?ps ! i) = ?ps ! (i - 1)) \<or>
          view (nodes w) (butlast (?ps ! i)) = vdir"
        using i bl by (cases i) (simp_all add: ancestors_facts)
    qed
    from make_dirs_effect [OF m nil chain] have e: "fs_wf (nodes w) \<longrightarrow> fs_wf fs'"
      "adds_dirs (set ?ps) (view (nodes w)) (view fs')"
      "r' = Inr () \<longrightarrow> (\<forall>p \<in> set ?ps. view fs' p = vdir)" by blast+
    have "set ?ps \<subseteq> {q. q \<noteq> [] \<and> prefix q p}"
      using set_ancestors [of p] by (auto dest: in_set_takeD)
    moreover have "n \<ge> length p \<Longrightarrow> set ?ps = {q. q \<noteq> [] \<and> prefix q p}"
      using set_ancestors [of p] by (simp add: ancestors_facts(3))
    ultimately show ?thesis
      using e adds_dirs_mono by (metis (mono_tags, lifting) mem_Collect_eq view_Nil)
  qed
  show ?thesis
  proof (cases "\<exists>n e. faults w (tick w) = TornMkdirs n e")
    case True
    then obtain n e where f: "faults w (tick w) = TornMkdirs n e" by blast
    obtain r' fs' where m: "make_dirs ?t (take n (ancestors p)) (nodes w) = (r', fs')" by fastforce
    with env f make [OF m] show ?thesis by auto
  next
    case False
    then consider (err) e where "r = Inl e" "nodes w' = nodes w"
      | (ok) "make_dirs ?t (ancestors p) (nodes w) = (r, nodes w')"
      using proj by (cases "faults w (tick w)") (auto simp: error_of_def)
    then show ?thesis
    proof cases
      case err
      with env show ?thesis by auto
    next
      case ok
      then have "make_dirs ?t (take (length p) (ancestors p)) (nodes w) = (r, nodes w')"
        by (simp add: ancestors_facts(3))
      from make [OF this] env show ?thesis by auto
    qed
  qed
qed

text \<open>What a removal leaves: nothing at or below the path, or less below it.\<close>

definition removes_below :: "fpath \<Rightarrow> (fpath \<Rightarrow> node option) \<Rightarrow> (fpath \<Rightarrow> node option) \<Rightarrow> bool" where
  "removes_below p v v' \<longleftrightarrow> (\<forall>q. v' q = v q \<or> (strict_prefix p q \<and> v' q = None))"

lemma fs_remove_dir_all_effect:
  assumes "fs_remove_dir_all p w = (r, w')"
  shows "same_env w w' \<and> (fs_wf (nodes w) \<longrightarrow> fs_wf (nodes w')) \<and>
    (r = Inr () \<longrightarrow> p \<noteq> [] \<and> view (nodes w) p = vdir \<and>
      view (nodes w') = (\<lambda>q. if prefix p q then None else view (nodes w) q)) \<and>
    (\<forall>e. r = Inl e \<longrightarrow> removes_below p (view (nodes w)) (view (nodes w')))"
proof -
  note env = prim_io_env [OF assms [unfolded fs_remove_dir_all_def]]
  note proj = prim_io_proj [OF assms [unfolded fs_remove_dir_all_def]]
  consider (same) e where "r = Inl e" "nodes w' = nodes w"
    | (torn) sel e where "r = Inl e" "nodes w' = del_partly sel p (nodes w)"
    | (ok) t where "r = Inr ()" "p \<noteq> []" "look (nodes w) p = Some (DirN t)"
      "nodes w' = touch_dir (clock w (tick w)) (butlast p) (del_tree p (nodes w))"
    using proj by (cases "faults w (tick w)") (auto simp: error_of_def split: if_splits option.splits node.splits)
  then show ?thesis
  proof cases
    case same
    with env show ?thesis by (auto simp: removes_below_def)
  next
    case torn
    with env show ?thesis by (auto simp: removes_below_def wf_del_partly view_del_partly)
  next
    case ok
    with env show ?thesis by (auto simp: wf_del_tree view_del_tree view_def)
  qed
qed

lemma fs_remove_file_effect:
  assumes "fs_remove_file p w = (r, w')"
  shows "same_env w w' \<and> (fs_wf (nodes w) \<longrightarrow> fs_wf (nodes w')) \<and>
    (r = Inr () \<longrightarrow> p \<noteq> [] \<and> (\<exists>c l. view (nodes w) p = Some (FileN c 0 l)) \<and>
      view (nodes w') = (\<lambda>q. if prefix p q then None else view (nodes w) q)) \<and>
    (\<forall>e. r = Inl e \<longrightarrow> view (nodes w') = view (nodes w))"
proof -
  note env = prim_io_env [OF assms [unfolded fs_remove_file_def]]
  show ?thesis
  proof (cases r)
    case (Inl e)
    with env have "nodes w' = nodes w" by (auto split: option.splits node.splits)
    with env Inl show ?thesis by auto
  next
    case (Inr u)
    with env obtain c m l where l: "look (nodes w) p = Some (FileN c m l)"
      "nodes w' = touch_dir (clock w (tick w)) (butlast p) (del_tree p (nodes w))"
      by (auto split: option.splits node.splits)
    have p: "p \<noteq> []" using l(1) by auto
    with l env Inr show ?thesis by (auto simp: wf_del_tree view_del_tree view_def)
  qed
qed

lemma view_map_lock:
  "view (map (\<lambda>(k, n). (k, f n)) fs) q = (if q = [] then vdir else map_option (\<lambda>n. plain_node (f n)) (look fs q))"
proof -
  have "map_of (map (\<lambda>(k, n). (k, f n)) fs) q = map_option f (map_of fs q)"
    by (induction fs) auto
  then show ?thesis by (simp add: view_def look_def option.map_comp comp_def)
qed

definition unlocked :: "nat \<Rightarrow> node \<Rightarrow> node" where
  "unlocked h n = (case n of FileN c m l \<Rightarrow> FileN c m (if l = Some h then None else l) | _ \<Rightarrow> n)"

lemma fs_unlock_effect:
  assumes "fs_unlock h w = (r, w')"
  shows "same_env w w' \<and> (fs_wf (nodes w) \<longrightarrow> fs_wf (nodes w')) \<and>
    view (nodes w') = (\<lambda>q. map_option (unlocked h) (view (nodes w) q))"
proof -
  note env = prim_io_env [OF assms [unfolded fs_unlock_def]]
  have n: "nodes w' = map (\<lambda>(k, n). (k, unlocked h n)) (nodes w)"
    using env by (simp add: unlocked_def)
  have v: "view (nodes w') q = map_option (unlocked h) (view (nodes w) q)" for q
    unfolding n view_map_lock
    by (cases "look (nodes w) q")
       (auto simp: view_def unlocked_def plain_node_def split: node.splits)
  have "map fst (nodes w') = map fst (nodes w)" unfolding n by (simp add: comp_def case_prod_unfold)
  then have "keys (nodes w') = keys (nodes w)" "distinct (map fst (nodes w')) = distinct (map fst (nodes w))"
    by (simp_all only: keys_def)
  moreover have "view (nodes w') q = vdir \<longleftrightarrow> view (nodes w) q = vdir" "view (nodes w') q = None \<longleftrightarrow> view (nodes w) q = None" for q
    unfolding v by (cases "view (nodes w) q"; auto simp: unlocked_def split: node.splits)+
  ultimately have "fs_wf (nodes w) \<longrightarrow> fs_wf (nodes w')" by (simp add: wf_iff_view)
  with env v show ?thesis by (simp add: fun_eq_iff)
qed

lemma fs_open_effect:
  assumes "fs_open create p w = (r, w')"
  shows "same_env w w' \<and> (fs_wf (nodes w) \<longrightarrow> fs_wf (nodes w')) \<and>
    (view (nodes w') = view (nodes w) \<or>
      (create \<and> r = Inr () \<and> p \<noteq> [] \<and> view (nodes w) p = None \<and> view (nodes w) (butlast p) = vdir \<and>
       view (nodes w') = (view (nodes w))(p \<mapsto> FileN [] 0 None)))"
proof -
  note env = prim_io_env [OF assms [unfolded fs_open_def]]
  consider (same) "nodes w' = nodes w"
    | (new) "create" "r = Inr ()" "look (nodes w) p = None" "is_dir_node (look (nodes w) (butlast p))"
      "nodes w' = store_file (clock w (tick w)) p [] (nodes w)"
    using prim_io_proj [OF assms [unfolded fs_open_def]]
    by (cases "error_of (faults w (tick w))"; cases "look (nodes w) p") (auto split: node.splits if_splits)
  then show ?thesis
  proof cases
    case same
    with env show ?thesis by simp
  next
    case new
    have p: "p \<noteq> []" "\<not> is_dir_node (look (nodes w) p)" using new(3) by (auto simp: is_dir_node_def)
    have v: "view (nodes w) p = None" using new(3) by (simp add: view_def)
    obtain l where "view (nodes w') = (view (nodes w))(p \<mapsto> FileN [] 0 l)" "l = None"
      "fs_wf (nodes w) \<longrightarrow> fs_wf (nodes w')"
      unfolding new(5)
      by (rule store_file_effect [OF p new(4), where t = "clock w (tick w)" and c = "[]"]) (use v in auto)
    with env p v new show ?thesis by (simp add: is_dir_node_view)
  qed
qed

lemma fs_try_lock_effect:
  assumes "fs_try_lock h p w = (r, w')"
  shows "same_env w w' \<and> (fs_wf (nodes w) \<longrightarrow> fs_wf (nodes w')) \<and>
    (if r = Inr True then \<exists>c. view (nodes w) p = Some (FileN c 0 None) \<and>
       view (nodes w') = (view (nodes w))(p \<mapsto> FileN c 0 (Some h))
     else view (nodes w') = view (nodes w)) \<and>
    (r = Inr False \<longrightarrow> (\<exists>c h'. view (nodes w) p = Some (FileN c 0 (Some h'))))"
proof -
  note env = prim_io_env [OF assms [unfolded fs_try_lock_def]]
  show ?thesis
  proof (cases "r = Inr True")
    case True
    with env obtain c m where l: "look (nodes w) p = Some (FileN c m None)"
      "nodes w' = put_node p (FileN c m (Some h)) (nodes w)"
      by (auto split: option.splits node.splits)
    have p: "p \<noteq> []" using l(1) by auto
    have v: "view (nodes w) p = Some (FileN c 0 None)" using l(1) by (simp add: view_def)
    have "fs_wf (nodes w) \<longrightarrow> fs_wf (nodes w')"
      unfolding l(2) using p v wf_parent_view [of "nodes w" p] by (auto intro: wf_put)
    with env l p v True show ?thesis by (auto simp: view_put)
  next
    case False
    with env have "nodes w' = nodes w" "r = Inr False \<longrightarrow> (\<exists>c m h'. look (nodes w) p = Some (FileN c m (Some h')))"
      by (auto split: option.splits node.splits)
    with env False show ?thesis by (auto simp: view_def)
  qed
qed

section \<open>Relations between worlds\<close>

text \<open>A reflexive and transitive relation that every operation keeps is kept by every program.\<close>

locale world_relation =
  fixes R :: "world \<Rightarrow> world \<Rightarrow> bool"
  assumes R_refl: "R w w" and R_trans: "R w w' \<Longrightarrow> R w' w'' \<Longrightarrow> R w w''"
begin

definition kept :: "('e, 'a) io \<Rightarrow> bool" where
  "kept m \<longleftrightarrow> (\<forall>w r w'. m w = (r, w') \<longrightarrow> R w w')"

lemma keptD: "kept m \<Longrightarrow> m w = (r, w') \<Longrightarrow> R w w'"
  by (simp add: kept_def)

lemma kept_ret: "kept (ret_io a)"
  by (simp add: kept_def ret_io_def R_refl)

lemma kept_fail: "kept (fail_io e)"
  by (simp add: kept_def fail_io_def R_refl)

lemma kept_lift: "kept (lift_res r)"
  by (simp add: kept_def lift_res_def R_refl)

lemma kept_err: "kept m \<Longrightarrow> kept (err_io h m)"
  by (auto simp: kept_def err_io_def split: prod.splits)

lemma kept_attempt: "kept m \<Longrightarrow> kept (attempt_io m)"
  by (auto simp: kept_def attempt_io_def split: prod.splits)

lemma kept_bind: "kept m \<Longrightarrow> (\<And>a. kept (f a)) \<Longrightarrow> kept (bind_io m f)"
  unfolding kept_def bind_io_def
  by (auto split: prod.splits sum.splits) (blast intro: R_trans)+

lemma kept_if: "(b \<Longrightarrow> kept m) \<Longrightarrow> (\<not> b \<Longrightarrow> kept n) \<Longrightarrow> kept (if b then m else n)"
  by simp

lemma kept_sum: "(\<And>e. kept (f e)) \<Longrightarrow> (\<And>a. kept (g a)) \<Longrightarrow> kept (case s of Inl e \<Rightarrow> f e | Inr a \<Rightarrow> g a)"
  by (cases s) auto

lemma kept_for: "(\<And>x. x \<in> set xs \<Longrightarrow> kept (f x)) \<Longrightarrow> kept (for_io xs f)"
  by (induction xs) (auto intro: kept_ret kept_bind)

lemma kept_option: "kept m \<Longrightarrow> (\<And>a. kept (f a)) \<Longrightarrow> kept (case x of None \<Rightarrow> m | Some a \<Rightarrow> f a)"
  by (cases x) auto

lemma kept_prod: "(\<And>a b. kept (f a b)) \<Longrightarrow> kept (case p of (a, b) \<Rightarrow> f a b)"
  by (cases p) auto

lemma kept_bool: "kept m \<Longrightarrow> kept n \<Longrightarrow> kept (case b of True \<Rightarrow> m | False \<Rightarrow> n)"
  by (cases b) auto

lemmas kept_cases = kept_option kept_prod kept_bool

lemmas kept_intros = kept_ret kept_fail kept_lift kept_err kept_attempt kept_bind kept_if kept_sum kept_for

end

text \<open>The tree stays well formed; and nothing changes outside a set of paths.\<close>

definition keeps_tree :: "world \<Rightarrow> world \<Rightarrow> bool" where
  "keeps_tree w w' \<longleftrightarrow> same_env w w' \<and> (fs_wf (nodes w) \<longrightarrow> fs_wf (nodes w'))"

definition same_outside :: "fpath set \<Rightarrow> world \<Rightarrow> world \<Rightarrow> bool" where
  "same_outside S w w' \<longleftrightarrow> same_env w w' \<and> (\<forall>q. q \<notin> S \<longrightarrow> view (nodes w') q = view (nodes w) q)"

lemma same_env_refl [simp]: "same_env w w"
  by (simp add: same_env_def)

lemma same_env_trans: "same_env w w' \<Longrightarrow> same_env w' w'' \<Longrightarrow> same_env w w''"
  by (simp add: same_env_def)

interpretation tree: world_relation keeps_tree
  by unfold_locales (auto simp: keeps_tree_def intro: same_env_trans)

interpretation frame: world_relation "same_outside S" for S
  by unfold_locales (auto simp: same_outside_def intro: same_env_trans)

lemma tree_prims:
  "tree.kept (fs_exists p)" "tree.kept (fs_is_dir p)" "tree.kept fs_now" "tree.kept (fs_read p)"
  "tree.kept (fs_mtime p)" "tree.kept (fs_read_dir p)" "tree.kept (fs_write p c)" "tree.kept (fs_rename p q)"
  "tree.kept (fs_create_dir p)" "tree.kept (fs_create_dir_all p)" "tree.kept (fs_remove_dir_all p)"
  "tree.kept (fs_remove_file p)" "tree.kept (fs_open b p)" "tree.kept (fs_try_lock h p)" "tree.kept (fs_unlock h)"
  unfolding tree.kept_def keeps_tree_def
  by (metis fs_exists_effect fs_is_dir_effect fs_now_effect fs_read_effect fs_mtime_effect
      fs_read_dir_effect fs_write_effect fs_rename_effect fs_create_dir_effect fs_create_dir_all_effect
      fs_remove_dir_all_effect fs_remove_file_effect fs_open_effect fs_try_lock_effect fs_unlock_effect)+

lemma frame_reads:
  "frame.kept S (fs_exists p)" "frame.kept S (fs_is_dir p)" "frame.kept S fs_now" "frame.kept S (fs_read p)"
  "frame.kept S (fs_mtime p)" "frame.kept S (fs_read_dir p)"
  unfolding frame.kept_def same_outside_def
  by (metis fs_exists_effect fs_is_dir_effect fs_now_effect fs_read_effect fs_mtime_effect fs_read_dir_effect)+

lemma frame_write: "p \<in> S \<Longrightarrow> frame.kept S (fs_write p c)"
  unfolding frame.kept_def same_outside_def
proof (intro allI impI)
  fix w r w' assume p: "p \<in> S" and m: "fs_write p c w = (r, w')"
  show "same_env w w' \<and> (\<forall>q. q \<notin> S \<longrightarrow> view (nodes w') q = view (nodes w) q)"
    using fs_write_effect [OF m] p by (cases r) auto
qed

lemma vmove_outside: "\<not> prefix p r \<Longrightarrow> \<not> prefix q r \<Longrightarrow> vmove p q v r = v r"
  by (simp add: vmove_def)

lemma frame_rename:
  assumes "\<And>r. prefix p r \<or> prefix q r \<Longrightarrow> r \<in> S"
  shows "frame.kept S (fs_rename p q)"
  unfolding frame.kept_def same_outside_def
proof (intro allI impI conjI)
  fix w r w' assume m: "fs_rename p q w = (r, w')"
  note e = fs_rename_effect [OF m]
  then show "same_env w w'" by blast
  fix s assume "s \<notin> S"
  then have "\<not> prefix p s" "\<not> prefix q s" using assms by blast+
  then have "vmove p q (view (nodes w)) s = view (nodes w) s" by (rule vmove_outside)
  then show "view (nodes w') s = view (nodes w) s"
    using e by (cases r) (simp_all split: if_splits)
qed

lemma frame_create_dir: "p \<in> S \<Longrightarrow> frame.kept S (fs_create_dir p)"
  unfolding frame.kept_def same_outside_def
proof (intro allI impI)
  fix w r w' assume p: "p \<in> S" and m: "fs_create_dir p w = (r, w')"
  show "same_env w w' \<and> (\<forall>q. q \<notin> S \<longrightarrow> view (nodes w') q = view (nodes w) q)"
    using fs_create_dir_effect [OF m] p by (cases r) auto
qed

lemma frame_create_dir_all: "(\<And>q. q \<noteq> [] \<Longrightarrow> prefix q p \<Longrightarrow> q \<in> S) \<Longrightarrow> frame.kept S (fs_create_dir_all p)"
  unfolding frame.kept_def same_outside_def
proof (intro allI impI)
  fix w r w' assume p: "\<And>q. q \<noteq> [] \<Longrightarrow> prefix q p \<Longrightarrow> q \<in> S" and m: "fs_create_dir_all p w = (r, w')"
  show "same_env w w' \<and> (\<forall>q. q \<notin> S \<longrightarrow> view (nodes w') q = view (nodes w) q)"
    using fs_create_dir_all_effect [OF m] p by (auto simp: adds_dirs_def)
qed

lemma frame_remove:
  assumes "\<And>r. prefix p r \<Longrightarrow> r \<in> S"
  shows "frame.kept S (fs_remove_dir_all p)" "frame.kept S (fs_remove_file p)"
  unfolding frame.kept_def same_outside_def
proof (safe del: iffI)
  fix w r w' assume m: "fs_remove_dir_all p w = (r, w')"
  note e = fs_remove_dir_all_effect [OF m]
  then show "same_env w w'" by blast
  fix q assume "q \<notin> S"
  then show "view (nodes w') q = view (nodes w) q"
    using e assms by (cases r) (auto simp: removes_below_def strict_prefix_def)
next
  fix w r w' assume m: "fs_remove_file p w = (r, w')"
  note e = fs_remove_file_effect [OF m]
  then show "same_env w w'" by blast
  fix q assume "q \<notin> S"
  then show "view (nodes w') q = view (nodes w) q"
    using e assms by (cases r) auto
qed

end
