(* ===== verification/Wp.thy ===== *)
theory Wp
  imports Fs
begin

text \<open>
  Weakest preconditions of the operations that thread a world: \<open>wp m Q w\<close> says that running \<open>m\<close> in
  \<open>w\<close> gives a result and a world with \<open>Q\<close>. One equation per combinator rewrites the precondition of a
  handler to those of the operations it calls; a lemma about an operation is a rule for its \<open>wp\<close>.
\<close>

named_theorems wp_simps \<open>weakest preconditions of the combinators\<close>

definition wp :: "('e, 'a) io \<Rightarrow> (('e, 'a) result \<Rightarrow> world \<Rightarrow> bool) \<Rightarrow> world \<Rightarrow> bool" where
  "wp m Q w = (case m w of (r, w') \<Rightarrow> Q r w')"

lemma wpI: "(\<And>r w'. m w = (r, w') \<Longrightarrow> Q r w') \<Longrightarrow> wp m Q w"
  by (simp add: wp_def split: prod.split)

lemma wpD: "wp m Q w \<Longrightarrow> m w = (r, w') \<Longrightarrow> Q r w'"
  by (simp add: wp_def)

lemma wp_mono: "wp m P w \<Longrightarrow> (\<And>r w'. P r w' \<Longrightarrow> Q r w') \<Longrightarrow> wp m Q w"
  by (simp add: wp_def split: prod.splits)

lemma wp_conj: "wp m P w \<Longrightarrow> wp m Q w \<Longrightarrow> wp m (\<lambda>r v. P r v \<and> Q r v) w"
  by (simp add: wp_def split: prod.splits)

lemma wp_ret [wp_simps]: "wp (ret_io a) Q w = Q (Inr a) w"
  by (simp add: wp_def ret_io_def)

lemma wp_fail [wp_simps]: "wp (fail_io e) Q w = Q (Inl e) w"
  by (simp add: wp_def fail_io_def)

lemma wp_lift [wp_simps]: "wp (lift_res r) Q w = Q r w"
  by (simp add: wp_def lift_res_def)

lemma wp_bind [wp_simps]:
  "wp (bind_io m f) Q w = wp m (\<lambda>r v. case r of Inl e \<Rightarrow> Q (Inl e) v | Inr a \<Rightarrow> wp (f a) Q v) w"
  by (simp add: wp_def bind_io_def split: prod.splits sum.splits)

lemma wp_attempt [wp_simps]: "wp (attempt_io m) Q w = wp m (\<lambda>r. Q (Inr r)) w"
  by (simp add: wp_def attempt_io_def split: prod.splits)

lemma wp_err [wp_simps]: "wp (err_io h m) Q w = wp m (\<lambda>r. Q (map_err h r)) w"
  by (simp add: wp_def err_io_def split: prod.splits)

lemma wp_if [wp_simps]: "wp (if b then m else n) Q w = (if b then wp m Q w else wp n Q w)"
  by simp

lemma wp_ifI: "(b \<Longrightarrow> wp m Q w) \<Longrightarrow> (\<not> b \<Longrightarrow> wp n Q w) \<Longrightarrow> wp (if b then m else n) Q w"
  by simp

lemma wp_sum [wp_simps]: "wp (case s of Inl e \<Rightarrow> f e | Inr a \<Rightarrow> g a) Q w =
    (case s of Inl e \<Rightarrow> wp (f e) Q w | Inr a \<Rightarrow> wp (g a) Q w)"
  by (cases s) simp_all

lemma wp_option [wp_simps]: "wp (case x of None \<Rightarrow> m | Some a \<Rightarrow> f a) Q w =
    (case x of None \<Rightarrow> wp m Q w | Some a \<Rightarrow> wp (f a) Q w)"
  by (cases x) simp_all

lemma wp_prod [wp_simps]: "wp (case p of (a, b) \<Rightarrow> f a b) Q w = (case p of (a, b) \<Rightarrow> wp (f a b) Q w)"
  by (cases p) simp

lemma wp_for_Nil [wp_simps]: "wp (for_io [] f) Q w = Q (Inr ()) w"
  by (simp add: wp_simps)

text \<open>The rule for loops: an invariant of the body is one of the loop.\<close>

lemma wp_for:
  assumes "I w" and "\<And>x v. x \<in> set xs \<Longrightarrow> I v \<Longrightarrow> wp (f x) (\<lambda>_. I) v"
  shows "wp (for_io xs f) (\<lambda>_. I) w"
  using assms
proof (induction xs arbitrary: w)
  case (Cons x xs)
  have "wp (f x) (\<lambda>_. I) w" using Cons.prems by simp
  then show ?case
    by (auto simp: wp_bind intro!: Cons.IH Cons.prems(2) elim!: wp_mono split: sum.splits)
qed (simp add: wp_simps)

text \<open>Sequences, step by step.\<close>

lemma wp_bind_mono:
  assumes "wp m P w" "\<And>a v. P (Inr a) v \<Longrightarrow> wp (f a) Q v" "\<And>e v. P (Inl e) v \<Longrightarrow> Q (Inl e) v"
  shows "wp (bind_io m f) Q w"
  unfolding wp_bind by (rule wp_mono [OF assms(1)]) (auto split: sum.split intro: assms(2,3))

lemma wp_bind_any:
  "(\<And>a v. wp (f a) Q v) \<Longrightarrow> (\<And>e v. Q (Inl e) v) \<Longrightarrow> wp (bind_io m f) Q w"
  by (rule wp_bind_mono [where P = "\<lambda>_ _. True"]) (auto intro: wpI)

lemma wp_bind_lift:
  "(\<And>a. r = Inr a \<Longrightarrow> wp (f a) Q w) \<Longrightarrow> (\<And>e. Q (Inl e) w) \<Longrightarrow> wp (bind_io (lift_res r) f) Q w"
  by (cases r) (simp_all add: wp_simps)

text \<open>Equations of sequences.\<close>

lemma bind_io_cong:
  "(\<And>a v. m w = (Inr a, v) \<Longrightarrow> f a v = g a v) \<Longrightarrow> bind_io m f w = bind_io m g w"
  by (auto simp: bind_io_def split: prod.split sum.split)

lemma bind_io_first: "m w = m' w \<Longrightarrow> bind_io m f w = bind_io m' f w"
  by (simp add: bind_io_def)

lemma bind_ok: "bind_io m f w = (Inr b, w') \<longleftrightarrow> (\<exists>a v. m w = (Inr a, v) \<and> f a v = (Inr b, w'))"
  by (cases "m w") (auto simp: bind_io_def split: sum.split)

lemma lift_ok: "lift_res r w = (Inr a, w') \<longleftrightarrow> r = Inr a \<and> w' = w"
  by (auto simp: lift_res_def)

lemma bind_okE:
  assumes "bind_io m f w = (Inr b, w')"
  obtains a v where "m w = (Inr a, v)" "f a v = (Inr b, w')"
  using assms unfolding bind_ok by blast

end
