(* ===== verification/Run_Laws.thy ===== *)
theory Run_Laws
  imports Phases Fs_Laws Wp
begin

text \<open>
  Properties of the run operations of \<open>Phases\<close>, for every schedule of faults: publications are all
  or nothing, finishing moves exactly runs with a valid lease, finalizing never loses a run's
  files, and only the run's own paths are touched.
\<close>

section \<open>Run paths\<close>

definition base :: "ServerWorkDir \<Rightarrow> fpath" where
  "base wd = fpath_of (work_dir_path wd)"

definition run_ok :: "ServerWorkDir \<Rightarrow> Nickname \<Rightarrow> RunId \<Rightarrow> bool" where
  "run_ok wd n r \<longleftrightarrow> work_dir_path wd \<noteq> [] \<and> plain_name (nickname_str n) \<and> plain_name (run_id_str r)"

lemma run_dir_components:
  assumes "run_ok wd n r"
  shows "components (run_dir wd n r ph) =
    components (work_dir_path wd) @ [Normal (nickname_str n), Normal (phase_str ph), Normal (run_id_str r)]"
proof -
  have pn: "p \<noteq> []" "CHR ''/'' \<notin> set p" if "plain_name p" for p
    using that by (auto simp: plain_name_def)
  show ?thesis
    using assms pn [of "nickname_str n"] pn [of "run_id_str r"] pn [OF plain_name_phase [of ph]]
    by (simp add: run_ok_def run_dir_def nickname_dir_def components_join_piece path_join_nonempty)
qed

lemma run_path_eq: "run_ok wd n r \<Longrightarrow>
    run_path wd n r ph = base wd @ [nickname_str n, phase_str ph, run_id_str r]"
  by (simp add: run_path_def fpath_of_def run_dir_components base_def)

lemma run_parent_eq: "run_ok wd n r \<Longrightarrow> run_parent wd n r ph = base wd @ [nickname_str n, phase_str ph]"
  by (simp add: run_parent_def parent_of_def run_dir_components base_def fpath_of_def butlast_append)

lemma run_path_parent: "run_ok wd n r \<Longrightarrow> butlast (run_path wd n r ph) = run_parent wd n r ph"
  by (simp add: run_path_eq run_parent_eq butlast_append)

lemma run_path_nonempty: "run_ok wd n r \<Longrightarrow> run_path wd n r ph \<noteq> []"
  by (simp add: run_path_eq)

lemma run_path_prefix_iff:
  assumes "run_ok wd n r" "run_ok wd n' r'"
  shows "prefix (run_path wd n r ph) (run_path wd n' r' ph') \<longleftrightarrow> n = n' \<and> r = r' \<and> ph = ph'"
  using assms by (auto simp: run_path_eq phase_str_inject Nickname.expand RunId.expand)

lemma run_path_not_parent:
  "run_ok wd n r \<Longrightarrow> run_ok wd n' r' \<Longrightarrow> \<not> prefix (run_path wd n r ph) (run_parent wd n' r' ph')"
  by (auto simp: run_path_eq run_parent_eq prefix_def)

section \<open>Running composed operations\<close>

lemma bind_io_cases:
  assumes "bind_io m f w = (r, w')"
  obtains (err) e where "m w = (Inl e, w')" "r = Inl e"
    | (ok) a w1 where "m w = (Inr a, w1)" "f a w1 = (r, w')"
  using assms by (auto simp: bind_io_def split: prod.splits sum.splits)

lemma ctx_cases:
  assumes "ctx msg m w = (r, w')"
  obtains (err) e where "m w = (Inl e, w')" "r = Inl (IoContext msg e)"
    | (ok) a where "m w = (Inr a, w')" "r = Inr a"
  using assms by (cases "m w"; cases "fst (m w)") (auto simp: ctx_def err_io_def)

lemma attempt_io_eq: "attempt_io m w = (r, w') \<longleftrightarrow> (\<exists>x. m w = (x, w') \<and> r = Inr x)"
  by (auto simp: attempt_io_def split: prod.splits)

lemma ret_io_eq [simp]: "ret_io a w = (r, w') \<longleftrightarrow> r = Inr a \<and> w' = w"
  by (auto simp: ret_io_def)

lemma fail_io_eq [simp]: "fail_io e w = (r, w') \<longleftrightarrow> r = Inl e \<and> w' = w"
  by (auto simp: fail_io_def)

lemma lift_res_eq [simp]: "lift_res x w = (r, w') \<longleftrightarrow> r = x \<and> w' = w"
  by (auto simp: lift_res_def)

lemma ser_io_eq [simp]: "ser_io msg x w = (r, w') \<longleftrightarrow> r = map_err (SerializeError msg) x \<and> w' = w"
  by (auto simp: ser_io_def)

lemma bind_io_simps [simp]:
  "bind_io (ret_io a) f = f a"
  "bind_io (fail_io e) f = fail_io e"
  "bind_io (lift_res (Inr a)) f = f a"
  "bind_io (ser_io msg (Inr a)) f = f a"
  "bind_io (ser_io msg (Inl e')) f = fail_io (SerializeError msg e')"
  by (simp_all add: fun_eq_iff bind_io_def ret_io_def fail_io_def lift_res_def ser_io_def)

text \<open>Queries always succeed and only take their turn.\<close>

definition next_tick :: "world \<Rightarrow> world" where
  "next_tick w = w\<lparr>tick := Suc (tick w)\<rparr>"

lemma next_tick_simps [simp]:
  "nodes (next_tick w) = nodes w" "clock (next_tick w) = clock w" "faults (next_tick w) = faults w"
  "same_env w (next_tick w)" "same_env w' (next_tick w) = same_env w' w"
  by (simp_all add: next_tick_def same_env_def)

lemma bind_queries:
  "bind_io (fs_exists p) f w = f (faults w (tick w) \<noteq> StatFail \<and> view (nodes w) p \<noteq> None) (next_tick w)"
  "bind_io (fs_is_dir p) f w = f (faults w (tick w) \<noteq> StatFail \<and> view (nodes w) p = vdir) (next_tick w)"
  "bind_io now_secs g w = g (unix_secs (clock w (tick w))) (next_tick w)"
  by (simp_all add: bind_io_def fs_exists_def fs_is_dir_def now_secs_def fs_now_def ret_io_def prim_io_def
      next_tick_def look_None_view is_dir_node_view)

lemma bind_read:
  assumes "bind_io (ctx msg (fs_read p)) f w = (res, w')"
  shows "(\<exists>e. res = Inl e \<and> nodes w' = nodes w \<and> same_env w w') \<or>
    (\<exists>c l. view (nodes w) p = Some (FileN c 0 l) \<and> f c (next_tick w) = (res, w'))"
  using assms
proof (cases rule: bind_io_cases)
  case (err e)
  then obtain e' where "fs_read p w = (Inl e', w')" by (auto elim: ctx_cases)
  from fs_read_effect [OF this] err show ?thesis by blast
next
  case (ok c w1)
  then have 1: "fs_read p w = (Inr c, w1)" by (auto elim: ctx_cases)
  then have "w1 = next_tick w"
    using fs_read_effect [OF 1] by (auto simp: fs_read_def prim_io_def next_tick_def split: prod.splits)
  with fs_read_effect [OF 1] ok show ?thesis by auto
qed

section \<open>Publishing a file\<close>

text \<open>What writing a temporary file and renaming it leaves, whatever fails.\<close>

definition published :: "fpath \<Rightarrow> fpath \<Rightarrow> string \<Rightarrow> bool \<Rightarrow> fs \<Rightarrow> fs \<Rightarrow> bool" where
  "published tmp final content done fs fs' \<longleftrightarrow>
     (\<forall>q. q \<noteq> tmp \<and> q \<noteq> final \<longrightarrow> view fs' q = view fs q) \<and>
     (view fs' final = view fs final \<or> (\<exists>l. view fs' final = Some (FileN content 0 l))) \<and>
     (done \<longrightarrow> (\<exists>l. view fs' final = Some (FileN content 0 l)) \<and> view fs' tmp = None)"

lemma view_below_file: "fs_wf fs \<Longrightarrow> view fs p \<noteq> vdir \<Longrightarrow> strict_prefix p q \<Longrightarrow> view fs q = None"
  using wf_prefix_dir by blast

lemma write_rename_published:
  assumes wf: "fs_wf (nodes w)" and tf: "tmp = d @ [a]" "final = d @ [b]" "a \<noteq> b"
    and m1: "fs_write tmp content w = (r1, w1)"
    and m2: "(r1 = Inr () \<and> fs_rename tmp final w1 = (r2, w2)) \<or> (r1 \<noteq> Inr () \<and> w2 = w1 \<and> r2 = r1)"
  shows "same_env w w2 \<and> fs_wf (nodes w2) \<and> published tmp final content (r2 = Inr ()) (nodes w) (nodes w2)"
proof (cases "r1 = Inr ()")
  case False
  then obtain e where e: "r1 = Inl e" by (cases r1) auto
  with fs_write_effect [OF m1] wf m2 tf show ?thesis by (auto simp: published_def)
next
  case True
  with m2 have m2: "fs_rename tmp final w1 = (r2, w2)" by simp
  from fs_write_effect [OF m1] True wf obtain l where w1: "same_env w w1" "fs_wf (nodes w1)"
    "view (nodes w1) = (view (nodes w))(tmp \<mapsto> FileN content 0 l)" by blast
  note e = fs_rename_effect [OF m2]
  show ?thesis
  proof (cases r2)
    case (Inl err)
    with e w1 tf show ?thesis by (auto simp: published_def intro: same_env_trans)
  next
    case (Inr u)
    have ne: "tmp \<noteq> final" "\<not> prefix tmp final" "\<not> prefix final tmp" using tf by auto
    from Inr e ne w1 have v: "view (nodes w2) = vmove tmp final (view (nodes w1))"
      "view (nodes w1) final \<noteq> vdir" by auto
    have "view (nodes w2) q = view (nodes w) q" if "q \<noteq> tmp" "q \<noteq> final" for q
    proof (cases "prefix final q \<or> prefix tmp q")
      case False
      with v w1 that show ?thesis by (simp add: vmove_def)
    next
      case True
      have "view (nodes w1) tmp \<noteq> vdir" using w1 by simp
      with True that v(2) have "view (nodes w1) q = None"
        using view_below_file [OF w1(2)] by (auto simp: strict_prefix_def)
      moreover have "view (nodes w2) q = None"
      proof (cases "prefix final q")
        case True
        then obtain s where q: "q = final @ s" by (auto simp: prefix_def)
        with that have s: "q = final @ s" "s \<noteq> []" by auto
        then have "strict_prefix tmp (tmp @ s)" by (simp add: strict_prefix_def)
        with \<open>view (nodes w1) tmp \<noteq> vdir\<close> have "view (nodes w1) (tmp @ s) = None"
          using view_below_file [OF w1(2)] by blast
        with s v show ?thesis by (simp add: vmove_def)
      next
        case False
        with \<open>prefix final q \<or> prefix tmp q\<close> v show ?thesis by (simp add: vmove_def)
      qed
      ultimately show ?thesis using w1 that by simp
    qed
    moreover have "view (nodes w2) final = Some (FileN content 0 l)"
      using v w1 by (simp add: vmove_def)
    moreover have "view (nodes w2) tmp = None"
      using v ne by (simp add: vmove_def)
    ultimately show ?thesis
      using e w1 Inr by (auto simp: published_def intro: same_env_trans)
  qed
qed

lemma ctx_publish_published:
  assumes wf: "fs_wf (nodes w)" and tf: "tmp = d @ [a]" "final = d @ [b]" "a \<noteq> b"
    and m: "bind_io (ctx m1 (fs_write tmp content)) (\<lambda>_. ctx m2 (fs_rename tmp final)) w = (r, w')"
  shows "same_env w w' \<and> fs_wf (nodes w') \<and> published tmp final content (r = Inr ()) (nodes w) (nodes w')"
  using m
proof (cases rule: bind_io_cases)
  case (err e)
  then obtain e' where "fs_write tmp content w = (Inl e', w')" by (auto elim: ctx_cases)
  from write_rename_published [OF wf tf this, of "Inl e'" w'] err show ?thesis
    by (auto simp: published_def)
next
  case (ok u w1)
  then have 1: "fs_write tmp content w = (Inr (), w1)" by (auto elim: ctx_cases)
  from ok(2) obtain r2 where 2: "fs_rename tmp final w1 = (r2, w')" "r = Inr () \<longleftrightarrow> r2 = Inr ()"
    by (auto elim!: ctx_cases)
  with write_rename_published [OF wf tf 1, of r2 w'] show ?thesis by simp
qed

text \<open>
  C22. Publishing a status is all or nothing under every schedule of I/O failures and crashes: the
  status file afterwards is the old one or holds exactly the new content, success means the new
  content and no temporary file, and nothing but these two files changes.
\<close>

theorem publish_status_all_or_nothing:
  assumes "fs_wf (nodes w)" "cd_ser_status cod status = Inr content"
    and "publish_status_atomic cod dir status w = (r, w')"
  shows "fs_wf (nodes w') \<and>
    (\<forall>q. q \<noteq> dir @ [''status.toml''] \<and> q \<noteq> dir @ [''status.toml.tmp''] \<longrightarrow>
      view (nodes w') q = view (nodes w) q) \<and>
    (view (nodes w') (dir @ [''status.toml'']) = view (nodes w) (dir @ [''status.toml'']) \<or>
     (\<exists>l. view (nodes w') (dir @ [''status.toml'']) = Some (FileN content 0 l))) \<and>
    (r = Inr () \<longrightarrow> (\<exists>l. view (nodes w') (dir @ [''status.toml'']) = Some (FileN content 0 l)) \<and>
      view (nodes w') (dir @ [''status.toml.tmp'']) = None)"
proof -
  from assms(2,3) have "bind_io (ctx ''failed to write temporary status'' (fs_write (dir @ [''status.toml.tmp'']) content))
      (\<lambda>_. ctx ''failed to publish status'' (fs_rename (dir @ [''status.toml.tmp'']) (dir @ [''status.toml'']))) w = (r, w')"
    by (simp add: publish_status_atomic_def Let_def)
  from ctx_publish_published [OF assms(1) refl refl _ this] show ?thesis
    by (simp add: published_def)
qed

section \<open>Confinement\<close>

text \<open>
  A change confined to the trees at \<open>P\<close>: elsewhere nothing changes, except that missing
  directories on the way to them (\<open>A\<close>) may have been created.
\<close>

definition same_or_made :: "fpath set \<Rightarrow> fpath \<Rightarrow> node option \<Rightarrow> node option \<Rightarrow> bool" where
  "same_or_made A q a b \<longleftrightarrow> b = a \<or> (q \<in> A \<and> a = None \<and> b = vdir)"

definition confined :: "fpath set \<Rightarrow> fpath set \<Rightarrow> world \<Rightarrow> world \<Rightarrow> bool" where
  "confined P A w w' \<longleftrightarrow> same_env w w' \<and>
     (\<forall>q. (\<forall>p \<in> P. \<not> prefix p q) \<longrightarrow> same_or_made A q (view (nodes w) q) (view (nodes w') q))"

lemma same_or_made_refl [simp]: "same_or_made A q a a"
  by (simp add: same_or_made_def)

lemma same_or_made_trans: "same_or_made A q a b \<Longrightarrow> same_or_made A q b c \<Longrightarrow> same_or_made A q a c"
  by (auto simp: same_or_made_def)

lemma same_or_made_mono: "same_or_made A q a b \<Longrightarrow> A \<subseteq> A' \<Longrightarrow> same_or_made A' q a b"
  by (auto simp: same_or_made_def)

lemma confined_refl: "confined P A w w"
  by (simp add: confined_def)

lemma confined_trans: "confined P A w w' \<Longrightarrow> confined P A w' w'' \<Longrightarrow> confined P A w w''"
  unfolding confined_def by (blast intro: same_env_trans same_or_made_trans)

interpretation conf: world_relation "confined P A" for P A
  by unfold_locales (rule confined_refl, rule confined_trans)

lemma confined_mono: "confined P A w w' \<Longrightarrow> P \<subseteq> P' \<Longrightarrow> A \<subseteq> A' \<Longrightarrow> confined P' A' w w'"
  unfolding confined_def by (meson same_or_made_mono subsetD)

lemma same_outside_confined:
  "same_outside S w w' \<Longrightarrow> (\<And>q. q \<in> S \<Longrightarrow> \<exists>p \<in> P. prefix p q) \<Longrightarrow> confined P A w w'"
  unfolding confined_def same_outside_def same_or_made_def by metis

lemma conf_of_frame:
  "frame.kept S m \<Longrightarrow> (\<And>q. q \<in> S \<Longrightarrow> \<exists>p \<in> P. prefix p q) \<Longrightarrow> conf.kept P A m"
  unfolding frame.kept_def conf.kept_def using same_outside_confined by blast

lemma conf_create_dir_all:
  "(\<And>q. q \<noteq> [] \<Longrightarrow> prefix q p \<Longrightarrow> q \<in> A) \<Longrightarrow> conf.kept P A (fs_create_dir_all p)"
  unfolding conf.kept_def confined_def same_or_made_def
proof (intro allI impI conjI)
  fix w r w' assume a: "\<And>q. q \<noteq> [] \<Longrightarrow> prefix q p \<Longrightarrow> q \<in> A" and m: "fs_create_dir_all p w = (r, w')"
  note e = fs_create_dir_all_effect [OF m]
  then show "same_env w w'" by blast
  fix q
  from e have "view (nodes w') q = view (nodes w) q \<or>
      (q \<noteq> [] \<and> prefix q p \<and> view (nodes w) q = None \<and> view (nodes w') q = vdir)"
    by (simp add: adds_dirs_def)
  with a show "view (nodes w') q = view (nodes w) q \<or> q \<in> A \<and> view (nodes w) q = None \<and> view (nodes w') q = vdir"
    by blast
qed

lemma conf_prims:
  "conf.kept P A (fs_exists p)" "conf.kept P A (fs_is_dir p)" "conf.kept P A fs_now" "conf.kept P A (fs_read p)"
  "conf.kept P A (fs_mtime p)" "conf.kept P A (fs_read_dir p)"
  by (rule conf_of_frame [where S = "{}"], rule frame_reads, simp)+

lemma conf_writes:
  assumes "\<exists>r \<in> P. prefix r p"
  shows "conf.kept P A (fs_write p c)" "conf.kept P A (fs_create_dir p)"
    "conf.kept P A (fs_remove_dir_all p)" "conf.kept P A (fs_remove_file p)"
    "\<exists>r \<in> P. prefix r q \<Longrightarrow> conf.kept P A (fs_rename p q)"
proof -
  have up: "prefix p q \<Longrightarrow> \<exists>r \<in> P. prefix r q" for q
    using assms by (meson prefix_order.trans)
  show "conf.kept P A (fs_write p c)"
    by (rule conf_of_frame [where S = "{p}"]) (use assms in \<open>auto intro: frame_write\<close>)
  show "conf.kept P A (fs_create_dir p)"
    by (rule conf_of_frame [where S = "{p}"]) (use assms in \<open>auto intro: frame_create_dir\<close>)
  show "conf.kept P A (fs_remove_dir_all p)" "conf.kept P A (fs_remove_file p)"
    by (rule conf_of_frame [where S = "{q. prefix p q}"]; use up in \<open>auto intro: frame_remove\<close>)+
  assume q: "\<exists>r \<in> P. prefix r q"
  have "prefix q s \<Longrightarrow> \<exists>r \<in> P. prefix r s" for s using q by (meson prefix_order.trans)
  then show "conf.kept P A (fs_rename p q)"
    by (intro conf_of_frame [where S = "{s. prefix p s \<or> prefix q s}"]) (use up in \<open>auto intro: frame_rename\<close>)
qed

lemmas conf_rules = conf.kept_intros conf_prims conf_writes

lemma prefix_child: "prefix p (p @ s)"
  by (simp add: prefix_def)

lemma conf_first_existing: "conf.kept P A (first_existing_phase wd n r phs)"
  by (induction phs) (auto intro!: conf_rules)

lemma conf_drop_lock: "dir \<in> P \<Longrightarrow> conf.kept P A (drop_lock_file dir)"
  unfolding drop_lock_file_def by (intro conf_rules) (auto intro: prefix_child)

lemma conf_prune: "run \<in> P \<Longrightarrow> conf.kept P A (prune_success_terminal run)"
  unfolding prune_success_terminal_def prune_dir_def prune_file_def ctx_def
  by (intro conf_rules) (auto intro: prefix_child)

definition parents :: "ServerWorkDir \<Rightarrow> Nickname \<Rightarrow> RunId \<Rightarrow> fpath set" where
  "parents wd n r = {q. q \<noteq> [] \<and> (\<exists>ph. prefix q (run_parent wd n r ph))}"

lemma conf_parent: "conf.kept P (parents wd n r) (fs_create_dir_all (run_parent wd n r ph))"
  by (rule conf_create_dir_all) (auto simp: parents_def)

lemma conf_begin_tail:
  "conf.kept {run_path wd n r Incoming} (parents wd n r) (fs_create_dir (run_path wd n r Incoming))"
  "conf.kept {run_path wd n r Incoming} (parents wd n r) (fs_create_dir (run_path wd n r Incoming @ s))"
  "conf.kept {run_path wd n r Incoming} (parents wd n r) (write_lease (run_path wd n r Incoming) c)"
  "conf.kept {run_path wd n r Incoming} (parents wd n r) (remove_quietly (run_path wd n r Incoming))"
  unfolding write_lease_def remove_quietly_def
  by (intro conf_rules; auto intro: prefix_child)+

lemma conf_begin_run:
  "conf.kept {run_path (sc_work_dir config) n r Incoming} (parents (sc_work_dir config) n r) (begin_run cod config n r)"
  unfolding begin_run_def Let_def ctx_def ser_io_def now_secs_def
  by (intro conf.kept_intros conf_prims conf_first_existing conf_parent conf_begin_tail)

lemma conf_finish_run:
  "conf.kept {run_path (sc_work_dir config) n r Incoming, run_path (sc_work_dir config) n r Ready}
    (parents (sc_work_dir config) n r) (finish_run cod config n r)"
  unfolding finish_run_def Let_def ctx_def now_secs_def
  by (intro conf.kept_intros conf_prims conf_first_existing conf_parent conf_writes) auto

lemma conf_finalize:
  "conf.kept {run_path (sc_work_dir config) n r Processing, run_path (sc_work_dir config) n r (terminal_phase st)}
    (parents (sc_work_dir config) n r) (finalize_processing_run config n r st)"
  unfolding finalize_processing_run_def Let_def ctx_def
  by (intro conf.kept_intros conf_prims conf_parent conf_writes conf_prune conf_drop_lock) auto

lemma conf_write_run_failure:
  "conf.kept {run_path wd n r Processing, run_path wd n r Failed} (parents wd n r)
    (write_run_failure cod wd n r msg)"
  unfolding write_run_failure_def Let_def ctx_def ser_io_def
  by (intro conf.kept_intros conf_prims conf_parent conf_writes conf_drop_lock) (auto intro: prefix_child)

lemma conf_move_to_failed:
  "conf.kept {run_path wd n r Processing, run_path wd n r Failed} (parents wd n r) (move_to_failed wd n r)"
  unfolding move_to_failed_def Let_def ctx_def
  by (intro conf.kept_intros conf_prims conf_parent conf_writes conf_drop_lock) auto

section \<open>Commands on a run\<close>

datatype run_command =
    BeginRun
  | FinishRun
  | FinalizeRun RunState
  | FailRun string
  | MoveToFailed

fun exec_command :: "codecs \<Rightarrow> ServerConfig \<Rightarrow> Nickname \<Rightarrow> RunId \<Rightarrow> run_command \<Rightarrow> unit server" where
  "exec_command cod config n r BeginRun = bind_io (begin_run cod config n r) (\<lambda>_. ret_io ())"
| "exec_command cod config n r FinishRun = finish_run cod config n r"
| "exec_command cod config n r (FinalizeRun st) = finalize_processing_run config n r st"
| "exec_command cod config n r (FailRun msg) = write_run_failure cod (sc_work_dir config) n r msg"
| "exec_command cod config n r MoveToFailed = move_to_failed (sc_work_dir config) n r"

definition run_roots :: "ServerWorkDir \<Rightarrow> Nickname \<Rightarrow> RunId \<Rightarrow> fpath set" where
  "run_roots wd n r = range (run_path wd n r)"

lemma kept_weaken: "conf.kept P A m \<Longrightarrow> P \<subseteq> P' \<Longrightarrow> conf.kept P' A m"
  unfolding conf.kept_def using confined_mono by blast

lemma conf_exec_command:
  "conf.kept (run_roots (sc_work_dir config) n r) (parents (sc_work_dir config) n r) (exec_command cod config n r c)"
proof (cases c)
  case BeginRun
  have "conf.kept (run_roots (sc_work_dir config) n r) (parents (sc_work_dir config) n r) (begin_run cod config n r)"
    by (rule kept_weaken [OF conf_begin_run]) (auto simp: run_roots_def)
  with BeginRun show ?thesis by (simp add: conf.kept_bind conf.kept_ret)
next
  case FinishRun
  then show ?thesis by (simp add: kept_weaken [OF conf_finish_run] run_roots_def)
next
  case (FinalizeRun st)
  then show ?thesis by (simp add: kept_weaken [OF conf_finalize] run_roots_def)
next
  case (FailRun msg)
  then show ?thesis by (simp add: kept_weaken [OF conf_write_run_failure] run_roots_def)
next
  case MoveToFailed
  then show ?thesis by (simp add: kept_weaken [OF conf_move_to_failed] run_roots_def)
qed

lemma run_path_not_in_parents:
  "run_ok wd n r \<Longrightarrow> run_ok wd n' r' \<Longrightarrow> run_path wd n r ph @ s \<notin> parents wd n' r'"
  using run_path_not_parent by (fastforce simp: parents_def dest: append_prefixD)

lemma run_path_prefix_append_iff:
  assumes "run_ok wd n r" "run_ok wd n' r'"
  shows "prefix (run_path wd n r ph) (run_path wd n' r' ph' @ s) \<longleftrightarrow> n = n' \<and> r = r' \<and> ph = ph'"
proof -
  have "length (run_path wd n r ph) = length (run_path wd n' r' ph')" using assms by (simp add: run_path_eq)
  then have "prefix (run_path wd n r ph) (run_path wd n' r' ph' @ s) \<longleftrightarrow> run_path wd n r ph = run_path wd n' r' ph'"
    by (auto simp: prefix_def append_eq_append_conv)
  with assms show ?thesis using run_path_prefix_iff [OF assms] by (metis prefix_order.refl prefix_order.eq_iff)
qed


section \<open>Moving a run from one phase to the next\<close>

lemma run_paths_apart:
  assumes "run_ok wd n r" "ph \<noteq> ph'"
  shows "\<not> prefix (run_path wd n r ph) (run_path wd n r ph' @ s)" "run_path wd n r ph \<noteq> run_path wd n r ph'"
  using assms run_path_prefix_append_iff [OF assms(1,1), of ph ph' s] run_path_prefix_iff [OF assms(1,1), of ph ph']
  by auto

text \<open>Creating the parent of a phase directory leaves every run directory alone.\<close>

lemma parent_keeps_runs:
  assumes "run_ok wd n r" "fs_create_dir_all (run_parent wd n r ph) w = (res, w')"
  shows "view (nodes w') (run_path wd n r ph' @ s) = view (nodes w) (run_path wd n r ph' @ s)"
    "same_env w w'" "fs_wf (nodes w) \<longrightarrow> fs_wf (nodes w')"
proof -
  note e = fs_create_dir_all_effect [OF assms(2)]
  then show "same_env w w'" "fs_wf (nodes w) \<longrightarrow> fs_wf (nodes w')" by blast+
  have "\<not> prefix (run_path wd n r ph' @ s) (run_parent wd n r ph)"
    using run_path_not_parent [OF assms(1,1)] by (meson append_prefixD)
  with e show "view (nodes w') (run_path wd n r ph' @ s) = view (nodes w) (run_path wd n r ph' @ s)"
    by (auto simp: adds_dirs_def)
qed

text \<open>A whole run directory in one place, and gone from another.\<close>

definition moved :: "ServerWorkDir \<Rightarrow> Nickname \<Rightarrow> RunId \<Rightarrow> RunPhase \<Rightarrow> RunPhase \<Rightarrow> fs \<Rightarrow> fs \<Rightarrow> bool" where
  "moved wd n r ph ph' fs fs' \<longleftrightarrow>
     (\<forall>s. view fs' (run_path wd n r ph' @ s) = view fs (run_path wd n r ph @ s)) \<and>
     (\<forall>s. view fs' (run_path wd n r ph @ s) = None)"

lemma rename_moves:
  assumes "run_ok wd n r" "ph \<noteq> ph'" "fs_rename (run_path wd n r ph) (run_path wd n r ph') w = (Inr (), w')"
  shows "moved wd n r ph ph' (nodes w) (nodes w')"
proof -
  note apart = run_paths_apart [OF assms(1,2)] run_paths_apart [OF assms(1) assms(2) [symmetric]]
  from fs_rename_effect [OF assms(3)] apart(2)
  have "view (nodes w') = vmove (run_path wd n r ph) (run_path wd n r ph') (view (nodes w))" by auto
  with apart show ?thesis by (auto simp: moved_def vmove_def)
qed

lemma rename_fails:
  "fs_rename p q w = (Inl e, w') \<Longrightarrow> view (nodes w') = view (nodes w) \<and> same_env w w'"
  using fs_rename_effect by blast

text \<open>The two steps that every phase change consists of.\<close>

lemma phase_change:
  assumes "run_ok wd n r" "ph \<noteq> ph'" "fs_wf (nodes w)"
    and "bind_io (ctx m1 (fs_create_dir_all (run_parent wd n r ph')))
      (\<lambda>_. bind_io (ctx m2 (fs_rename (run_path wd n r ph) (run_path wd n r ph'))) (\<lambda>_. tail)) w = (res, w')"
  obtains (stay) e where "res = Inl e" "\<And>ph s. view (nodes w') (run_path wd n r ph @ s) = view (nodes w) (run_path wd n r ph @ s)"
    | (go) w1 where "moved wd n r ph ph' (nodes w) (nodes w1)" "tail w1 = (res, w')" "same_env w w1" "fs_wf (nodes w1)"
proof -
  from assms(4) consider (mk) e where "fs_create_dir_all (run_parent wd n r ph') w = (Inl e, w')" "\<exists>e. res = Inl e"
    | (mv) w0 e where "fs_create_dir_all (run_parent wd n r ph') w = (Inr (), w0)"
      "fs_rename (run_path wd n r ph) (run_path wd n r ph') w0 = (Inl e, w')" "\<exists>e. res = Inl e"
    | (ok) w0 w1 where "fs_create_dir_all (run_parent wd n r ph') w = (Inr (), w0)"
      "fs_rename (run_path wd n r ph) (run_path wd n r ph') w0 = (Inr (), w1)" "tail w1 = (res, w')"
    by (auto elim!: bind_io_cases ctx_cases)
  then show thesis
  proof cases
    case mk
    with parent_keeps_runs [OF assms(1) mk(1)] show thesis using stay by blast
  next
    case mv
    with parent_keeps_runs [OF assms(1) mv(1)] rename_fails [OF mv(2)] show thesis
      using stay by (metis (no_types))
  next
    case ok
    note k = parent_keeps_runs [OF assms(1) ok(1)]
    have "moved wd n r ph ph' (nodes w0) (nodes w1)" by (rule rename_moves [OF assms(1,2) ok(2)])
    then have "moved wd n r ph ph' (nodes w) (nodes w1)" by (simp add: moved_def k(1))
    moreover have "same_env w w1" "fs_wf (nodes w1)"
      using k(2,3) assms(3) fs_rename_effect [OF ok(2)] by (auto intro: same_env_trans)
    ultimately show thesis using go ok(3) by blast
  qed
qed

lemma phase_change_last:
  assumes "run_ok wd n r" "ph \<noteq> ph'" "fs_wf (nodes w)"
    and "bind_io (ctx m1 (fs_create_dir_all (run_parent wd n r ph')))
      (\<lambda>_. ctx m2 (fs_rename (run_path wd n r ph) (run_path wd n r ph'))) w = (res, w')"
  shows "(\<exists>e. res = Inl e) \<and> (\<forall>ph s. view (nodes w') (run_path wd n r ph @ s) = view (nodes w) (run_path wd n r ph @ s)) \<or>
    res = Inr () \<and> moved wd n r ph ph' (nodes w) (nodes w')"
proof -
  have unit: "bind_io m (\<lambda>_. ret_io ()) = m" for m :: "unit server"
    by (auto simp: fun_eq_iff bind_io_def ret_io_def split: prod.splits sum.splits)
  have run: "bind_io (ctx m1 (fs_create_dir_all (run_parent wd n r ph')))
      (\<lambda>_. bind_io (ctx m2 (fs_rename (run_path wd n r ph) (run_path wd n r ph'))) (\<lambda>_. ret_io ())) w = (res, w')"
    using assms(4) by (simp only: unit)
  show ?thesis
    by (rule phase_change [OF assms(1-3) run]) auto
qed

section \<open>Finishing an upload\<close>

definition reliable :: "world \<Rightarrow> bool" where
  "reliable w \<longleftrightarrow> (\<forall>k. faults w k \<noteq> StatFail)"

lemma reliable_env: "same_env w w' \<Longrightarrow> reliable w' \<longleftrightarrow> reliable w"
  by (simp add: reliable_def same_env_def)

lemma first_existing_effect:
  "first_existing_phase wd n r phs w = (res, w') \<Longrightarrow> same_env w w' \<and> nodes w' = nodes w \<and>
    (\<exists>x. res = Inr x \<and>
      (case x of Some ph \<Rightarrow> ph \<in> set phs \<and> view (nodes w) (run_path wd n r ph) \<noteq> None
       | None \<Rightarrow> reliable w \<longrightarrow> (\<forall>ph \<in> set phs. view (nodes w) (run_path wd n r ph) = None)))"
proof (induction phs arbitrary: w)
  case (Cons ph phs)
  let ?b = "faults w (tick w) \<noteq> StatFail \<and> view (nodes w) (run_path wd n r ph) \<noteq> None"
  from Cons.prems have "(if ?b then ret_io (Some ph) else first_existing_phase wd n r phs) (next_tick w) = (res, w')"
    by (simp add: bind_queries)
  then show ?case
  proof (cases ?b)
    case False
    with \<open>(if ?b then _ else _) (next_tick w) = _\<close>
    have "first_existing_phase wd n r phs (next_tick w) = (res, w')" by (simp only: if_False)
    from Cons.IH [OF this] False show ?thesis
      by (auto simp: reliable_def same_env_def split: option.splits)
  qed auto
qed auto

lemma finish_run_cases:
  assumes ok: "run_ok (sc_work_dir config) n r" and wf: "fs_wf (nodes w)"
    and run: "finish_run cod config n r w = (res, w')"
  shows "case res of
      Inl e \<Rightarrow> \<forall>ph s. view (nodes w') (run_path (sc_work_dir config) n r ph @ s) =
        view (nodes w) (run_path (sc_work_dir config) n r ph @ s)
    | Inr _ \<Rightarrow>
        (\<exists>ph \<in> {Ready, Processing, Done, Failed}.
          view (nodes w) (run_path (sc_work_dir config) n r ph) \<noteq> None \<and> nodes w' = nodes w) \<or>
        (\<exists>content l lease k.
          view (nodes w) (run_path (sc_work_dir config) n r Incoming @ [''lease.toml'']) = Some (FileN content 0 l) \<and>
          check_lease cod n r content = Inr lease \<and> unix_secs (clock w k) < lf_expires_at lease \<and>
          moved (sc_work_dir config) n r Incoming Ready (nodes w) (nodes w'))"
proof -
  let ?wd = "sc_work_dir config"
  let ?inc = "run_path ?wd n r Incoming"
  obtain found w1 where 1: "first_existing_phase ?wd n r [Ready, Processing, Done, Failed] w = (Inr found, w1)"
    using first_existing_effect [of ?wd n r "[Ready, Processing, Done, Failed]" w] by (metis surj_pair)
  from first_existing_effect [OF 1] have e1: "same_env w w1" "nodes w1 = nodes w"
    "found \<noteq> None \<Longrightarrow> \<exists>ph \<in> {Ready, Processing, Done, Failed}. view (nodes w) (run_path ?wd n r ph) \<noteq> None"
    by (auto split: option.splits)
  show ?thesis
  proof (cases "found = None")
    case False
    with run 1 have "res = Inr ()" "w' = w1" by (auto simp: finish_run_def Let_def bind_io_def)
    with e1 False show ?thesis by auto
  next
    case None: True
    define go where "go = bind_io (ctx ''failed to create ready parent'' (fs_create_dir_all (run_parent ?wd n r Ready)))
      (\<lambda>_. ctx ''failed to move incoming to ready'' (fs_rename ?inc (run_path ?wd n r Ready)))"
    have "(\<exists>e. res = Inl e \<and> nodes w' = nodes w) \<or>
      (\<exists>content l lease k w2. view (nodes w) (?inc @ [''lease.toml'']) = Some (FileN content 0 l) \<and>
        check_lease cod n r content = Inr lease \<and> unix_secs (clock w k) < lf_expires_at lease \<and>
        nodes w2 = nodes w \<and> go w2 = (res, w'))"
      (is "?failed \<or> ?went")
    proof -
      let ?ready = "run_path ?wd n r Ready" and ?lease = "?inc @ [''lease.toml'']"
      define after where "after content = bind_io (lift_res (check_lease cod n r content)) (\<lambda>lease.
        bind_io now_secs (\<lambda>now.
          if lf_expires_at lease \<le> now then fail_io (Bail ''cannot finish run: incoming lease expired'')
          else bind_io (fs_exists ?ready) (\<lambda>rdy.
            if rdy then fail_io (Bail ''ready directory already exists'') else go)))" for content
      have "?failed \<or> (\<exists>w3. same_env w w3 \<and> nodes w3 = nodes w \<and>
          bind_io (ctx ''failed to read lease file'' (fs_read ?lease)) after w3 = (res, w'))"
        using run 1 None e1(1,2) unfolding finish_run_def Let_def go_def [symmetric] after_def [symmetric]
        by (auto simp: bind_io_def [of "first_existing_phase _ _ _ _"] bind_queries
            simp del: first_existing_phase.simps split: if_splits)
      moreover have "?failed \<or> ?went" if w3: "same_env w w3" "nodes w3 = nodes w"
        "bind_io (ctx ''failed to read lease file'' (fs_read ?lease)) after w3 = (res, w')" for w3
      proof -
        from bind_read [OF w3(3)] w3(2) consider "?failed"
          | c l where "view (nodes w) ?lease = Some (FileN c 0 l)" "after c (next_tick w3) = (res, w')" by auto
        then show ?thesis
        proof cases
          case (2 c l)
          show ?thesis
          proof (cases "check_lease cod n r c")
            case (Inl e)
            with 2 w3 show ?thesis by (auto simp: after_def bind_io_def lift_res_def)
          next
            case (Inr lease)
            with 2 w3 show ?thesis
              by (auto simp: after_def bind_queries same_env_def not_le split: if_splits)
          qed
        qed simp
      qed
      ultimately show ?thesis by blast
    qed
    then show ?thesis
    proof (elim disjE exE conjE)
      fix e assume "res = Inl e" "nodes w' = nodes w"
      then show ?thesis by simp
    next
      fix content l lease k w2
      assume a: "view (nodes w) (?inc @ [''lease.toml'']) = Some (FileN content 0 l)"
        "check_lease cod n r content = Inr lease" "unix_secs (clock w k) < lf_expires_at lease"
        "nodes w2 = nodes w" "go w2 = (res, w')"
      have "fs_wf (nodes w2)" using wf a(4) by simp
      from phase_change_last [OF ok _ this a(5) [unfolded go_def]] a show ?thesis by auto
    qed
  qed
qed

text \<open>The lease of this very run, of a compatible version and of the current protocol.\<close>

definition own_lease :: "codecs \<Rightarrow> Nickname \<Rightarrow> RunId \<Rightarrow> string \<Rightarrow> LeaseFile \<Rightarrow> bool" where
  "own_lease cod n r content lease \<longleftrightarrow>
     (\<exists>v. probe_purgery_version_from_toml (cd_toml cod) content = Inr v) \<and> cd_de_lease cod content = Inr lease \<and>
     is_ok (require_compatible_purgery_version (lf_purgery_version lease) ''lease'') \<and>
     lf_protocol_version lease = PROTOCOL_VERSION \<and>
     lf_nickname lease = nickname_str n \<and> lf_run_id lease = run_id_str r"

lemma read_lease_own: "read_lease msg cod n r content = Inr lease \<longleftrightarrow> own_lease cod n r content lease"
  unfolding read_lease_def own_lease_def
  by (cases "probe_purgery_version_from_toml (cd_toml cod) content"; cases "cd_de_lease cod content") auto

text \<open>
  C20. \<open>finish_run\<close> succeeds only for a run that is already past \<open>incoming\<close>, which it leaves
  alone, or for one whose lease file passes every check and has not expired at the time read; that
  run's whole directory is then in \<open>ready\<close> and no longer in \<open>incoming\<close>. When it fails, for
  whatever reason, the run's directories are as they were.
\<close>

theorem finish_run_moves_leased:
  assumes ok: "run_ok (sc_work_dir config) n r" and wf: "fs_wf (nodes w)"
    and run: "finish_run cod config n r w = (res, w')"
  shows "case res of
      Inl e \<Rightarrow> \<forall>ph s. view (nodes w') (run_path (sc_work_dir config) n r ph @ s) =
        view (nodes w) (run_path (sc_work_dir config) n r ph @ s)
    | Inr _ \<Rightarrow>
        (\<exists>ph \<in> {Ready, Processing, Done, Failed}.
          view (nodes w) (run_path (sc_work_dir config) n r ph) \<noteq> None \<and> nodes w' = nodes w) \<or>
        (\<exists>content l lease k.
          view (nodes w) (run_path (sc_work_dir config) n r Incoming @ [''lease.toml'']) = Some (FileN content 0 l) \<and>
          own_lease cod n r content lease \<and> unix_secs (clock w k) < lf_expires_at lease \<and>
          moved (sc_work_dir config) n r Incoming Ready (nodes w) (nodes w'))"
  using finish_run_cases [OF assms] unfolding check_lease_def read_lease_own .

section \<open>Finalizing a run\<close>

text \<open>What a terminal directory may lose: work areas, the lease, progress, the lock, temporary files.\<close>

definition disposable :: "string \<Rightarrow> bool" where
  "disposable name \<longleftrightarrow>
     name \<in> {''files'', ''work'', ''lease.toml'', ''progress.toml'', ''processor.lock''} \<or> ends_with ''.tmp'' name"

definition disposable_paths :: "fpath \<Rightarrow> fpath set" where
  "disposable_paths run = {q. \<exists>name s. disposable name \<and> q = run @ name # s}"

lemma frame_dispose:
  assumes "disposable name"
  shows "frame.kept (disposable_paths run) (fs_remove_dir_all (run @ [name]))"
    "frame.kept (disposable_paths run) (fs_remove_file (run @ [name]))"
  using assms by (auto intro!: frame_remove simp: disposable_paths_def prefix_def)

lemma frame_prune: "frame.kept (disposable_paths run) (prune_success_terminal run)"
  unfolding prune_success_terminal_def prune_dir_def prune_file_def ctx_def
  by (intro frame.kept_intros frame_reads frame_dispose) (auto simp: disposable_def)

lemma frame_drop_lock: "frame.kept (disposable_paths run) (drop_lock_file run)"
  unfolding drop_lock_file_def
  by (intro frame.kept_intros frame_dispose) (simp add: disposable_def)

lemma not_disposable: "s = [] \<or> \<not> disposable (hd s) \<Longrightarrow> run @ s \<notin> disposable_paths run"
  by (cases s) (auto simp: disposable_paths_def)

lemma finalize_cases:
  assumes ok: "run_ok (sc_work_dir config) n r" and wf: "fs_wf (nodes w)"
    and run: "finalize_processing_run config n r st w = (res, w')"
  shows "case res of
      Inl e \<Rightarrow> \<forall>ph s. view (nodes w') (run_path (sc_work_dir config) n r ph @ s) =
        view (nodes w) (run_path (sc_work_dir config) n r ph @ s)
    | Inr _ \<Rightarrow>
        (\<forall>s. s = [] \<or> \<not> disposable (hd s) \<longrightarrow>
          view (nodes w') (run_path (sc_work_dir config) n r (terminal_phase st) @ s) =
          view (nodes w) (run_path (sc_work_dir config) n r Processing @ s)) \<and>
        (\<forall>s. view (nodes w') (run_path (sc_work_dir config) n r Processing @ s) = None)"
proof -
  let ?wd = "sc_work_dir config"
  let ?D = "run_path ?wd n r (terminal_phase st)" and ?P = "run_path ?wd n r Processing"
  define tail where "tail = (if st = RsDone then bind_io (attempt_io (prune_success_terminal ?D)) (\<lambda>_. ret_io ())
    else drop_lock_file ?D :: unit server)"
  have ne: "Processing \<noteq> terminal_phase st" by (cases st) (simp_all add: terminal_phase_def)
  have tail_frame: "frame.kept (disposable_paths ?D) tail"
    unfolding tail_def by (intro frame.kept_intros frame_prune frame_drop_lock)
  have tail_ok: "\<exists>u. fst (tail x) = Inr u" for x
    by (auto simp: tail_def drop_lock_file_def bind_io_def attempt_io_def ret_io_def split: prod.splits)
  have run': "bind_io (ctx ''failed to create parent'' (fs_create_dir_all (run_parent ?wd n r (terminal_phase st))))
      (\<lambda>_. bind_io (ctx ''failed to move run'' (fs_rename ?P ?D)) (\<lambda>_. tail)) w = (res, w')"
    using run by (simp add: finalize_processing_run_def Let_def tail_def)
  show ?thesis
  proof (rule phase_change [OF ok ne wf run'])
    fix e assume "res = Inl e"
      "\<And>ph s. view (nodes w') (run_path ?wd n r ph @ s) = view (nodes w) (run_path ?wd n r ph @ s)"
    then show ?thesis by simp
  next
    fix w1 assume 1: "moved ?wd n r Processing (terminal_phase st) (nodes w) (nodes w1)" "tail w1 = (res, w')"
    have f: "same_outside (disposable_paths ?D) w1 w'" by (rule frame.keptD [OF tail_frame 1(2)])
    have "view (nodes w') (?D @ s) = view (nodes w) (?P @ s)" if "s = [] \<or> \<not> disposable (hd s)" for s
      using f 1(1) not_disposable [OF that, of ?D] by (simp add: same_outside_def moved_def)
    moreover have "?P @ s \<notin> disposable_paths ?D" for s
      using run_paths_apart(1) [OF ok ne [symmetric], of s] by (auto simp: disposable_paths_def prefix_def)
    then have "view (nodes w') (?P @ s) = None" for s
      using f 1(1) by (simp add: same_outside_def moved_def)
    moreover obtain u where "res = Inr u" using tail_ok [of w1] 1(2) by auto
    ultimately show ?thesis by simp
  qed
qed

text \<open>
  C13. Finalizing a run never loses its results, whatever fails: either it reports an error and
  every file of the run is where it was, or the run is gone from \<open>processing\<close> and its terminal
  directory (\<open>done\<close> for a done or partial run, \<open>failed\<close> for a failed one) has everything but the
  disposable files, the status and the manifest included.
\<close>

theorem finalize_never_loses:
  assumes "run_ok (sc_work_dir config) n r" "fs_wf (nodes w)"
    and "finalize_processing_run config n r st w = (res, w')"
  shows "case res of
      Inl e \<Rightarrow> \<forall>ph s. view (nodes w') (run_path (sc_work_dir config) n r ph @ s) =
        view (nodes w) (run_path (sc_work_dir config) n r ph @ s)
    | Inr _ \<Rightarrow>
        (\<forall>s. s = [] \<or> \<not> disposable (hd s) \<longrightarrow>
          view (nodes w') (run_path (sc_work_dir config) n r (terminal_phase st) @ s) =
          view (nodes w) (run_path (sc_work_dir config) n r Processing @ s)) \<and>
        (\<forall>s. view (nodes w') (run_path (sc_work_dir config) n r Processing @ s) = None)"
  using assms by (rule finalize_cases)

section \<open>Beginning a run\<close>

lemma bind_attempt: "bind_io (attempt_io m) f w = (case m w of (r, w') \<Rightarrow> f r w')"
  by (simp add: bind_io_def attempt_io_def split: prod.splits)

lemma write_lease_ok:
  assumes "fs_wf (nodes w)" "write_lease inc content w = (Inr (), w')"
  shows "same_env w w' \<and> published (inc @ [''lease.toml.tmp'']) (inc @ [''lease.toml'']) content True (nodes w) (nodes w')"
proof -
  from assms(2) obtain w1 where 1: "fs_write (inc @ [''lease.toml.tmp'']) content w = (Inr (), w1)"
    "fs_rename (inc @ [''lease.toml.tmp'']) (inc @ [''lease.toml'']) w1 = (Inr (), w')"
    by (auto simp: write_lease_def elim: bind_io_cases)
  from write_rename_published [OF assms(1) refl refl _ 1(1), of "''lease.toml''" "Inr ()" w'] 1(2) show ?thesis
    by simp
qed

text \<open>The part of \<open>begin_run\<close> after the phase checks, up to the reply.\<close>

definition begin_rest :: "codecs \<Rightarrow> ServerConfig \<Rightarrow> Nickname \<Rightarrow> RunId \<Rightarrow> u64 \<Rightarrow> string server" where
  "begin_rest cod config n r now =
     (let inc = run_path (sc_work_dir config) n r Incoming in
      bind_io (ctx ''failed to create incoming parent'' (fs_create_dir_all (run_parent (sc_work_dir config) n r Incoming))) (\<lambda>_.
      bind_io (ctx ''failed to create incoming dir'' (fs_create_dir inc)) (\<lambda>_.
      bind_io (attempt_io (fs_create_dir (inc @ [''files'']))) (\<lambda>made.
        case made of
          Inl e \<Rightarrow> bind_io (remove_quietly inc) (\<lambda>_. fail_io (IoContext ''failed to create files dir'' e))
        | Inr _ \<Rightarrow>
          bind_io (ser_io ''failed to serialize lease'' (cd_ser_lease cod (new_lease config n r now))) (\<lambda>lease_content.
          bind_io (attempt_io (write_lease inc lease_content)) (\<lambda>written.
            case written of
              Inl e \<Rightarrow> bind_io (remove_quietly inc) (\<lambda>_. fail_io (IoContext ''failed to write lease file'' e))
            | Inr _ \<Rightarrow>
              (case cd_ser_begin cod (begin_response config n r) of
                 Inl e \<Rightarrow> bind_io (remove_quietly inc)
                   (\<lambda>_. fail_io (SerializeError ''failed to serialize begin-run response'' e))
               | Inr response \<Rightarrow> ret_io response)))))))"

lemma begin_run_split:
  "begin_run cod config n r w =
    (case first_existing_phase (sc_work_dir config) n r all_phases w of
       (Inl e, w1) \<Rightarrow> (Inl e, w1)
     | (Inr found, w1) \<Rightarrow>
       if found \<noteq> None then (Inl (Bail ''run already exists''), w1)
       else begin_rest cod config n r (unix_secs (clock w1 (tick w1))) (next_tick w1))"
  by (auto simp: begin_run_def begin_rest_def Let_def bind_io_def [of "first_existing_phase _ _ _ _"]
      bind_queries fail_io_def split: prod.splits sum.splits)

lemma remove_quietly_fails: "bind_io (remove_quietly p) (\<lambda>_. fail_io e) w = (res, w') \<Longrightarrow> res = Inl e"
  by (auto simp: remove_quietly_def bind_io_def attempt_io_def fail_io_def ret_io_def split: prod.splits)

lemma begin_rest_ok:
  assumes ok: "run_ok (sc_work_dir config) n r" and wf: "fs_wf (nodes w)"
    and run: "begin_rest cod config n r now w = (Inr resp, w')"
  shows "\<exists>content l. cd_ser_lease cod (new_lease config n r now) = Inr content \<and>
    cd_ser_begin cod (begin_response config n r) = Inr resp \<and>
    (\<forall>s. view (nodes w') (run_path (sc_work_dir config) n r Incoming @ s) =
      (if s = [] \<or> s = [''files''] then vdir
       else if s = [''lease.toml''] then Some (FileN content 0 l) else None))"
proof -
  let ?wd = "sc_work_dir config"
  let ?inc = "run_path ?wd n r Incoming"
  define K :: "(io_error, unit) result \<Rightarrow> string server" where "K made = (case made of
          Inl e \<Rightarrow> bind_io (remove_quietly ?inc) (\<lambda>_. fail_io (IoContext ''failed to create files dir'' e))
        | Inr _ \<Rightarrow>
          bind_io (ser_io ''failed to serialize lease'' (cd_ser_lease cod (new_lease config n r now))) (\<lambda>lease_content.
          bind_io (attempt_io (write_lease ?inc lease_content)) (\<lambda>written.
            case written of
              Inl e \<Rightarrow> bind_io (remove_quietly ?inc) (\<lambda>_. fail_io (IoContext ''failed to write lease file'' e))
            | Inr _ \<Rightarrow>
              (case cd_ser_begin cod (begin_response config n r) of
                 Inl e \<Rightarrow> bind_io (remove_quietly ?inc)
                   (\<lambda>_. fail_io (SerializeError ''failed to serialize begin-run response'' e))
               | Inr response \<Rightarrow> ret_io response))))" for made
  from run have "bind_io (ctx ''failed to create incoming parent'' (fs_create_dir_all (run_parent ?wd n r Incoming)))
      (\<lambda>_. bind_io (ctx ''failed to create incoming dir'' (fs_create_dir ?inc))
      (\<lambda>_. bind_io (attempt_io (fs_create_dir (?inc @ [''files'']))) K)) w = (Inr resp, w')"
    unfolding begin_rest_def Let_def K_def .
  then obtain w1 w2 made w3 where
    1: "fs_create_dir_all (run_parent ?wd n r Incoming) w = (Inr (), w1)"
    and 2: "fs_create_dir ?inc w1 = (Inr (), w2)"
    and 3: "fs_create_dir (?inc @ [''files'']) w2 = (made, w3)"
    and K: "K made w3 = (Inr resp, w')"
    by (auto simp: attempt_io_eq elim!: bind_io_cases ctx_cases)
  note rest = K [unfolded K_def]
  from rest have made: "made = Inr ()" by (cases made) (auto dest: remove_quietly_fails)
  with rest obtain content where content: "cd_ser_lease cod (new_lease config n r now) = Inr content"
    by (cases "cd_ser_lease cod (new_lease config n r now)") auto
  obtain written w4 where 4: "write_lease ?inc content w3 = (written, w4)" by (metis surj_pair)
  have written: "written = Inr ()"
    using rest 4 made content by (cases written) (auto simp: bind_attempt dest: remove_quietly_fails)
  have resp: "cd_ser_begin cod (begin_response config n r) = Inr resp" "w' = w4"
    using rest 4 made content written
    by (auto simp: bind_attempt dest: remove_quietly_fails split: sum.splits)
  note e1 = fs_create_dir_all_effect [OF 1] and e2 = fs_create_dir_effect [OF 2]
    and e3 = fs_create_dir_effect [OF 3]
  have wf2: "fs_wf (nodes w1)" "fs_wf (nodes w3)" using e1 e2 e3 wf by auto
  have none: "view (nodes w1) (?inc @ s) = None" for s
  proof (cases "s = []")
    case False
    have "strict_prefix ?inc (?inc @ s)" using False by (simp add: strict_prefix_def)
    moreover have "view (nodes w1) ?inc \<noteq> vdir" using e2 by simp
    ultimately show ?thesis using view_below_file [OF wf2(1)] by blast
  qed (use e2 in simp)
  have v3: "view (nodes w3) = (view (nodes w1))(?inc \<mapsto> DirN 0, ?inc @ [''files''] \<mapsto> DirN 0)"
    using e2 e3 made by simp
  from write_lease_ok [OF wf2(2) 4 [unfolded written]]
  have pub: "published (?inc @ [''lease.toml.tmp'']) (?inc @ [''lease.toml'']) content True (nodes w3) (nodes w4)" by simp
  then obtain l where l: "view (nodes w4) (?inc @ [''lease.toml'']) = Some (FileN content 0 l)"
    by (auto simp: published_def)
  have "view (nodes w4) (?inc @ s) =
      (if s = [] \<or> s = [''files''] then vdir
       else if s = [''lease.toml''] then Some (FileN content 0 l) else None)" for s
  proof -
    from pub have same: "\<And>q. q \<noteq> ?inc @ [''lease.toml.tmp''] \<Longrightarrow> q \<noteq> ?inc @ [''lease.toml''] \<Longrightarrow>
        view (nodes w4) q = view (nodes w3) q"
      and tmp: "view (nodes w4) (?inc @ [''lease.toml.tmp'']) = None"
      by (simp_all add: published_def)
    consider "s = [''lease.toml'']" | "s = [''lease.toml.tmp'']" | "s \<noteq> [''lease.toml'']" "s \<noteq> [''lease.toml.tmp'']" by blast
    then show ?thesis
    proof cases
      case 3
      with same [of "?inc @ s"] v3 none [of s] show ?thesis by auto
    qed (use l tmp in auto)
  qed
  with content resp show ?thesis by blast
qed

lemma begin_run_cases:
  assumes ok: "run_ok (sc_work_dir config) n r" and wf: "fs_wf (nodes w)" and rel: "reliable w"
    and run: "begin_run cod config n r w = (res, w')"
  shows "((\<exists>ph. view (nodes w) (run_path (sc_work_dir config) n r ph) \<noteq> None) \<and> nodes w' = nodes w \<and>
      res = Inl (Bail ''run already exists'')) \<or>
    ((\<forall>ph. view (nodes w) (run_path (sc_work_dir config) n r ph) = None) \<and>
     (\<exists>w1 k. nodes w1 = nodes w \<and> same_env w w1 \<and>
       begin_rest cod config n r (unix_secs (clock w k)) w1 = (res, w')))"
proof -
  let ?wd = "sc_work_dir config"
  obtain x w1 where 1: "first_existing_phase ?wd n r all_phases w = (x, w1)" by (metis surj_pair)
  from first_existing_effect [OF 1] obtain found where f: "same_env w w1" "nodes w1 = nodes w" "x = Inr found"
    "case found of Some ph \<Rightarrow> ph \<in> set all_phases \<and> view (nodes w) (run_path ?wd n r ph) \<noteq> None
      | None \<Rightarrow> reliable w \<longrightarrow> (\<forall>ph \<in> set all_phases. view (nodes w) (run_path ?wd n r ph) = None)"
    by blast
  have all: "ph \<in> set all_phases" for ph by (cases ph) (simp_all add: all_phases_def)
  show ?thesis
  proof (cases found)
    case (Some ph)
    with run 1 f show ?thesis by (auto simp: begin_run_split)
  next
    case None
    with run 1 f all have "begin_rest cod config n r (unix_secs (clock w (tick w1))) (next_tick w1) = (res, w')"
      by (simp add: begin_run_split same_env_def)
    with None f all rel show ?thesis by (intro disjI2) (auto intro!: exI [of _ "next_tick w1"])
  qed
qed

text \<open>
  C23. When metadata queries work, \<open>begin_run\<close> refuses a run that exists in any phase, without a
  trace. When it answers, the run existed in no phase before, and its incoming directory now
  consists of an empty \<open>files\<close> directory and a lease file alone, whose expiry is the lease
  period after the time read.
\<close>

theorem begin_run_creates_fresh:
  assumes "run_ok (sc_work_dir config) n r" "fs_wf (nodes w)" "reliable w"
    and "begin_run cod config n r w = (res, w')"
  shows "((\<exists>ph. view (nodes w) (run_path (sc_work_dir config) n r ph) \<noteq> None) \<longrightarrow>
      nodes w' = nodes w \<and> res = Inl (Bail ''run already exists'')) \<and>
    (\<forall>resp. res = Inr resp \<longrightarrow>
      cd_ser_begin cod (begin_response config n r) = Inr resp \<and>
      (\<exists>content l k lease. cd_ser_lease cod lease = Inr content \<and>
        lf_nickname lease = nickname_str n \<and> lf_run_id lease = run_id_str r \<and>
        lf_expires_at lease = unix_secs (clock w k) + incoming_lease_secs (sc_gc config) \<and>
        (\<forall>s. view (nodes w') (run_path (sc_work_dir config) n r Incoming @ s) =
          (if s = [] \<or> s = [''files''] then vdir
           else if s = [''lease.toml''] then Some (FileN content 0 l) else None))))"
  using begin_run_cases [OF assms]
proof (elim disjE conjE exE)
  fix w1 k assume a: "\<forall>ph. view (nodes w) (run_path (sc_work_dir config) n r ph) = None"
    "nodes w1 = nodes w" "same_env w w1" "begin_rest cod config n r (unix_secs (clock w k)) w1 = (res, w')"
  show ?thesis
  proof (cases res)
    case (Inl e)
    with a(1) show ?thesis by simp
  next
    case (Inr resp)
    from begin_rest_ok [OF assms(1) _ a(4) [unfolded Inr]] assms(2) a(2) obtain content l where
      "cd_ser_lease cod (new_lease config n r (unix_secs (clock w k))) = Inr content"
      "cd_ser_begin cod (begin_response config n r) = Inr resp"
      "\<forall>s. view (nodes w') (run_path (sc_work_dir config) n r Incoming @ s) =
        (if s = [] \<or> s = [''files''] then vdir
         else if s = [''lease.toml''] then Some (FileN content 0 l) else None)" by auto
    with a(1) Inr show ?thesis
      by (intro conjI) (auto simp: new_lease_def intro!: exI [of _ content] exI [of _ l] exI [of _ k]
        exI [of _ "new_lease config n r (unix_secs (clock w k))"])
  qed
qed simp

end
