(* ===== verification/Gc_Laws.thy ===== *)
theory Gc_Laws
  imports Gc Run_Laws
begin

text \<open>
  The facts that garbage collection and \<open>run_state\<close> share: what a removal leaves of the look-ups and
  locks of other paths, and that probing a processor lock with a fresh handle leaves every look-up
  as it was.
\<close>

section \<open>Subtrees and locks under removal\<close>

definition sub_tree :: "fs \<Rightarrow> fpath \<Rightarrow> fpath \<Rightarrow> node option" where
  "sub_tree fs p = (\<lambda>s. look fs (p @ s))"

definition fresh_handle :: "nat \<Rightarrow> fs \<Rightarrow> bool" where
  "fresh_handle h fs \<longleftrightarrow> (\<forall>q c m. look fs q \<noteq> Some (FileN c m (Some h)))"

text \<open>Metadata queries work and no error is disguised as absence.\<close>

definition honest :: "world \<Rightarrow> bool" where
  "honest w \<longleftrightarrow> (\<forall>k. faults w k \<noteq> StatFail \<and> error_of (faults w k) \<noteq> Some IoNotFound)"

lemma honest_env: "same_env w w' \<Longrightarrow> honest w' \<longleftrightarrow> honest w"
  by (simp add: honest_def same_env_def)

lemma look_del_partly: "look (del_partly sel p fs) q = look fs q \<or> (strict_prefix p q \<and> look (del_partly sel p fs) q = None)"
proof (cases "q = []")
  case False
  have "map_of (del_partly sel p fs) q =
      (if strict_prefix p q \<and> list_ex (\<lambda>i. sel (take i q)) [Suc (length p)..<Suc (length q)] then None else map_of fs q)"
    unfolding del_partly_def map_of_filter_key by simp
  with False show ?thesis by (simp add: look_def del: upt_Suc)
qed simp

text \<open>A removal leaves what is not below the path, its directory's time apart.\<close>

definition less_at :: "fpath \<Rightarrow> fs \<Rightarrow> fs \<Rightarrow> bool" where
  "less_at p fs fs' \<longleftrightarrow>
     (\<forall>q. look fs' q = look fs q \<or> (prefix p q \<and> look fs' q = None) \<or>
       (q = butlast p \<and> (\<exists>t t'. look fs q = Some (DirN t) \<and> look fs' q = Some (DirN t'))))"

lemma less_at_refl: "less_at p fs fs"
  by (simp add: less_at_def)

lemma not_prefix_butlast: "p \<noteq> [] \<Longrightarrow> \<not> prefix p (butlast p)"
  by (metis append_butlast_last_id length_append_singleton lessI linorder_not_less prefix_length_le)

lemma less_at_removed:
  assumes "p \<noteq> []"
  shows "less_at p fs (touch_dir t (butlast p) (del_tree p fs))"
  unfolding less_at_def
proof
  fix q
  let ?q' = "look (touch_dir t (butlast p) (del_tree p fs)) q"
  show "?q' = look fs q \<or> (prefix p q \<and> ?q' = None) \<or>
      (q = butlast p \<and> (\<exists>t t'. look fs q = Some (DirN t) \<and> ?q' = Some (DirN t')))"
  proof (cases "prefix p q \<and> q \<noteq> []")
    case True
    with not_prefix_butlast [OF assms] have "q \<noteq> butlast p" by auto
    with True show ?thesis by (simp add: look_touch look_del_tree)
  next
    case False
    then have d: "look (del_tree p fs) q = look fs q" by (auto simp: look_del_tree)
    show ?thesis
    proof (cases "look fs q")
      case (Some n)
      with d show ?thesis by (cases n) (auto simp: look_touch)
    qed (use d in \<open>auto simp: look_touch\<close>)
  qed
qed

lemma remove_dir_all_less: "fs_remove_dir_all p w = (r, w') \<Longrightarrow> same_env w w' \<and> less_at p (nodes w) (nodes w')"
proof -
  assume m: "fs_remove_dir_all p w = (r, w')"
  note proj = prim_io_proj [OF m [unfolded fs_remove_dir_all_def]]
  consider "nodes w' = nodes w" | sel where "nodes w' = del_partly sel p (nodes w)"
    | "p \<noteq> []" "nodes w' = touch_dir (clock w (tick w)) (butlast p) (del_tree p (nodes w))"
    using proj by (cases "faults w (tick w)")
      (auto simp: error_of_def split: if_splits option.splits node.splits)
  then have "less_at p (nodes w) (nodes w')"
  proof cases
    case (2 sel)
    then show ?thesis using look_del_partly [of sel p "nodes w"] unfolding less_at_def strict_prefix_def by metis
  qed (auto simp: less_at_refl less_at_removed)
  with fs_remove_dir_all_effect [OF m] show ?thesis by blast
qed

lemma remove_file_less: "fs_remove_file p w = (r, w') \<Longrightarrow> same_env w w' \<and> less_at p (nodes w) (nodes w')"
proof -
  assume m: "fs_remove_file p w = (r, w')"
  note proj = prim_io_proj [OF m [unfolded fs_remove_file_def]]
  consider "nodes w' = nodes w"
    | "p \<noteq> []" "nodes w' = touch_dir (clock w (tick w)) (butlast p) (del_tree p (nodes w))"
    using proj by (cases "p = []"; cases "error_of (faults w (tick w))"; cases "look (nodes w) p")
      (auto split: node.splits)
  then have "less_at p (nodes w) (nodes w')"
    by cases (auto simp: less_at_refl less_at_removed)
  with fs_remove_file_effect [OF m] show ?thesis by blast
qed

lemma less_at_fresh: "less_at p fs fs' \<Longrightarrow> fresh_handle h fs \<Longrightarrow> fresh_handle h fs'"
  unfolding less_at_def fresh_handle_def by (metis node.distinct(1) option.distinct(1) option.inject)

lemma less_at_sub:
  "less_at p fs fs' \<Longrightarrow> (\<And>s. \<not> prefix p (x @ s)) \<Longrightarrow> (\<And>s. butlast p \<noteq> x @ s) \<Longrightarrow> sub_tree fs' x = sub_tree fs x"
  unfolding less_at_def sub_tree_def by metis

section \<open>Probing a lock\<close>

lemma look_map_lock: "look (map (\<lambda>(k, n). (k, f n)) fs) q = (if q = [] then Some (DirN 0) else map_option f (look fs q))"
proof -
  have "map_of (map (\<lambda>(k, n). (k, f n)) fs) q = map_option f (map_of fs q)"
    by (induction fs) auto
  then show ?thesis by (simp add: look_def)
qed

lemma unlock_look:
  assumes "fs_unlock h w = (r, w')"
  shows "look (nodes w') q = (if q = [] then Some (DirN 0) else map_option (unlocked h) (look (nodes w) q))"
proof -
  have "nodes w' = map (\<lambda>(k, n). (k, unlocked h n)) (nodes w)"
    using prim_io_env [OF assms [unfolded fs_unlock_def]] by (simp add: unlocked_def)
  then show ?thesis by (simp add: look_map_lock)
qed

text \<open>Taking a free lock with a fresh handle and releasing it leaves everything as it was.\<close>

lemma lock_unlock_same:
  assumes "fresh_handle h (nodes w)" "fs_try_lock h p w = (Inr True, w1)" "fs_unlock h w1 = (r, w2)"
  shows "look (nodes w2) = look (nodes w)"
proof
  fix q
  from prim_io_env [OF assms(2) [unfolded fs_try_lock_def]] obtain c m where l: "look (nodes w) p = Some (FileN c m None)"
    "nodes w1 = put_node p (FileN c m (Some h)) (nodes w)"
    by (auto split: option.splits node.splits)
  have p: "p \<noteq> []" using l(1) by auto
  show "look (nodes w2) q = look (nodes w) q"
  proof (cases "q = p")
    case True
    with l p show ?thesis by (simp add: unlock_look [OF assms(3)] look_put unlocked_def)
  next
    case False
    have "map_option (unlocked h) (look (nodes w) q) = look (nodes w) q"
    proof (cases "look (nodes w) q")
      case (Some n)
      with assms(1) show ?thesis by (cases n) (auto simp: unlocked_def fresh_handle_def)
    qed simp
    with False l p show ?thesis by (simp add: unlock_look [OF assms(3)] look_put)
  qed
qed

lemma try_lock_busy: "fs_try_lock h p w = (r, w') \<Longrightarrow> r \<noteq> Inr True \<Longrightarrow> nodes w' = nodes w \<and> same_env w w'"
  unfolding fs_try_lock_def
  by (drule prim_io_env) (auto split: option.splits node.splits)

lemma open_existing: "fs_open False p w = (r, w') \<Longrightarrow> nodes w' = nodes w \<and> same_env w w'"
  unfolding fs_open_def
  by (drule prim_io_env) (auto split: option.splits node.splits)

lemma probe_effect:
  assumes "fresh_handle h (nodes w)" "probe_processor_lock_readonly h dir w = (r, w')"
  shows "same_env w w' \<and> look (nodes w') = look (nodes w) \<and>
    (honest w \<longrightarrow> look (nodes w) dir \<noteq> None \<longrightarrow>
      (\<forall>c m h'. look (nodes w) (dir @ [''processor.lock'']) = Some (FileN c m (Some h')) \<longrightarrow>
        r = Inr (Some True) \<or> (\<exists>e. r = Inl e)))"
proof -
  let ?lock = "dir @ [''processor.lock'']"
  let ?e1 = "faults w (tick w) \<noteq> StatFail \<and> view (nodes w) dir \<noteq> None"
  let ?e2 = "faults w (tick (next_tick w)) \<noteq> StatFail \<and> view (nodes w) ?lock \<noteq> None"
  have unhonest: "honest w \<longrightarrow> look (nodes w) dir \<noteq> None \<longrightarrow> ?e1"
    "honest w \<longrightarrow> look (nodes w) ?lock \<noteq> None \<longrightarrow> ?e2"
    by (auto simp: honest_def view_def)
  show ?thesis
  proof (cases "?e1 \<and> ?e2")
    case False
    then have "nodes w' = nodes w" "same_env w w'"
      using assms(2) by (auto simp: probe_processor_lock_readonly_def bind_queries Let_def split: if_splits)
    with False unhonest show ?thesis by auto
  next
    case True
    obtain opn w1 where 1: "fs_open False ?lock (next_tick (next_tick w)) = (opn, w1)" by (metis surj_pair)
    from open_existing [OF 1] have w1: "nodes w1 = nodes w" "same_env w w1" by (auto simp: same_env_def)
    have run: "(case opn of
        Inl e \<Rightarrow> if e = IoNotFound then ret_io (Some False)
          else fail_io (IoContext ''failed to open processor lock for probe'' e)
      | Inr _ \<Rightarrow> bind_io (ctx ''failed to probe processor lock'' (fs_try_lock h ?lock)) (\<lambda>got.
          if got then bind_io (fs_unlock h) (\<lambda>_. ret_io (Some False)) else ret_io (Some True))) w1 = (r, w')"
      using assms(2) True 1
      by (simp add: probe_processor_lock_readonly_def bind_queries Let_def bind_attempt)
    show ?thesis
    proof (cases opn)
      case (Inl e)
      have "honest w \<longrightarrow> look (nodes w) ?lock \<noteq> None \<longrightarrow> e \<noteq> IoNotFound"
        using prim_io_env [OF 1 [unfolded fs_open_def]] Inl
        by (auto simp: honest_def split: option.splits node.splits if_splits)
      with run Inl w1 show ?thesis by (auto split: if_splits)
    next
      case (Inr u)
      obtain got w2 where 2: "fs_try_lock h ?lock w1 = (got, w2)" by (metis surj_pair)
      show ?thesis
      proof (cases "got = Inr True")
        case True
        obtain u3 w3 where 3: "fs_unlock h w2 = (u3 :: (server_error, unit) result, w3)" by (metis surj_pair)
        have same: "look (nodes w3) = look (nodes w1)"
          using lock_unlock_same [OF _ 2 [unfolded True] 3] assms(1) w1 by simp
        from run Inr 2 True 3 have "w' = w3" "r = Inr (Some False)"
          by (auto simp: bind_io_def ctx_def err_io_def fs_unlock_def prim_io_def)
        moreover have "same_env w1 w3"
          using fs_try_lock_effect [OF 2] fs_unlock_effect [OF 3] by (auto intro: same_env_trans)
        moreover from fs_try_lock_effect [OF 2] True obtain c where "view (nodes w1) ?lock = Some (FileN c 0 None)" by auto
        ultimately show ?thesis using same w1 by (auto simp: view_def intro: same_env_trans)
      next
        case False
        from try_lock_busy [OF 2 False] w1 have "nodes w2 = nodes w" "same_env w w2" by (auto intro: same_env_trans)
        moreover from run Inr 2 False have "w' = w2" "r = Inr (Some True) \<or> (\<exists>e. r = Inl e)"
          by (cases got; auto simp: bind_io_def ctx_def err_io_def)+
        ultimately show ?thesis by simp
      qed
    qed
  qed
qed

end
