(* ===== verification/Server_Laws.thy ===== *)
theory Server_Laws
  imports Server_Ops Gc_Laws
begin

text \<open>
  The laws of \<open>Server_Ops\<close>: what a heartbeat renews, what the checked intervals guarantee, how a
  relative destination is resolved, what \<open>prepare_run\<close> establishes, and that \<open>run_state\<close> tells the
  truth. Two relations on worlds, interpreted as \<open>world_relation\<close>, say that a program only reads
  (\<open>reads\<close>) and that it leaves every look-up as it was (\<open>looks\<close>).
\<close>

section \<open>Heartbeats\<close>

abbreviation heartbeat_lease :: "codecs \<Rightarrow> Nickname \<Rightarrow> RunId \<Rightarrow> string \<Rightarrow> (server_error, LeaseFile) result" where
  "heartbeat_lease \<equiv> read_lease ''cannot heartbeat run: lease is missing purgery_version or has invalid TOML''"

lemma heartbeat_cases:
  assumes wf: "fs_wf (nodes w)" and run: "heartbeat_run cod config n r w = (res, w')"
  defines "inc \<equiv> run_path (sc_work_dir config) n r Incoming"
  shows "(\<exists>e. res = Inl e \<and> nodes w' = nodes w) \<or>
    (\<exists>content l lease k out.
      view (nodes w) (inc @ [''lease.toml'']) = Some (FileN content 0 l) \<and>
      heartbeat_lease cod n r content = Inr lease \<and>
      cd_ser_lease cod (lease\<lparr>lf_last_heartbeat := unix_secs (clock w k),
        lf_expires_at := unix_secs (clock w k) + incoming_lease_secs (sc_gc config)\<rparr>) = Inr out \<and>
      published (inc @ [''lease.toml.tmp'']) (inc @ [''lease.toml'']) out (res = Inr ()) (nodes w) (nodes w'))"
    (is "?failed \<or> ?went")
proof -
  define renew where "renew lease now = lease\<lparr>lf_last_heartbeat := now,
      lf_expires_at := now + incoming_lease_secs (sc_gc config)\<rparr>" for lease :: LeaseFile and now
  define publish where "publish out = bind_io (ctx ''failed to write lease'' (fs_write (inc @ [''lease.toml.tmp'']) out))
      (\<lambda>_. ctx ''failed to commit lease'' (fs_rename (inc @ [''lease.toml.tmp'']) (inc @ [''lease.toml''])))" for out
  define after where "after content = bind_io (lift_res (heartbeat_lease cod n r content)) (\<lambda>lease.
      bind_io now_secs (\<lambda>now. bind_io (ser_io ''failed to serialize lease'' (cd_ser_lease cod (renew lease now))) publish))" for content
  have "?failed \<or> bind_io (ctx ''failed to read lease file'' (fs_read (inc @ [''lease.toml'']))) after (next_tick w) = (res, w')"
    using run unfolding heartbeat_run_def Let_def inc_def [symmetric] after_def renew_def publish_def
    by (auto simp: bind_queries split: if_splits)
  then show ?thesis
  proof (elim disjE)
    assume "bind_io (ctx ''failed to read lease file'' (fs_read (inc @ [''lease.toml'']))) after (next_tick w) = (res, w')"
    from bind_read [OF this] consider ?failed
      | c l where "view (nodes w) (inc @ [''lease.toml'']) = Some (FileN c 0 l)" "after c (next_tick (next_tick w)) = (res, w')"
      by auto
    then show ?thesis
    proof cases
      case (2 c l)
      show ?thesis
      proof (cases "heartbeat_lease cod n r c")
        case (Inl e)
        with 2 show ?thesis by (auto simp: after_def bind_io_def lift_res_def)
      next
        case (Inr lease)
        define now where "now = unix_secs (clock w (tick (next_tick (next_tick w))))"
        show ?thesis
        proof (cases "cd_ser_lease cod (renew lease now)")
          case (Inl e)
          with 2 Inr show ?thesis by (auto simp: after_def bind_queries now_def)
        next
          case out: (Inr out)
          with 2 Inr have "publish out (next_tick (next_tick (next_tick w))) = (res, w')"
            by (simp add: after_def bind_queries now_def)
          from ctx_publish_published [OF _ refl refl _ this [unfolded publish_def]] wf
          have "published (inc @ [''lease.toml.tmp'']) (inc @ [''lease.toml'']) out (res = Inr ()) (nodes w) (nodes w')"
            by simp
          with 2 Inr out show ?thesis by (auto simp: renew_def now_def)
        qed
      qed
    qed simp
  qed simp
qed

text \<open>
  C28. A heartbeat changes nothing but the run's own lease file, and that only by replacing, as a
  whole, a lease that passes every check (version, protocol, nickname, run id) by the same lease
  with the time read as last heartbeat and the lease period after it as expiry; when it succeeds,
  that is the lease now on disk, under every schedule of I/O failures.
\<close>

theorem heartbeat_renews_own_lease:
  assumes "fs_wf (nodes w)" "heartbeat_run cod config n r w = (res, w')"
  shows "let inc = run_path (sc_work_dir config) n r Incoming; lease_path = inc @ [''lease.toml''] in
    (\<forall>q. q \<noteq> lease_path \<and> q \<noteq> inc @ [''lease.toml.tmp''] \<longrightarrow> view (nodes w') q = view (nodes w) q) \<and>
    ((view (nodes w') lease_path = view (nodes w) lease_path \<and> res \<noteq> Inr ()) \<or>
     (\<exists>content l l' lease k out.
       view (nodes w) lease_path = Some (FileN content 0 l) \<and>
       own_lease cod n r content lease \<and>
       cd_ser_lease cod (lease\<lparr>lf_last_heartbeat := unix_secs (clock w k),
         lf_expires_at := unix_secs (clock w k) + incoming_lease_secs (sc_gc config)\<rparr>) = Inr out \<and>
       view (nodes w') lease_path = Some (FileN out 0 l')))"
  using heartbeat_cases [OF assms] unfolding Let_def published_def read_lease_own by fastforce

section \<open>Lease arithmetic\<close>

text \<open>
  With checked intervals a lease survives one missed heartbeat: while the sum of the time and
  the lease period fits 64 bits, the lease written at that time is unexpired at every later time
  less than two heartbeat intervals away. When the sum does not fit, it wraps, and the lease is
  already expired when it is written.
\<close>

theorem lease_outlives_missed_heartbeat:
  assumes "check_intervals gc = Inr ()"
  shows "if unat now + unat (incoming_lease_secs gc) < 2 ^ 64
    then 0 < heartbeat_interval_secs gc \<and>
      (\<forall>t. unat t < unat now + 2 * unat (heartbeat_interval_secs gc) \<longrightarrow>
        \<not> lf_expires_at (new_lease \<lparr>sc_work_dir = wd, sc_transforms = tds, sc_gc = gc, sc_logging = lc\<rparr> n r now) \<le> t)
    else lf_expires_at (new_lease \<lparr>sc_work_dir = wd, sc_transforms = tds, sc_gc = gc, sc_logging = lc\<rparr> n r now) \<le> now"
proof -
  have h: "0 < heartbeat_interval_secs gc" "heartbeat_interval_secs gc \<le> incoming_lease_secs gc div 2"
    using assms by (auto simp: check_intervals_def not_less word_gt_0 split: if_splits)
  have "2 * unat (heartbeat_interval_secs gc) \<le> unat (incoming_lease_secs gc)"
    using h(2) by (simp add: word_le_nat_alt unat_div)
  moreover define m :: nat where "m = 2 ^ 64"
  have e: "unat (now + incoming_lease_secs gc) = (unat now + unat (incoming_lease_secs gc)) mod m"
    by (simp add: unat_word_ariths m_def)
  have b: "unat now < m" "unat (incoming_lease_secs gc) < m"
    using unsigned_less [of now, where ?'a = nat] unsigned_less [of "incoming_lease_secs gc", where ?'a = nat] by (simp_all add: m_def)
  show ?thesis unfolding m_def [symmetric]
  proof (split if_split, intro conjI impI)
    assume "unat now + unat (incoming_lease_secs gc) < m"
    then have "unat (now + incoming_lease_secs gc) = unat now + unat (incoming_lease_secs gc)"
      using e by simp
    with h(1) calculation show "0 < heartbeat_interval_secs gc" "\<forall>t. unat t < unat now + 2 * unat (heartbeat_interval_secs gc) \<longrightarrow>
        \<not> lf_expires_at (new_lease \<lparr>sc_work_dir = wd, sc_transforms = tds, sc_gc = gc, sc_logging = lc\<rparr> n r now) \<le> t"
      by (auto simp: new_lease_def word_le_nat_alt)
  next
    assume "\<not> unat now + unat (incoming_lease_secs gc) < m"
    then have "unat (now + incoming_lease_secs gc) = unat now + unat (incoming_lease_secs gc) - m"
      using e b by (simp add: mod_if)
    with b show "lf_expires_at (new_lease \<lparr>sc_work_dir = wd, sc_transforms = tds, sc_gc = gc, sc_logging = lc\<rparr> n r now) \<le> now"
      by (simp add: new_lease_def word_le_nat_alt)
  qed
qed

section \<open>Resolving relative destinations\<close>

lemma body_pieces_suffix:
  "body_pieces (b @ ''/'') = body_pieces b" "body_pieces (b @ ''/.'') = body_pieces b" "body_pieces (b @ ''/./'') = body_pieces b"
  using split_on_append_sep [of "CHR ''/''" b "[]"] split_on_append_sep [of "CHR ''/''" b "''.''"]
    split_on_append_sep [of "CHR ''/''" b "''./''"]
  by (simp_all add: body_pieces_def trivial_piece_def)

lemma body_pieces_slashes: "body_pieces (b @ replicate n CHR ''/'') = body_pieces b"
proof (induction n)
  case (Suc n)
  have "b @ replicate (Suc n) CHR ''/'' = (b @ replicate n CHR ''/'') @ ''/''"
    by (simp add: replicate_app_Cons_same)
  with Suc show ?case by (simp only: body_pieces_suffix)
qed simp

text \<open>An absolute operand denotes its pieces.\<close>

lemma DestinationPath_new_abs:
  assumes "path_absolute raw" "body_pieces (tl raw) = qs" "list_all plain_name qs"
  shows "DestinationPath_new raw = Inr \<lparr>dp_path = abs_path qs, dp_operand = raw, dp_intent = destination_intent raw\<rparr>"
proof -
  have "body_pieces (snd (before_body raw)) = qs" "raw \<noteq> []"
    using assms by (auto simp: before_body_def path_absolute_def)
  moreover have "''..'' \<notin> set qs" using assms(3) by (auto simp: list_all_iff plain_name_def)
  ultimately show ?thesis
    using assms(1) destination_components_eq [of raw] by (auto simp: DestinationPath_new_def Let_def abs_path_def)
qed

lemma abs_path_last:
  assumes "qs \<noteq> []" "list_all plain_name qs"
  shows "\<not> ends_with ''/'' (abs_path qs)" "\<not> ends_with ''/.'' (abs_path qs)" "abs_path qs \<noteq> ''.''"
proof -
  have sp: "split_on CHR ''/'' (abs_path qs) = [] # qs"
    using split_join [OF assms(1), of "CHR ''/''"] assms(2)
    by (simp add: abs_path_def list_all_iff plain_name_def)
  have lst: "plain_name (last qs)" using assms by (simp add: list_all_iff)
  show "abs_path qs \<noteq> ''.''" by (simp add: abs_path_def)
  show "\<not> ends_with ''/'' (abs_path qs)"
  proof
    assume "ends_with ''/'' (abs_path qs)"
    then obtain x where "abs_path qs = x @ CHR ''/'' # []" by (auto simp: ends_with_iff)
    with sp have "[] # qs = split_on CHR ''/'' x @ [[]]" by (simp add: split_on_append_sep)
    then have "last ([] # qs) = []" by simp
    with lst assms(1) show False by (simp add: plain_name_def)
  qed
  show "\<not> ends_with ''/.'' (abs_path qs)"
  proof
    assume "ends_with ''/.'' (abs_path qs)"
    then obtain x where "abs_path qs = x @ CHR ''/'' # ''.''" by (auto simp: ends_with_iff)
    with sp have "[] # qs = split_on CHR ''/'' x @ [''.'']" by (simp add: split_on_append_sep split_on_no_sep)
    then have "last ([] # qs) = ''.''" by simp
    with lst assms(1) show False by (simp add: plain_name_def)
  qed
qed

lemma trim_end_no_slash: "\<not> ends_with ''/'' s \<Longrightarrow> trim_end CHR ''/'' (s @ replicate n CHR ''/'') = s"
proof (induction n)
  case (Suc n)
  have "s @ replicate (Suc n) CHR ''/'' = (s @ replicate n CHR ''/'') @ [CHR ''/'']"
    by (simp add: replicate_append_same)
  then show ?case using Suc by (simp only: trim_end_snoc simp_thms)
qed (simp add: trim_end_id)

lemma ends_dot: "ends_with ''/.'' (x @ ''/.'')" "\<not> ends_with ''/'' (x @ ''/.'')" "ends_with ''/'' (x @ ''/'')" "ends_with ''/'' (x @ ''/./'')"
  by (auto simp: ends_with_iff)

text \<open>The intents of the operands that resolution builds.\<close>

lemma intent_of_suffix:
  "\<not> ends_with ''/'' x \<Longrightarrow> \<not> ends_with ''/.'' x \<Longrightarrow> x \<noteq> ''.'' \<Longrightarrow> destination_intent x = ExactOrExistingDirectory"
  "\<not> ends_with ''/'' x \<Longrightarrow> \<not> ends_with ''/.'' x \<Longrightarrow> x \<noteq> ''.'' \<Longrightarrow> destination_intent (x @ ''/'') = TrailingSlash"
  "destination_intent (x @ ''/.'') = TerminalDot"
  "destination_intent (x @ ''/./'') = TerminalDotSlash"
proof -
  have t: "trim_end CHR ''/'' (x @ ''/./'') = x @ ''/.''"
    using trim_end_snoc [of "CHR ''/''" "x @ ''/.''"] trim_end_id [OF ends_dot(2), of x] by simp
  show "destination_intent (x @ ''/.'') = TerminalDot"
    using ends_dot [of x] by (simp add: destination_intent_def trim_end_id)
  show "destination_intent (x @ ''/./'') = TerminalDotSlash"
    using ends_dot [of x] t by (simp add: destination_intent_def)
  assume x: "\<not> ends_with ''/'' x" "\<not> ends_with ''/.'' x" "x \<noteq> ''.''"
  show "destination_intent x = ExactOrExistingDirectory"
    using x by (simp add: destination_intent_def trim_end_id)
  show "destination_intent (x @ ''/'') = TrailingSlash"
    using x ends_dot [of x] by (simp add: destination_intent_def trim_end_id)
qed

lemma rel_no_pieces_intent:
  assumes "raw \<noteq> []" "\<not> path_absolute raw" "body_pieces (snd (before_body raw)) = []"
  shows "destination_intent raw \<in> {TerminalDot, TerminalDotSlash}"
proof -
  define t where "t = trim_end CHR ''/'' raw"
  obtain n where raw: "raw = t @ replicate n CHR ''/''" using trim_end_append t_def by metis
  have t: "t \<noteq> []" "\<not> path_absolute t" using raw assms(1,2) by (cases t; cases n; auto simp: path_absolute_def)+
  have "\<not> ends_with ''/'' t" using t(1) trim_end_last [of "CHR ''/''" raw] by (simp add: t_def ends_with_char)
  have "t = ''.'' \<or> ends_with ''/.'' t"
  proof (rule ccontr)
    assume no: "\<not> (t = ''.'' \<or> ends_with ''/.'' t)"
    have "raw \<noteq> ''.''" using no by (auto simp: t_def trim_end_def)
    have "prefix ''./'' raw \<longleftrightarrow> prefix ''./'' t"
      using no t(1) raw by (cases t; cases "tl t"; cases n) (auto simp: prefix_def)
    then have "snd (before_body raw) = snd (before_body t) @ replicate n CHR ''/''"
      using no t raw assms(2) \<open>raw \<noteq> ''.''\<close> by (cases t) (auto simp: before_body_def)
    then have "body_pieces (snd (before_body t)) = []" using assms(3) by (simp add: body_pieces_slashes)
    from destination_intent_forced [OF t(1) this] no \<open>\<not> ends_with ''/'' t\<close> show False
      using intent_of_suffix(1) by blast
  qed
  then show ?thesis
    by (auto simp: destination_intent_def t_def [symmetric])
qed

text \<open>
  Resolving a relative destination against the server's working directory never fails and
  keeps what the operand means: the result is absolute, its components are those of the working
  directory followed by those of the destination, and its directory intent is the same.
\<close>

theorem resolved_operand_keeps_meaning:
  assumes "DestinationPath_new raw = Inr d" "\<not> path_absolute (dp_path d)"
    and "cwd = abs_path cs" "list_all plain_name cs"
  shows "\<exists>d'. DestinationPath_new (resolved_operand cwd d) = Inr d' \<and>
    path_absolute (dp_path d') \<and> dp_intent d' = dp_intent d \<and>
    components (dp_path d') = components cwd @ filter (\<lambda>c. c \<noteq> CurDir) (components (dp_path d))"
proof -
  from assms(1) obtain ps where ps: "list_all plain_name ps" "ps = body_pieces (snd (before_body raw))"
    "dp_path d = (if path_absolute raw then abs_path ps else if ps = [] then ''.'' else rel_path ps)"
    "dp_intent d = destination_intent raw" "raw \<noteq> []"
    by (rule DestinationPath_new_Inr)
  have rel: "\<not> path_absolute raw" using ps(3) assms(2) by (auto split: if_splits)
  define x where "x = path_join cwd (dp_path d)"
  have comps: "components (dp_path d) = (if ps = [] then [CurDir] else map Normal ps)"
    using components_dp_path [OF assms(1)] rel ps(2) by (simp add: Let_def)
  have all: "list_all plain_name (cs @ ps)" using ps(1) assms(4) by simp
  have "path_absolute x" using assms(2,3) by (simp add: x_def path_join_def abs_path_def)
  have main: "\<exists>d'. DestinationPath_new (resolved_operand cwd d) = Inr d' \<and> dp_path d' = abs_path (cs @ ps) \<and> dp_intent d' = dp_intent d"
    if pieces: "body_pieces (tl x) = cs @ ps" and trim: "trim_end CHR ''/'' x = x"
      and cases: "dp_intent d = ExactOrExistingDirectory \<or> dp_intent d = TrailingSlash \<Longrightarrow>
        \<not> ends_with ''/'' x \<and> \<not> ends_with ''/.'' x \<and> x \<noteq> ''.''"
  proof -
    let ?r = "resolved_operand cwd d"
    have r: "?r \<in> {x, x @ ''/'', x @ ''/.'', x @ ''/./''}" "destination_intent ?r = dp_intent d"
      using trim cases by (cases "dp_intent d"; simp add: resolved_operand_def x_def [symmetric] intent_of_suffix)+
    have "tl (x @ s) = tl x @ s" for s using \<open>path_absolute x\<close> by (cases x) auto
    then have "path_absolute ?r" "body_pieces (tl ?r) = cs @ ps"
      using r(1) pieces \<open>path_absolute x\<close> by (auto simp: body_pieces_suffix path_absolute_def split: list.splits)
    from DestinationPath_new_abs [OF this all] r(2) show ?thesis by simp
  qed
  have "\<exists>d'. DestinationPath_new (resolved_operand cwd d) = Inr d' \<and> dp_path d' = abs_path (cs @ ps) \<and> dp_intent d' = dp_intent d"
  proof (cases "ps = []")
    case False
    then have x: "x = abs_path (cs @ ps)"
      using rel ps assms(3,4) by (simp add: x_def path_join_abs_rel)
    with False all abs_path_last [of "cs @ ps"] show ?thesis
      by (intro main) (auto simp: trim_end_id abs_path_def body_pieces_plain)
  next
    case True
    then have intent: "dp_intent d \<in> {TerminalDot, TerminalDotSlash}"
      using rel_no_pieces_intent [OF ps(5) rel] ps(2,4) by simp
    obtain y where x: "x = y @ ''/.''" "body_pieces (tl x) = cs"
    proof (cases "cs = []")
      case True
      show thesis
        by (rule that [of "[]"]) (use True \<open>ps = []\<close> rel ps(3) assms(3) in \<open>simp_all add: x_def path_join_def abs_path_def body_pieces_def trivial_piece_def\<close>)
    next
      case False
      from abs_path_last(1) [OF this assms(4)] have "x = abs_path cs @ ''/.''"
        using \<open>ps = []\<close> rel ps(3) assms(3) by (simp add: x_def path_join_def ends_with_char)
          (simp add: abs_path_def)
      moreover have "body_pieces (tl (abs_path cs @ ''/.'')) = cs"
        using False assms(4) body_pieces_suffix(2) [of "join_with ''/'' cs"] by (simp add: abs_path_def body_pieces_plain)
      ultimately show thesis using that by simp
    qed
    with intent True ends_dot(2) [of y] show ?thesis
      by (intro main) (auto simp: trim_end_id)
  qed
  then obtain d' where d': "DestinationPath_new (resolved_operand cwd d) = Inr d'"
    "dp_path d' = abs_path (cs @ ps)" "dp_intent d' = dp_intent d" by blast
  have "components (abs_path (cs @ ps)) = components cwd @ filter (\<lambda>c. c \<noteq> CurDir) (components (dp_path d))"
    using all assms(3,4) comps by (simp add: components_abs_path filter_map_Normal)
  with d' show ?thesis by (metis path_absolute_abs_path)
qed

section \<open>Programs that only read\<close>

definition same_nodes :: "world \<Rightarrow> world \<Rightarrow> bool" where
  "same_nodes w w' \<longleftrightarrow> same_env w w' \<and> nodes w' = nodes w"

interpretation reads: world_relation same_nodes
  by unfold_locales (auto simp: same_nodes_def intro: same_env_trans)

lemma reads_prims:
  "reads.kept (fs_exists p)" "reads.kept (fs_is_dir p)" "reads.kept fs_now" "reads.kept (fs_read p)"
  "reads.kept (fs_mtime p)" "reads.kept (fs_read_dir p)"
  unfolding reads.kept_def same_nodes_def
  by (metis fs_exists_effect fs_is_dir_effect fs_now_effect fs_read_effect fs_mtime_effect fs_read_dir_effect)+

lemma reads_bail: "reads.kept (bail msg x)" "reads.kept (ser_io msg y)"
  by (simp_all add: bail_def ser_io_def reads.kept_lift)

lemma reads_ctx: "reads.kept m \<Longrightarrow> reads.kept (ctx msg m)"
  by (simp add: ctx_def reads.kept_err)

lemma reads_first_existing: "reads.kept (first_existing_phase wd n r phs)"
  by (induction phs) (auto intro!: reads.kept_intros reads_prims)

lemmas reads_rules = reads.kept_intros reads_prims reads_bail reads_ctx reads_first_existing

lemma bail_eq [simp]: "bail msg x w = (res, w') \<longleftrightarrow> res = map_err (\<lambda>_. Bail msg) x \<and> w' = w"
  by (auto simp: bail_def)

lemma bail_ok: "bail msg x w = (Inr a, w') \<longleftrightarrow> x = Inr a \<and> w' = w"
  by (cases x) auto

lemma bail_simps [simp]: "bail msg (Inl e) = fail_io (Bail msg)" "bail msg (Inr a) = ret_io a"
  "bind_io (lift_res (Inl e')) f = fail_io e'"
  by (auto simp: bail_def fun_eq_iff bind_io_def lift_res_def fail_io_def ret_io_def)

section \<open>Preparing a run\<close>

lemma reads_run_inputs: "reads.kept (read_run_inputs cod dir n r)"
  unfolding read_run_inputs_def by (intro reads_rules)

lemma ctx_read_ok: "ctx msg (fs_read p) w = (Inr c, w') \<Longrightarrow> \<exists>l. view (nodes w) p = Some (FileN c 0 l)"
  by (auto elim!: ctx_cases dest: fs_read_effect)

lemma read_run_inputs_ok:
  assumes "read_run_inputs cod dir n r w = (Inr (rc, m), w')"
  shows "(\<exists>c l. view (nodes w) (dir @ [''run.toml'']) = Some (FileN c 0 l) \<and> cd_de_run_config cod c = Inr rc) \<and>
    (\<exists>c l. view (nodes w) (dir @ [''manifest.toml'']) = Some (FileN c 0 l) \<and> manifest_from_toml (cd_de_manifest cod) c = Inr m) \<and>
    validate_envelope n r rc m = Inr ()"
proof -
  from assms obtain c1 w1 c2 w2 where
    1: "ctx ''failed to read run config'' (fs_read (dir @ [''run.toml''])) w = (Inr c1, w1)"
    and d1: "run_config_from_toml (cd_de_run_config cod) c1 = Inr rc"
    and 2: "ctx ''failed to read manifest'' (fs_read (dir @ [''manifest.toml''])) w1 = (Inr c2, w2)"
    and d2: "manifest_from_toml (cd_de_manifest cod) c2 = Inr m" "validate_envelope n r rc m = Inr ()"
    unfolding read_run_inputs_def by (auto elim!: bind_io_cases simp: bail_ok simp del: bail_eq)
  have "nodes w1 = nodes w" using reads.keptD [OF reads_ctx [OF reads_prims(4)] 1] by (simp add: same_nodes_def)
  with ctx_read_ok [OF 1] ctx_read_ok [OF 2] d1 d2 show ?thesis
    by (auto simp: run_config_from_toml_def map_err_Inr_iff)
qed

lemma validate_transform_run_ok:
  "validate_transform_run config m rc = Inr () \<longleftrightarrow>
    rc_delete_after_import rc \<and> (\<exists>entry t def. mf_entries m = [entry] \<and> me_transform entry = Some t \<and>
      map_of (sc_transforms config) t = Some def \<and> validate_transform_definition def = Inr ())"
  by (auto simp: validate_transform_run_def length_Suc_conv is_ok_iff split: option.splits if_splits)

lemma commit_destination_effect:
  assumes wf: "fs_wf (nodes w)" and run: "commit_destination cod cwd dir rc w = (res, w')"
  shows "(path_absolute (dp_path (rc_destination rc)) \<and> nodes w' = nodes w \<and> res = Inr None) \<or>
    (\<not> path_absolute (dp_path (rc_destination rc)) \<and>
      ((nodes w' = nodes w \<and> (\<exists>e. res = Inl e)) \<or>
       (\<exists>d cwd_dir out. cwd = Inr cwd_dir \<and> DestinationPath_new (resolved_operand cwd_dir (rc_destination rc)) = Inr d \<and>
         cd_ser_run_config cod \<lparr>rc_purgery_version = PURGERY_VERSION, rc_nickname = rc_nickname rc,
           rc_destination = d, rc_delete_after_import = rc_delete_after_import rc\<rparr> = Inr out \<and>
         (res = Inr (Some (dp_operand d)) \<or> (\<exists>e. res = Inl e)) \<and>
         published (dir @ [''run.toml.tmp'']) (dir @ [''run.toml'']) out (\<exists>x. res = Inr x) (nodes w) (nodes w'))))"
proof (cases "path_absolute (dp_path (rc_destination rc))")
  case True
  with run show ?thesis by (simp add: commit_destination_def)
next
  case False
  define publish where "publish out = bind_io (ctx ''failed to write updated run config'' (fs_write (dir @ [''run.toml.tmp'']) out))
      (\<lambda>_. ctx ''failed to commit updated run config'' (fs_rename (dir @ [''run.toml.tmp'']) (dir @ [''run.toml''])))" for out
  have assoc: "bind_io (bind_io a (\<lambda>_. b)) (\<lambda>_. c) = bind_io a (\<lambda>_. bind_io b (\<lambda>_. c))" for a b :: "unit server" and c :: "string option server"
    by (auto simp: fun_eq_iff bind_io_def split: prod.splits sum.splits)
  from run False have "(nodes w' = nodes w \<and> (\<exists>e. res = Inl e)) \<or>
      (\<exists>d cwd_dir out. cwd = Inr cwd_dir \<and> DestinationPath_new (resolved_operand cwd_dir (rc_destination rc)) = Inr d \<and>
         cd_ser_run_config cod \<lparr>rc_purgery_version = PURGERY_VERSION, rc_nickname = rc_nickname rc,
           rc_destination = d, rc_delete_after_import = rc_delete_after_import rc\<rparr> = Inr out \<and>
         bind_io (publish out) (\<lambda>_. ret_io (Some (dp_operand d))) w = (res, w'))"
  proof (cases cwd)
    case (Inl e)
    with run False show ?thesis by (simp add: commit_destination_def)
  next
    case cwd: (Inr cwd_dir)
    show ?thesis
    proof (cases "DestinationPath_new (resolved_operand cwd_dir (rc_destination rc))")
      case (Inl e)
      with cwd run False show ?thesis by (simp add: commit_destination_def)
    next
      case d: (Inr d)
      let ?u = "\<lparr>rc_purgery_version = PURGERY_VERSION, rc_nickname = rc_nickname rc,
           rc_destination = d, rc_delete_after_import = rc_delete_after_import rc\<rparr>"
      show ?thesis
      proof (cases "cd_ser_run_config cod ?u")
        case (Inl e)
        with cwd d run False show ?thesis
          by (simp add: commit_destination_def run_config_to_toml_def Let_def)
      next
        case (Inr out)
        with cwd d run False show ?thesis
          unfolding commit_destination_def Let_def publish_def assoc
          by (simp add: run_config_to_toml_def)
      qed
    qed
  qed
  then show ?thesis
  proof (elim disjE exE conjE)
    fix d cwd_dir out assume a: "cwd = Inr cwd_dir" "DestinationPath_new (resolved_operand cwd_dir (rc_destination rc)) = Inr d"
      "cd_ser_run_config cod \<lparr>rc_purgery_version = PURGERY_VERSION, rc_nickname = rc_nickname rc,
           rc_destination = d, rc_delete_after_import = rc_delete_after_import rc\<rparr> = Inr out"
      "bind_io (publish out) (\<lambda>_. ret_io (Some (dp_operand d))) w = (res, w')"
    from a(4) obtain r1 where p: "publish out w = (r1, w')" "res = (case r1 of Inl e \<Rightarrow> Inl e | Inr _ \<Rightarrow> Inr (Some (dp_operand d)))"
      by (auto elim!: bind_io_cases)
    from ctx_publish_published [OF wf refl refl _ p(1) [unfolded publish_def]]
    have "published (dir @ [''run.toml.tmp'']) (dir @ [''run.toml'']) out (\<exists>x. res = Inr x) (nodes w) (nodes w')"
      using p(2) by (cases r1) simp_all
    with a p(2) False show ?thesis by (intro disjI2 conjI) (auto split: sum.splits)
  qed (use False in blast)
qed

text \<open>
  What a prepared run has on disk, and the answer for it: an absolute destination is kept as it is and not
  repeated; a relative one is taken below the working directory \<open>dir\<close> of the server, with the same components
  after those of \<open>dir\<close> and the same directory intent, written to \<open>run.toml\<close> and given back.
\<close>

definition prepare_answer :: "Nickname \<Rightarrow> RunId \<Rightarrow> string option \<Rightarrow> PrepareRunResponse" where
  "prepare_answer n r dest = \<lparr>pp_protocol_version = PROTOCOL_VERSION, pp_purgery_version = PURGERY_VERSION,
     pp_nickname = nickname_str n, pp_run_id = run_id_str r, pp_destination = dest\<rparr>"

definition prepared ::
    "codecs \<Rightarrow> (io_error, string) result \<Rightarrow> Nickname \<Rightarrow> RunId \<Rightarrow> fpath \<Rightarrow> RunConfig \<Rightarrow> string \<Rightarrow> fs \<Rightarrow> fs \<Rightarrow> bool" where
  "prepared cod cwd n r inc rc resp fs fs' \<longleftrightarrow>
     (if path_absolute (dp_path (rc_destination rc))
      then view fs' (inc @ [''run.toml'']) = view fs (inc @ [''run.toml'']) \<and> cd_ser_prepare cod (prepare_answer n r None) = Inr resp
      else \<exists>d dir out l. cwd = Inr dir \<and> path_absolute (dp_path d) \<and> dp_intent d = dp_intent (rc_destination rc) \<and>
        components (dp_path d) = components dir @ filter (\<lambda>c. c \<noteq> CurDir) (components (dp_path (rc_destination rc))) \<and>
        cd_ser_run_config cod \<lparr>rc_purgery_version = PURGERY_VERSION, rc_nickname = n,
          rc_destination = d, rc_delete_after_import = rc_delete_after_import rc\<rparr> = Inr out \<and>
        view fs' (inc @ [''run.toml'']) = Some (FileN out 0 l) \<and>
        cd_ser_prepare cod (prepare_answer n r (Some (dp_operand d))) = Inr resp)"

text \<open>The run a configuration and a manifest on disk describe: one entry, with a valid transform.\<close>

definition described :: "codecs \<Rightarrow> ServerConfig \<Rightarrow> Nickname \<Rightarrow> RunId \<Rightarrow> fpath \<Rightarrow> fs \<Rightarrow> RunConfig \<Rightarrow> bool" where
  "described cod config n r inc fs rc \<longleftrightarrow>
     (\<exists>c l c' l' m entry t def.
        view fs (inc @ [''run.toml'']) = Some (FileN c 0 l) \<and> cd_de_run_config cod c = Inr rc \<and>
        view fs (inc @ [''manifest.toml'']) = Some (FileN c' 0 l') \<and> cd_de_manifest cod c' = Inr m \<and>
        rc_nickname rc = n \<and> mf_nickname m = n \<and> mf_run_id m = r \<and> rc_delete_after_import rc \<and>
        mf_entries m = [entry] \<and> me_transform entry = Some t \<and>
        map_of (sc_transforms config) t = Some def \<and> validate_transform_definition def = Inr ())"

lemma inputs_described:
  assumes "read_run_inputs cod inc n r w = (Inr (rc, m), w')" "validate_transform_run config m rc = Inr ()"
  shows "described cod config n r inc (nodes w) rc"
  using read_run_inputs_ok [OF assms(1)] assms(2) unfolding described_def
  by (auto simp: validate_transform_run_ok validate_envelope_def manifest_from_toml_def bind_res_Inr_iff
      map_err_Inr_iff split: if_splits option.splits)

lemma prepare_run_cases:
  assumes "prepare_run cod cwd config n r w = (res, w')"
  defines "inc \<equiv> run_path (sc_work_dir config) n r Incoming"
  shows "(nodes w' = nodes w \<and> (\<exists>e. res = Inl e)) \<or>
    (\<exists>rc w1 r2. described cod config n r inc (nodes w) rc \<and> nodes w1 = nodes w \<and>
      commit_destination cod cwd inc rc w1 = (r2, w') \<and>
      (\<forall>resp. res = Inr resp \<longrightarrow> (\<exists>x. r2 = Inr x \<and> cd_ser_prepare cod (prepare_answer n r x) = Inr resp)))"
    (is "?none \<or> ?go")
proof -
  define answer where "answer d = (ser_io ''failed to serialize prepare-run response''
      (cd_ser_prepare cod (prepare_answer n r d)) :: string server)" for d
  have answer: "answer d x = (y, x') \<Longrightarrow> x' = x \<and> (\<forall>resp. y = Inr resp \<longrightarrow> cd_ser_prepare cod (prepare_answer n r d) = Inr resp)"
    for d x y x' by (cases "cd_ser_prepare cod (prepare_answer n r d)") (auto simp: answer_def)
  show ?thesis
  proof (cases "view (nodes w) inc \<noteq> None \<and> faults w (tick w) \<noteq> StatFail")
    case False
    with assms show ?thesis by (auto simp: prepare_run_def bind_queries Let_def)
  next
    case True
    with assms(1) have run: "bind_io (read_run_inputs cod inc n r) (\<lambda>(run_config, manifest).
        bind_io (bail ''run plan validation failed'' (validate_transform_run config manifest run_config))
          (\<lambda>_. bind_io (commit_destination cod cwd inc run_config) answer)) (next_tick w) = (res, w')"
      unfolding inc_def by (simp add: prepare_run_def bind_queries Let_def answer_def [abs_def] prepare_answer_def [symmetric])
    from run show ?thesis
    proof (cases rule: bind_io_cases)
      case (err e)
      with reads.keptD [OF reads_run_inputs err(1)] show ?thesis by (simp add: same_nodes_def)
    next
      case (ok a w1)
      obtain rc m where a: "a = (rc, m)" by (cases a)
      have n1: "nodes w1 = nodes w"
        using reads.keptD [OF reads_run_inputs ok(1)] by (simp add: same_nodes_def)
      show ?thesis
      proof (cases "validate_transform_run config m rc")
        case (Inr u)
        with ok a have "bind_io (commit_destination cod cwd inc rc) answer w1 = (res, w')" by simp
        then obtain r2 where "commit_destination cod cwd inc rc w1 = (r2, w')"
          "\<forall>resp. res = Inr resp \<longrightarrow> (\<exists>x. r2 = Inr x \<and> cd_ser_prepare cod (prepare_answer n r x) = Inr resp)"
          by (cases rule: bind_io_cases) (auto dest: answer)
        moreover have "described cod config n r inc (nodes w) rc"
          using inputs_described [OF ok(1) [unfolded a], of config] Inr by simp
        ultimately show ?thesis using n1 by (intro disjI2 exI conjI)
      qed (use ok a n1 in simp)
    qed
  qed
qed

text \<open>The destinations of run configurations are validated when they are decoded (\<open>DestinationPath::new\<close>).\<close>

definition decodes_destinations :: "codecs \<Rightarrow> bool" where
  "decodes_destinations cod \<longleftrightarrow>
     (\<forall>c rc. cd_de_run_config cod c = Inr rc \<longrightarrow> (\<exists>raw. DestinationPath_new raw = Inr (rc_destination rc)))"

lemma commit_destination_prepared:
  assumes "fs_wf (nodes w)" "commit_destination cod cwd inc rc w = (Inr x, w')" "rc_nickname rc = n"
    and "cd_ser_prepare cod (prepare_answer n r x) = Inr resp"
    and "DestinationPath_new raw = Inr (rc_destination rc)"
    and "\<And>dir. cwd = Inr dir \<Longrightarrow> \<exists>cs. dir = abs_path cs \<and> list_all plain_name cs"
  shows "prepared cod cwd n r inc rc resp (nodes w) (nodes w')"
proof (cases "path_absolute (dp_path (rc_destination rc))")
  case True
  with commit_destination_effect [OF assms(1,2)] assms(4) show ?thesis by (auto simp: prepared_def)
next
  case False
  with commit_destination_effect [OF assms(1,2)] obtain d dir out where
    d: "cwd = Inr dir" "DestinationPath_new (resolved_operand dir (rc_destination rc)) = Inr d"
      "cd_ser_run_config cod \<lparr>rc_purgery_version = PURGERY_VERSION, rc_nickname = rc_nickname rc,
           rc_destination = d, rc_delete_after_import = rc_delete_after_import rc\<rparr> = Inr out" "x = Some (dp_operand d)"
      "published (inc @ [''run.toml.tmp'']) (inc @ [''run.toml'']) out True (nodes w) (nodes w')"
    by auto
  from assms(6) [OF d(1)] obtain cs where cs: "dir = abs_path cs" "list_all plain_name cs" by blast
  from resolved_operand_keeps_meaning [OF assms(5) False cs] d(2) have "path_absolute (dp_path d)"
    "dp_intent d = dp_intent (rc_destination rc)"
    "components (dp_path d) = components dir @ filter (\<lambda>c. c \<noteq> CurDir) (components (dp_path (rc_destination rc)))" by auto
  moreover from d(5) obtain l where "view (nodes w') (inc @ [''run.toml'']) = Some (FileN out 0 l)" by (auto simp: published_def)
  ultimately show ?thesis using False d(1,3,4) assms(3,4) by (auto simp: prepared_def)
qed

text \<open>
  C27. \<open>prepare_run\<close> is the gate before any upload: it answers only for a run whose configuration
  and manifest are readable, decode, belong to the run and describe exactly one entry with a valid
  transform of the server. Then \<open>run.toml\<close> holds an absolute destination: the given one, untouched, or
  the server's working directory (an absolute path of plain names, as \<open>current_dir\<close> gives it) extended by
  the given components, with the given directory intent; the answer names a destination exactly when it was
  resolved. Whatever fails, no other file changes, and \<open>run.toml\<close> is never torn.
\<close>

theorem prepare_run_gate:
  assumes "fs_wf (nodes w)" "prepare_run cod cwd config n r w = (res, w')"
    and "decodes_destinations cod" "\<And>dir. cwd = Inr dir \<Longrightarrow> \<exists>cs. dir = abs_path cs \<and> list_all plain_name cs"
  shows "let inc = run_path (sc_work_dir config) n r Incoming in
    (\<forall>q. q \<noteq> inc @ [''run.toml''] \<and> q \<noteq> inc @ [''run.toml.tmp''] \<longrightarrow> view (nodes w') q = view (nodes w) q) \<and>
    (view (nodes w') (inc @ [''run.toml'']) = view (nodes w) (inc @ [''run.toml'']) \<or>
      (\<exists>rc out l'. view (nodes w') (inc @ [''run.toml'']) = Some (FileN out 0 l') \<and> cd_ser_run_config cod rc = Inr out)) \<and>
    (\<forall>resp. res = Inr resp \<longrightarrow>
      (\<exists>rc. described cod config n r inc (nodes w) rc \<and> prepared cod cwd n r inc rc resp (nodes w) (nodes w')))"
proof -
  let ?inc = "run_path (sc_work_dir config) n r Incoming"
  from prepare_run_cases [OF assms(2)] show ?thesis
  proof (elim disjE conjE exE)
    fix rc w1 r2 assume d: "described cod config n r ?inc (nodes w) rc" and n1: "nodes w1 = nodes w"
      and c: "commit_destination cod cwd ?inc rc w1 = (r2, w')"
      and r2: "\<forall>resp. res = Inr resp \<longrightarrow> (\<exists>x. r2 = Inr x \<and> cd_ser_prepare cod (prepare_answer n r x) = Inr resp)"
    have wf1: "fs_wf (nodes w1)" using n1 assms(1) by simp
    note eff = commit_destination_effect [OF wf1 c, unfolded n1]
    from d assms(3) obtain raw where rc: "rc_nickname rc = n" "DestinationPath_new raw = Inr (rc_destination rc)"
      unfolding described_def decodes_destinations_def by blast
    show ?thesis unfolding Let_def
    proof (intro conjI allI impI)
      fix resp assume "res = Inr resp"
      with r2 obtain x where x: "r2 = Inr x" "cd_ser_prepare cod (prepare_answer n r x) = Inr resp" by blast
      from commit_destination_prepared [OF wf1 c [unfolded x(1)] rc(1) x(2) rc(2) assms(4)] d n1
      show "\<exists>rc. described cod config n r ?inc (nodes w) rc \<and> prepared cod cwd n r ?inc rc resp (nodes w) (nodes w')" by auto
    next
      show "view (nodes w') (?inc @ [''run.toml'']) = view (nodes w) (?inc @ [''run.toml'']) \<or>
        (\<exists>rc out l'. view (nodes w') (?inc @ [''run.toml'']) = Some (FileN out 0 l') \<and> cd_ser_run_config cod rc = Inr out)"
        using eff by (auto simp: published_def)
    qed (use eff in \<open>auto simp: published_def\<close>)
  qed (simp add: Let_def)
qed

section \<open>Run state\<close>

text \<open>The probe takes and releases a lock at most, which leaves every look-up as it was.\<close>

definition same_looks :: "nat \<Rightarrow> world \<Rightarrow> world \<Rightarrow> bool" where
  "same_looks h w w' \<longleftrightarrow> same_env w w' \<and> (fresh_handle h (nodes w) \<longrightarrow> look (nodes w') = look (nodes w))"

lemma fresh_handle_cong: "look fs' = look fs \<Longrightarrow> fresh_handle h fs' = fresh_handle h fs"
  by (simp add: fresh_handle_def)

interpretation looks: world_relation "same_looks h" for h
  by unfold_locales (auto simp: same_looks_def intro: same_env_trans dest: fresh_handle_cong)

lemma looks_of_reads: "reads.kept m \<Longrightarrow> looks.kept h m"
  by (auto simp: reads.kept_def looks.kept_def same_nodes_def same_looks_def)

lemma probe_env: "probe_processor_lock_readonly h dir w = (r, w') \<Longrightarrow> same_env w w'"
proof -
  have "tree.kept (probe_processor_lock_readonly h dir)"
    unfolding probe_processor_lock_readonly_def Let_def ctx_def
    by (intro tree.kept_intros tree_prims)
  then show "probe_processor_lock_readonly h dir w = (r, w') \<Longrightarrow> same_env w w'"
    by (auto simp: tree.kept_def keeps_tree_def)
qed

lemma looks_probe: "looks.kept h (probe_processor_lock_readonly h dir)"
  unfolding looks.kept_def same_looks_def using probe_env probe_effect by blast

lemma reads_modified: "reads.kept (dir_modified_at d)" "reads.kept (modified_or_zero d)"
  unfolding modified_or_zero_def dir_modified_at_def by (intro reads_rules)+

lemma reads_case_outcome:
  "reads.kept a \<Longrightarrow> reads.kept b \<Longrightarrow> (\<And>x. reads.kept (c x)) \<Longrightarrow>
   reads.kept (case out of TsValid \<Rightarrow> a | TsIncompatible \<Rightarrow> b | TsMalformed x \<Rightarrow> c x)"
  by (cases out) auto

lemma reads_terminal_state: "reads.kept (terminal_state cod config n r now phs)"
  by (induction phs)
     (auto simp: try_read_status_def Let_def intro!: reads_rules reads_modified reads_case_outcome)

lemma reads_progress: "reads.kept (read_progress_fields cod d n r)"
  unfolding read_progress_fields_def
  by (intro reads_rules reads_modified) (auto split: prod.splits intro!: reads_rules reads_modified)

lemma looks_live: "looks.kept h (live_state cod h n r now ph d)"
  unfolding live_state_def
  by (intro looks.kept_intros looks_probe looks_of_reads [OF reads_progress] looks_of_reads [OF reads_modified(2)])

lemma looks_run_state: "looks.kept h (run_state cod h config n r)"
  unfolding run_state_def
proof (intro looks.kept_bind looks_of_reads [OF reads_first_existing])
  show "looks.kept h now_secs" unfolding now_secs_def by (intro looks_of_reads reads_rules)
  show "looks.kept h (case found of
      Some phase \<Rightarrow> live_state cod h n r now phase (run_path (sc_work_dir config) n r phase)
    | None \<Rightarrow> terminal_state cod config n r now [Done, Failed])" for now found
    by (cases found) (simp_all only: option.case looks_live looks_of_reads [OF reads_terminal_state])
qed

text \<open>The terminal answers: a valid status in one of the phases, or none of the directories.\<close>

definition valid_status_in :: "codecs \<Rightarrow> ServerConfig \<Rightarrow> Nickname \<Rightarrow> RunId \<Rightarrow> fs \<Rightarrow> RunPhase \<Rightarrow> bool" where
  "valid_status_in cod config n r fs ph \<longleftrightarrow>
     (\<exists>c l. view fs (run_path (sc_work_dir config) n r ph @ [''status.toml'']) = Some (FileN c 0 l) \<and>
       judge_terminal cod n r c = TsValid)"

lemma modified_ok: "\<exists>t w'. modified_or_zero d w = (Inr t, w') \<and> nodes w' = nodes w \<and> same_env w w'"
proof -
  obtain x w' where m: "modified_or_zero d w = (x, w')" by (metis surj_pair)
  moreover have "\<exists>t. x = Inr t"
    using m by (auto simp: modified_or_zero_def dir_modified_at_def bind_io_def attempt_io_def ret_io_def
        split: prod.splits sum.splits)
  ultimately show ?thesis using reads.keptD [OF reads_modified(2) m] by (auto simp: same_nodes_def)
qed

lemma try_read_status_ok:
  "\<exists>out w'. try_read_status cod p n r w = (Inr out, w') \<and> nodes w' = nodes w \<and> same_env w w' \<and>
    (out \<noteq> TsMalformed ''missing/unreadable'' \<longrightarrow>
      (\<exists>c l. view (nodes w) p = Some (FileN c 0 l) \<and> out = judge_terminal cod n r c))"
proof -
  obtain x w' where m: "fs_read p w = (x, w')" by (metis surj_pair)
  with fs_read_effect [OF m] show ?thesis
    by (cases x) (auto simp: try_read_status_def bind_attempt)
qed

definition terminal_answer :: "codecs \<Rightarrow> ServerConfig \<Rightarrow> Nickname \<Rightarrow> RunId \<Rightarrow> fs \<Rightarrow> RunPhase list \<Rightarrow> RunStateResponse \<Rightarrow> bool" where
  "terminal_answer cod config n r fs phs resp \<longleftrightarrow>
     (if rr_terminal resp
      then \<exists>ph \<in> set phs. rr_phase resp = phase_str ph \<and> valid_status_in cod config n r fs ph
      else rr_phase resp \<in> {''not_found'', ''corrupt''})"

lemma terminal_answer_Cons: "terminal_answer cod config n r fs phs resp \<Longrightarrow> terminal_answer cod config n r fs (ph # phs) resp"
  unfolding terminal_answer_def by (auto split: if_splits)

lemma terminal_state_sound:
  "terminal_state cod config n r now phs w = (res, w') \<Longrightarrow>
   \<exists>resp. res = Inr resp \<and> terminal_answer cod config n r (nodes w) phs resp"
proof (induction phs arbitrary: w)
  case Nil
  then show ?case by (simp add: state_response_def bare_fields_def terminal_answer_def)
next
  case (Cons ph phs)
  let ?d = "run_path (sc_work_dir config) n r ph"
  define K :: "TerminalStatusOutcome \<Rightarrow> RunStateResponse server" where "K = (\<lambda>outcome. (case outcome of
      TsValid \<Rightarrow> (bind_io (modified_or_zero ?d) (\<lambda>t. ret_io (state_response n r now (phase_str ph) True
        (bare_fields (''run is '' @ phase_str ph) t None) None)))
    | TsIncompatible \<Rightarrow> (terminal_state cod config n r now phs)
    | TsMalformed reason \<Rightarrow> (bind_io (modified_or_zero ?d) (\<lambda>t. ret_io (state_response n r now ''corrupt'' False
        (bare_fields (phase_str ph @ '' directory exists but status is '' @ reason) t None) None)))))"
  have step: "bind_io (fs_exists ?d) (\<lambda>ex. if \<not> ex then terminal_state cod config n r now phs
      else bind_io (try_read_status cod (?d @ [''status.toml'']) n r) K) w = (res, w')"
    using Cons.prems by (simp only: terminal_state.simps Let_def K_def)
  show ?case
  proof (cases "faults w (tick w) \<noteq> StatFail \<and> view (nodes w) ?d \<noteq> None")
    case False
    with step have "terminal_state cod config n r now phs (next_tick w) = (res, w')"
      by (auto simp: bind_queries)
    from Cons.IH [OF this] show ?thesis using terminal_answer_Cons by auto
  next
    case True
    with step have run: "bind_io (try_read_status cod (?d @ [''status.toml'']) n r) K (next_tick w) = (res, w')"
      by (simp add: bind_queries)
    from try_read_status_ok [of cod "?d @ [''status.toml'']" n r "next_tick w"] obtain out w1 where
      1: "try_read_status cod (?d @ [''status.toml'']) n r (next_tick w) = (Inr out, w1)" "nodes w1 = nodes w"
      "out \<noteq> TsMalformed ''missing/unreadable'' \<longrightarrow>
        (\<exists>c l. view (nodes w) (?d @ [''status.toml'']) = Some (FileN c 0 l) \<and> out = judge_terminal cod n r c)"
      by auto
    with run have K: "K out w1 = (res, w')" by (simp add: bind_io_def)
    obtain t w2 where m: "modified_or_zero ?d w1 = (Inr t, w2)" using modified_ok by blast
    show ?thesis
    proof (cases out)
      case TsValid
      with K m 1 show ?thesis
        by (auto simp: K_def bind_io_def state_response_def bare_fields_def valid_status_in_def terminal_answer_def)
    next
      case TsIncompatible
      with K have "terminal_state cod config n r now phs w1 = (res, w')" by (simp add: K_def)
      from Cons.IH [OF this] 1(2) show ?thesis using terminal_answer_Cons by auto
    next
      case (TsMalformed reason)
      with K m show ?thesis
        by (auto simp: K_def bind_io_def state_response_def bare_fields_def terminal_answer_def)
    qed
  qed
qed

lemma attempt_total: "\<exists>x w'. attempt_io m w = (Inr x, w')"
  by (cases "m w") (simp add: attempt_io_def)

lemma read_progress_total: "\<exists>pf w'. read_progress_fields cod d n r w = (Inr pf, w')"
proof -
  obtain x w1 where 1: "fs_read (d @ [''progress.toml'']) w = (x, w1)" by (metis surj_pair)
  have m: "\<exists>pf w'. bind_io (modified_or_zero d) (\<lambda>t. ret_io (f t)) w1 = (Inr pf, w')" for f :: "u64 \<Rightarrow> progress_fields"
    using modified_ok [of d w1] by (auto simp: bind_io_def)
  show ?thesis
  proof (cases x)
    case (Inl e)
    with 1 m show ?thesis by (simp add: read_progress_fields_def bind_attempt)
  next
    case (Inr c)
    show ?thesis
    proof (cases "judge_progress cod n r c")
      case (Inl p)
      with 1 Inr m show ?thesis by (cases p) (simp add: read_progress_fields_def bind_attempt)
    qed (use 1 Inr in \<open>simp add: read_progress_fields_def bind_attempt\<close>)
  qed
qed

lemma live_state_answer:
  "\<exists>resp w'. live_state cod h n r now ph d w = (Inr resp, w') \<and> rr_phase resp = phase_str ph \<and> \<not> rr_terminal resp"
proof (cases "ph = Processing")
  case True
  obtain pf w1 where 1: "read_progress_fields cod d n r w = (Inr pf, w1)" using read_progress_total by blast
  obtain x w2 where 2: "attempt_io (probe_processor_lock_readonly h d) w1 = ((Inr x :: (server_error, _) result), w2)"
    using attempt_total by blast
  from True 1 2 show ?thesis
    by (simp add: live_state_def bind_io_def state_response_def)
next
  case False
  obtain t w1 where "modified_or_zero d w = (Inr t, w1)" using modified_ok by blast
  with False show ?thesis
    by (simp add: live_state_def bind_io_def state_response_def bare_fields_def)
qed

text \<open>
  \<open>run_state\<close> always answers, whatever fails, and leaves every file as it is (the probe releases
  the lock it takes). A terminal answer rests on a status in that phase that is compatible and the
  run's own; when metadata queries work, an answer for a live phase names a directory that exists.
\<close>

theorem run_state_truthful:
  assumes "fresh_handle h (nodes w)" "run_state cod h config n r w = (res, w')"
  shows "look (nodes w') = look (nodes w) \<and>
    (\<exists>resp. res = Inr resp \<and>
      (if rr_terminal resp
       then \<exists>ph \<in> {Done, Failed}. rr_phase resp = phase_str ph \<and> valid_status_in cod config n r (nodes w) ph
       else rr_phase resp \<in> {''not_found'', ''corrupt''} \<or>
         (\<exists>ph \<in> {Incoming, Ready, Processing}. rr_phase resp = phase_str ph \<and>
           view (nodes w) (run_path (sc_work_dir config) n r ph) \<noteq> None)))"
proof -
  have look: "look (nodes w') = look (nodes w)"
    using looks.keptD [OF looks_run_state assms(2)] assms(1) by (simp add: same_looks_def)
  define now where "now = unix_secs (clock w (tick w))"
  obtain x w1 where 1: "first_existing_phase (sc_work_dir config) n r [Incoming, Ready, Processing] (next_tick w) = (x, w1)"
    by (metis surj_pair)
  from first_existing_effect [OF 1] obtain found where f: "x = Inr found" "nodes w1 = nodes w"
    "\<And>ph. found = Some ph \<Longrightarrow> ph \<in> {Incoming, Ready, Processing} \<and> view (nodes w) (run_path (sc_work_dir config) n r ph) \<noteq> None"
    by (auto split: option.splits)
  with assms(2) 1 have run: "(case found of
       Some ph \<Rightarrow> live_state cod h n r now ph (run_path (sc_work_dir config) n r ph)
     | None \<Rightarrow> terminal_state cod config n r now [Done, Failed]) w1 = (res, w')"
    unfolding now_def
    by (simp add: run_state_def bind_queries bind_io_def [of "first_existing_phase _ _ _ _"]
        del: first_existing_phase.simps terminal_state.simps)
  show ?thesis
  proof (cases found)
    case None
    with run terminal_state_sound [of cod config n r now "[Done, Failed]" w1 res w'] f(2) look show ?thesis
      by (auto simp: terminal_answer_def simp del: terminal_state.simps split: if_splits)
  next
    case (Some ph)
    with run live_state_answer [of cod h n r now ph "run_path (sc_work_dir config) n r ph" w1]
    obtain resp where "res = Inr resp" "rr_phase resp = phase_str ph" "\<not> rr_terminal resp" by auto
    with f(3) [OF Some] look show ?thesis by auto
  qed
qed

section \<open>The status after a terminal answer\<close>

lemma judge_agree: "judge_terminal cod n r c = TsValid \<longleftrightarrow> (\<exists>s. judge_status cod n r c = Report s)"
  "judge_terminal cod n r c = TsIncompatible \<longleftrightarrow> judge_status cod n r c = Skip"
  by (auto simp: judge_terminal_def judge_status_def split: sum.splits)


definition faultless :: "world \<Rightarrow> bool" where
  "faultless w \<longleftrightarrow> (\<forall>k. faults w k = Pass)"

lemma faultless_simps [simp]: "faultless w \<Longrightarrow> faults w k = Pass" "faultless (next_tick w) = faultless w"
  by (simp_all add: faultless_def)

lemma faultless_env: "same_env w w' \<Longrightarrow> faultless w' = faultless w"
  by (simp add: faultless_def same_env_def)

lemma faultless_read:
  assumes "faultless w" "view (nodes w) p = Some (FileN c 0 l)"
  shows "fs_read p w = (Inr c, next_tick w)"
proof -
  obtain m where "look (nodes w) p = Some (FileN c m l)" using assms(2) look_FileN_view by blast
  with assms(1) show ?thesis by (simp add: fs_read_def prim_io_def error_of_def next_tick_def)
qed

lemma bind_ctx_read: "fs_read p w = (Inr c, w1) \<Longrightarrow> bind_io (ctx msg (fs_read p)) f w = f c w1"
  by (simp add: bind_io_def ctx_def err_io_def)

lemma bind_try_read_status:
  "fs_read p w = (x, w1) \<Longrightarrow> bind_io (try_read_status cod p n r) f w =
    f (case x of Inl _ \<Rightarrow> TsMalformed ''missing/unreadable'' | Inr c \<Rightarrow> judge_terminal cod n r c) w1"
  by (cases x) (simp_all add: try_read_status_def bind_io_def ret_io_def attempt_io_def)

definition own_status :: "Nickname \<Rightarrow> RunId \<Rightarrow> RunStatus \<Rightarrow> bool" where
  "own_status n r s \<longleftrightarrow> rs_nickname s = n \<and> rs_run_id s = r \<and>
     is_ok (require_compatible_purgery_version (rs_purgery_version s) ''status'')"

lemma judge_status_own: "judge_status cod n r c = Report s \<Longrightarrow> own_status n r s"
  by (auto simp: judge_status_def own_status_def split: sum.splits if_splits)

lemma read_run_status_step:
  assumes "faultless v" "view (nodes v) (run_path (sc_work_dir config) n r ph @ [''status.toml'']) = Some (FileN c 0 l)"
  shows "read_run_status_in cod config n r (ph # phs) v =
    (case judge_status cod n r c of
       Skip \<Rightarrow> read_run_status_in cod config n r phs (next_tick (next_tick v))
     | Report s \<Rightarrow> (Inr s, next_tick (next_tick v))
     | Abort e \<Rightarrow> (Inl e, next_tick (next_tick v)))"
  using assms faultless_read [of "next_tick v" "run_path (sc_work_dir config) n r ph @ [''status.toml'']" c l]
  by (cases "judge_status cod n r c") (simp_all add: bind_queries Let_def bind_ctx_read ret_io_def fail_io_def)

lemma terminal_then_status:
  "terminal_state cod config n r now phs w = (Inr resp, w') \<Longrightarrow> rr_terminal resp \<Longrightarrow>
   faultless w \<Longrightarrow> faultless v \<Longrightarrow> fs_wf (nodes w) \<Longrightarrow> view (nodes v) = view (nodes w) \<Longrightarrow>
   \<exists>s v'. read_run_status_in cod config n r phs v = (Inr s, v') \<and> own_status n r s"
proof (induction phs arbitrary: w v)
  case Nil
  then show ?case by (auto simp: state_response_def)
next
  case (Cons ph phs)
  let ?d = "run_path (sc_work_dir config) n r ph"
  let ?p = "?d @ [''status.toml'']"
  show ?case
  proof (cases "view (nodes w) ?d")
    case None
    then have "view (nodes w) ?p = None"
      using wf_parent_view [OF Cons.prems(5), of ?p] by (cases "view (nodes w) ?p") auto
    with Cons.prems None have
      "terminal_state cod config n r now phs (next_tick w) = (Inr resp, w')"
      "read_run_status_in cod config n r (ph # phs) v = read_run_status_in cod config n r phs (next_tick v)"
      by (auto simp: bind_queries Let_def)
    with Cons show ?thesis by simp
  next
    case (Some d)
    obtain x w1 where rd: "fs_read ?p (next_tick w) = (x, w1)" by (metis surj_pair)
    note eff = fs_read_effect [OF rd]
    define K :: "TerminalStatusOutcome \<Rightarrow> RunStateResponse server" where "K = (\<lambda>outcome. (case outcome of
        TsValid \<Rightarrow> (bind_io (modified_or_zero ?d) (\<lambda>t. ret_io (state_response n r now (phase_str ph) True
          (bare_fields (''run is '' @ phase_str ph) t None) None)))
      | TsIncompatible \<Rightarrow> (terminal_state cod config n r now phs)
      | TsMalformed reason \<Rightarrow> (bind_io (modified_or_zero ?d) (\<lambda>t. ret_io (state_response n r now ''corrupt'' False
          (bare_fields (phase_str ph @ '' directory exists but status is '' @ reason) t None) None)))))"
    have step: "bind_io (fs_exists ?d) (\<lambda>ex. if \<not> ex then terminal_state cod config n r now phs
        else bind_io (try_read_status cod ?p n r) K) w = (Inr resp, w')"
      using Cons.prems(1) by (simp only: terminal_state.simps Let_def K_def)
    have bad: "K (TsMalformed reason) u = (Inr resp, w') \<Longrightarrow> False" for reason u
      using Cons.prems(2) by (auto simp: K_def bind_io_def state_response_def ret_io_def split: prod.splits sum.splits)
    from step have st: "K (case x of Inl _ \<Rightarrow> TsMalformed ''missing/unreadable'' | Inr c \<Rightarrow> judge_terminal cod n r c) w1 = (Inr resp, w')"
      using Cons.prems(3) Some bind_try_read_status [OF rd, of cod n r K] by (simp add: bind_queries)
    show ?thesis
    proof (cases x)
      case (Inl e)
      with st have "K (TsMalformed ''missing/unreadable'') w1 = (Inr resp, w')" by simp
      with bad show ?thesis by blast
    next
      case (Inr c)
      with eff obtain l where c: "view (nodes v) ?p = Some (FileN c 0 l)" using Cons.prems(6) by auto
      note one = read_run_status_step [OF Cons.prems(4) c, of cod phs]
      show ?thesis
      proof (cases "judge_terminal cod n r c")
        case TsValid
        then obtain s where "judge_status cod n r c = Report s" using judge_agree by blast
        with one show ?thesis using judge_status_own by auto
      next
        case TsIncompatible
        then have "judge_status cod n r c = Skip" using judge_agree by blast
        with one have "read_run_status_in cod config n r (ph # phs) v = read_run_status_in cod config n r phs (next_tick (next_tick v))"
          by simp
        moreover have "faultless w1" "nodes w1 = nodes w" using eff Cons.prems(3) faultless_env by auto
        moreover have "terminal_state cod config n r now phs w1 = (Inr resp, w')" using st Inr TsIncompatible by (simp add: K_def)
        ultimately show ?thesis using Cons.IH [of w1 "next_tick (next_tick v)"] Cons.prems by simp
      next
        case (TsMalformed reason)
        with st bad Inr show ?thesis by auto
      qed
    qed
  qed
qed


text \<open>
  C29. When nothing fails, a terminal answer of \<open>run_state\<close> is one a client can act on: reading the
  run's status then succeeds, and gives a compatible status of that very run.
\<close>

theorem terminal_answer_has_status:
  assumes "faultless w" "fs_wf (nodes w)" "fresh_handle h (nodes w)"
    and "run_state cod h config n r w = (Inr resp, w')" "rr_terminal resp"
  shows "\<exists>status w''. read_run_status cod config n r w' = (Inr status, w'') \<and> own_status n r status"
proof -
  have w': "look (nodes w') = look (nodes w)" "same_env w w'"
    using looks.keptD [OF looks_run_state assms(4)] assms(3) by (simp_all add: same_looks_def)
  define now where "now = unix_secs (clock w (tick w))"
  obtain x w1 where 1: "first_existing_phase (sc_work_dir config) n r [Incoming, Ready, Processing] (next_tick w) = (x, w1)"
    by (metis surj_pair)
  from first_existing_effect [OF 1] obtain found where f: "x = Inr found" "nodes w1 = nodes w" "same_env w w1"
    using same_env_trans [of w "next_tick w" w1] by auto
  with assms(4) 1 have run: "(case found of
       Some ph \<Rightarrow> live_state cod h n r now ph (run_path (sc_work_dir config) n r ph)
     | None \<Rightarrow> terminal_state cod config n r now [Done, Failed]) w1 = (Inr resp, w')"
    unfolding now_def
    by (simp add: run_state_def bind_queries bind_io_def [of "first_existing_phase _ _ _ _"]
        del: first_existing_phase.simps terminal_state.simps)
  have "found = None"
  proof (cases found)
    case (Some ph)
    with run live_state_answer [of cod h n r now ph "run_path (sc_work_dir config) n r ph" w1] assms(5)
    show ?thesis by auto
  qed
  with run have "terminal_state cod config n r now [Done, Failed] w1 = (Inr resp, w')"
    by (simp only: option.case)
  from terminal_then_status [OF this assms(5), of w'] show ?thesis
    unfolding read_run_status_def using f w' assms(1,2) by (simp add: faultless_env view_def [abs_def] del: read_run_status_in.simps)
qed

end
