(* ===== verification/Transform_Laws.thy ===== *)
theory Transform_Laws
  imports Process Server_Laws
begin

text \<open>
  What a successful transform and an imported entry guarantee, and what the bounded readers of a
  program's output keep (theories \<open>Transform_Run\<close> and \<open>Entries\<close>).
\<close>

section \<open>Bounded output\<close>

definition last_bytes :: "string \<Rightarrow> string" where
  "last_bytes s = drop (length s - MAX_TRANSFORM_OUTPUT_BYTES) s"

text \<open>All that a pipe delivers, or the error that ends it.\<close>

fun delivered :: "read_event list \<Rightarrow> (string, string) result" where
  "delivered [] = Inr []"
| "delivered (ReadChunk chunk # events) = (if chunk = [] then Inr [] else bind_res (delivered events) (\<lambda>s. Inr (chunk @ s)))"
| "delivered (ReadInterrupted # events) = delivered events"
| "delivered (ReadFailed e # events) = Inl (''pipe read error: '' @ e)"

lemma last_bytes_append: "last_bytes (last_bytes s @ t) = last_bytes (s @ t)"
  by (cases "length s \<le> MAX_TRANSFORM_OUTPUT_BYTES") (auto simp: last_bytes_def ac_simps)

lemma last_bytes_short [simp]: "length s \<le> MAX_TRANSFORM_OUTPUT_BYTES \<Longrightarrow> last_bytes s = s"
  by (simp add: last_bytes_def)

lemma drain_pipe_eq:
  "drain_pipe events (last_bytes s) (MAX_TRANSFORM_OUTPUT_BYTES < length s) =
    bind_res (delivered events) (\<lambda>t. Inr (last_bytes (s @ t), MAX_TRANSFORM_OUTPUT_BYTES < length (s @ t)))"
proof (induction events arbitrary: s rule: delivered.induct)
  case (2 chunk events)
  show ?case
  proof (cases "chunk = []")
    case False
    define extended where "extended = last_bytes s @ chunk"
    have e: "last_bytes extended = last_bytes (s @ chunk)" by (simp add: extended_def last_bytes_append)
    have "drain_pipe (ReadChunk chunk # events) (last_bytes s) (MAX_TRANSFORM_OUTPUT_BYTES < length s) =
        drain_pipe events (last_bytes (s @ chunk)) (MAX_TRANSFORM_OUTPUT_BYTES < length (s @ chunk))"
    proof (cases "MAX_TRANSFORM_OUTPUT_BYTES < length extended")
      case True
      then have "MAX_TRANSFORM_OUTPUT_BYTES < length (s @ chunk)" by (simp add: extended_def last_bytes_def)
      with True False e show ?thesis
        by (simp add: extended_def [symmetric] Let_def) (simp add: last_bytes_def [of extended])
    next
      case short: False
      then have "length s + length chunk \<le> MAX_TRANSFORM_OUTPUT_BYTES"
        using False by (cases "MAX_TRANSFORM_OUTPUT_BYTES < length s") (auto simp: extended_def last_bytes_def)
      with short False show ?thesis by (simp add: extended_def)
    qed
    with 2 [of "s @ chunk"] False show ?thesis by (cases "delivered events") simp_all
  qed simp
qed simp_all

text \<open>
  C32. The reader of a transform's output never holds more than 64 KiB and loses nothing that fits:
  it fails exactly when the pipe does, gives the whole output when it is no longer than the bound,
  and otherwise a marker followed by exactly the last 65536 bytes.
\<close>

theorem bounded_output_exact:
  "bounded_output_reader events =
    (case delivered events of
       Inl e \<Rightarrow> Inl e
     | Inr s \<Rightarrow> if length s \<le> 65536 then Inr s else Inr (truncation_marker @ drop (length s - 65536) s))"
proof -
  have m: "MAX_TRANSFORM_OUTPUT_BYTES = 65536" by (simp add: MAX_TRANSFORM_OUTPUT_BYTES_def)
  from drain_pipe_eq [of events "[]"] show ?thesis
    by (cases "delivered events") (auto simp: bounded_output_reader_def last_bytes_def m not_le)
qed

lemma retain_unseen_eq: "set (retain_unseen seen ps) = set ps - set seen" "distinct (retain_unseen seen ps)"
  by (induction seen ps rule: retain_unseen.induct) auto


section \<open>A transform that succeeds\<close>

lemma quietly_eq: "quietly m w = (r, w') \<longleftrightarrow> r = Inr () \<and> w' = snd (m w)"
  by (cases "m w") (auto simp: quietly_def bind_io_def attempt_io_def ret_io_def)

lemma fail_with_ok: "fail_with e m w = (Inr a, w') \<longleftrightarrow> m w = (Inr a, w')"
  by (cases "m w"; cases "fst (m w)") (auto simp: fail_with_def err_io_def)

text \<open>All operations of a loop succeed, one after the other.\<close>

lemma for_io_ok: "for_io xs f w = (Inr (), w') \<Longrightarrow> x \<in> set xs \<Longrightarrow> \<exists>w1 w2. f x w1 = (Inr (), w2)"
  by (induction xs arbitrary: w) (auto simp: bind_ok)

definition ran_ok ::
    "payload_ops \<Rightarrow> (string \<Rightarrow> unit server) \<Rightarrow> TransformDefinition \<Rightarrow> string \<Rightarrow> ResolvedDestinationPlan \<Rightarrow> world \<Rightarrow>
     string list \<Rightarrow> world \<Rightarrow> bool" where
  "ran_ok pl progress def work_path target w outputs w' \<longleftrightarrow>
     (\<exists>work_parent ch st w1 expected w2.
        path_parent work_path = Some work_parent \<and>
        pl_spawn pl (td_program def) (build_args_for_target def work_path target) (fpath_of work_parent)
          (snd (progress ''transform_started'' w)) = (Inr ch, w1) \<and>
        ch_end ch = Inr st \<and> ex_success st \<and>
        resolve_expected_outputs_for_target def work_path target = Inr expected \<and>
        for_io expected (check_output pl) w2 = (Inr (), w') \<and>
        outputs = retain_unseen [] expected)"

lemma apply_transform_ok:
  "apply_transform_for_target pl progress name def work_path target w = (Inr outputs, w') \<Longrightarrow>
   validate_transform_definition def = Inr () \<and> ran_ok pl progress def work_path target w outputs w'"
  unfolding apply_transform_for_target_def ran_ok_def
  by (auto simp: is_ok_iff bind_ok fail_with_ok quietly_eq simp del: for_io.simps split: if_splits option.splits) metis

lemma check_output_ok: "check_output pl p w = (Inr (), w') \<Longrightarrow> \<exists>kind. pl_lstat pl (fpath_of p) w = (Inr kind, w') \<and> kind \<noteq> KOther"
  by (auto simp: check_output_def bind_io_def attempt_io_def split: prod.splits sum.splits if_splits)

section \<open>An entry that is imported\<close>

text \<open>What a successful identity check saw, starting at the world \<open>w\<close>.\<close>

definition identified :: "payload_ops \<Rightarrow> ManifestEntry \<Rightarrow> fpath \<Rightarrow> world \<Rightarrow> bool" where
  "identified pl entry source w \<longleftrightarrow>
     (case me_kind entry of
        RegularFile \<Rightarrow>
          (\<exists>w1. pl_len pl source w = (Inr (me_size entry), w1) \<and>
            (\<forall>sha. me_sha256 entry = Some sha \<longrightarrow> fst (pl_sha256 pl source w1) = Inr sha))
      | Symlink \<Rightarrow>
          (\<exists>target actual. me_link_target entry = Some target \<and> fst (pl_read_link pl source w) = Inr actual \<and>
            components actual = components target)
      | Directory \<Rightarrow> True)"

lemma check_identity_ok:
  assumes "check_identity pl entry source_path w = (Inr (), w')"
  shows "identified pl entry (fpath_of source_path) w"
proof (cases "me_kind entry")
  case RegularFile
  obtain len w1 where len: "pl_len pl (fpath_of source_path) w = (len, w1)" by (metis surj_pair)
  obtain sha w2 where sha: "pl_sha256 pl (fpath_of source_path) w1 = (sha, w2)" by (metis surj_pair)
  show ?thesis
  proof (cases "len = Inr (me_size entry) \<and> me_sha256 entry \<noteq> None")
    case True
    with assms RegularFile len sha have "is_ok (verify_staged (\<lambda>_. len) (\<lambda>_. sha) entry source_path)"
      by (auto simp: check_identity_def verify_staged_at_def bind_io_def attempt_io_def ret_io_def split: if_splits)
    with True len sha RegularFile show ?thesis
      by (auto simp: identified_def verify_staged_def bind_res_Inr_iff is_ok_iff map_err_Inr_iff split: if_splits)
  next
    case False
    with assms RegularFile len have "is_ok (verify_staged (\<lambda>_. len) (\<lambda>_. Inl IoOther) entry source_path)"
      by (auto simp: check_identity_def verify_staged_at_def bind_io_def attempt_io_def ret_io_def split: if_splits)
    with False len RegularFile show ?thesis
      by (auto simp: identified_def verify_staged_def bind_res_Inr_iff is_ok_iff map_err_Inr_iff split: if_splits option.splits)
  qed
next
  case Symlink
  with assms show ?thesis
    by (auto simp: check_identity_def identified_def bind_ok fail_with_ok split: option.splits if_splits)
qed (simp add: identified_def)

text \<open>
  C3. An entry is reported as imported only after the whole chain has succeeded, in this order: it
  has a transform that the server defines and that is valid; its staged path is the canonical one;
  the staged file is of the recorded kind and, from there, has the recorded length and digest or
  link target; the destination is planned and the work copy made; the program was started on it and
  exited successfully; and the reported paths are the expected outputs, each once, every one of
  which was found to be a file, directory or link.
\<close>

theorem imported_only_if_verified:
  assumes "process_manifest_entry cod pl config entry n r processing_path work_area idx count destination w =
    (Inr (Success kind local_path relative_path outputs transform), w')"
  shows "\<exists>name def staged w1 w2 plan w3 work_path w4.
    me_transform entry = Some name \<and> map_of (sc_transforms config) name = Some def \<and>
    validate_transform_definition def = Inr () \<and> expected_staged entry = Some (me_staged_path entry) \<and>
    (let source_path = path_join processing_path (nrp_str (me_staged_path entry)) in
      pl_lstat pl (fpath_of source_path) w = (Inr staged, w1) \<and> kind_matches (me_kind entry) staged \<and>
      identified pl entry (fpath_of source_path) w1 \<and>
      load_or_resolve_destination_plan cod pl (fpath_of processing_path) destination entry source_path w2 = (Inr plan, w3) \<and>
      prepare_work_entry pl entry source_path work_area w3 = (Inr work_path, w4)) \<and>
    ran_ok pl (\<lambda>state. write_progress_best_effort cod (fpath_of processing_path) n r state idx count
      (nrp_str (me_relative_path entry)) name) def work_path plan w4 outputs w' \<and>
    distinct outputs \<and> (\<forall>p \<in> set outputs. \<exists>v kind. fst (pl_lstat pl (fpath_of p) v) = Inr kind \<and> kind \<noteq> KOther)"
proof -
  define progress where "progress = (\<lambda>state transform. write_progress_best_effort cod (fpath_of processing_path) n r state
      idx count (nrp_str (me_relative_path entry)) transform)"
  from assms obtain name where t: "me_transform entry = Some name" "expected_staged entry = Some (me_staged_path entry)"
    and run: "import_entry cod pl config progress entry name processing_path work_area destination w = (Inr outputs, w')"
    by (auto simp: process_manifest_entry_def failed_entry_def bind_io_def attempt_io_def progress_def [symmetric]
        split: option.splits if_splits prod.splits sum.splits)
  let ?source = "path_join processing_path (nrp_str (me_staged_path entry))"
  from run obtain w2 plan w3 work_path w4 def where chain: "check_staged pl entry ?source w = (Inr (), w2)"
    "load_or_resolve_destination_plan cod pl (fpath_of processing_path) destination entry ?source w2 = (Inr plan, w3)"
    "prepare_work_entry pl entry ?source work_area w3 = (Inr work_path, w4)"
    "map_of (sc_transforms config) name = Some def"
    "apply_transform_for_target pl (\<lambda>state. progress state name) name def work_path plan w4 = (Inr outputs, w')"
    by (auto simp: import_entry_def Let_def bind_ok split: option.splits)
  from chain(1) obtain staged w1 where staged: "pl_lstat pl (fpath_of ?source) w = (Inr staged, w1)"
    "kind_matches (me_kind entry) staged" "check_identity pl entry ?source w1 = (Inr (), w2)"
    by (auto simp: check_staged_def bind_ok fail_with_ok split: if_splits)
  note ran = apply_transform_ok [OF chain(5)]
  then obtain expected v where out: "for_io expected (check_output pl) v = (Inr (), w')" "outputs = retain_unseen [] expected"
    unfolding ran_ok_def by blast
  have distinct: "distinct outputs" by (simp add: out(2) retain_unseen_eq)
  have found: "\<exists>v kind. fst (pl_lstat pl (fpath_of p) v) = Inr kind \<and> kind \<noteq> KOther" if "p \<in> set outputs" for p
  proof -
    have "p \<in> set expected" using that by (simp add: out(2) retain_unseen_eq)
    from for_io_ok [OF out(1) this] obtain w5 w6 where "check_output pl p w5 = (Inr (), w6)" by blast
    from check_output_ok [OF this] show ?thesis by (metis fst_conv)
  qed
  show ?thesis unfolding Let_def
    using t chain staged(1,2) check_identity_ok [OF staged(3)] ran distinct found unfolding progress_def by blast
qed

end
