(* ===== verification/Process_Laws.thy ===== *)
theory Process_Laws
  imports Transform_Laws
begin

text \<open>
  Mutual exclusion and the honesty of answers: a run whose live directories are locked by another
  processor is left alone, and an answer that names a terminal status is backed by that status.
\<close>

section \<open>A locked run is left alone\<close>

definition locked :: "fs \<Rightarrow> fpath \<Rightarrow> bool" where
  "locked fs dir \<longleftrightarrow> (\<exists>c m holder. look fs (dir @ [''processor.lock'']) = Some (FileN c m (Some holder)))"

lemma open_keeps_existing: "fs_open b p w = (r, w') \<Longrightarrow> look (nodes w) p \<noteq> None \<Longrightarrow> nodes w' = nodes w"
  unfolding fs_open_def by (drule prim_io_env) (auto split: option.splits node.splits)

lemma try_lock_held:
  "fs_try_lock h p w = (r, w') \<Longrightarrow> look (nodes w) p = Some (FileN c m (Some holder)) \<Longrightarrow> nodes w' = nodes w \<and> r \<noteq> Inr True"
  unfolding fs_try_lock_def by (drule prim_io_env) (auto split: option.splits node.splits)

lemma try_lock_locked:
  assumes "locked (nodes w) dir" "try_lock_existing_dir h dir w = (r, w')"
  shows "nodes w' = nodes w \<and> (\<forall>h'. r \<noteq> Inr (Acquired h'))"
proof -
  let ?lock = "dir @ [''processor.lock'']"
  obtain c m holder where l: "look (nodes w) ?lock = Some (FileN c m (Some holder))"
    using assms(1) by (auto simp: locked_def)
  define K where "K = bind_io (ctx ''failed to lock processor'' (fs_try_lock h ?lock)) (\<lambda>got.
      ret_io (if got then Acquired h else Busy))"
  from assms(2) have "bind_io (fs_exists dir) (\<lambda>ex. if \<not> ex then ret_io LockMissing
      else bind_io (ctx ''failed to open processor lock file'' (fs_open True ?lock)) (\<lambda>_. K)) w = (r, w')"
    by (simp only: try_lock_existing_dir_def Let_def K_def)
  then consider "r = Inr LockMissing" "nodes w' = nodes w"
    | "bind_io (ctx ''failed to open processor lock file'' (fs_open True ?lock)) (\<lambda>_. K) (next_tick w) = (r, w')"
    by (auto simp: bind_queries split: if_splits)
  then show ?thesis
  proof cases
    case 2
    then show ?thesis
    proof (cases rule: bind_io_cases)
      case (err e)
      then show ?thesis using l by (auto elim!: ctx_cases dest: open_keeps_existing)
    next
      case (ok u w1)
      then have n: "nodes w1 = nodes w" using l by (auto elim!: ctx_cases dest: open_keeps_existing)
      from ok(2) [unfolded K_def] show ?thesis
        by (cases rule: bind_io_cases) (use l n in \<open>auto elim!: ctx_cases dest: try_lock_held\<close>)
    qed
  qed simp
qed

lemma reads_verified: "reads.kept (verified_terminal_in cod config n r phs)"
  by (induction phs) (auto simp: Let_def intro!: reads_rules split: option.splits)

lemma reads_terminal_answer: "reads.kept (terminal_answer_or cod config n r out m1 m2)"
  unfolding terminal_answer_or_def verified_terminal_status_def
  by (intro reads.kept_bind reads_verified) (auto intro!: reads_rules split: option.splits)

lemma reads_recheck: "reads.kept (recheck_state config n r)"
  unfolding recheck_state_def Let_def by (intro reads_rules)

lemma bind_total:
  assumes "bind_io m f w = (r, w')"
  obtains x w1 where "m w = (x, w1)" "case x of Inl e \<Rightarrow> r = Inl e \<and> w' = w1 | Inr a \<Rightarrow> f a w1 = (r, w')"
  using assms by (cases "m w"; cases "fst (m w)") (auto simp: bind_io_def)

lemma claim_excluded:
  assumes "locked (nodes w) (run_path (sc_work_dir config) n r Ready) \<or>
      view (nodes w) (run_path (sc_work_dir config) n r Ready) = None"
    and "claim_ready_run cod config h n r w = (x, w')"
  shows "nodes w' = nodes w \<and> (\<forall>h'. x \<noteq> Inr (Claimed h')) \<and> (\<forall>e. x \<noteq> Inr (MalformedReadyMovedToFailed e)) \<and>
    (\<forall>e e'. x \<noteq> Inr (MalformedReadyMoveFailed e e')) \<and> (\<forall>m. x \<noteq> Inr (IncompatibleReady m))"
proof -
  let ?ready = "run_path (sc_work_dir config) n r Ready"
  have recheck: "?thesis" if m: "recheck_state config n r v = (x, w')" and v: "nodes v = nodes w" for v
  proof -
    have "nodes w' = nodes w" using reads.keptD [OF reads_recheck m] v by (simp add: same_nodes_def)
    moreover from m have "x \<noteq> Inr (Claimed h')" "x \<noteq> Inr (MalformedReadyMovedToFailed e)"
      "x \<noteq> Inr (MalformedReadyMoveFailed e e')" "x \<noteq> Inr (IncompatibleReady msg)" for h' e e' msg
      by (auto simp: recheck_state_def Let_def bind_ok split: if_splits)
    ultimately show ?thesis by blast
  qed
  show ?thesis
  proof (cases "faults w (tick w) \<noteq> StatFail \<and> view (nodes w) ?ready \<noteq> None")
    case False
    with assms(2) have "recheck_state config n r (next_tick w) = (x, w')"
      by (auto simp: claim_ready_run_def Let_def bind_queries)
    then show ?thesis by (rule recheck) simp
  next
    case True
    with assms(1) have lock: "locked (nodes (next_tick w)) ?ready" by simp
    obtain a w1 where 1: "try_lock_existing_dir h ?ready (next_tick w) = (a, w1)" by (metis surj_pair)
    from try_lock_locked [OF lock 1] have free: "nodes w1 = nodes w" "a \<noteq> Inr (Acquired h')" for h' by simp_all
    from assms(2) True 1 have "(case a of
        Inl _ \<Rightarrow> ret_io (ClaimFailed (Bail ''failed to acquire processor lock''))
      | Inr (Acquired _) \<Rightarrow> claim_locked cod config h n r
      | Inr Busy \<Rightarrow> ret_io ActiveClaimer
      | Inr LockMissing \<Rightarrow> recheck_state config n r) w1 = (x, w')"
      by (simp add: claim_ready_run_def Let_def bind_queries bind_attempt)
    with free recheck [of w1] show ?thesis
      by (cases a; cases "case a of Inr l \<Rightarrow> l | _ \<Rightarrow> Busy") auto
  qed
qed

lemma recover_excluded:
  assumes "locked (nodes w) (run_path (sc_work_dir config) n r Processing) \<or>
      view (nodes w) (run_path (sc_work_dir config) n r Processing) = None"
    and "recover_processing_run_if_unlocked cod pl config h n r w = (x, w')"
  shows "nodes w' = nodes w \<and> (x = Inr ActiveProcessor \<or> x = Inr TargetNotFound \<or> (\<exists>e. x = Inl e))"
proof -
  let ?dir = "run_path (sc_work_dir config) n r Processing"
  show ?thesis
  proof (cases "faults w (tick w) \<noteq> StatFail \<and> view (nodes w) ?dir \<noteq> None")
    case False
    with assms(2) show ?thesis
      by (auto simp: recover_processing_run_if_unlocked_def Let_def bind_queries)
  next
    case True
    with assms(1) have lock: "locked (nodes (next_tick w)) ?dir" by simp
    obtain a w1 where 1: "try_lock_existing_dir h ?dir (next_tick w) = (a, w1)" by (metis surj_pair)
    from try_lock_locked [OF lock 1] have free: "nodes w1 = nodes w" "a \<noteq> Inr (Acquired h')" for h' by simp_all
    define rec where "rec = bind_io (attempt_io (recover_or_process_processing_run cod pl config n r)) (\<lambda>y.
        bind_io (settle_recovery cod config n r y) (\<lambda>outcome. bind_io (fs_unlock h) (\<lambda>_. ret_io outcome)))"
    have step: "bind_io (fs_exists ?dir) (\<lambda>ex. if \<not> ex then ret_io TargetNotFound
        else bind_io (attempt_io (try_lock_existing_dir h ?dir)) (\<lambda>lock. case lock of
            Inl _ \<Rightarrow> fail_io (Bail ''failed to check processor lock on processing run'')
          | Inr Busy \<Rightarrow> ret_io ActiveProcessor
          | Inr LockMissing \<Rightarrow> ret_io TargetNotFound
          | Inr (Acquired _) \<Rightarrow> rec)) w = (x, w')"
      using assms(2) by (simp only: recover_processing_run_if_unlocked_def Let_def rec_def)
    with True 1 have "(case a of
        Inl _ \<Rightarrow> fail_io (Bail ''failed to check processor lock on processing run'')
      | Inr Busy \<Rightarrow> ret_io ActiveProcessor
      | Inr LockMissing \<Rightarrow> ret_io TargetNotFound
      | Inr (Acquired _) \<Rightarrow> rec) w1 = (x, w')"
      by (simp add: bind_queries bind_attempt)
    with free show ?thesis
      by (cases a; cases "case a of Inr l \<Rightarrow> l | _ \<Rightarrow> Busy") auto
  qed
qed


text \<open>A run none of whose live directories can be locked by another handle.\<close>

definition taken :: "fs \<Rightarrow> ServerWorkDir \<Rightarrow> Nickname \<Rightarrow> RunId \<Rightarrow> bool" where
  "taken fs wd n r \<longleftrightarrow>
     (\<forall>ph \<in> {Ready, Processing}. locked fs (run_path wd n r ph) \<or> view fs (run_path wd n r ph) = None)"

lemma bind_cases:
  assumes "bind_io m f w = (r, w')"
  obtains (err) e w1 where "m w = (Inl e, w1)" "r = Inl e" "w' = w1"
    | (ok) a w1 where "m w = (Inr a, w1)" "f a w1 = (r, w')"
  using assms by (cases rule: bind_io_cases) auto

definition left_alone :: "fs \<Rightarrow> fs \<Rightarrow> (server_error, ProcessRunInnerResult) result \<Rightarrow> bool" where
  "left_alone fs fs' r \<longleftrightarrow> fs' = fs \<and>
     (\<forall>resp. r = Inr resp \<longrightarrow> ir_outcome resp \<in> {ClaimInProgress, AlreadyActive, AlreadyTerminal})"

lemma terminal_answer_left_alone:
  assumes "terminal_answer_or cod config n r AlreadyTerminal m1 m2 w = (x, w')"
  shows "left_alone (nodes w) (nodes w') x"
proof -
  have "nodes w' = nodes w" using reads.keptD [OF reads_terminal_answer assms] by (simp add: same_nodes_def)
  moreover have "ir_outcome resp = AlreadyTerminal" if "x = Inr resp" for resp
    using assms that by (auto simp: terminal_answer_or_def bind_ok split: option.splits)
  ultimately show ?thesis by (simp add: left_alone_def)
qed

lemma handle_left_alone:
  assumes "taken (nodes w) (sc_work_dir config) n r"
    and "handle_process_run_processing_outcome cod pl config h n r w = (x, w')"
  shows "left_alone (nodes w) (nodes w') x"
proof -
  obtain a w1 where 1: "recover_processing_run_if_unlocked cod pl config h n r w = (a, w1)" by (metis surj_pair)
  from recover_excluded [OF _ 1] assms(1) have
    free: "nodes w1 = nodes w" "a = Inr ActiveProcessor \<or> a = Inr TargetNotFound \<or> (\<exists>e. a = Inl e)"
    by (auto simp: taken_def)
  from free(2) assms(2) 1 free(1) show ?thesis
    unfolding handle_process_run_processing_outcome_def
    by (elim disjE exE) (auto simp: bind_io_def left_alone_def dest: terminal_answer_left_alone)
qed

lemma process_inner_left_alone:
  assumes "taken (nodes w) (sc_work_dir config) n r" "process_run_inner cod pl config h n r w = (x, w')"
  shows "left_alone (nodes w) (nodes w') x"
proof -
  let ?dir = "run_path (sc_work_dir config) n r Processing"
  obtain a w1 where 1: "claim_ready_run cod config h n r w = (a, w1)" by (metis surj_pair)
  from claim_excluded [OF _ 1] assms(1) have free: "nodes w1 = nodes w"
    "\<forall>h'. a \<noteq> Inr (Claimed h')" "\<forall>e. a \<noteq> Inr (MalformedReadyMovedToFailed e)" "\<forall>m. a \<noteq> Inr (IncompatibleReady m)"
    "\<forall>e e'. a \<noteq> Inr (MalformedReadyMoveFailed e e')"
    by (auto simp: taken_def)
  have t1: "taken (nodes w1) (sc_work_dir config) n r" using assms(1) free(1) by simp
  define not_ready where "not_ready = bind_io (fs_exists ?dir) (\<lambda>processing.
      if processing then handle_process_run_processing_outcome cod pl config h n r
      else terminal_answer_or cod config n r AlreadyTerminal ''run was already in a terminal phase''
        ''run not found in ready, processing, or terminal phases'')"
  have nr: "left_alone (nodes w) (nodes w') x" if "not_ready w1 = (x, w')"
    using that t1 free(1) handle_left_alone [of "next_tick w1" config n r cod pl h x w'] terminal_answer_left_alone
    by (fastforce simp: not_ready_def bind_queries split: if_splits)
  show ?thesis
  proof (cases a)
    case (Inl e)
    with 1 free(1) assms(2) show ?thesis by (auto simp: process_run_inner_def bind_io_def left_alone_def)
  next
    case (Inr c)
    with 1 assms(2) free(1) handle_left_alone [OF t1] terminal_answer_left_alone [of cod config n r] nr
    show ?thesis using free
      by (cases c) (auto simp: process_run_inner_def bind_io_def [of "claim_ready_run _ _ _ _ _"] left_alone_def not_ready_def)
  qed
qed

text \<open>
  C16. Two processors never work on the same run: while every live directory of a run is locked by
  another processor, processing the run, alone or in a batch, changes nothing at all, whatever
  fails, and answers only that the run is being claimed, active or already terminal.
\<close>

theorem locked_run_untouched:
  assumes "taken (nodes w) (sc_work_dir config) n r"
  shows "(\<forall>res w'. process_run_target cod pl config h n r w = (res, w') \<longrightarrow> nodes w' = nodes w \<and>
      (\<forall>resp. res = Inr resp \<longrightarrow> pr_outcome resp \<in> {''claim_in_progress'', ''already_active'', ''already_terminal''})) \<and>
    nodes (snd (recover_one cod pl config h (n, r) w)) = nodes w \<and>
    nodes (snd (process_ready_one cod pl config h (n, r) w)) = nodes w"
proof (intro conjI allI impI)
  fix res w' assume m: "process_run_target cod pl config h n r w = (res, w')"
  obtain x w1 where 1: "process_run_inner cod pl config h n r w = (x, w1)" by (metis surj_pair)
  note l = process_inner_left_alone [OF assms 1]
  from m 1 have "w' = w1" by (cases x) (auto simp: process_run_target_def bind_io_def)
  with l show "nodes w' = nodes w" by (simp add: left_alone_def)
  fix resp assume "res = Inr resp"
  with m 1 l show "pr_outcome resp \<in> {''claim_in_progress'', ''already_active'', ''already_terminal''}"
    by (cases x) (auto simp: process_run_target_def bind_io_def left_alone_def)
next
  obtain x w1 where 1: "recover_processing_run_if_unlocked cod pl config h n r w = (x, w1)" by (metis surj_pair)
  from recover_excluded [OF _ 1] assms have "nodes w1 = nodes w" by (auto simp: taken_def)
  with 1 show "nodes (snd (recover_one cod pl config h (n, r) w)) = nodes w"
    by (simp add: recover_one_def quietly_def bind_attempt ret_io_def)
next
  obtain a w1 where 1: "claim_ready_run cod config h n r w = (a, w1)" by (metis surj_pair)
  from claim_excluded [OF _ 1] assms have "nodes w1 = nodes w" "\<forall>h'. a \<noteq> Inr (Claimed h')"
    by (auto simp: taken_def)
  with 1 show "nodes (snd (process_ready_one cod pl config h (n, r) w)) = nodes w"
    by (cases a; cases "case a of Inr c \<Rightarrow> c | _ \<Rightarrow> NotFound")
      (auto simp: process_ready_one_def bind_io_def [of "claim_ready_run _ _ _ _ _"] ret_io_def)
qed

section \<open>Answers about the status\<close>

text \<open>Apart from locks, nothing changes.\<close>

definition unlocks :: "world \<Rightarrow> world \<Rightarrow> bool" where
  "unlocks w w' \<longleftrightarrow> (\<forall>p c l. view (nodes w) p = Some (FileN c 0 l) \<longrightarrow> (\<exists>l'. view (nodes w') p = Some (FileN c 0 l')))"

lemma unlock_unlocks: "fs_unlock h w = (r, w') \<Longrightarrow> unlocks w w'"
  by (drule fs_unlock_effect) (auto simp: unlocks_def unlocked_def)

definition own_terminal :: "codecs \<Rightarrow> ServerConfig \<Rightarrow> Nickname \<Rightarrow> RunId \<Rightarrow> fs \<Rightarrow> string \<Rightarrow> string \<Rightarrow> bool" where
  "own_terminal cod config n r fs phase state \<longleftrightarrow>
     (\<exists>ph \<in> {Done, Failed}. phase = phase_str ph \<and>
       (\<exists>c l status. view fs (run_path (sc_work_dir config) n r ph @ [''status.toml'']) = Some (FileN c 0 l) \<and>
         judge_verified cod n r c = Inr status \<and> state = run_state_str (rs_state status)))"

lemma own_terminal_unlocks:
  "unlocks w w' \<Longrightarrow> own_terminal cod config n r (nodes w) p s \<Longrightarrow> own_terminal cod config n r (nodes w') p s"
  unfolding own_terminal_def unlocks_def by blast


lemma verified_terminal_ok:
  "verified_terminal_in cod config n r phs w = (Inr (Some (p, s)), w') \<Longrightarrow> set phs \<subseteq> {Done, Failed} \<Longrightarrow>
   own_terminal cod config n r (nodes w) p s"
proof (induction phs arbitrary: w)
  case (Cons ph phs)
  let ?dir = "run_path (sc_work_dir config) n r ph"
  define K where "K = (\<lambda>content. bind_io (lift_res (judge_verified cod n r content))
      (\<lambda>status. ret_io (Some (phase_str ph, run_state_str (rs_state status)))))"
  have step: "bind_io (fs_exists ?dir) (\<lambda>ex. if \<not> ex then verified_terminal_in cod config n r phs
      else bind_io (ctx ''terminal directory exists but status.toml is unreadable'' (fs_read (?dir @ [''status.toml'']))) K) w =
      (Inr (Some (p, s)), w')"
    using Cons.prems(1) by (simp only: verified_terminal_in.simps Let_def K_def)
  then consider "verified_terminal_in cod config n r phs (next_tick w) = (Inr (Some (p, s)), w')"
    | "bind_io (ctx ''terminal directory exists but status.toml is unreadable'' (fs_read (?dir @ [''status.toml'']))) K (next_tick w) =
      (Inr (Some (p, s)), w')"
    by (auto simp: bind_queries split: if_splits)
  then show ?case
  proof cases
    case 1
    from Cons.IH [OF this] Cons.prems(2) show ?thesis by simp
  next
    case 2
    from bind_read [OF this] obtain c l where c: "view (nodes w) (?dir @ [''status.toml'']) = Some (FileN c 0 l)"
      "K c (next_tick (next_tick w)) = (Inr (Some (p, s)), w')" by auto
    then obtain status where "judge_verified cod n r c = Inr status" "p = phase_str ph" "s = run_state_str (rs_state status)"
      by (auto simp: K_def bind_ok eq_commute [of "Inr _" "judge_verified _ _ _ _"])
    with c(1) Cons.prems(2) show ?thesis unfolding own_terminal_def by auto
  qed
qed simp

definition status_honest :: "codecs \<Rightarrow> ServerConfig \<Rightarrow> Nickname \<Rightarrow> RunId \<Rightarrow> fs \<Rightarrow> ProcessRunInnerResult \<Rightarrow> bool" where
  "status_honest cod config n r fs resp \<longleftrightarrow>
     (if ir_outcome resp \<in> {Processed, AlreadyTerminal}
      then \<exists>p s. ir_run_phase resp = Some p \<and> ir_status_state resp = Some s \<and> own_terminal cod config n r fs p s
      else ir_status_state resp = None)"

lemma terminal_answer_honest:
  assumes "terminal_answer_or cod config n r out m1 m2 w = (Inr resp, w')" "out \<in> {Processed, AlreadyTerminal}"
  shows "status_honest cod config n r (nodes w') resp"
proof -
  have n: "nodes w' = nodes w" using reads.keptD [OF reads_terminal_answer assms(1)] by (simp add: same_nodes_def)
  from assms(1) obtain p s w1 where "verified_terminal_status cod config n r w = (Inr (Some (p, s)), w1)"
    "resp = \<lparr>ir_outcome = out, ir_run_phase = Some p, ir_status_state = Some s, ir_message = Some m1\<rparr>"
    by (auto simp: terminal_answer_or_def bind_ok split: option.splits)
  with verified_terminal_ok [of cod config n r "[Done, Failed]" w p s w1] assms(2) n show ?thesis
    by (auto simp: verified_terminal_status_def status_honest_def)
qed

lemma handle_honest:
  assumes "handle_process_run_processing_outcome cod pl config h n r w = (Inr resp, w')"
  shows "status_honest cod config n r (nodes w') resp"
proof -
  from assms obtain a w1 where "(case a of
         Recovered \<Rightarrow> terminal_response cod config n r Processed ''processing run recovered and completed''
       | ActiveProcessor \<Rightarrow>
           ret_io \<lparr>ir_outcome = AlreadyActive, ir_run_phase = Some ''processing'', ir_status_state = None,
             ir_message = Some ''processor lock is held by another process''\<rparr>
       | FailedPublished error \<Rightarrow>
           terminal_response cod config n r Processed (''processing recovery failed: '' @ err_text error)
       | IncompatibleTarget msg \<Rightarrow> fail_io (Bail (''abandoned processing run is incompatible: '' @ msg))
       | TargetNotFound \<Rightarrow>
           terminal_answer_or cod config n r AlreadyTerminal ''processing run completed before recovery''
             ''run disappeared from processing but no verified terminal status exists''
       | FailurePublishFailed _ _ \<Rightarrow> fail_io (Bail ''processing recovery failed and could not publish failure'')) w1 = (Inr resp, w')"
    unfolding handle_process_run_processing_outcome_def bind_ok by blast
  then show ?thesis
    by (cases a) (auto simp: terminal_response_def status_honest_def dest: terminal_answer_honest)
qed

lemma process_claimed_honest:
  assumes "process_claimed cod pl config n r w = (Inr resp, w')"
  shows "status_honest cod config n r (nodes w') resp"
proof -
  obtain a w1 where 1: "process_processing_run cod pl config n r w = (a, w1)" by (metis surj_pair)
  show ?thesis
  proof (cases a)
    case (Inr u)
    with 1 assms show ?thesis
      by (auto simp: process_claimed_def terminal_response_def bind_attempt dest: terminal_answer_honest)
  next
    case (Inl e)
    obtain b w2 where 2: "move_to_failed (sc_work_dir config) n r w1 = (b, w2)" by (metis surj_pair)
    from 1 2 Inl assms show ?thesis
      by (cases e; cases b) (auto simp: process_claimed_def terminal_response_def bind_attempt dest: terminal_answer_honest)
  qed
qed

lemma status_honest_unlocks:
  "unlocks w w' \<Longrightarrow> status_honest cod config n r (nodes w) resp \<Longrightarrow> status_honest cod config n r (nodes w') resp"
  unfolding status_honest_def using own_terminal_unlocks by (metis (no_types, lifting))

lemma process_inner_honest:
  assumes "process_run_inner cod pl config h n r w = (Inr resp, w')"
  shows "status_honest cod config n r (nodes w') resp"
proof -
  let ?dir = "run_path (sc_work_dir config) n r Processing"
  define not_ready where "not_ready = bind_io (fs_exists ?dir) (\<lambda>processing.
      if processing then handle_process_run_processing_outcome cod pl config h n r
      else terminal_answer_or cod config n r AlreadyTerminal ''run was already in a terminal phase''
        ''run not found in ready, processing, or terminal phases'')"
  define worked where "worked = bind_io (attempt_io (process_claimed cod pl config n r)) (\<lambda>inner.
      bind_io (fs_unlock h) (\<lambda>_. lift_res inner))"
  have nr: "status_honest cod config n r (nodes w') resp" if "not_ready v = (Inr resp, w')" for v
    using that by (auto simp: not_ready_def bind_queries split: if_splits dest: handle_honest terminal_answer_honest)
  have wk: "status_honest cod config n r (nodes w') resp" if worked: "worked v = (Inr resp, w')" for v
  proof -
    from worked obtain v1 where "process_claimed cod pl config n r v = (Inr resp, v1)" "fs_unlock h v1 = ((Inr () :: (server_error, unit) result), w')"
      by (auto simp: worked_def bind_ok attempt_io_eq)
    then show ?thesis using process_claimed_honest status_honest_unlocks unlock_unlocks by blast
  qed
  from assms obtain a w1 where "claim_ready_run cod config h n r w = (Inr a, w1)"
    "(case a of
         Claimed _ \<Rightarrow> worked
       | ActiveClaimer \<Rightarrow>
           ret_io \<lparr>ir_outcome = ClaimInProgress, ir_run_phase = Some ''ready'', ir_status_state = None,
             ir_message = Some ''another process owns the ready processor lock''\<rparr>
       | AlreadyProcessing \<Rightarrow> handle_process_run_processing_outcome cod pl config h n r
       | AlreadyTerminalPhase \<Rightarrow>
           terminal_answer_or cod config n r AlreadyTerminal ''run was already in a terminal phase''
             ''run reported as terminal by claim ready but no verified terminal status found''
       | IncompatibleReady msg \<Rightarrow> fail_io (Bail (''incompatible run left in place: '' @ msg))
       | MalformedReadyMovedToFailed error \<Rightarrow>
           terminal_response cod config n r Processed (''malformed ready run moved to failed: '' @ err_text error)
       | MalformedReadyMoveFailed _ _ \<Rightarrow> fail_io (Bail ''malformed ready run could not be moved to failed'')
       | ClaimFailed error \<Rightarrow> fail_io (Bail (err_text error))
       | NotFound \<Rightarrow> not_ready) w1 = (Inr resp, w')"
    unfolding process_run_inner_def bind_ok not_ready_def worked_def by blast
  then show ?thesis
    by (cases a) (auto simp: terminal_response_def status_honest_def [of _ _ _ _ _ "ProcessRunInnerResult.make _ _ _ _"]
        dest: handle_honest terminal_answer_honest nr wk, simp_all add: status_honest_def)
qed

text \<open>
  C15. An answer of \<open>process_run_target\<close> that calls the run processed or already terminal is backed by
  what is on disk when it is given: the directory it names has a status of that very run, of a
  compatible version, in the state it names; every other answer names no state. This holds
  whatever failed on the way and whatever the transform did.
\<close>

theorem process_answers_verified:
  assumes "process_run_target cod pl config h n r w = (Inr resp, w')"
  shows "if pr_outcome resp \<in> {''processed'', ''already_terminal''}
    then \<exists>p s. pr_run_phase resp = Some p \<and> pr_status_state resp = Some s \<and> own_terminal cod config n r (nodes w') p s
    else pr_status_state resp = None"
proof -
  from assms obtain inner where i: "process_run_inner cod pl config h n r w = (Inr inner, w')"
    "pr_outcome resp = outcome_str (ir_outcome inner)" "pr_run_phase resp = ir_run_phase inner"
    "pr_status_state resp = ir_status_state inner"
    by (auto simp: process_run_target_def bind_ok)
  from process_inner_honest [OF i(1)] i(2-4) show ?thesis
    by (cases "ir_outcome inner") (simp_all add: status_honest_def)
qed

end
