(* ===== verification/Claim_Laws.thy ===== *)
theory Claim_Laws
  imports Process_Laws
begin

text \<open>
  Claiming a ready run: whatever fails, the run stays whole in exactly one phase. \<open>books\<close> is the
  relation of the operations that only touch a run's bookkeeping files.
\<close>

section \<open>Bookkeeping\<close>

text \<open>What a path holds, locks and times apart.\<close>

definition content :: "fs \<Rightarrow> fpath \<Rightarrow> string option option" where
  "content fs q = map_option (\<lambda>d. case d of FileN c _ _ \<Rightarrow> Some c | DirN _ \<Rightarrow> None) (view fs q)"

lemma content_eq: "view fs' q = view fs q \<Longrightarrow> content fs' q = content fs q"
  by (simp add: content_def)

lemma content_None [simp]: "content fs q = None \<longleftrightarrow> view fs q = None"
  by (simp add: content_def)

text \<open>The files of a run directory that claiming and locking it may write.\<close>

definition bookkeeping :: "string set" where
  "bookkeeping = {''status.toml'', ''status.toml.tmp'', ''processor.lock''}"

definition essential :: "fpath \<Rightarrow> bool" where
  "essential s \<longleftrightarrow> s = [] \<or> hd s \<notin> bookkeeping"

definition books :: "ServerWorkDir \<Rightarrow> Nickname \<Rightarrow> RunId \<Rightarrow> world \<Rightarrow> world \<Rightarrow> bool" where
  "books wd n r w w' \<longleftrightarrow> same_env w w' \<and> (fs_wf (nodes w) \<longrightarrow> fs_wf (nodes w') \<and>
     (\<forall>ph s. essential s \<longrightarrow> content (nodes w') (run_path wd n r ph @ s) = content (nodes w) (run_path wd n r ph @ s)))"

interpretation book: world_relation "books wd n r" for wd n r
proof
  show "books wd n r w w" for w by (simp add: books_def)
  show "books wd n r w w''" if "books wd n r w w'" "books wd n r w' w''" for w w' w''
    using that unfolding books_def by (metis same_env_trans)
qed

lemma book_of_reads: "reads.kept m \<Longrightarrow> book.kept wd n r m"
  by (auto simp: reads.kept_def book.kept_def same_nodes_def books_def)

lemma not_book_path:
  assumes "run_ok wd n r" "name \<in> bookkeeping" "essential s"
  shows "\<not> prefix (run_path wd n r ph @ [name]) (run_path wd n r ph' @ s)"
proof
  assume p: "prefix (run_path wd n r ph @ [name]) (run_path wd n r ph' @ s)"
  then have "prefix (run_path wd n r ph) (run_path wd n r ph' @ s)" by (rule append_prefixD)
  then have "ph = ph'" using run_path_prefix_append_iff [OF assms(1,1)] by simp
  with p have "prefix [name] s" by simp
  with assms(2,3) show False by (cases s) (auto simp: essential_def)
qed

lemma book_of_frame:
  assumes "run_ok wd n r" "tree.kept m" "frame.kept S m"
    and "\<And>q. q \<in> S \<Longrightarrow> \<exists>name \<in> bookkeeping. prefix (run_path wd n r ph @ [name]) q"
  shows "book.kept wd n r m"
  unfolding book.kept_def
proof (intro allI impI)
  fix w a w' assume m: "m w = (a, w')"
  have out: "run_path wd n r ph' @ s \<notin> S" if "essential s" for ph' s
    using assms(4) not_book_path [OF assms(1) _ that] by blast
  from tree.keptD [OF assms(2) m] frame.keptD [OF assms(3) m] show "books wd n r w w'"
    unfolding books_def keeps_tree_def same_outside_def using out by (auto intro: content_eq)
qed

lemma book_files:
  assumes "run_ok wd n r" "name \<in> bookkeeping"
  shows "book.kept wd n r (fs_write (run_path wd n r ph @ [name]) c)"
    "book.kept wd n r (fs_remove_file (run_path wd n r ph @ [name]))"
    "name' \<in> bookkeeping \<Longrightarrow> book.kept wd n r (fs_rename (run_path wd n r ph @ [name]) (run_path wd n r ph @ [name']))"
proof -
  show "book.kept wd n r (fs_write (run_path wd n r ph @ [name]) c)"
    by (rule book_of_frame [OF assms(1) tree_prims(7) frame_write [of _ "{run_path wd n r ph @ [name]}"], of _ ph])
      (use assms(2) in auto)
  show "book.kept wd n r (fs_remove_file (run_path wd n r ph @ [name]))"
    by (rule book_of_frame [OF assms(1) tree_prims(12) frame_remove(2) [of _ "{q. prefix (run_path wd n r ph @ [name]) q}"], of _ ph])
      (use assms(2) in auto)
  assume "name' \<in> bookkeeping"
  then show "book.kept wd n r (fs_rename (run_path wd n r ph @ [name]) (run_path wd n r ph @ [name']))"
    by (intro book_of_frame [OF assms(1) tree_prims(8) frame_rename [of _ _ "{q. prefix (run_path wd n r ph @ [name]) q \<or> prefix (run_path wd n r ph @ [name']) q}"], of _ _ ph])
      (use assms(2) in auto)
qed

lemma book_parent:
  assumes "run_ok wd n r"
  shows "book.kept wd n r (fs_create_dir_all (run_parent wd n r ph))"
  unfolding book.kept_def books_def
  using parent_keeps_runs [OF assms] by (blast intro: content_eq)

lemma book_unlock: "book.kept wd n r (fs_unlock h)"
  unfolding book.kept_def books_def
proof (intro allI impI)
  fix w a w' assume m: "fs_unlock h w = (a, w')"
  have "content (nodes w') q = content (nodes w) q" for q
    using fs_unlock_effect [OF m] by (cases "view (nodes w) q") (auto simp: content_def unlocked_def split: node.splits)
  with fs_unlock_effect [OF m] show "same_env w w' \<and> (fs_wf (nodes w) \<longrightarrow> fs_wf (nodes w') \<and>
      (\<forall>ph s. essential s \<longrightarrow> content (nodes w') (run_path wd n r ph @ s) = content (nodes w) (run_path wd n r ph @ s)))"
    by simp
qed

lemma book_lock:
  assumes "run_ok wd n r"
  shows "book.kept wd n r (try_lock_existing_dir h (run_path wd n r ph))"
proof -
  let ?lock = "run_path wd n r ph @ [''processor.lock'']"
  have "frame.kept {?lock} (fs_open b ?lock)" "frame.kept {?lock} (fs_try_lock h ?lock)" for b
    unfolding frame.kept_def same_outside_def
    using fs_open_effect fs_try_lock_effect by (fastforce split: if_splits)+
  then have l: "book.kept wd n r (fs_open b ?lock)" "book.kept wd n r (fs_try_lock h ?lock)" for b
    by (auto intro!: book_of_frame [OF assms tree_prims(13), of "{?lock}" _ _ ph]
        book_of_frame [OF assms tree_prims(14), of "{?lock}" _ _ ph] simp: bookkeeping_def)
  show ?thesis unfolding try_lock_existing_dir_def Let_def ctx_def
    by (intro book.kept_intros l book_of_reads reads_prims)
qed

lemmas book_rules = book.kept_intros book_files book_parent book_unlock book_lock

lemma book_quietly: "book.kept wd n r m \<Longrightarrow> book.kept wd n r (quietly m)"
  unfolding quietly_def by (intro book.kept_intros)

lemma book_publish:
  "run_ok wd n r \<Longrightarrow> book.kept wd n r (publish_status_atomic cod (run_path wd n r ph) status)"
  unfolding publish_status_atomic_def Let_def ctx_def ser_io_def
  by (intro book_rules) (auto simp: bookkeeping_def)

lemma book_drop: "run_ok wd n r \<Longrightarrow> book.kept wd n r (drop_lock_file (run_path wd n r ph))"
  unfolding drop_lock_file_def by (intro book_rules) (auto simp: bookkeeping_def)

lemma reads_inputs: "reads.kept (read_compatible_run_inputs cod dir n r)"
proof -
  have "reads.kept (validate_run_lease_protocol cod dir)"
    unfolding validate_run_lease_protocol_def by (intro reads_rules)
  moreover have "reads.kept (check_input_version cod p what c)" for p what c
    by (cases "check_toml_version (cd_toml cod) c") (simp_all add: check_input_version_def reads_rules)
  ultimately show ?thesis
    unfolding read_compatible_run_inputs_def other_def fail_with_def by (intro reads_rules)
qed

lemma book_recheck: "book.kept wd n r (recheck_state config n r)"
  by (rule book_of_reads [OF reads_recheck])


section \<open>Claiming never loses a run\<close>

definition live_phases :: "RunPhase set" where
  "live_phases = {Ready, Processing, Failed}"

text \<open>The run that was ready, as a whole and in one phase only, bookkeeping apart.\<close>

definition whole_in :: "ServerWorkDir \<Rightarrow> Nickname \<Rightarrow> RunId \<Rightarrow> fs \<Rightarrow> RunPhase \<Rightarrow> fs \<Rightarrow> bool" where
  "whole_in wd n r fs ph fs' \<longleftrightarrow> ph \<in> live_phases \<and> fs_wf fs' \<and>
     (\<forall>s. essential s \<longrightarrow> content fs' (run_path wd n r ph @ s) = content fs (run_path wd n r Ready @ s)) \<and>
     (\<forall>ph' \<in> live_phases - {ph}. view fs' (run_path wd n r ph') = None)"

lemma essential_Nil [simp]: "essential []"
  by (simp add: essential_def)

lemma whole_books:
  assumes "whole_in wd n r fs ph (nodes w)" "books wd n r w w'"
  shows "whole_in wd n r fs ph (nodes w')"
proof -
  have "content (nodes w') (run_path wd n r ph' @ s) = content (nodes w) (run_path wd n r ph' @ s)" if "essential s" for ph' s
    using assms that by (auto simp: whole_in_def books_def)
  from this [of "[]"] this assms show ?thesis
    unfolding whole_in_def books_def by (auto simp flip: content_None)
qed

lemma whole_moved:
  assumes ok: "run_ok wd n r" and ph: "ph \<in> {Processing, Failed}" and whole: "whole_in wd n r fs Ready (nodes w)"
    and m: "fs_rename (run_path wd n r Ready) (run_path wd n r ph) w = (Inr (), w')"
  shows "whole_in wd n r fs ph (nodes w')"
proof -
  have ne: "Ready \<noteq> ph" using ph by auto
  note mv = rename_moves [OF ok ne m]
  have v: "view (nodes w') = vmove (run_path wd n r Ready) (run_path wd n r ph) (view (nodes w))"
    using fs_rename_effect [OF m] run_paths_apart(2) [OF ok ne] by auto
  have "view (nodes w') (run_path wd n r ph') = None" if "ph' \<in> live_phases" "ph' \<noteq> ph" for ph'
  proof (cases "ph' = Ready")
    case True
    with mv show ?thesis unfolding moved_def by (metis append_Nil2)
  next
    case False
    have "\<not> prefix (run_path wd n r Ready) (run_path wd n r ph')" "\<not> prefix (run_path wd n r ph) (run_path wd n r ph')"
      using run_path_prefix_iff [OF ok ok] False that by auto
    then have "view (nodes w') (run_path wd n r ph') = view (nodes w) (run_path wd n r ph')"
      by (simp add: v vmove_outside)
    with whole that False show ?thesis by (auto simp: whole_in_def)
  qed
  moreover have "content (nodes w') (run_path wd n r ph @ s) = content fs (run_path wd n r Ready @ s)" if "essential s" for s
    using mv whole that by (simp add: moved_def whole_in_def content_def)
  moreover have "fs_wf (nodes w')" using whole fs_rename_effect [OF m] by (auto simp: whole_in_def)
  ultimately show ?thesis using ph unfolding whole_in_def by (auto simp: live_phases_def)
qed

text \<open>A failed run carries the status that says so.\<close>

definition failure_recorded :: "codecs \<Rightarrow> ServerWorkDir \<Rightarrow> Nickname \<Rightarrow> RunId \<Rightarrow> RunPhase \<Rightarrow> fs \<Rightarrow> bool" where
  "failure_recorded cod wd n r ph fs \<longleftrightarrow>
     (\<exists>msg out. cd_ser_status cod (failure_status n r msg) = Inr out \<and>
       content fs (run_path wd n r ph @ [''status.toml'']) = Some (Some out))"

definition claim_result ::
    "codecs \<Rightarrow> ServerWorkDir \<Rightarrow> nat \<Rightarrow> Nickname \<Rightarrow> RunId \<Rightarrow> fs \<Rightarrow> fs \<Rightarrow> (server_error, ReadyClaimOutcome) result \<Rightarrow> bool" where
  "claim_result cod wd h n r fs fs' x \<longleftrightarrow>
     (\<exists>ph. whole_in wd n r fs ph fs' \<and>
       (ph = Processing \<longleftrightarrow> (\<exists>h'. x = Inr (Claimed h'))) \<and>
       (ph = Failed \<longleftrightarrow> (\<exists>e. x = Inr (MalformedReadyMovedToFailed e))) \<and>
       (ph = Failed \<longrightarrow> failure_recorded cod wd n r Failed fs'))"

lemma recorded_books:
  assumes "run_ok wd n r" "drop_lock_file (run_path wd n r ph) w = (x, w')" "failure_recorded cod wd n r ph (nodes w)"
  shows "failure_recorded cod wd n r ph (nodes w')"
proof -
  have "frame.kept {q. prefix (run_path wd n r ph @ [''processor.lock'']) q} (drop_lock_file (run_path wd n r ph))"
    unfolding drop_lock_file_def by (intro frame.kept_intros frame_remove) auto
  from frame.keptD [OF this assms(2)] assms(3) show ?thesis
    by (auto simp: failure_recorded_def same_outside_def content_def)
qed

lemma recorded_unlock:
  assumes "fs_unlock h w = (x, w')" "failure_recorded cod wd n r ph (nodes w)"
  shows "failure_recorded cod wd n r ph (nodes w')"
proof -
  have "content (nodes w') q = content (nodes w) q" for q
    using fs_unlock_effect [OF assms(1)] by (cases "view (nodes w) q") (auto simp: content_def unlocked_def split: node.splits)
  with assms(2) show ?thesis by (simp add: failure_recorded_def)
qed

lemma malformed_result:
  assumes ok: "run_ok (sc_work_dir config) n r" and whole: "whole_in (sc_work_dir config) n r fs Ready (nodes w)"
    and run: "handle_malformed_ready cod config n r err w = (x, w')"
  shows "claim_result cod (sc_work_dir config) h n r fs (nodes w') x"
proof -
  let ?wd = "sc_work_dir config"
  let ?R = "run_path ?wd n r Ready" and ?F = "run_path ?wd n r Failed"
  let ?st = "failure_status n r (err_text err)"
  have stay: "claim_result cod ?wd h n r fs (nodes w') x"
    if "whole_in ?wd n r fs Ready (nodes v)" "books ?wd n r v w'" "x = Inr (MalformedReadyMoveFailed e e')" for v e e'
    using whole_books [OF that(1,2)] that(3) by (auto simp: claim_result_def)
  obtain pub w1 where 1: "publish_status_atomic cod ?R ?st w = (pub, w1)" by (metis surj_pair)
  note b1 = book.keptD [OF book_publish [OF ok] 1]
  have wh1: "whole_in ?wd n r fs Ready (nodes w1)" by (rule whole_books [OF whole b1])
  have quiet: "book.kept ?wd n r (quietly (fs_remove_file (?R @ [name])))" if "name \<in> bookkeeping" for name
    by (intro book_quietly book_files(2) ok that)
  show ?thesis
  proof (cases pub)
    case (Inl e)
    with run 1 have "bind_io (quietly (fs_remove_file (?R @ [''status.toml.tmp'']))) (\<lambda>_.
        ret_io (MalformedReadyMoveFailed err (Bail ''failed to write failure status to ready''))) w1 = (x, w')"
      by (simp add: handle_malformed_ready_def Let_def bind_attempt)
    then obtain y w2 where 2: "quietly (fs_remove_file (?R @ [''status.toml.tmp''])) w1 = (y, w2)"
      "w' = w2" "x = Inr (MalformedReadyMoveFailed err (Bail ''failed to write failure status to ready''))"
      by (auto elim!: bind_io_cases simp: quietly_eq)
    show ?thesis
      by (rule stay [OF wh1 _ 2(3)]) (use book.keptD [OF quiet 2(1)] 2(2) in \<open>simp add: bookkeeping_def\<close>)
  next
    case (Inr u)
    then have pub_ok: "publish_status_atomic cod ?R ?st w = (Inr (), w1)" using 1 by simp
    then obtain out where out: "cd_ser_status cod ?st = Inr out"
      by (cases "cd_ser_status cod ?st") (auto simp: publish_status_atomic_def)
    have "fs_wf (nodes w)" using whole by (simp add: whole_in_def)
    from publish_status_all_or_nothing [OF this out pub_ok]
    have rec1: "failure_recorded cod ?wd n r Ready (nodes w1)"
      using out by (auto simp: failure_recorded_def content_def)
    obtain mk w2 where 2: "fs_create_dir_all (run_parent ?wd n r Failed) w1 = (mk, w2)" by (metis surj_pair)
    note b2 = book.keptD [OF book_parent [OF ok] 2]
    have wh2: "whole_in ?wd n r fs Ready (nodes w2)" by (rule whole_books [OF wh1 b2])
    have rec2: "failure_recorded cod ?wd n r Ready (nodes w2)"
      using rec1 parent_keeps_runs(1) [OF ok 2] by (simp add: failure_recorded_def content_def)
    show ?thesis
    proof (cases mk)
      case (Inl e)
      with run 1 Inr 2 show ?thesis
        by (intro stay [OF wh2, of err "Bail ''failed to create failed parent''"])
          (simp_all add: handle_malformed_ready_def Let_def bind_attempt books_def)
    next
      case (Inr u2)
      obtain mv w3 where 3: "fs_rename ?R ?F w2 = (mv, w3)" by (metis surj_pair)
      show ?thesis
      proof (cases mv)
        case (Inl e)
        have wh3: "whole_in ?wd n r fs Ready (nodes w3)"
          using wh2 rename_fails [OF 3 [unfolded Inl]] fs_rename_effect [OF 3] by (simp add: whole_in_def content_def)
        from run 1 \<open>pub = Inr u\<close> 2 Inr 3 Inl have "bind_io (quietly (fs_remove_file (?R @ [''status.toml'']))) (\<lambda>_.
            bind_io (quietly (fs_remove_file (?R @ [''status.toml.tmp'']))) (\<lambda>_.
              ret_io (MalformedReadyMoveFailed err (Bail ''failed to move malformed ready to failed'')))) w3 = (x, w')"
          by (simp add: handle_malformed_ready_def Let_def bind_attempt)
        then obtain y4 w4 y5 where 4: "quietly (fs_remove_file (?R @ [''status.toml''])) w3 = (y4, w4)"
          "quietly (fs_remove_file (?R @ [''status.toml.tmp''])) w4 = (y5, w')"
          "x = Inr (MalformedReadyMoveFailed err (Bail ''failed to move malformed ready to failed''))"
          by (auto elim!: bind_io_cases simp: quietly_eq)
        have "books ?wd n r w3 w4" "books ?wd n r w4 w'"
          using book.keptD [OF quiet 4(1)] book.keptD [OF quiet 4(2)] by (simp_all add: bookkeeping_def)
        from stay [OF whole_books [OF wh3 this(1)] this(2) 4(3)] show ?thesis .
      next
        case mv: (Inr u3)
        have wh3: "whole_in ?wd n r fs Failed (nodes w3)"
          using whole_moved [OF ok _ wh2] 3 mv by simp
        have "Ready \<noteq> Failed" by simp
        with rename_moves [OF ok this] 3 mv rec2 have rec3: "failure_recorded cod ?wd n r Failed (nodes w3)"
          by (auto simp: failure_recorded_def content_def moved_def)
        from run 1 \<open>pub = Inr u\<close> 2 Inr 3 mv have "bind_io (drop_lock_file ?F) (\<lambda>_. ret_io (MalformedReadyMovedToFailed err)) w3 = (x, w')"
          by (simp add: handle_malformed_ready_def Let_def bind_attempt)
        then obtain y where 4: "drop_lock_file ?F w3 = (y, w')" "x = Inr (MalformedReadyMovedToFailed err)"
          by (auto elim!: bind_io_cases simp: drop_lock_file_def bind_ok attempt_io_eq bind_io_def attempt_io_def split: prod.splits)
        from whole_books [OF wh3 book.keptD [OF book_drop [OF ok] 4(1)]] recorded_books [OF ok 4(1) rec3] 4(2)
        show ?thesis by (auto simp: claim_result_def)
      qed
    qed
  qed
qed


lemma claim_stays:
  assumes "whole_in (sc_work_dir config) n r fs Ready (nodes w)" "books (sc_work_dir config) n r w w'"
    and "\<And>h'. x \<noteq> Inr (Claimed h')" "\<And>e. x \<noteq> Inr (MalformedReadyMovedToFailed e)"
  shows "claim_result cod (sc_work_dir config) h n r fs (nodes w') x"
  using whole_books [OF assms(1,2)] assms(3,4) unfolding claim_result_def by auto

lemma recheck_result:
  assumes "whole_in (sc_work_dir config) n r fs Ready (nodes w)" "recheck_state config n r w = (x, w')"
  shows "claim_result cod (sc_work_dir config) h n r fs (nodes w') x"
proof (rule claim_stays [OF assms(1) book.keptD [OF book_recheck assms(2)]])
  show "x \<noteq> Inr (Claimed h')" "x \<noteq> Inr (MalformedReadyMovedToFailed e)" for h' e
    using assms(2) by (auto simp: recheck_state_def Let_def bind_ok split: if_splits)
qed

lemma claim_locked_result:
  assumes ok: "run_ok (sc_work_dir config) n r" and whole: "whole_in (sc_work_dir config) n r fs Ready (nodes w)"
    and run: "claim_locked cod config h n r w = (x, w')"
  shows "claim_result cod (sc_work_dir config) h n r fs (nodes w') x"
proof -
  let ?wd = "sc_work_dir config"
  let ?R = "run_path ?wd n r Ready" and ?P = "run_path ?wd n r Processing"
  have unlock: "\<exists>u. fs_unlock h v = ((Inr () :: (server_error, unit) result), u)" for v
    by (simp add: fs_unlock_def prim_io_def)
  obtain inp w1 where 1: "read_compatible_run_inputs cod ?R n r w = (inp, w1)" by (metis surj_pair)
  have wh1: "whole_in ?wd n r fs Ready (nodes w1)"
    using reads.keptD [OF reads_inputs 1] whole by (simp add: same_nodes_def)
  show ?thesis
  proof (cases inp)
    case (Inl e)
    show ?thesis
    proof (cases e)
      case (Incompatible p msg)
      obtain w2 where 2: "fs_unlock h w1 = ((Inr () :: (server_error, unit) result), w2)" using unlock by blast
      with run 1 Inl Incompatible have "x = Inr (IncompatibleReady msg)" "w' = w2"
        by (auto simp: claim_locked_def Let_def bind_attempt bind_io_def [of "fs_unlock _"])
      then show ?thesis by (intro claim_stays [OF wh1]) (use book.keptD [OF book_unlock 2] in simp_all)
    next
      case (OtherError err)
      obtain y w2 where 2: "handle_malformed_ready cod config n r err w1 = (y, w2)" by (metis surj_pair)
      obtain w3 where 3: "fs_unlock h w2 = ((Inr () :: (server_error, unit) result), w3)" using unlock by blast
      from malformed_result [OF ok wh1 2] have res: "claim_result cod ?wd h n r fs (nodes w2) y" .
      from run 1 Inl OtherError 2 3 have "(\<exists>e. y = Inl e \<and> x = Inl e \<and> w' = w2) \<or> (x = y \<and> w' = w3)"
        by (cases y) (auto simp: claim_locked_def Let_def bind_attempt bind_io_def [of "handle_malformed_ready _ _ _ _ _"]
            bind_io_def [of "fs_unlock _"])
      then show ?thesis
      proof
        assume "x = y \<and> w' = w3"
        with res whole_books [OF _ book.keptD [OF book_unlock 3]] recorded_unlock [OF 3] show ?thesis
          unfolding claim_result_def by blast
      qed (use res in auto)
    qed
  next
    case (Inr inputs)
    obtain mk w2 where 2: "fs_create_dir_all (run_parent ?wd n r Processing) w1 = (mk, w2)" by (metis surj_pair)
    have wh2: "whole_in ?wd n r fs Ready (nodes w2)" by (rule whole_books [OF wh1 book.keptD [OF book_parent [OF ok] 2]])
    show ?thesis
    proof (cases mk)
      case (Inl e)
      obtain w3 where 3: "fs_unlock h w2 = ((Inr () :: (server_error, unit) result), w3)" using unlock by blast
      with run 1 Inr 2 Inl have "x = Inr (ClaimFailed (Bail ''failed to create processing parent''))" "w' = w3"
        by (auto simp: claim_locked_def Let_def bind_attempt bind_io_def [of "fs_unlock _"])
      then show ?thesis by (intro claim_stays [OF wh2]) (use book.keptD [OF book_unlock 3] in simp_all)
    next
      case mk: (Inr u)
      obtain mv w3 where 3: "fs_rename ?R ?P w2 = (mv, w3)" by (metis surj_pair)
      show ?thesis
      proof (cases mv)
        case (Inl e)
        have wh3: "whole_in ?wd n r fs Ready (nodes w3)"
          using wh2 rename_fails [OF 3 [unfolded Inl]] fs_rename_effect [OF 3] by (simp add: whole_in_def content_def)
        obtain w4 where 4: "fs_unlock h w3 = ((Inr () :: (server_error, unit) result), w4)" using unlock by blast
        with run 1 \<open>inp = Inr inputs\<close> 2 mk 3 Inl have re: "recheck_state config n r w4 = (x, w')"
          by (auto simp: claim_locked_def Let_def bind_attempt bind_io_def [of "fs_unlock _"])
        show ?thesis by (rule recheck_result [OF whole_books [OF wh3 book.keptD [OF book_unlock 4]] re])
      next
        case mv: (Inr u2)
        with run 1 \<open>inp = Inr inputs\<close> 2 mk 3 have "x = Inr (Claimed h)" "w' = w3"
          by (auto simp: claim_locked_def Let_def bind_attempt)
        moreover have "whole_in ?wd n r fs Processing (nodes w3)" using whole_moved [OF ok _ wh2] 3 mv by simp
        ultimately show ?thesis unfolding claim_result_def by auto
      qed
    qed
  qed
qed

text \<open>
  C14. Claiming never loses a run, whatever fails: afterwards it is, as a whole and bookkeeping files
  apart, in exactly one of \<open>ready\<close>, \<open>processing\<close> and \<open>failed\<close>; in \<open>processing\<close> exactly when the
  claim succeeded, in \<open>failed\<close> exactly when it was malformed and moved there, and a run in
  \<open>failed\<close> has the status that records the failure: the status is published before the move.
\<close>

theorem claim_never_loses:
  assumes "run_ok (sc_work_dir config) n r" "fs_wf (nodes w)"
    and "view (nodes w) (run_path (sc_work_dir config) n r Processing) = None"
    and "view (nodes w) (run_path (sc_work_dir config) n r Failed) = None"
    and "claim_ready_run cod config h n r w = (x, w')"
  shows "\<exists>ph. whole_in (sc_work_dir config) n r (nodes w) ph (nodes w') \<and>
    (ph = Processing \<longleftrightarrow> (\<exists>h'. x = Inr (Claimed h'))) \<and>
    (ph = Failed \<longleftrightarrow> (\<exists>e. x = Inr (MalformedReadyMovedToFailed e))) \<and>
    (ph = Failed \<longrightarrow> failure_recorded cod (sc_work_dir config) n r Failed (nodes w'))"
proof -
  let ?wd = "sc_work_dir config"
  let ?R = "run_path ?wd n r Ready"
  have wh: "whole_in ?wd n r (nodes w) Ready (nodes (next_tick w))"
    using assms(2-4) by (auto simp: whole_in_def live_phases_def)
  have "claim_result cod ?wd h n r (nodes w) (nodes w') x"
  proof (cases "faults w (tick w) \<noteq> StatFail \<and> view (nodes w) ?R \<noteq> None")
    case False
    with assms(5) have "recheck_state config n r (next_tick w) = (x, w')"
      by (auto simp: claim_ready_run_def Let_def bind_queries)
    from recheck_result [OF wh this] show ?thesis .
  next
    case True
    obtain a w1 where 1: "try_lock_existing_dir h ?R (next_tick w) = (a, w1)" by (metis surj_pair)
    have wh1: "whole_in ?wd n r (nodes w) Ready (nodes w1)"
      by (rule whole_books [OF wh book.keptD [OF book_lock [OF assms(1)] 1]])
    from assms(5) True 1 have "(case a of
        Inl _ \<Rightarrow> ret_io (ClaimFailed (Bail ''failed to acquire processor lock''))
      | Inr (Acquired _) \<Rightarrow> claim_locked cod config h n r
      | Inr Busy \<Rightarrow> ret_io ActiveClaimer
      | Inr LockMissing \<Rightarrow> recheck_state config n r) w1 = (x, w')"
      by (simp add: claim_ready_run_def Let_def bind_queries bind_attempt)
    then consider "x = Inr (ClaimFailed (Bail ''failed to acquire processor lock''))" "w' = w1"
      | "claim_locked cod config h n r w1 = (x, w')" | "x = Inr ActiveClaimer" "w' = w1"
      | "recheck_state config n r w1 = (x, w')"
      by (cases a; cases "case a of Inr l \<Rightarrow> l | _ \<Rightarrow> Busy") auto
    then show ?thesis
    proof cases
      case 2
      then show ?thesis by (rule claim_locked_result [OF assms(1) wh1])
    next
      case 4
      then show ?thesis by (rule recheck_result [OF wh1])
    qed (use wh1 in \<open>auto simp: claim_result_def\<close>)
  qed
  then show ?thesis by (simp add: claim_result_def)
qed

end
