(* ===== verification/Gc_Collect.thy ===== *)
theory Gc_Collect
  imports Server_Laws
begin

text \<open>
  What garbage collection removes: it only ever removes, below the work directory; it spares every
  live run; and without faults it removes a run exactly when the documented rule for its phase says
  so. Each is a relation on worlds, interpreted as \<open>world_relation\<close>, that every operation keeps.
\<close>

section \<open>Collection only removes\<close>

lemma less_at_view: "less_at p fs fs' \<Longrightarrow> view fs' q = view fs q \<or> (prefix p q \<and> view fs' q = None)"
proof -
  assume "less_at p fs fs'"
  then consider "look fs' q = look fs q" | "prefix p q" "look fs' q = None"
    | t t' where "look fs q = Some (DirN t)" "look fs' q = Some (DirN t')"
    unfolding less_at_def by (auto dest: spec [of _ q])
  then show ?thesis by cases (simp_all add: view_def)
qed

definition removes :: "nat \<Rightarrow> fpath set \<Rightarrow> world \<Rightarrow> world \<Rightarrow> bool" where
  "removes h S w w' \<longleftrightarrow> same_env w w' \<and> (fresh_handle h (nodes w) \<longrightarrow> fresh_handle h (nodes w') \<and>
     (\<forall>q. view (nodes w') q = view (nodes w) q \<or> (q \<in> S \<and> view (nodes w') q = None)))"

interpretation rem: world_relation "removes h S" for h S
proof
  show "removes h S w w" for w by (simp add: removes_def)
  show "removes h S w w'' " if "removes h S w w'" "removes h S w' w''" for w w' w''
    using that unfolding removes_def by (metis same_env_trans)
qed

lemma rem_of_looks: "looks.kept h m \<Longrightarrow> rem.kept h S m"
  unfolding looks.kept_def rem.kept_def same_looks_def removes_def view_def [abs_def]
  by (metis fresh_handle_cong)

lemma rem_reads:
  "rem.kept h S (fs_exists p)" "rem.kept h S (fs_is_dir p)" "rem.kept h S fs_now" "rem.kept h S (fs_read p)"
  "rem.kept h S (fs_mtime p)" "rem.kept h S (fs_read_dir p)" "rem.kept h S (probe_processor_lock_readonly h p)"
  by (rule rem_of_looks, rule looks_of_reads, rule reads_prims)+ (rule rem_of_looks, rule looks_probe)

lemma rem_removals:
  assumes "\<And>q. prefix p q \<Longrightarrow> q \<in> S"
  shows "rem.kept h S (fs_remove_dir_all p)" "rem.kept h S (fs_remove_file p)"
  unfolding rem.kept_def removes_def
  using assms less_at_view less_at_fresh remove_dir_all_less remove_file_less by meson+

lemma now_kept: "rem.kept h S now_secs" "rem.kept h S (mtime_secs p)"
  unfolding now_secs_def mtime_secs_def ctx_def by (intro rem.kept_intros rem_reads)+

lemmas gc_defs = collect_run_def collect_incoming_def collect_orphan_def orphan_expiry_def expire_by_mtime_def
  collect_processing_def collect_done_def collect_failed_def expiry_for_terminal_def classify_terminal_status_def
  expiry_from_mtime_def remove_run_def collect_unknown_def collect_invalid_nickname_dir_def

lemma below_append: "prefix (run @ s) q \<Longrightarrow> prefix run q"
  by (metis prefix_order.trans prefixI)

lemma rem_prune:
  assumes "\<And>q. strict_prefix run q \<Longrightarrow> q \<in> S"
  shows "rem.kept h S (prune_success_terminal run)"
proof -
  have "q \<in> S" if "prefix (run @ [name]) q" for name q
    using that by (intro assms) (auto simp: prefix_def strict_prefix_def)
  then show ?thesis
    unfolding prune_success_terminal_def prune_dir_def prune_file_def ctx_def
    by (intro rem.kept_intros rem_reads rem_removals)
qed

lemma rem_class:
  "(\<And>reason. rem.kept h S (f reason)) \<Longrightarrow> rem.kept h S g \<Longrightarrow>
    rem.kept h S (case c of ValidTerminal reason \<Rightarrow> f reason | Orphan \<Rightarrow> g)"
  by (cases c) auto

lemma rem_collect_run:
  assumes "\<And>q. prefix run q \<Longrightarrow> q \<in> S"
  shows "rem.kept h S (collect_run cod config h n r ph run now)"
    "rem.kept h S (collect_unknown config run now reason)" "rem.kept h S (collect_invalid_nickname_dir config run now)"
proof -
  have below: "\<And>q. strict_prefix run q \<Longrightarrow> q \<in> S" using assms by (simp add: strict_prefix_def)
  note rules = rem.kept_intros rem_reads now_kept rem_class rem_removals rem_prune [OF below] assms
  show "rem.kept h S (collect_run cod config h n r ph run now)"
    unfolding gc_defs ctx_def Let_def by (cases ph) (simp_all only: RunPhase.case, (intro rules; assumption)+)
  show "rem.kept h S (collect_unknown config run now reason)" "rem.kept h S (collect_invalid_nickname_dir config run now)"
    unfolding gc_defs ctx_def by (intro rules; assumption)+
qed


lemma rem_case_res: "(\<And>e. rem.kept h S (f e)) \<Longrightarrow> (\<And>a. rem.kept h S (g a)) \<Longrightarrow>
    rem.kept h S (case s of Inl e \<Rightarrow> f e | Inr a \<Rightarrow> g a)"
  by (rule rem.kept_sum)

lemma rem_collect_phase:
  assumes "\<And>q. strict_prefix d q \<Longrightarrow> q \<in> S"
  shows "rem.kept h S (collect_phase cod config h n d now ph)"
  unfolding collect_phase_def Let_def ctx_def
  by (intro rem.kept_intros rem_reads rem_collect_run assms)
     (auto simp: strict_prefix_def dest: below_append append_prefixD)

lemma rem_run_gc: "rem.kept h {q. strict_prefix (base (sc_work_dir config)) q} (run_gc cod config h)"
  unfolding run_gc_def Let_def ctx_def base_def [symmetric]
  by (intro rem.kept_intros rem_reads now_kept rem_collect_phase rem_collect_run)
     (auto simp: strict_prefix_def dest: below_append append_prefixD)

lemma tree_ctx: "tree.kept m \<Longrightarrow> tree.kept (ctx msg m)"
  by (simp add: ctx_def tree.kept_err)

text \<open>
  C26. Garbage collection only removes: with a fresh handle for its probes, whatever fails in
  between, it leaves every path as it was or absent, and touches nothing but paths below the work
  directory; in particular it never rewrites a file.
\<close>

theorem gc_only_removes:
  assumes "fresh_handle h (nodes w)" "run_gc cod config h w = (res, w')"
  shows "\<forall>q. view (nodes w') q = view (nodes w) q \<or>
    (strict_prefix (base (sc_work_dir config)) q \<and> view (nodes w') q = None)"
  using rem.keptD [OF rem_run_gc assms(2)] assms(1) by (simp add: removes_def)

section \<open>Collection spares live runs\<close>

text \<open>
  What keeps a run when a file of it may be unreadable for a while: no operation fails, or the directory
  of the run is younger than the retention of orphans, which is what the run is then judged by.
\<close>

definition not_orphaned :: "ServerConfig \<Rightarrow> u64 \<Rightarrow> (nat \<Rightarrow> fault) \<Rightarrow> (fpath \<Rightarrow> node option) \<Rightarrow> bool" where
  "not_orphaned config now flt run \<longleftrightarrow> (\<forall>k. error_of (flt k) = None) \<or>
     (\<exists>m. run [] = Some (DirN m) \<and> now < saturating_add (unix_secs m) (orphan_retention_secs (sc_gc config)))"

definition live_run ::
    "codecs \<Rightarrow> ServerConfig \<Rightarrow> Nickname \<Rightarrow> RunId \<Rightarrow> RunPhase \<Rightarrow> u64 \<Rightarrow> (nat \<Rightarrow> fault) \<Rightarrow> (fpath \<Rightarrow> node option) \<Rightarrow> bool" where
  "live_run cod config n r ph now flt run \<longleftrightarrow>
     (case ph of
        Incoming \<Rightarrow> not_orphaned config now flt run \<and>
          (\<exists>c m l lease. run [''lease.toml''] = Some (FileN c m l) \<and> check_toml_version_is_compatible cod c \<and>
            cd_de_lease cod c = Inr lease \<and> lf_protocol_version lease = PROTOCOL_VERSION \<and>
            lf_nickname lease = nickname_str n \<and> lf_run_id lease = run_id_str r \<and> now < lf_expires_at lease)
      | Ready \<Rightarrow> (\<exists>m. run [] = Some (DirN m) \<and> now < saturating_add (unix_secs m) (ready_retention_secs (sc_gc config)))
      | Processing \<Rightarrow> run [] \<noteq> None \<and> (\<exists>c m h'. run [''processor.lock''] = Some (FileN c m (Some h')))
      | Done \<Rightarrow> False
      | Failed \<Rightarrow> not_orphaned config now flt run \<and>
          (\<exists>c m l reason. run [''status.toml''] = Some (FileN c m l) \<and>
            classify_terminal_content cod n r Failed c = ValidTerminal reason \<and>
            now < saturating_add (unix_secs m) (failed_retention_secs (sc_gc config))))"

definition guarded :: "nat \<Rightarrow> ((nat \<Rightarrow> fault) \<Rightarrow> (fpath \<Rightarrow> node option) \<Rightarrow> bool) \<Rightarrow> fpath \<Rightarrow> world \<Rightarrow> bool" where
  "guarded h P x w \<longleftrightarrow> honest w \<and> fresh_handle h (nodes w) \<and> P (faults w) (sub_tree (nodes w) x)"

definition spares :: "nat \<Rightarrow> ((nat \<Rightarrow> fault) \<Rightarrow> (fpath \<Rightarrow> node option) \<Rightarrow> bool) \<Rightarrow> fpath \<Rightarrow> world \<Rightarrow> world \<Rightarrow> bool" where
  "spares h P x w w' \<longleftrightarrow> same_env w w' \<and>
     (guarded h P x w \<longrightarrow> fresh_handle h (nodes w') \<and> sub_tree (nodes w') x = sub_tree (nodes w) x)"

lemma guarded_step: "spares h P x w w' \<Longrightarrow> guarded h P x w \<Longrightarrow> guarded h P x w'"
  by (auto simp: spares_def guarded_def honest_env) (simp add: same_env_def)

interpretation sp: world_relation "spares h P x" for h P x
proof
  show "spares h P x w w" for w by (simp add: spares_def guarded_def)
  show "spares h P x w w''" if "spares h P x w w'" "spares h P x w' w''" for w w' w''
    using that guarded_step [OF that(1)] unfolding spares_def by (metis same_env_trans)
qed

lemma sp_of_looks: "looks.kept h m \<Longrightarrow> sp.kept h P x m"
  unfolding looks.kept_def sp.kept_def same_looks_def spares_def guarded_def sub_tree_def
  by (metis fresh_handle_cong)

lemma sp_reads:
  "sp.kept h P x (fs_exists p)" "sp.kept h P x (fs_is_dir p)" "sp.kept h P x fs_now" "sp.kept h P x (fs_read p)"
  "sp.kept h P x (fs_mtime p)" "sp.kept h P x (fs_read_dir p)" "sp.kept h P x (probe_processor_lock_readonly h p)"
  by (rule sp_of_looks, rule looks_of_reads, rule reads_prims)+ (rule sp_of_looks, rule looks_probe)

lemma sp_now: "sp.kept h P x now_secs" "sp.kept h P x (mtime_secs p)"
  unfolding now_secs_def mtime_secs_def ctx_def by (intro sp.kept_intros sp_reads)+

text \<open>A path that is apart from a run: removing it leaves the run alone.\<close>

definition apart :: "fpath \<Rightarrow> fpath \<Rightarrow> bool" where
  "apart p x \<longleftrightarrow> \<not> prefix p x \<and> \<not> prefix x p"

lemma sp_removals:
  assumes "apart p x"
  shows "sp.kept h P x (fs_remove_dir_all p)" "sp.kept h P x (fs_remove_file p)"
proof -
  have no: "\<not> prefix p (x @ s)" "butlast p \<noteq> x @ s" for s
  proof -
    show "\<not> prefix p (x @ s)" using assms by (auto simp: apart_def prefix_append)
    show "butlast p \<noteq> x @ s"
      using assms unfolding apart_def by (metis prefixI prefixeq_butlast prefix_order.trans)
  qed
  show "sp.kept h P x (fs_remove_dir_all p)" "sp.kept h P x (fs_remove_file p)"
    unfolding sp.kept_def spares_def guarded_def
    using no less_at_sub less_at_fresh remove_dir_all_less remove_file_less by (metis (no_types, lifting))+
qed


lemma apart_append: "apart p x \<Longrightarrow> apart (p @ s) x"
  unfolding apart_def by (metis append_prefixD prefix_append prefix_same_cases prefixI)

lemma sp_prune: "apart run x \<Longrightarrow> sp.kept h P x (prune_success_terminal run)"
  unfolding prune_success_terminal_def prune_dir_def prune_file_def ctx_def
  by (intro sp.kept_intros sp_reads sp_removals apart_append)

lemma sp_class:
  "(\<And>reason. sp.kept h P x (f reason)) \<Longrightarrow> sp.kept h P x g \<Longrightarrow>
    sp.kept h P x (case c of ValidTerminal reason \<Rightarrow> f reason | Orphan \<Rightarrow> g)"
  by (cases c) auto

lemma sp_collect_apart:
  assumes "apart run x"
  shows "sp.kept h P x (collect_run cod config h n r ph run now)"
    "sp.kept h P x (collect_unknown config run now reason)" "sp.kept h P x (collect_invalid_nickname_dir config run now)"
proof -
  note rules = sp.kept_intros sp_reads sp_now sp_class sp_removals sp_prune
  show "sp.kept h P x (collect_run cod config h n r ph run now)"
    unfolding gc_defs ctx_def Let_def using assms
    by (cases ph) (simp_all only: RunPhase.case, (intro rules; assumption)+)
  show "sp.kept h P x (collect_unknown config run now reason)" "sp.kept h P x (collect_invalid_nickname_dir config run now)"
    unfolding gc_defs ctx_def using assms by (intro rules; assumption)+
qed

text \<open>At the run itself: what its liveness makes of each decision.\<close>

lemma mtime_secs_ok:
  assumes "mtime_secs p w = (Inr t, w')"
  shows "w' = next_tick w \<and> (\<exists>m. t = unix_secs m \<and>
    (look (nodes w) p = Some (DirN m) \<or> (\<exists>c l. look (nodes w) p = Some (FileN c m l))))"
  using assms
  by (auto simp: mtime_secs_def bind_io_def ctx_def err_io_def fs_mtime_def prim_io_def next_tick_def ret_io_def
      split: prod.splits sum.splits option.splits node.splits)

lemma bind_mtime:
  assumes "bind_io (mtime_secs p) f w = (r, w')"
  shows "look (nodes w') = look (nodes w) \<or> (\<exists>m. f (unix_secs m) (next_tick w) = (r, w') \<and>
    (look (nodes w) p = Some (DirN m) \<or> (\<exists>c l. look (nodes w) p = Some (FileN c m l))))"
  using assms
proof (cases rule: bind_io_cases)
  case (err e)
  moreover have "reads.kept (mtime_secs p)"
    unfolding mtime_secs_def ctx_def by (intro reads.kept_intros reads_prims)
  ultimately show ?thesis by (auto dest: reads.keptD simp: same_nodes_def)
next
  case (ok t w1)
  from mtime_secs_ok [OF ok(1)] ok(2) show ?thesis by auto
qed

text \<open>A file is read as it is, or the read fails, which it does not when nothing does.\<close>

lemma read_or_fail:
  assumes "look (nodes w) p = Some (FileN c m l)"
  shows "fs_read p w = (Inr c, next_tick w) \<or>
    (\<exists>e. fs_read p w = (Inl e, next_tick w) \<and> \<not> (\<forall>k. error_of (faults w k) = None))"
  using assms by (cases "error_of (faults w (tick w))") (auto simp: fs_read_def prim_io_def next_tick_def)

lemma orphan_spared:
  assumes "look (nodes w) run = Some (DirN m)" "now < saturating_add (unix_secs m) (orphan_retention_secs (sc_gc config))"
    and "bind_io (orphan_expiry config run now reason) (\<lambda>d. if ed_expired d then remove_run run else ret_io ()) w = (r, w')"
  shows "look (nodes w') = look (nodes w)"
proof -
  from assms(3) have "bind_io (mtime_secs run) (\<lambda>t.
      if ed_expired (expiry_at t (orphan_retention_secs (sc_gc config)) now reason) then remove_run run else ret_io ()) w = (r, w')"
    by (auto simp: orphan_expiry_def bind_io_def ret_io_def split: prod.splits sum.splits)
  from bind_mtime [OF this] assms(1) assms(2) [folded not_le] show ?thesis by (auto simp: expiry_at_def Let_def)
qed

lemma ready_spared:
  assumes "look (nodes w) run = Some (DirN m)" "now < saturating_add (unix_secs m) ret"
    and "expire_by_mtime run now ret w = (r, w')"
  shows "look (nodes w') = look (nodes w)"
  using bind_mtime [OF assms(3) [unfolded expire_by_mtime_def]] assms(1) assms(2) [folded not_le] by auto

lemma incoming_spared:
  assumes "live_run cod config n r Incoming now (faults w) (sub_tree (nodes w) run)"
    and "collect_incoming cod config n r run now w = (res, w')"
  shows "look (nodes w') = look (nodes w)"
proof -
  from assms(1) obtain c m l lease where c: "look (nodes w) (run @ [''lease.toml'']) = Some (FileN c m l)"
    and ok: "not_orphaned config now (faults w) (sub_tree (nodes w) run)" "check_toml_version_is_compatible cod c" "cd_de_lease cod c = Inr lease"
      "lf_protocol_version lease = PROTOCOL_VERSION" "lf_nickname lease = nickname_str n"
      "lf_run_id lease = run_id_str r" "now < lf_expires_at lease"
    by (auto simp: live_run_def sub_tree_def)
  from read_or_fail [OF c] show ?thesis
  proof (elim disjE exE conjE)
    assume "fs_read (run @ [''lease.toml'']) w = (Inr c, next_tick w)"
    with assms(2) ok(2-6) ok(7) [folded not_le] show ?thesis by (auto simp: collect_incoming_def bind_attempt)
  next
    fix e assume e: "fs_read (run @ [''lease.toml'']) w = (Inl e, next_tick w)" "\<not> (\<forall>k. error_of (faults w k) = None)"
    with ok(1) obtain t where "look (nodes (next_tick w)) run = Some (DirN t)"
      "now < saturating_add (unix_secs t) (orphan_retention_secs (sc_gc config))"
      by (auto simp: not_orphaned_def sub_tree_def)
    from orphan_spared [OF this] assms(2) e(1) show ?thesis by (auto simp: collect_incoming_def collect_orphan_def bind_attempt)
  qed
qed

lemma processing_spared:
  assumes "honest w" "fresh_handle h (nodes w)" "look (nodes w) run = Some d"
    and "look (nodes w) (run @ [''processor.lock'']) = Some (FileN c m (Some h'))"
    and "collect_processing config h run now w = (res, w')"
  shows "look (nodes w') = look (nodes w)"
proof -
  define K where "K t = (\<lambda>active. if active = Some True then ret_io ()
      else if saturating_add (unix_secs t) (processing_retention_secs (sc_gc config)) \<le> now then remove_run run
      else ret_io ())" for t
  from bind_mtime [OF assms(5) [unfolded collect_processing_def Let_def]] consider "look (nodes w') = look (nodes w)"
    | t where "bind_io (probe_processor_lock_readonly h run) (K t) (next_tick w) = (res, w')"
    unfolding K_def by auto
  then show ?thesis
  proof cases
    case (2 t)
    obtain a w1 where 1: "probe_processor_lock_readonly h run (next_tick w) = (a, w1)" by (metis surj_pair)
    from probe_effect [OF _ 1] assms(1-4) have "look (nodes w1) = look (nodes w)" "a = Inr (Some True) \<or> (\<exists>e. a = Inl e)"
      by (auto simp: honest_def)
    with 2 1 show ?thesis by (auto simp: bind_io_def K_def)
  qed
qed

lemma failed_spared:
  assumes "live_run cod config n r Failed now (faults w) (sub_tree (nodes w) run)"
    and "collect_failed cod config n r run now w = (res, w')"
  shows "look (nodes w') = look (nodes w)"
proof -
  let ?p = "run @ [''status.toml'']"
  from assms(1) obtain c m l reason where c: "look (nodes w) ?p = Some (FileN c m l)"
    and ok: "not_orphaned config now (faults w) (sub_tree (nodes w) run)" "classify_terminal_content cod n r Failed c = ValidTerminal reason"
      "now < saturating_add (unix_secs m) (failed_retention_secs (sc_gc config))"
    by (auto simp: live_run_def sub_tree_def)
  from read_or_fail [OF c] show ?thesis
  proof (elim disjE exE conjE)
    assume "fs_read ?p w = (Inr c, next_tick w)"
    with ok(2) have "classify_terminal_status cod ?p n r Failed w = (Inr (ValidTerminal reason), next_tick w)"
      by (simp add: classify_terminal_status_def bind_attempt)
    with assms(2) have "bind_io (mtime_secs ?p) (\<lambda>mtime.
        if ed_expired (expiry_at mtime (failed_retention_secs (sc_gc config)) now reason) then remove_run run else ret_io ())
        (next_tick w) = (res, w')"
      by (auto simp: collect_failed_def expiry_for_terminal_def expiry_from_mtime_def bind_io_def ret_io_def split: prod.splits sum.splits)
    from bind_mtime [OF this] c ok(3) [folded not_le] show ?thesis by (auto simp: expiry_at_def Let_def)
  next
    fix e assume e: "fs_read ?p w = (Inl e, next_tick w)" "\<not> (\<forall>k. error_of (faults w k) = None)"
    then have "classify_terminal_status cod ?p n r Failed w = (Inr Orphan, next_tick w)"
      by (simp add: classify_terminal_status_def bind_attempt)
    with assms(2) have o: "bind_io (orphan_expiry config run now ''invalid terminal status'')
        (\<lambda>d. if ed_expired d then remove_run run else ret_io ()) (next_tick w) = (res, w')"
      by (simp add: collect_failed_def expiry_for_terminal_def bind_io_def)
    from e(2) ok(1) obtain t where "look (nodes (next_tick w)) run = Some (DirN t)"
      "now < saturating_add (unix_secs t) (orphan_retention_secs (sc_gc config))"
      by (auto simp: not_orphaned_def sub_tree_def)
    from orphan_spared [OF this o] show ?thesis by simp
  qed
qed


lemma live_spared:
  assumes "honest w" "fresh_handle h (nodes w)" "live_run cod config n r ph now (faults w) (sub_tree (nodes w) run)"
    and "collect_run cod config h n r ph run now w = (res, w')"
  shows "look (nodes w') = look (nodes w)"
proof (cases ph)
  case Incoming
  with assms(3,4) incoming_spared show ?thesis by (auto simp: collect_run_def)
next
  case Ready
  with assms(3,4) ready_spared show ?thesis by (auto simp: collect_run_def live_run_def sub_tree_def)
next
  case Processing
  with assms processing_spared show ?thesis by (fastforce simp: collect_run_def live_run_def sub_tree_def)
next
  case Failed
  with assms(3,4) failed_spared show ?thesis by (auto simp: collect_run_def)
qed (use assms(3) in \<open>simp add: live_run_def\<close>)

lemma sp_collect_live:
  "sp.kept h (live_run cod config n r ph now) run (collect_run cod config h n r ph run now)"
  unfolding sp.kept_def
proof (intro allI impI)
  fix w res w' assume m: "collect_run cod config h n r ph run now w = (res, w')"
  have "same_env w w'" using rem.keptD [OF rem_collect_run(1) [of run UNIV] m] by (simp add: removes_def)
  moreover have "look (nodes w') = look (nodes w)" if "guarded h (live_run cod config n r ph now) run w"
    using that live_spared [OF _ _ _ m] by (simp add: guarded_def)
  ultimately show "spares h (live_run cod config n r ph now) run w w'"
    by (auto simp: spares_def guarded_def sub_tree_def dest: fresh_handle_cong)
qed

text \<open>The walk: every directory that is not the run itself is apart from it.\<close>

lemma apart_siblings: "a \<noteq> b \<Longrightarrow> apart (d @ [a]) (d @ b # s)"
  by (auto simp: apart_def)

lemma sp_case_res:
  "(\<And>e. y = Inl e \<Longrightarrow> sp.kept h P x (f e)) \<Longrightarrow> (\<And>a. y = Inr a \<Longrightarrow> sp.kept h P x (g a)) \<Longrightarrow>
    sp.kept h P x (case y of Inl e \<Rightarrow> f e | Inr a \<Rightarrow> g a)"
  by (cases y) auto

lemmas sp_rules = sp.kept_ret sp.kept_fail sp.kept_err sp.kept_bind sp.kept_if sp.kept_for sp_case_res sp_reads

lemma sp_collect_phase:
  assumes "RunId_new (run_id_str r) = Inr r"
  shows "sp.kept h (live_run cod config n r ph now) (d @ [phase_str ph, run_id_str r]) (collect_phase cod config h n d now ph')"
  (is "sp.kept h ?P ?x _")
  unfolding collect_phase_def Let_def ctx_def
proof (intro sp_rules)
  fix name e assume "RunId_new name = Inl e"
  with assms(1) have "phase_str ph' \<noteq> phase_str ph \<or> name \<noteq> run_id_str r" by auto
  then have "apart ((d @ [phase_str ph']) @ [name]) (d @ [phase_str ph, run_id_str r])" by (auto simp: apart_def)
  then show "sp.kept h ?P ?x
      (collect_unknown config ((d @ [phase_str ph']) @ [name]) now ''invalid run id'')"
    by (rule sp_collect_apart)
next
  fix name r' assume r': "RunId_new name = Inr r'"
  show "sp.kept h ?P ?x
      (collect_run cod config h n r' ph' ((d @ [phase_str ph']) @ [name]) now)"
  proof (cases "ph' = ph \<and> name = run_id_str r")
    case True
    with r' assms(1) have "r' = r" by simp
    with True sp_collect_live [of h cod config n r ph now "d @ [phase_str ph, run_id_str r]"] show ?thesis
      by simp
  next
    case False
    then have "apart ((d @ [phase_str ph']) @ [name]) (d @ [phase_str ph, run_id_str r])"
      by (auto simp: apart_def phase_str_inject)
    then show ?thesis by (rule sp_collect_apart)
  qed
qed

lemma sp_run_gc:
  assumes n: "Nickname_new (nickname_str n) = Inr n" and r: "RunId_new (run_id_str r) = Inr r"
  shows "run_gc cod config h w = (res, w') \<Longrightarrow>
    spares h (live_run cod config n r ph (unix_secs (clock w (Suc (tick w)))))
      (base (sc_work_dir config) @ [nickname_str n, phase_str ph, run_id_str r]) w w'"
proof -
  let ?root = "base (sc_work_dir config)"
  let ?x = "?root @ [nickname_str n, phase_str ph, run_id_str r]"
  define now where "now = unix_secs (clock w (Suc (tick w)))"
  let ?P = "live_run cod config n r ph now"
  have walk: "sp.kept h ?P ?x (bind_io (fs_is_dir (?root @ [name])) (\<lambda>d.
      if \<not> d then ret_io ()
      else (case Nickname_new name of
         Inl _ \<Rightarrow> collect_invalid_nickname_dir config (?root @ [name]) now
       | Inr nickname \<Rightarrow> for_io all_phases (collect_phase cod config h nickname (?root @ [name]) now))))" for name
  proof (intro sp_rules)
    fix e assume "Nickname_new name = Inl e"
    with n have "name \<noteq> nickname_str n" by auto
    then show "sp.kept h ?P ?x (collect_invalid_nickname_dir config (?root @ [name]) now)"
      by (intro sp_collect_apart apart_siblings)
  next
    fix n' ph' assume n': "Nickname_new name = Inr n'"
    show "sp.kept h ?P ?x (collect_phase cod config h n' (?root @ [name]) now ph')"
    proof (cases "name = nickname_str n")
      case True
      with n n' have "n' = n" by simp
      with True sp_collect_phase [OF r, of h cod config n ph now "?root @ [nickname_str n]" ph'] show ?thesis by simp
    next
      case False
      then have "apart (?root @ [name]) ?x" by (rule apart_siblings)
      then have "apart ((?root @ [name]) @ s) ?x" for s by (rule apart_append)
      then show ?thesis unfolding collect_phase_def Let_def ctx_def
        by (intro sp_rules sp_collect_apart) simp_all
    qed
  qed
  assume run: "run_gc cod config h w = (res, w')"
  show ?thesis
  proof (cases "faults w (tick w) \<noteq> StatFail \<and> view (nodes w) ?root \<noteq> None")
    case False
    with run have "w' = next_tick w"
      by (auto simp: run_gc_def Let_def base_def [symmetric] bind_queries)
    then show ?thesis by (simp add: spares_def guarded_def)
  next
    case True
    define K where "K t = bind_io (ctx ''failed to read work directory'' (fs_read_dir ?root)) (\<lambda>names.
      for_io names (\<lambda>name. bind_io (fs_is_dir (?root @ [name])) (\<lambda>d.
        if \<not> d then ret_io ()
        else (case Nickname_new name of
           Inl _ \<Rightarrow> collect_invalid_nickname_dir config (?root @ [name]) t
         | Inr nickname \<Rightarrow> for_io all_phases (collect_phase cod config h nickname (?root @ [name]) t)))))" for t
    have "sp.kept h ?P ?x (K now)" unfolding K_def ctx_def by (intro sp_rules walk)
    moreover have "bind_io (fs_exists ?root) (\<lambda>ex. if \<not> ex then ret_io () else bind_io now_secs K) w = (res, w')"
      using run by (simp only: run_gc_def Let_def base_def [symmetric] K_def [abs_def])
    then have "K (unix_secs (clock (next_tick w) (tick (next_tick w)))) (next_tick (next_tick w)) = (res, w')"
      using True by (simp add: bind_queries)
    then have "K now (next_tick (next_tick w)) = (res, w')"
      by (simp add: now_def next_tick_def)
    ultimately have "spares h ?P ?x (next_tick (next_tick w)) w'" by (rule sp.keptD)
    then show ?thesis by (simp add: spares_def guarded_def now_def honest_def next_tick_def same_env_def)
  qed
qed

text \<open>
  C24. Garbage collection never touches a live run. When no error is disguised as absence and the
  probe's handle is fresh, whatever else fails, a processing run whose lock another processor holds and a
  ready run within its retention keep every file and lock; so do an upload with a valid unexpired lease
  and a failed run with a valid status within its retention, provided that nothing fails or that the
  run's directory is younger than the retention of orphans: a lease or status that cannot be read for
  the moment is judged like one that is missing.
\<close>

theorem gc_spares_live_runs:
  assumes "run_ok (sc_work_dir config) n r" "Nickname_new (nickname_str n) = Inr n" "RunId_new (run_id_str r) = Inr r"
    and "honest w" "fresh_handle h (nodes w)" "run_gc cod config h w = (res, w')"
    and "live_run cod config n r ph (unix_secs (clock w (Suc (tick w)))) (faults w)
      (sub_tree (nodes w) (run_path (sc_work_dir config) n r ph))"
  shows "sub_tree (nodes w') (run_path (sc_work_dir config) n r ph) = sub_tree (nodes w) (run_path (sc_work_dir config) n r ph)"
  using sp_run_gc [OF assms(2,3,6), of ph] assms(4,5,7)
  by (simp add: spares_def guarded_def run_path_eq [OF assms(1)])


section \<open>Collection by the rules\<close>

text \<open>The documented rules, as one pure predicate of what is on disk.\<close>

definition past :: "node option \<Rightarrow> u64 \<Rightarrow> u64 \<Rightarrow> bool" where
  "past d retention now =
     (case d of
        Some (DirN m) \<Rightarrow> saturating_add (unix_secs m) retention \<le> now
      | Some (FileN _ m _) \<Rightarrow> saturating_add (unix_secs m) retention \<le> now
      | None \<Rightarrow> False)"

definition valid_lease :: "codecs \<Rightarrow> Nickname \<Rightarrow> RunId \<Rightarrow> string \<Rightarrow> LeaseFile option" where
  "valid_lease cod n r c =
     (if check_toml_version_is_compatible cod c then
        (case cd_de_lease cod c of
           Inr lease \<Rightarrow> if lf_protocol_version lease = PROTOCOL_VERSION \<and> lf_nickname lease = nickname_str n \<and>
             lf_run_id lease = run_id_str r then Some lease else None
         | Inl _ \<Rightarrow> None)
      else None)"

definition lock_free :: "node option \<Rightarrow> bool" where
  "lock_free d = (case d of None \<Rightarrow> True | Some (FileN _ _ l) \<Rightarrow> l = None | Some (DirN _) \<Rightarrow> False)"

definition past_terminal ::
    "codecs \<Rightarrow> GCConfig \<Rightarrow> Nickname \<Rightarrow> RunId \<Rightarrow> RunPhase \<Rightarrow> u64 \<Rightarrow> u64 \<Rightarrow> (fpath \<Rightarrow> node option) \<Rightarrow> bool" where
  "past_terminal cod gc n r ph retention now run =
     (case run [''status.toml''] of
        Some (FileN c m l) \<Rightarrow>
          if classify_terminal_content cod n r ph c = Orphan then past (run []) (orphan_retention_secs gc) now
          else past (Some (FileN c m l)) retention now
      | _ \<Rightarrow> past (run []) (orphan_retention_secs gc) now)"

definition due :: "codecs \<Rightarrow> GCConfig \<Rightarrow> Nickname \<Rightarrow> RunId \<Rightarrow> RunPhase \<Rightarrow> u64 \<Rightarrow> (fpath \<Rightarrow> node option) \<Rightarrow> bool" where
  "due cod gc n r ph now run =
     (case ph of
        Incoming \<Rightarrow>
          (case run [''lease.toml''] of
             Some (FileN c _ _) \<Rightarrow>
               (case valid_lease cod n r c of
                  Some lease \<Rightarrow> lf_expires_at lease \<le> now
                | None \<Rightarrow> past (run []) (orphan_retention_secs gc) now)
           | _ \<Rightarrow> past (run []) (orphan_retention_secs gc) now)
      | Ready \<Rightarrow> past (run []) (ready_retention_secs gc) now
      | Processing \<Rightarrow> past (run []) (processing_retention_secs gc) now \<and> lock_free (run [''processor.lock''])
      | Done \<Rightarrow> past_terminal cod gc n r ph (done_retention_secs gc) now run
      | Failed \<Rightarrow> past_terminal cod gc n r ph (failed_retention_secs gc) now run)"

definition collected :: "fpath \<Rightarrow> bool \<Rightarrow> world \<Rightarrow> world \<Rightarrow> bool" where
  "collected run gone w w' \<longleftrightarrow>
     (if gone then \<forall>q. prefix run q \<longrightarrow> look (nodes w') q = None else sub_tree (nodes w') run = sub_tree (nodes w) run)"

lemma collected_next [simp]: "collected run gone (next_tick w) w' = collected run gone w w'" "collected run gone w (next_tick w') = collected run gone w w'"
  by (simp_all add: collected_def)

lemma collected_same [simp]: "collected run False w w"
  by (simp add: collected_def)

lemma faultless_remove:
  assumes "faultless w" "run \<noteq> []" "look (nodes w) run = Some (DirN m)" "remove_run run w = (res, w')"
  shows "res = Inr () \<and> collected run True w w'"
  using assms
  by (auto simp: remove_run_def ctx_def err_io_def fs_remove_dir_all_def prim_io_def error_of_def collected_def
      look_touch look_del_tree split: prod.splits)

lemma faultless_mtime:
  assumes "faultless w" "look (nodes w) p = Some d"
  shows "mtime_secs p w = (Inr (unix_secs (case d of DirN m \<Rightarrow> m | FileN _ m _ \<Rightarrow> m)), next_tick w)"
  using assms
  by (auto simp: mtime_secs_def bind_io_def ctx_def err_io_def fs_mtime_def prim_io_def next_tick_def ret_io_def
      error_of_def split: node.splits)

lemma faultless_if_remove:
  assumes "faultless w" "run \<noteq> []" "look (nodes w) run = Some (DirN m)"
    and "(if b then remove_run run else ret_io ()) w = (res, w')"
  shows "res = Inr () \<and> collected run b w w'"
  using faultless_remove [OF assms(1-3)] assms(4) by (cases b) auto

lemma faultless_orphan:
  assumes "faultless w" "run \<noteq> []" "look (nodes w) run = Some (DirN m)" "collect_orphan config run now reason w = (res, w')"
  shows "res = Inr () \<and> collected run (past (Some (DirN m)) (orphan_retention_secs (sc_gc config)) now) w w'"
proof -
  have "(if past (Some (DirN m)) (orphan_retention_secs (sc_gc config)) now then remove_run run else ret_io ()) (next_tick w) = (res, w')"
    using assms(4) faultless_mtime [OF assms(1,3)]
    by (simp add: collect_orphan_def orphan_expiry_def bind_io_def ret_io_def past_def expiry_at_def Let_def)
  from faultless_if_remove [OF _ assms(2) _ this] assms(1,3) show ?thesis by simp
qed


lemma faultless_fs_read:
  "faultless w \<Longrightarrow> fs_read p w =
    ((case look (nodes w) p of Some (FileN c _ _) \<Rightarrow> Inr c | None \<Rightarrow> Inl IoNotFound | _ \<Rightarrow> Inl IoOther), next_tick w)"
  by (auto simp: fs_read_def prim_io_def error_of_def next_tick_def split: option.splits node.splits)

lemma faultless_next: "faultless w \<Longrightarrow> faultless (next_tick w)" "look (nodes (next_tick w)) = look (nodes w)"
  by simp_all

lemma due_incoming:
  assumes "faultless w" "run \<noteq> []" "look (nodes w) run = Some (DirN m)" "collect_incoming cod config n r run now w = (res, w')"
  shows "res = Inr () \<and> collected run (due cod (sc_gc config) n r Incoming now (sub_tree (nodes w) run)) w w'"
proof -
  note o = faultless_orphan [of "next_tick w" run m config now _ res w', OF _ assms(2)]
  show ?thesis
  proof (cases "look (nodes w) (run @ [''lease.toml''])")
    case None
    with assms o show ?thesis
      by (auto simp: collect_incoming_def bind_attempt faultless_fs_read due_def sub_tree_def Let_def)
  next
    case (Some d)
    show ?thesis
    proof (cases d)
      case (DirN t)
      with Some assms o show ?thesis
        by (auto simp: collect_incoming_def bind_attempt faultless_fs_read due_def sub_tree_def Let_def)
    next
      case (FileN c t l)
      show ?thesis
      proof (cases "valid_lease cod n r c")
        case None
        with Some FileN assms o show ?thesis
          by (auto simp: collect_incoming_def bind_attempt faultless_fs_read due_def sub_tree_def Let_def valid_lease_def
              split: if_splits sum.splits)
      next
        case lease: (Some lease)
        have "(if lf_expires_at lease \<le> now then remove_run run else ret_io ()) (next_tick w) = (res, w')"
          using Some FileN assms(1,4) lease
          by (auto simp: collect_incoming_def bind_attempt faultless_fs_read valid_lease_def split: if_splits sum.splits)
        from faultless_if_remove [OF _ assms(2) _ this] assms(1,3) Some FileN lease show ?thesis
          by (auto simp: due_def sub_tree_def Let_def)
      qed
    qed
  qed
qed

lemma due_ready:
  assumes "faultless w" "run \<noteq> []" "look (nodes w) run = Some (DirN m)" "expire_by_mtime run now ret w = (res, w')"
  shows "res = Inr () \<and> collected run (past (sub_tree (nodes w) run []) ret now) w w'"
proof -
  have "(if past (Some (DirN m)) ret now then remove_run run else ret_io ()) (next_tick w) = (res, w')"
    using assms(4) faultless_mtime [OF assms(1,3)] by (simp add: expire_by_mtime_def bind_io_def past_def)
  from faultless_if_remove [OF _ assms(2) _ this] assms(1,3) show ?thesis by (simp add: sub_tree_def)
qed

lemma faultless_honest: "faultless w \<Longrightarrow> honest w"
  by (simp add: honest_def error_of_def)

lemma faultless_probe:
  assumes "faultless w" "look (nodes w) run = Some (DirN m)" "probe_processor_lock_readonly h run w = (r, w')"
  shows "case look (nodes w) (run @ [''processor.lock'']) of
      None \<Rightarrow> r = Inr (Some False)
    | Some (DirN _) \<Rightarrow> \<exists>e. r = Inl e
    | Some (FileN _ _ l) \<Rightarrow> r = Inr (Some (l \<noteq> None))"
  using assms
  by (auto simp: probe_processor_lock_readonly_def bind_io_def fs_exists_def prim_io_def fs_open_def fs_try_lock_def
      fs_unlock_def attempt_io_def ctx_def err_io_def ret_io_def fail_io_def error_of_def faultless_def Let_def
      split: option.splits node.splits)

lemma due_processing:
  assumes "faultless w" "run \<noteq> []" "look (nodes w) run = Some (DirN m)" "fresh_handle h (nodes w)"
    and "collect_processing config h run now w = (res, w')"
  shows "collected run (due cod (sc_gc config) n r Processing now (sub_tree (nodes w) run)) w w'"
proof -
  let ?old = "saturating_add (unix_secs m) (processing_retention_secs (sc_gc config)) \<le> now"
  let ?lock = "run @ [''processor.lock'']"
  obtain a w1 where 1: "probe_processor_lock_readonly h run (next_tick w) = (a, w1)" by (metis surj_pair)
  from probe_effect [OF _ 1] assms(1,4) have same: "look (nodes w1) = look (nodes w)" "faultless w1"
    using faultless_env by auto
  have f: "faultless (next_tick w)" "look (nodes (next_tick w)) run = Some (DirN m)" using assms(1,3) by simp_all
  have run: "bind_io (probe_processor_lock_readonly h run)
      (\<lambda>active. if active = Some True then ret_io () else if ?old then remove_run run else ret_io ()) (next_tick w) = (res, w')"
    using assms(5) faultless_mtime [OF assms(1,3)] by (simp add: collect_processing_def bind_io_def [of "mtime_secs _"] Let_def)
  have *: "collected run b w w'" if "collected run b w1 w'" for b
    using that same(1) by (auto simp: collected_def sub_tree_def split: if_splits)
  have d: "due cod (sc_gc config) n r Processing now (sub_tree (nodes w) run) \<longleftrightarrow> ?old \<and> lock_free (look (nodes w) ?lock)"
    using assms(3) by (simp add: due_def sub_tree_def past_def)
  show ?thesis
  proof (cases "lock_free (look (nodes w) ?lock)")
    case True
    then have "a = Inr (Some False)"
      using faultless_probe [OF f 1] by (auto simp: lock_free_def split: option.splits node.splits)
    with run 1 have "(if ?old then remove_run run else ret_io ()) w1 = (res, w')" by (simp add: bind_io_def)
    from faultless_if_remove [OF same(2) assms(2) _ this] same(1) assms(3) show ?thesis
      using * d True by auto
  next
    case False
    then have "a = Inr (Some True) \<or> (\<exists>e. a = Inl e)"
      using faultless_probe [OF f 1] by (auto simp: lock_free_def split: option.splits node.splits)
    with run 1 have "w' = w1" by (auto simp: bind_io_def)
    with * d False same(1) show ?thesis by simp
  qed
qed


lemma faultless_terminal:
  assumes "faultless w" "run \<noteq> []" "look (nodes w) run = Some (DirN m)" "ph = Done \<or> ph = Failed"
  shows "\<exists>d. expiry_for_terminal cod (run @ [''status.toml'']) run ret config n r ph now w = (Inr d, next_tick (next_tick w)) \<and>
    ed_expired d = past_terminal cod (sc_gc config) n r ph ret now (sub_tree (nodes w) run)"
proof -
  let ?p = "run @ [''status.toml'']"
  have orphan: "\<exists>d. orphan_expiry config run now reason (next_tick w) = (Inr d, next_tick (next_tick w)) \<and>
      ed_expired d = past (Some (DirN m)) (orphan_retention_secs (sc_gc config)) now" for reason
    using faultless_mtime [of "next_tick w" run] assms(1,3)
    by (simp add: orphan_expiry_def bind_io_def ret_io_def expiry_at_def past_def Let_def)
  show ?thesis
  proof (cases "\<exists>c t l reason. look (nodes w) ?p = Some (FileN c t l) \<and> classify_terminal_content cod n r ph c = ValidTerminal reason")
    case True
    then obtain c t l reason where st: "look (nodes w) ?p = Some (FileN c t l)"
      "classify_terminal_content cod n r ph c = ValidTerminal reason" by blast
    have "classify_terminal_status cod ?p n r ph w = (Inr (ValidTerminal reason), next_tick w)"
      using st assms(1) by (simp add: classify_terminal_status_def bind_attempt faultless_fs_read)
    then show ?thesis
      using st faultless_mtime [of "next_tick w" ?p] assms(1)
      by (auto simp: expiry_for_terminal_def expiry_from_mtime_def bind_io_def ret_io_def expiry_at_def past_terminal_def sub_tree_def past_def Let_def)
  next
    case False
    have nv: "classify_terminal_content cod n r ph c = Orphan" if "look (nodes w) ?p = Some (FileN c t l)" for c t l
      using False that TerminalStatusClassification.exhaust by metis
    have "classify_terminal_status cod ?p n r ph w = (Inr Orphan, next_tick w)"
      using assms(1) nv by (auto simp: classify_terminal_status_def bind_attempt faultless_fs_read split: option.splits node.splits)
    moreover have "past_terminal cod (sc_gc config) n r ph ret now (sub_tree (nodes w) run) =
        past (Some (DirN m)) (orphan_retention_secs (sc_gc config)) now"
      using nv assms(3) by (auto simp: past_terminal_def sub_tree_def split: option.splits node.splits)
    ultimately show ?thesis
      using orphan by (auto simp: expiry_for_terminal_def bind_io_def)
  qed
qed

lemma due_failed:
  assumes "faultless w" "run \<noteq> []" "look (nodes w) run = Some (DirN m)" "collect_failed cod config n r run now w = (res, w')"
  shows "res = Inr () \<and> collected run (due cod (sc_gc config) n r Failed now (sub_tree (nodes w) run)) w w'"
proof -
  obtain d where d: "expiry_for_terminal cod (run @ [''status.toml'']) run (failed_retention_secs (sc_gc config)) config n r Failed now w =
      (Inr d, next_tick (next_tick w))"
    "ed_expired d = due cod (sc_gc config) n r Failed now (sub_tree (nodes w) run)"
    using faultless_terminal [OF assms(1-3), where ph = Failed and cod = cod and n = n and r = r and config = config and now = now
      and ret = "failed_retention_secs (sc_gc config)"]
    by (auto simp: due_def)
  with assms(4) have "(if ed_expired d then remove_run run else ret_io ()) (next_tick (next_tick w)) = (res, w')"
    by (simp add: collect_failed_def bind_io_def)
  from faultless_if_remove [OF _ assms(2) _ this] assms(1,3) d(2) show ?thesis by simp
qed

lemma due_done:
  assumes "faultless w" "run \<noteq> []" "look (nodes w) run = Some (DirN m)" "fresh_handle h (nodes w)"
    and "collect_done cod config n r run now w = (res, w')"
  shows "if due cod (sc_gc config) n r Done now (sub_tree (nodes w) run)
    then collected run True w w'
    else \<forall>q. view (nodes w') q = view (nodes w) q \<or> (q \<in> disposable_paths run \<and> view (nodes w') q = None)"
proof -
  define K where "K = (\<lambda>r' :: (io_error, string) result. (case r' of Inl _ \<Rightarrow> ret_io ()
    | Inr content \<Rightarrow> (if prunable_status cod n r content then prune_success_terminal run else ret_io ())))"
  obtain d where d: "expiry_for_terminal cod (run @ [''status.toml'']) run (done_retention_secs (sc_gc config)) config n r Done now w =
      (Inr d, next_tick (next_tick w))"
    "ed_expired d = due cod (sc_gc config) n r Done now (sub_tree (nodes w) run)"
    using faultless_terminal [OF assms(1-3), where ph = Done and cod = cod and n = n and r = r and config = config and now = now
      and ret = "done_retention_secs (sc_gc config)"]
    by (auto simp: due_def)
  have "bind_io (expiry_for_terminal cod (run @ [''status.toml'']) run (done_retention_secs (sc_gc config)) config n r Done now)
      (\<lambda>decision. if ed_expired decision then remove_run run
        else bind_io (attempt_io (fs_read (run @ [''status.toml'']))) K) w = (res, w')"
    using assms(5) by (simp only: collect_done_def K_def)
  with d have run: "(if ed_expired d then remove_run run
      else bind_io (attempt_io (fs_read (run @ [''status.toml'']))) K) (next_tick (next_tick w)) = (res, w')"
    by (simp add: bind_io_def [of "expiry_for_terminal _ _ _ _ _ _ _ _ _"])
  show ?thesis
  proof (cases "ed_expired d")
    case True
    with run faultless_remove [of "next_tick (next_tick w)" run m res w'] assms(1-3) d(2) show ?thesis by simp
  next
    case False
    have K: "frame.kept (disposable_paths run) (K x)" for x
      unfolding K_def by (intro frame.kept_intros frame_prune)
    have R: "rem.kept h {q. strict_prefix run q} (K x)" for x
      unfolding K_def by (intro rem.kept_intros rem_prune) simp
    from False run have b: "bind_io (attempt_io (fs_read (run @ [''status.toml'']))) K (next_tick (next_tick w)) = (res, w')" by simp
    have "frame.kept (disposable_paths run) (bind_io (attempt_io (fs_read (run @ [''status.toml'']))) K)"
      by (intro frame.kept_intros frame_reads K)
    moreover have "rem.kept h {q. strict_prefix run q} (bind_io (attempt_io (fs_read (run @ [''status.toml'']))) K)"
      by (intro rem.kept_intros rem_reads R)
    ultimately have "same_outside (disposable_paths run) (next_tick (next_tick w)) w'"
      "removes h {q. strict_prefix run q} (next_tick (next_tick w)) w'"
      using b by (blast dest: frame.keptD, blast dest: rem.keptD)
    with False d(2) assms(4) show ?thesis by (auto simp: same_outside_def removes_def)
  qed
qed

text \<open>
  C25. When nothing fails, collecting a run removes its directory, with everything below it, exactly
  when the documented rule for its phase says so: an upload whose valid lease has expired, a ready
  run past its retention, a processing run past its retention whose lock is free, a terminal run
  whose valid status is past its retention, and an upload or terminal run without a valid lease or
  status past the orphan retention. A run that is not due keeps everything, except that a done run
  may lose disposable files.
\<close>

theorem gc_collects_exactly_due:
  assumes "faultless w" "fresh_handle h (nodes w)" "run \<noteq> []" "look (nodes w) run = Some (DirN m)"
    and "collect_run cod config h n r ph run now w = (res, w')"
  shows "if due cod (sc_gc config) n r ph now (sub_tree (nodes w) run)
    then \<forall>q. prefix run q \<longrightarrow> look (nodes w') q = None
    else if ph = Done
    then \<forall>q. view (nodes w') q = view (nodes w) q \<or> (q \<in> disposable_paths run \<and> view (nodes w') q = None)
    else sub_tree (nodes w') run = sub_tree (nodes w) run"
proof (cases ph)
  case Incoming
  with assms due_incoming [OF assms(1,3,4)] show ?thesis by (auto simp: collect_run_def collected_def split: if_splits)
next
  case Ready
  with assms due_ready [OF assms(1,3,4)] show ?thesis
    by (auto simp: collect_run_def collected_def due_def split: if_splits)
next
  case Processing
  with assms due_processing [OF assms(1,3,4,2)] show ?thesis
    by (auto simp: collect_run_def collected_def split: if_splits)
next
  case Done
  with assms(5) have "collect_done cod config n r run now w = (res, w')" by (simp add: collect_run_def)
  from due_done [OF assms(1,3,4,2) this] Done show ?thesis by (auto simp: collected_def split: if_splits)
next
  case Failed
  with assms due_failed [OF assms(1,3,4)] show ?thesis by (auto simp: collect_run_def collected_def split: if_splits)
qed

end
