(* ===== verification/Run_Samples.thy ===== *)
theory Run_Samples
  imports Run_Laws
begin

text \<open>
  A concrete world and concrete instances of the theorems of \<open>Run_Laws\<close>.
\<close>

section \<open>A sample world\<close>

text \<open>A work directory \<open>/w\<close>, one second per operation, and no faults, for concrete instances.\<close>

definition sample_at :: "nat \<Rightarrow> fs \<Rightarrow> world" where
  "sample_at t fs = \<lparr>nodes = fs, tick = t, clock = (\<lambda>k. int k * 10 ^ 9), faults = (\<lambda>_. Pass), sources = []\<rparr>"

definition sample_config :: ServerConfig where
  "sample_config = \<lparr>sc_work_dir = ServerWorkDir ''/w'', sc_transforms = [], sc_gc = GCConfig_default,
     sc_logging = LoggingConfig_default\<rparr>"

definition sample_lease :: LeaseFile where
  "sample_lease = new_lease sample_config (Nickname ''n'') (RunId ''R'') 0"

definition sample_status :: RunStatus where
  "sample_status = \<lparr>rs_purgery_version = PURGERY_VERSION, rs_run_id = RunId ''R'', rs_nickname = Nickname ''n'',
     rs_state = RsDone, rs_entries = [], rs_error = None\<rparr>"

definition sample_progress :: ProcessingProgress where
  "sample_progress = \<lparr>pg_protocol_version = PROTOCOL_VERSION, pg_purgery_version = PURGERY_VERSION,
     pg_nickname = ''n'', pg_run_id = ''R'', pg_phase = ''processing'', pg_state = ''processing_started'',
     pg_entry_index = 0, pg_entry_total = 0, pg_current_entry = [], pg_current_transform = [],
     pg_started_at = 0, pg_updated_at = 0\<rparr>"

definition sample_run_config :: RunConfig where
  "sample_run_config = \<lparr>rc_purgery_version = PURGERY_VERSION, rc_nickname = Nickname ''n'',
     rc_destination = \<lparr>dp_path = ''/d'', dp_operand = ''/d'', dp_intent = ExactOrExistingDirectory\<rparr>,
     rc_delete_after_import = True\<rparr>"

definition sample_manifest :: Manifest where
  "sample_manifest = \<lparr>mf_purgery_version = PURGERY_VERSION, mf_run_id = RunId ''R'', mf_nickname = Nickname ''n'',
     mf_entries = [\<lparr>me_local_path = ClientLocalPath ''/a/x'', me_staged_path = NormalizedRelativePath ''files/x'',
       me_relative_path = NormalizedRelativePath ''x'', me_kind = RegularFile, me_size = 1, me_mtime_ns = 0,
       me_sha256 = None, me_link_target = None, me_transform = Some ''t''\<rparr>]\<rparr>"

definition sample_codecs :: codecs where
  "sample_codecs = \<lparr>cd_toml = (\<lambda>_. Inr (TTable [(''purgery_version'', TString PURGERY_VERSION)])),
     cd_de_status = (\<lambda>_. Inr sample_status), cd_ser_status = (\<lambda>_. Inr ''s''),
     cd_de_lease = (\<lambda>_. Inr sample_lease), cd_ser_lease = (\<lambda>_. Inr ''l''),
     cd_de_progress = (\<lambda>_. Inr sample_progress), cd_ser_progress = (\<lambda>_. Inr ''p''),
     cd_ser_begin = (\<lambda>_. Inr ''b''),
     cd_de_run_config = (\<lambda>_. Inr sample_run_config), cd_ser_run_config = (\<lambda>_. Inr ''c''),
     cd_de_manifest = (\<lambda>_. Inr sample_manifest), cd_ser_prepare = (\<lambda>_. Inr ''q''),
     cd_de_plan = (\<lambda>_. Inl ''no plan''), cd_ser_plan = (\<lambda>_. Inr ''d'')\<rparr>"

abbreviation sample_dir :: "RunPhase \<Rightarrow> fpath" where
  "sample_dir ph \<equiv> [''w'', ''n'', phase_str ph, ''R'']"

text \<open>A run in one phase with the given files.\<close>

definition sample_run :: "RunPhase \<Rightarrow> (string \<times> string) list \<Rightarrow> fs" where
  "sample_run ph files =
     [([''w''], DirN 0), ([''w'', ''n''], DirN 0), ([''w'', ''n'', phase_str ph], DirN 0), (sample_dir ph, DirN 0)] @
     map (\<lambda>(name, c). (sample_dir ph @ [name], FileN c 0 None)) files"

lemma sample_base: "base (ServerWorkDir ''/w'') = [''w'']"
  by code_simp

lemma sample_run_ok: "run_ok (sc_work_dir sample_config) (Nickname ''n'') (RunId ''R'')"
  by code_simp

lemma sample_path: "run_path (sc_work_dir sample_config) (Nickname ''n'') (RunId ''R'') ph = sample_dir ph"
  using run_path_eq [OF sample_run_ok] by (simp add: sample_base sample_config_def)

lemma sample_parent: "run_parent (sc_work_dir sample_config) (Nickname ''n'') (RunId ''R'') ph = [''w'', ''n'', phase_str ph]"
  using run_parent_eq [OF sample_run_ok] by (simp add: sample_base sample_config_def)

lemma sample_run_wf: "distinct (map fst files) \<Longrightarrow> fs_wf (sample_run ph files)"
  unfolding fs_wf_def keys_def sample_run_def
  by (auto simp: look_def is_dir_node_def distinct_map inj_on_def comp_def case_prod_unfold butlast_append)

text \<open>Evaluation: one equation per operation on a sample world.\<close>

lemma sample_prim: "prim_io f (sample_at t fs) = (case f Pass (int t * 10 ^ 9) fs of (r, fs') \<Rightarrow> (r, sample_at (Suc t) fs'))"
  by (simp add: prim_io_def sample_at_def)

lemma sample_step:
  "bind_io m f (sample_at t fs) = (case m (sample_at t fs) of (Inl e, w') \<Rightarrow> (Inl e, w') | (Inr a, w') \<Rightarrow> f a w')"
  "attempt_io m (sample_at t fs) = (case m (sample_at t fs) of (r, w') \<Rightarrow> (Inr r, w'))"
  "err_io h m (sample_at t fs) = (case m (sample_at t fs) of (r, w') \<Rightarrow> (map_err h r, w'))"
  "ret_io a (sample_at t fs) = (Inr a, sample_at t fs)"
  "fail_io e (sample_at t fs) = (Inl e, sample_at t fs)"
  "lift_res x (sample_at t fs) = (x, sample_at t fs)"
  by (simp_all add: bind_io_def attempt_io_def err_io_def ret_io_def fail_io_def lift_res_def)

lemma sample_exists: "fs_exists p (sample_at t fs) = (Inr (look fs p \<noteq> None), sample_at (Suc t) fs)"
  "fs_is_dir p (sample_at t fs) = (Inr (is_dir_node (look fs p)), sample_at (Suc t) fs)"
  "now_secs (sample_at t fs) = (Inr (word_of_nat t), sample_at (Suc t) fs)"
  by (simp_all add: fs_exists_def fs_is_dir_def now_secs_def fs_now_def sample_prim unix_secs_def sample_step)

lemma error_of_Pass: "error_of Pass = None"
  by (simp add: error_of_def)

text \<open>The effect of an operation that meets no fault.\<close>

lemma sample_ops:
  "fs_read p (sample_at t fs) = ((case look fs p of Some (FileN c _ _) \<Rightarrow> Inr c | None \<Rightarrow> Inl IoNotFound | _ \<Rightarrow> Inl IoOther),
    sample_at (Suc t) fs)"
  "fs_write p c (sample_at t fs) =
    (if p = [] \<or> is_dir_node (look fs p) then (Inl IoOther, sample_at (Suc t) fs)
     else if \<not> is_dir_node (look fs (butlast p)) then (Inl IoNotFound, sample_at (Suc t) fs)
     else (Inr (), sample_at (Suc t) (store_file (int t * 10 ^ 9) p c fs)))"
  "fs_rename p q (sample_at t fs) =
    (case rename_error fs p q of
       Some e \<Rightarrow> (Inl e, sample_at (Suc t) fs)
     | None \<Rightarrow> if p = q then (Inr (), sample_at (Suc t) fs)
         else (Inr (), sample_at (Suc t)
           (touch_dir (int t * 10 ^ 9) (butlast p) (touch_dir (int t * 10 ^ 9) (butlast q) (move_tree p q fs)))))"
  "fs_create_dir p (sample_at t fs) =
    (if look fs p \<noteq> None then (Inl IoAlreadyExists, sample_at (Suc t) fs)
     else if \<not> is_dir_node (look fs (butlast p)) then (Inl IoNotFound, sample_at (Suc t) fs)
     else (Inr (), sample_at (Suc t) (put_node p (DirN (int t * 10 ^ 9)) (touch_dir (int t * 10 ^ 9) (butlast p) fs))))"
  "fs_create_dir_all p (sample_at t fs) =
    (case make_dirs (int t * 10 ^ 9) (ancestors p) fs of (r, fs') \<Rightarrow> (r, sample_at (Suc t) fs'))"
  "fs_read_dir p (sample_at t fs) =
    ((case look fs p of Some (DirN _) \<Rightarrow> Inr (children p fs) | None \<Rightarrow> Inl IoNotFound | _ \<Rightarrow> Inl IoOther),
     sample_at (Suc t) fs)"
  "fs_remove_file p (sample_at t fs) =
    (case look fs p of
       Some (FileN _ _ _) \<Rightarrow> (Inr (), sample_at (Suc t) (touch_dir (int t * 10 ^ 9) (butlast p) (del_tree p fs)))
     | None \<Rightarrow> (Inl IoNotFound, sample_at (Suc t) fs) | _ \<Rightarrow> (Inl IoOther, sample_at (Suc t) fs))"
  "fs_remove_dir_all p (sample_at t fs) =
    (if p = [] then (Inl IoOther, sample_at (Suc t) fs) else
     case look fs p of
       Some (DirN _) \<Rightarrow> (Inr (), sample_at (Suc t) (touch_dir (int t * 10 ^ 9) (butlast p) (del_tree p fs)))
     | None \<Rightarrow> (Inl IoNotFound, sample_at (Suc t) fs) | _ \<Rightarrow> (Inl IoOther, sample_at (Suc t) fs))"
  "fs_mtime p (sample_at t fs) =
    ((case look fs p of Some (DirN m) \<Rightarrow> Inr m | Some (FileN _ m _) \<Rightarrow> Inr m | None \<Rightarrow> Inl IoNotFound),
     sample_at (Suc t) fs)"
  by (auto simp: fs_read_def fs_write_def fs_rename_def fs_create_dir_def fs_create_dir_all_def fs_read_dir_def
      fs_remove_file_def fs_remove_dir_all_def fs_mtime_def sample_prim error_of_Pass split: option.splits node.splits prod.splits)

lemmas sample_io = sample_step sample_exists sample_ops ctx_def ser_io_def Let_def
lemmas sample_fs = look_def is_dir_node_def put_node_def del_tree_def move_tree_def children_def touch_dir_def
  store_file_def rename_error_def ancestors_def upt_rec sample_run_def

lemma sample_expiry: "lf_expires_at sample_lease = 1800"
  by (simp add: sample_lease_def new_lease_def sample_config_def GCConfig_default_def)

lemma sample_codec_fields:
  "cd_de_status sample_codecs = (\<lambda>_. Inr sample_status)" "cd_ser_status sample_codecs = (\<lambda>_. Inr ''s'')"
  "cd_de_lease sample_codecs = (\<lambda>_. Inr sample_lease)" "cd_ser_lease sample_codecs = (\<lambda>_. Inr ''l'')"
  "cd_de_progress sample_codecs = (\<lambda>_. Inr sample_progress)" "cd_ser_progress sample_codecs = (\<lambda>_. Inr ''p'')"
  "cd_ser_begin sample_codecs = (\<lambda>_. Inr ''b'')"
  "cd_de_run_config sample_codecs = (\<lambda>_. Inr sample_run_config)" "cd_ser_run_config sample_codecs = (\<lambda>_. Inr ''c'')"
  "cd_de_manifest sample_codecs = (\<lambda>_. Inr sample_manifest)" "cd_ser_prepare sample_codecs = (\<lambda>_. Inr ''q'')"
  "cd_de_plan sample_codecs = (\<lambda>_. Inl ''no plan'')" "cd_ser_plan sample_codecs = (\<lambda>_. Inr ''d'')"
  "probe_purgery_version_from_toml (cd_toml sample_codecs) c = Inr PURGERY_VERSION"
  by (simp_all add: sample_codecs_def probe_purgery_version_from_toml_def version_field_def)

lemma sample_lease_ok: "check_lease sample_codecs (Nickname ''n'') (RunId ''R'') c = Inr sample_lease"
  by (simp add: check_lease_def read_lease_def sample_codec_fields current_accepted sample_lease_def new_lease_def)

lemmas sample_eval = sample_path sample_parent sample_io sample_fs sample_codec_fields sample_lease_ok sample_expiry

lemma sample_publishes:
  "fst (publish_status_atomic sample_codecs (sample_dir Processing) sample_status
    (sample_at 0 (sample_run Processing []))) = Inr ()"
  by (simp add: publish_status_atomic_def sample_eval)

theorem publish_status_all_or_nothing_witness:
  "\<exists>l. view (nodes (snd (publish_status_atomic sample_codecs (sample_dir Processing) sample_status
      (sample_at 0 (sample_run Processing []))))) (sample_dir Processing @ [''status.toml'']) = Some (FileN ''s'' 0 l)"
proof -
  let ?w = "sample_at 0 (sample_run Processing [])"
  obtain w' where 1: "publish_status_atomic sample_codecs (sample_dir Processing) sample_status ?w = (Inr (), w')"
    using sample_publishes by (metis prod.collapse)
  have "fs_wf (nodes ?w)" by (simp add: sample_at_def sample_run_wf)
  from publish_status_all_or_nothing [OF this _ 1] have
    "\<exists>l. view (nodes w') (sample_dir Processing @ [''status.toml'']) = Some (FileN ''s'' 0 l)"
    by (simp add: sample_codec_fields)
  then show ?thesis by (simp only: 1 snd_conv)
qed

lemma sample_finishes:
  "fst (finish_run sample_codecs sample_config (Nickname ''n'') (RunId ''R'')
    (sample_at 0 (sample_run Incoming [(''lease.toml'', ''l'')]))) = Inr ()"
  by (simp add: finish_run_def sample_eval)

theorem finish_run_moves_leased_witness:
  "view (nodes (snd (finish_run sample_codecs sample_config (Nickname ''n'') (RunId ''R'')
      (sample_at 0 (sample_run Incoming [(''lease.toml'', ''l'')]))))) (sample_dir Ready @ [''lease.toml'']) =
    Some (FileN ''l'' 0 None)"
proof -
  let ?w = "sample_at 0 (sample_run Incoming [(''lease.toml'', ''l'')])"
  obtain w' where 1: "finish_run sample_codecs sample_config (Nickname ''n'') (RunId ''R'') ?w = (Inr (), w')"
    using sample_finishes by (metis prod.collapse)
  have wf: "fs_wf (nodes ?w)" by (simp add: sample_at_def sample_run_wf)
  have src: "view (nodes ?w) (sample_dir Incoming @ [''lease.toml'']) = Some (FileN ''l'' 0 None)"
    and none: "\<forall>ph \<in> {Ready, Processing, Done, Failed}. view (nodes ?w) (sample_dir ph) = None"
    by (simp_all add: sample_at_def view_def sample_fs)
  from finish_run_moves_leased [OF sample_run_ok wf 1] none
  have "moved (sc_work_dir sample_config) (Nickname ''n'') (RunId ''R'') Incoming Ready (nodes ?w) (nodes w')"
    by (auto simp: sample_path)
  then have "view (nodes w') (sample_dir Ready @ [''lease.toml'']) = Some (FileN ''l'' 0 None)"
    using src by (simp only: moved_def sample_path)
  then show ?thesis by (simp only: 1 snd_conv)
qed


lemma sample_finalizes:
  "fst (finalize_processing_run sample_config (Nickname ''n'') (RunId ''R'') RsDone
    (sample_at 0 (sample_run Processing [(''status.toml'', ''s''), (''progress.toml'', ''p'')]))) = Inr ()"
  by (simp add: finalize_processing_run_def terminal_phase_def prune_success_terminal_def prune_dir_def
      prune_file_def sample_eval)

theorem finalize_never_loses_witness:
  "view (nodes (snd (finalize_processing_run sample_config (Nickname ''n'') (RunId ''R'') RsDone
      (sample_at 0 (sample_run Processing [(''status.toml'', ''s''), (''progress.toml'', ''p'')])))))
      (sample_dir Done @ [''status.toml'']) = Some (FileN ''s'' 0 None)"
proof -
  let ?w = "sample_at 0 (sample_run Processing [(''status.toml'', ''s''), (''progress.toml'', ''p'')])"
  obtain w' where 1: "finalize_processing_run sample_config (Nickname ''n'') (RunId ''R'') RsDone ?w = (Inr (), w')"
    using sample_finalizes by (metis prod.collapse)
  have wf: "fs_wf (nodes ?w)" by (simp add: sample_at_def sample_run_wf)
  have src: "view (nodes ?w) (sample_dir Processing @ [''status.toml'']) = Some (FileN ''s'' 0 None)"
    by (simp add: sample_at_def view_def sample_fs)
  have nd: "\<not> disposable (hd [''status.toml''])" by code_simp
  have td: "terminal_phase RsDone = Done" by (simp add: terminal_phase_def)
  from finalize_never_loses [OF sample_run_ok wf 1] nd
  have "view (nodes w') (sample_dir Done @ [''status.toml'']) = view (nodes ?w) (sample_dir Processing @ [''status.toml''])"
    unfolding sample_path td sum.case by blast
  then show ?thesis by (simp only: 1 snd_conv src)
qed

lemma sample_begins:
  "fst (begin_run sample_codecs sample_config (Nickname ''n'') (RunId ''R'') (sample_at 0 [])) = Inr ''b''"
  by (simp add: begin_run_def all_phases_def write_lease_def sample_eval)

theorem begin_run_creates_fresh_witness:
  "view (nodes (snd (begin_run sample_codecs sample_config (Nickname ''n'') (RunId ''R'') (sample_at 0 []))))
     (sample_dir Incoming @ [''files'']) = vdir"
proof -
  let ?w = "sample_at 0 []"
  obtain w' where 1: "begin_run sample_codecs sample_config (Nickname ''n'') (RunId ''R'') ?w = (Inr ''b'', w')"
    using sample_begins by (metis prod.collapse)
  have "fs_wf (nodes ?w)" "reliable ?w" by (simp_all add: sample_at_def fs_wf_def keys_def reliable_def)
  from begin_run_creates_fresh [OF sample_run_ok this 1] show ?thesis
    by (auto simp: sample_path 1)
qed

end
