(* ===== verification/Server_Samples.thy ===== *)
theory Server_Samples
  imports Run_Samples Server_Laws
begin

text \<open>
  Concrete instances of the theorems of \<open>Server_Laws\<close>, on the sample world of \<open>Run_Samples\<close>.
\<close>

section \<open>Heartbeats and leases\<close>

lemma sample_heartbeats:
  "fst (heartbeat_run sample_codecs sample_config (Nickname ''n'') (RunId ''R'')
    (sample_at 0 (sample_run Incoming [(''lease.toml'', ''k'')]))) = Inr ()"
  by (simp add: heartbeat_run_def sample_eval sample_lease_ok [unfolded check_lease_def] read_lease_def
      current_accepted sample_lease_def new_lease_def)

theorem heartbeat_renews_own_lease_witness:
  "\<exists>l. view (nodes (snd (heartbeat_run sample_codecs sample_config (Nickname ''n'') (RunId ''R'')
      (sample_at 0 (sample_run Incoming [(''lease.toml'', ''k'')]))))) (sample_dir Incoming @ [''lease.toml'']) =
    Some (FileN ''l'' 0 l)"
proof -
  let ?w = "sample_at 0 (sample_run Incoming [(''lease.toml'', ''k'')])"
  obtain w' where 1: "heartbeat_run sample_codecs sample_config (Nickname ''n'') (RunId ''R'') ?w = (Inr (), w')"
    using sample_heartbeats by (metis prod.collapse)
  have wf: "fs_wf (nodes ?w)" by (simp add: sample_at_def sample_run_wf)
  from heartbeat_renews_own_lease [OF wf 1] show ?thesis
    by (auto simp: Let_def sample_path sample_codec_fields 1)
qed

theorem lease_outlives_missed_heartbeat_witness:
  "\<not> lf_expires_at (new_lease sample_config (Nickname ''n'') (RunId ''R'') 100) \<le> (101 :: u64)"
proof -
  have "check_intervals GCConfig_default = Inr ()" by (simp add: check_intervals_def GCConfig_default_def)
  from lease_outlives_missed_heartbeat [OF this, of 100 "ServerWorkDir ''/w''" "[]" LoggingConfig_default "Nickname ''n''" "RunId ''R''"]
  show ?thesis by (simp add: sample_config_def GCConfig_default_def)
qed

section \<open>Preparing a run\<close>

theorem resolved_operand_keeps_meaning_witness:
  "\<exists>d'. DestinationPath_new ''/c/x/'' = Inr d' \<and> dp_intent d' = TrailingSlash"
proof -
  have 1: "DestinationPath_new ''x/'' = Inr \<lparr>dp_path = ''x'', dp_operand = ''x/'', dp_intent = TrailingSlash\<rparr>"
    by code_simp
  have cwd: "''/c'' = abs_path [''c'']" "list_all plain_name [''c'']" by code_simp+
  have op: "resolved_operand ''/c'' \<lparr>dp_path = ''x'', dp_operand = ''x/'', dp_intent = TrailingSlash\<rparr> = ''/c/x/''"
    by code_simp
  have rel: "\<not> path_absolute (dp_path \<lparr>dp_path = ''x'', dp_operand = ''x/'', dp_intent = TrailingSlash\<rparr>)" by code_simp
  from resolved_operand_keeps_meaning [OF 1 rel cwd] show ?thesis by (auto simp: op)
qed

definition sample_server :: ServerConfig where
  "sample_server = sample_config\<lparr>sc_transforms :=
     [(''t'', \<lparr>td_name = ''t'', td_kind = Subprocess, td_program = ''p'', td_args = [], td_expected_outputs = [''o'']\<rparr>)]\<rparr>"

lemma sample_server_path: "sc_work_dir sample_server = sc_work_dir sample_config"
  by (simp add: sample_server_def)

lemma sample_toml_ok: "require_compatible_toml_version (cd_toml sample_codecs) c ctxt = Inr ()"
  by (simp add: require_compatible_toml_version_def sample_codec_fields current_accepted)

lemma sample_manifest_ok: "manifest_from_toml (\<lambda>_. Inr sample_manifest) c = Inr sample_manifest"
proof -
  have "mf_entries sample_manifest \<noteq> []" "find invalid_entry (mf_entries sample_manifest) = None" by code_simp+
  then show ?thesis by (simp add: manifest_from_toml_def)
qed

text \<open>A run with a relative destination, and encoders that write the destination.\<close>

definition relative_destination :: DestinationPath where
  "relative_destination = \<lparr>dp_path = ''x'', dp_operand = ''x/'', dp_intent = TrailingSlash\<rparr>"

definition relative_codecs :: codecs where
  "relative_codecs = sample_codecs
     \<lparr>cd_de_run_config := (\<lambda>_. Inr (sample_run_config\<lparr>rc_destination := relative_destination\<rparr>)),
      cd_ser_run_config := (\<lambda>rc. Inr (dp_operand (rc_destination rc))),
      cd_ser_prepare := (\<lambda>a. Inr (case pp_destination a of None \<Rightarrow> [] | Some d \<Rightarrow> d))\<rparr>"

abbreviation relative_world :: world where
  "relative_world \<equiv> sample_at 0 (sample_run Incoming [(''run.toml'', ''k''), (''manifest.toml'', ''m'')])"

lemma relative_valid:
  "validate_transform_run sample_server sample_manifest (sample_run_config\<lparr>rc_destination := relative_destination\<rparr>) = Inr ()"
  "validate_envelope (Nickname ''n'') (RunId ''R'') (sample_run_config\<lparr>rc_destination := relative_destination\<rparr>) sample_manifest = Inr ()"
  by code_simp+

lemma relative_fields:
  "cd_toml relative_codecs = cd_toml sample_codecs" "cd_de_manifest relative_codecs = cd_de_manifest sample_codecs"
  "cd_de_run_config relative_codecs c = Inr (sample_run_config\<lparr>rc_destination := relative_destination\<rparr>)"
  "cd_ser_run_config relative_codecs rc = Inr (dp_operand (rc_destination rc))"
  "cd_ser_prepare relative_codecs a = Inr (case pp_destination a of None \<Rightarrow> [] | Some d \<Rightarrow> d)"
  by (simp_all add: relative_codecs_def)

lemma relative_resolves:
  "\<not> path_absolute (dp_path relative_destination)"
  "DestinationPath_new (resolved_operand ''/c'' relative_destination) = Inr \<lparr>dp_path = ''/c/x'', dp_operand = ''/c/x/'', dp_intent = TrailingSlash\<rparr>"
  "DestinationPath_new ''x/'' = Inr relative_destination" "''/c'' = abs_path [''c'']" "list_all plain_name [''c'']"
  "components ''/c'' @ filter (\<lambda>c. c \<noteq> CurDir) (components (dp_path relative_destination)) = [RootDir, Normal ''c'', Normal ''x'']"
  by code_simp+

lemma relative_prepares:
  "\<exists>w'. prepare_run relative_codecs (Inr ''/c'') sample_server (Nickname ''n'') (RunId ''R'') relative_world = (Inr ''/c/x/'', w')"
  using relative_valid relative_resolves(1,2)
  by (simp add: prepare_run_def read_run_inputs_def commit_destination_def bail_def sample_server_path sample_eval relative_fields
      sample_toml_ok run_config_from_toml_def run_config_to_toml_def sample_manifest_ok del: bail_eq)

theorem prepare_run_gate_witness:
  "\<exists>w' (d :: DestinationPath) l. prepare_run relative_codecs (Inr ''/c'') sample_server (Nickname ''n'') (RunId ''R'') relative_world = (Inr ''/c/x/'', w') \<and>
     components (dp_path d) = [RootDir, Normal ''c'', Normal ''x''] \<and> dp_intent d = TrailingSlash \<and>
     view (nodes w') (sample_dir Incoming @ [''run.toml'']) = Some (FileN (dp_operand d) 0 l)"
proof -
  obtain w' where 1: "prepare_run relative_codecs (Inr ''/c'') sample_server (Nickname ''n'') (RunId ''R'') relative_world = (Inr ''/c/x/'', w')"
    using relative_prepares by blast
  have wf: "fs_wf (nodes relative_world)" by (simp add: sample_at_def sample_run_wf)
  have dest: "decodes_destinations relative_codecs"
    unfolding decodes_destinations_def using relative_resolves(3) by (auto simp: relative_fields)
  have cwd: "\<exists>cs. dir = abs_path cs \<and> list_all plain_name cs" if "Inr ''/c'' = (Inr dir :: (io_error, string) result)" for dir
    using that relative_resolves(4,5) by auto
  from prepare_run_gate [OF wf 1 dest cwd] obtain rc where rc:
    "described relative_codecs sample_server (Nickname ''n'') (RunId ''R'') (sample_dir Incoming) (nodes relative_world) rc"
    "prepared relative_codecs (Inr ''/c'') (Nickname ''n'') (RunId ''R'') (sample_dir Incoming) rc ''/c/x/'' (nodes relative_world) (nodes w')"
    by (auto simp: Let_def sample_server_path sample_path)
  from rc(1) have c: "rc_destination rc = relative_destination"
    unfolding described_def by (auto simp: relative_fields)
  from rc(2) [unfolded prepared_def c] relative_resolves(1) obtain d dir out l where d:
    "Inr ''/c'' = (Inr dir :: (io_error, string) result)" "dp_intent d = dp_intent relative_destination"
    "components (dp_path d) = components dir @ filter (\<lambda>c. c \<noteq> CurDir) (components (dp_path relative_destination))"
    "cd_ser_run_config relative_codecs \<lparr>rc_purgery_version = PURGERY_VERSION, rc_nickname = Nickname ''n'',
      rc_destination = d, rc_delete_after_import = rc_delete_after_import rc\<rparr> = Inr out"
    "view (nodes w') (sample_dir Incoming @ [''run.toml'']) = Some (FileN out 0 l)"
    by (simp only: if_False) (elim exE conjE, rule that)
  from d(1,3) relative_resolves(6) have "components (dp_path d) = [RootDir, Normal ''c'', Normal ''x'']" by simp
  moreover from d(2) have "dp_intent d = TrailingSlash" by (simp add: relative_destination_def)
  moreover from d(4) have "out = dp_operand d" by (simp add: relative_fields)
  moreover note d(5)
  ultimately show ?thesis using 1 by blast
qed

section \<open>Run state\<close>

lemma sample_judged: "judge_terminal sample_codecs (Nickname ''n'') (RunId ''R'') c = TsValid"
  by (simp add: judge_terminal_def sample_codec_fields run_status_from_toml_def sample_status_def current_accepted)

lemma sample_state:
  "\<exists>resp w'. run_state sample_codecs 7 sample_config (Nickname ''n'') (RunId ''R'')
    (sample_at 0 (sample_run Done [(''status.toml'', ''s'')])) = (Inr resp, w') \<and> rr_terminal resp"
  by (simp add: run_state_def try_read_status_def modified_or_zero_def dir_modified_at_def sample_judged
      state_response_def bare_fields_def sample_eval)

lemma sample_done_world:
  defines "w \<equiv> sample_at 0 (sample_run Done [(''status.toml'', ''s'')])"
  shows "faultless w" "fs_wf (nodes w)" "fresh_handle 7 (nodes w)"
  unfolding w_def
  by (simp_all add: sample_at_def faultless_def sample_run_wf) (simp add: fresh_handle_def sample_fs)

theorem run_state_truthful_witness:
  "\<exists>ph \<in> {Done, Failed}. valid_status_in sample_codecs sample_config (Nickname ''n'') (RunId ''R'')
    (nodes (sample_at 0 (sample_run Done [(''status.toml'', ''s'')]))) ph"
proof -
  obtain resp w' where 1: "run_state sample_codecs 7 sample_config (Nickname ''n'') (RunId ''R'')
    (sample_at 0 (sample_run Done [(''status.toml'', ''s'')])) = (Inr resp, w')" "rr_terminal resp"
    using sample_state by blast
  from run_state_truthful [OF sample_done_world(3) 1(1)] 1(2) show ?thesis by auto
qed

theorem terminal_answer_has_status_witness:
  "\<exists>w status w''. read_run_status sample_codecs sample_config (Nickname ''n'') (RunId ''R'') w = (Inr status, w'') \<and>
    own_status (Nickname ''n'') (RunId ''R'') status"
proof -
  obtain resp w' where 1: "run_state sample_codecs 7 sample_config (Nickname ''n'') (RunId ''R'')
    (sample_at 0 (sample_run Done [(''status.toml'', ''s'')])) = (Inr resp, w')" "rr_terminal resp"
    using sample_state by blast
  from terminal_answer_has_status [OF sample_done_world 1] show ?thesis by blast
qed

end
