(* ===== verification/Gc_Samples.thy ===== *)
theory Gc_Samples
  imports Gc_Collect Server_Samples
begin

text \<open>
  Concrete instances of the theorems of \<open>Gc_Collect\<close>, on the sample world of \<open>Run_Samples\<close>.
\<close>

section \<open>Garbage collection\<close>

definition sample_locked :: fs where
  "sample_locked = sample_run Processing [] @ [(sample_dir Processing @ [''processor.lock''], FileN [] 0 (Some 5))]"

theorem gc_only_removes_witness:
  "\<forall>q. view (nodes (snd (run_gc sample_codecs sample_config 7 (sample_at 0 (sample_run Ready []))))) q \<in>
    {view (sample_run Ready []) q, None}"
proof -
  obtain res w' where 1: "run_gc sample_codecs sample_config 7 (sample_at 0 (sample_run Ready [])) = (res, w')"
    by (metis surj_pair)
  have "fresh_handle 7 (nodes (sample_at 0 (sample_run Ready [])))"
    by (simp add: sample_at_def fresh_handle_def sample_fs)
  from gc_only_removes [OF this 1] have
    "\<forall>q. view (nodes w') q = view (sample_run Ready []) q \<or> view (nodes w') q = None"
    by (auto simp: sample_at_def)
  then show ?thesis by (simp only: 1 snd_conv insert_iff empty_iff) simp
qed

theorem gc_spares_live_runs_witness:
  "look (nodes (snd (run_gc sample_codecs sample_config 7 (sample_at 0 sample_locked))))
    (sample_dir Processing @ [''processor.lock'']) = Some (FileN [] 0 (Some 5))"
proof -
  let ?w = "sample_at 0 sample_locked"
  obtain res w' where 1: "run_gc sample_codecs sample_config 7 ?w = (res, w')"
    by (metis surj_pair)
  have names: "Nickname_new (nickname_str (Nickname ''n'')) = Inr (Nickname ''n'')"
    "RunId_new (run_id_str (RunId ''R'')) = Inr (RunId ''R'')" by code_simp+
  have w: "honest ?w" "fresh_handle 7 (nodes ?w)"
    by (simp_all add: sample_at_def honest_def error_of_def) (simp add: fresh_handle_def sample_locked_def sample_fs)
  have l: "sub_tree (nodes ?w) (sample_dir Processing) [''processor.lock''] = Some (FileN [] 0 (Some 5))"
    "sub_tree (nodes ?w) (sample_dir Processing) [] = Some (DirN 0)"
    by (simp_all add: sample_at_def sub_tree_def sample_locked_def sample_fs)
  then have "live_run sample_codecs sample_config (Nickname ''n'') (RunId ''R'') Processing t flt
      (sub_tree (nodes ?w) (sample_dir Processing))" for t flt
    by (simp add: live_run_def)
  from gc_spares_live_runs [OF sample_run_ok names w 1, of Processing, unfolded sample_path, OF this]
  have "sub_tree (nodes w') (sample_dir Processing) = sub_tree (nodes ?w) (sample_dir Processing)" .
  with l(1) show ?thesis by (simp only: 1 snd_conv) (metis sub_tree_def)
qed

theorem gc_collects_exactly_due_witness:
  "look (nodes (snd (collect_run sample_codecs sample_config 7 (Nickname ''n'') (RunId ''R'') Ready (sample_dir Ready) 10000000
    (sample_at 0 (sample_run Ready []))))) (sample_dir Ready) = None"
proof -
  let ?w = "sample_at 0 (sample_run Ready [])"
  obtain res w' where 1: "collect_run sample_codecs sample_config 7 (Nickname ''n'') (RunId ''R'') Ready (sample_dir Ready) 10000000 ?w = (res, w')"
    by (metis surj_pair)
  have w: "faultless ?w" "fresh_handle 7 (nodes ?w)" "look (nodes ?w) (sample_dir Ready) = Some (DirN 0)"
    by (simp_all add: sample_at_def faultless_def) (simp_all add: fresh_handle_def sample_fs)
  have "due sample_codecs (sc_gc sample_config) (Nickname ''n'') (RunId ''R'') Ready 10000000 (sub_tree (nodes ?w) (sample_dir Ready))"
    using w(3) by (simp add: due_def past_def sub_tree_def sample_config_def GCConfig_default_def unix_secs_def saturating_add_def)
  with gc_collects_exactly_due [OF w(1,2) _ w(3) 1] have "look (nodes w') (sample_dir Ready) = None" by simp
  then show ?thesis by (simp only: 1 snd_conv)
qed

end
