(* ===== verification/Process_Samples.thy ===== *)
theory Process_Samples
  imports Claim_Laws Gc_Samples
begin

text \<open>
  Concrete instances of the theorems on processing: a transform whose program ends at once, on the
  sample world of \<open>Run_Samples\<close>.
\<close>

section \<open>A sample entry\<close>

definition sample_child :: child where
  "sample_child = \<lparr>ch_polls = 1, ch_end = Inr \<lparr>ex_success = True, ex_code = Some 0\<rparr>, ch_stdout = None, ch_stderr = None\<rparr>"

definition sample_host :: payload_ops where
  "sample_host = \<lparr>pl_lstat = (\<lambda>_. ret_io KFile), pl_stat = (\<lambda>_. ret_io KFile), pl_len = (\<lambda>_. ret_io 1),
     pl_sha256 = (\<lambda>_. ret_io ''0''), pl_read_link = (\<lambda>_. fail_io IoOther), pl_symlink = (\<lambda>_ _. fail_io IoOther),
     pl_names = (\<lambda>_. ret_io []), pl_walk = (\<lambda>_. ret_io []), pl_spawn = (\<lambda>_ _ _. ret_io sample_child),
     pl_text = (\<lambda>s. s)\<rparr>"

definition sample_entry :: ManifestEntry where
  "sample_entry = hd (mf_entries sample_manifest)"

definition sample_payload :: fs where
  "sample_payload = sample_run Processing [] @
     [(sample_dir Processing @ [''files''], DirN 0), (sample_dir Processing @ [''files'', ''x''], FileN ''a'' 0 None)]"

definition sample_plan :: ResolvedDestinationPlan where
  "sample_plan = (case resolve_destination (rc_destination sample_run_config) (NormalizedRelativePath ''x'') RegularFile False NonDirectory of Inr p \<Rightarrow> p)"

lemma sample_resolved: "resolve_destination (rc_destination sample_run_config) (NormalizedRelativePath ''x'') RegularFile False NonDirectory = Inr sample_plan"
  by code_simp

lemma sample_work_paths: "path_join ''/w/n/processing/R'' ''files/x'' = ''/w/n/processing/R/files/x''"
 "fpath_of ''/w/n/processing/R/files/x'' = [''w'',''n'',''processing'',''R'',''files'',''x'']"
 "fpath_of ''/w/n/processing/R'' = [''w'',''n'',''processing'',''R'']"
 "path_join ''/w/n/work/R'' ''x'' = ''/w/n/work/R/x''"
 "fpath_of ''/w/n/work/R/x'' = [''w'',''n'',''work'',''R'',''x'']"
 "parent_of ''/w/n/work/R/x'' = [''w'',''n'',''work'',''R'']"
 "path_parent ''/w/n/work/R/x'' = Some ''/w/n/work/R''"
  by code_simp+

lemma sample_entry_fields: "me_kind sample_entry = RegularFile" "me_size sample_entry = 1" "me_sha256 sample_entry = None"
  "me_transform sample_entry = Some ''t''" "me_staged_path sample_entry = NormalizedRelativePath ''files/x''"
  "me_relative_path sample_entry = NormalizedRelativePath ''x''" "me_local_path sample_entry = ClientLocalPath ''/a/x''"
  "expected_staged sample_entry = Some (NormalizedRelativePath ''files/x'')"
  by code_simp+

definition sample_transform :: TransformDefinition where
  "sample_transform = \<lparr>td_name = ''t'', td_kind = Subprocess, td_program = ''p'', td_args = [], td_expected_outputs = [''o'']\<rparr>"

lemma sample_transform_facts: "map_of (sc_transforms sample_server) ''t'' = Some sample_transform"
  "validate_transform_definition sample_transform = Inr ()"
  "resolve_expected_outputs_for_target sample_transform ''/w/n/work/R/x'' sample_plan = Inr [''/o'']"
  by code_simp+

lemma sample_host_fields: "pl_lstat sample_host p (sample_at t fs) = (Inr KFile, sample_at t fs)"
  "pl_len sample_host p (sample_at t fs) = (Inr 1, sample_at t fs)"
  "pl_spawn sample_host prog args p (sample_at t fs) = (Inr sample_child, sample_at t fs)"
  "ch_polls sample_child = 1" "ch_end sample_child = Inr \<lparr>ex_success = True, ex_code = Some 0\<rparr>"
  by (simp_all add: sample_host_def sample_child_def sample_step)

definition silent_codecs :: codecs where
  "silent_codecs = sample_codecs\<lparr>cd_ser_progress := \<lambda>_. Inl ''no progress''\<rparr>"

lemma silent_codec_fields: "cd_de_progress silent_codecs = cd_de_progress sample_codecs" "cd_ser_progress silent_codecs = (\<lambda>_. Inl ''no progress'')"
  "cd_de_plan silent_codecs = cd_de_plan sample_codecs" "cd_ser_plan silent_codecs = cd_ser_plan sample_codecs"
  by (simp_all add: silent_codecs_def)

lemma silent_progress:
  "\<exists>t'. write_progress_best_effort silent_codecs p n r state i k e tr (sample_at t fs) = (Inr (), sample_at t' fs)"
proof (cases "validate_progress_update state i k e tr")
 case (Inr u)
 obtain x where "existing_progress_started_at silent_codecs (p @ [''progress.toml'']) n r (sample_at (Suc t) fs) = (Inr x, sample_at (Suc (Suc t)) fs)"
    by (cases "look fs (p @ [''progress.toml''])"; cases "the (look fs (p @ [''progress.toml'']))")
      (auto simp: existing_progress_started_at_def sample_io)
  with Inr show ?thesis
   by (auto simp add: write_progress_best_effort_def write_progress_def sample_io silent_codec_fields )
qed (auto simp: write_progress_best_effort_def write_progress_def sample_io)

lemma sample_applies: "\<exists>t'. apply_transform_for_target sample_host (\<lambda>state. write_progress_best_effort silent_codecs p n r state i k e ''t'') ''t'' sample_transform ''/w/n/work/R/x'' sample_plan (sample_at t fs) = (Inr [''/o''], sample_at t' fs)"
proof -
  have q: "\<exists>t'. quietly (write_progress_best_effort silent_codecs p n r state i k e tr) (sample_at t fs) = ((Inr () :: (string, unit) result), sample_at t' fs)" for t state tr fs
     using silent_progress [of p n r state i k e tr t fs] by (auto simp: quietly_def sample_step)
   obtain t1 where 1: "quietly (write_progress_best_effort silent_codecs p n r ''transform_started'' i k e ''t'') (sample_at t fs) = ((Inr () :: (string, unit) result), sample_at t1 fs)" using q by blast
   obtain t2 where 2: "quietly (write_progress_best_effort silent_codecs p n r ''transform_running'' i k e ''t'') (sample_at t1 fs) = ((Inr () :: (string, unit) result), sample_at t2 fs)" using q by blast
   obtain t3 where 3: "quietly (write_progress_best_effort silent_codecs p n r ''transform_finished'' i k e ''t'') (sample_at t2 fs) = ((Inr () :: (string, unit) result), sample_at t3 fs)" using q by blast
   show ?thesis
   by (auto simp: apply_transform_for_target_def sample_step 1 2 3 sample_transform_facts sample_work_paths fail_with_def is_ok_def sample_host_fields check_output_def)
qed

lemma sample_imports: "\<exists>w'. process_manifest_entry silent_codecs sample_host sample_server sample_entry (Nickname ''n'') (RunId ''R'')
   ''/w/n/processing/R'' ''/w/n/work/R'' 0 1 (rc_destination sample_run_config) (sample_at 0 sample_payload) =
   (Inr (Success RegularFile ''/a/x'' ''x'' [''/o''] (Some ''t'')), w')"
proof -
  have "\<forall>t fs. \<exists>t'. apply_transform_for_target sample_host (\<lambda>state. write_progress_best_effort silent_codecs [''w'', ''n'', ''processing'', ''R'']
    (Nickname ''n'') (RunId ''R'') state 0 (Suc 0) ''x'' ''t'') ''t'' sample_transform ''/w/n/work/R/x'' sample_plan (sample_at t fs) =
    (Inr [''/o''], sample_at t' fs)" by (simp add: sample_applies)
  then obtain g where g: "apply_transform_for_target sample_host (\<lambda>state. write_progress_best_effort silent_codecs
      [''w'', ''n'', ''processing'', ''R''] (Nickname ''n'') (RunId ''R'') state 0 (Suc 0) ''x'' ''t'') ''t'' sample_transform
      ''/w/n/work/R/x'' sample_plan (sample_at t fs) = (Inr [''/o''], sample_at (g t fs) fs)" for t fs
    by metis
  show ?thesis
  by (simp add: process_manifest_entry_def import_entry_def check_staged_def check_identity_def verify_staged_at_def
    load_or_resolve_destination_plan_def inspect_destination_def source_is_empty_def prepare_work_entry_def make_parent_def
     sample_entry_fields sample_work_paths sample_transform_facts sample_resolved fail_with_def kind_matches_def sample_host_fields silent_codec_fields fs_copy_def
     sample_payload_def sample_eval verify_staged_def g)
qed

theorem imported_only_if_verified_witness:
  "\<exists>def. map_of (sc_transforms sample_server) ''t'' = Some def \<and> validate_transform_definition def = Inr ()"
proof -
  obtain w' where 1: "process_manifest_entry silent_codecs sample_host sample_server sample_entry (Nickname ''n'') (RunId ''R'')
      ''/w/n/processing/R'' ''/w/n/work/R'' 0 1 (rc_destination sample_run_config) (sample_at 0 sample_payload) =
    (Inr (Success RegularFile ''/a/x'' ''x'' [''/o''] (Some ''t'')), w')"
    using sample_imports by blast
  from imported_only_if_verified [OF 1] show ?thesis by (auto simp: sample_entry_fields)
qed

section \<open>Sample runs\<close>

theorem locked_run_untouched_witness:
  "nodes (snd (process_run_target sample_codecs sample_host sample_config 7 (Nickname ''n'') (RunId ''R'')
    (sample_at 0 sample_locked))) = sample_locked"
proof -
  let ?w = "sample_at 0 sample_locked"
  obtain res w' where 1: "process_run_target sample_codecs sample_host sample_config 7 (Nickname ''n'') (RunId ''R'') ?w = (res, w')"
    by (metis surj_pair)
  have "taken (nodes ?w) (sc_work_dir sample_config) (Nickname ''n'') (RunId ''R'')"
    by (simp add: sample_at_def taken_def locked_def sample_path sample_locked_def sample_fs view_def)
  from locked_run_untouched [OF this] 1 have "nodes w' = sample_locked" by (auto simp: sample_at_def)
  then show ?thesis by (simp only: 1 snd_conv)
qed

lemma sample_judged_verified: "judge_verified sample_codecs (Nickname ''n'') (RunId ''R'') c = Inr sample_status"
  by (simp add: judge_verified_def sample_codec_fields run_status_from_toml_def sample_status_def current_accepted is_ok_def)

lemma sample_answers:
  "\<exists>resp w'. process_run_target sample_codecs sample_host sample_config 7 (Nickname ''n'') (RunId ''R'')
    (sample_at 0 (sample_run Done [(''status.toml'', ''s'')])) = (Inr resp, w') \<and> pr_outcome resp = ''already_terminal''"
  by (simp add: process_run_target_def process_run_inner_def claim_ready_run_def recheck_state_def terminal_answer_or_def
     verified_terminal_status_def sample_judged_verified sample_eval)

theorem process_answers_verified_witness:
  "\<exists>p s. own_terminal sample_codecs sample_config (Nickname ''n'') (RunId ''R'')
    (nodes (snd (process_run_target sample_codecs sample_host sample_config 7 (Nickname ''n'') (RunId ''R'')
      (sample_at 0 (sample_run Done [(''status.toml'', ''s'')]))))) p s"
proof -
  obtain resp w' where 1: "process_run_target sample_codecs sample_host sample_config 7 (Nickname ''n'') (RunId ''R'')
    (sample_at 0 (sample_run Done [(''status.toml'', ''s'')])) = (Inr resp, w')" "pr_outcome resp = ''already_terminal''"
    using sample_answers by blast
  from process_answers_verified [OF 1(1)] 1(2) have
    "\<exists>p s. own_terminal sample_codecs sample_config (Nickname ''n'') (RunId ''R'') (nodes w') p s" by (simp split: if_splits) blast
  then show ?thesis by (simp only: 1(1) snd_conv)
qed

theorem claim_never_loses_witness:
  "\<exists>ph. whole_in (ServerWorkDir ''/w'') (Nickname ''n'') (RunId ''R'') (sample_run Ready [(''run.toml'', ''k'')]) ph
    (nodes (snd (claim_ready_run sample_codecs sample_config 7 (Nickname ''n'') (RunId ''R'')
      (sample_at 0 (sample_run Ready [(''run.toml'', ''k'')])))))"
proof -
  let ?w = "sample_at 0 (sample_run Ready [(''run.toml'', ''k'')])"
  obtain x w' where 1: "claim_ready_run sample_codecs sample_config 7 (Nickname ''n'') (RunId ''R'') ?w = (x, w')"
    by (metis surj_pair)
  have w: "fs_wf (nodes ?w)" "view (nodes ?w) (run_path (sc_work_dir sample_config) (Nickname ''n'') (RunId ''R'') Processing) = None"
    "view (nodes ?w) (run_path (sc_work_dir sample_config) (Nickname ''n'') (RunId ''R'') Failed) = None"
    by (simp_all add: sample_at_def sample_run_wf) (simp_all add: view_def sample_path sample_fs)
  from claim_never_loses [OF sample_run_ok w 1] have
    "\<exists>ph. whole_in (ServerWorkDir ''/w'') (Nickname ''n'') (RunId ''R'') (sample_run Ready [(''run.toml'', ''k'')]) ph (nodes w')"
    by (auto simp: sample_at_def sample_config_def)
  then show ?thesis by (simp only: 1 snd_conv)
qed
end
