(* ===== verification/Sources.thy ===== *)
theory Sources
  imports Fs
begin

text \<open>
  The client's sources: a tree of files, directories and symbolic links, path resolution through
  links as POSIX has it (with the usual bound of 40 links), and the operations of \<open>std::fs\<close> that the
  client applies to them. A relative path starts at the root of the tree. Every operation may fail
  as the schedule of faults says.
\<close>

section \<open>Resolution\<close>

definition src_node :: "source_tree \<Rightarrow> fpath \<Rightarrow> source option" where
  "src_node t p = (if p = [] then Some SourceDir else map_of t p)"

definition src_children :: "fpath \<Rightarrow> source_tree \<Rightarrow> string list" where
  "src_children p t = map (last \<circ> fst) (filter (\<lambda>(k, _). k \<noteq> [] \<and> butlast k = p) t)"

text \<open>
  \<open>follow n t whole p cs\<close> walks the components \<open>cs\<close> from the directory \<open>p\<close> through at most \<open>n\<close> links;
  a link in the last place is followed when \<open>whole\<close> holds.
\<close>

fun follow :: "nat \<Rightarrow> source_tree \<Rightarrow> bool \<Rightarrow> fpath \<Rightarrow> comp list \<Rightarrow> (io_error, fpath) result" where
  "follow n t whole p [] = Inr p"
| "follow n t whole p (RootDir # cs) = follow n t whole [] cs"
| "follow n t whole p (CurDir # cs) = follow n t whole p cs"
| "follow n t whole p (ParentDir # cs) = follow n t whole (butlast p) cs"
| "follow n t whole p (Normal s # cs) =
     (case src_node t (p @ [s]) of
        None \<Rightarrow> Inl IoNotFound
      | Some (SourceLink target) \<Rightarrow>
          if cs = [] \<and> \<not> whole then Inr (p @ [s])
          else (case n of 0 \<Rightarrow> Inl IoOther | Suc m \<Rightarrow> follow m t whole p (components target @ cs))
      | Some SourceDir \<Rightarrow> follow n t whole (p @ [s]) cs
      | Some _ \<Rightarrow> if cs = [] then Inr (p @ [s]) else Inl IoOther)"

definition MAX_LINKS :: nat where
  "MAX_LINKS = 40"

definition src_resolve :: "source_tree \<Rightarrow> bool \<Rightarrow> string \<Rightarrow> (io_error, fpath) result" where
  "src_resolve t whole path = follow MAX_LINKS t whole [] (components path)"

text \<open>The node a path names, and where it is.\<close>

definition src_locate :: "source_tree \<Rightarrow> bool \<Rightarrow> string \<Rightarrow> (io_error, fpath \<times> source) result" where
  "src_locate t whole path =
     bind_res (src_resolve t whole path) (\<lambda>p.
       case src_node t p of None \<Rightarrow> Inl IoNotFound | Some d \<Rightarrow> Inr (p, d))"

text \<open>A path that ends in a slash or in a component \<open>.\<close> names a directory; a link there is followed.\<close>

definition dir_operand :: "string \<Rightarrow> bool" where
  "dir_operand path \<longleftrightarrow> ends_with ''/'' path \<or> ends_with ''/.'' path"

definition src_find :: "source_tree \<Rightarrow> bool \<Rightarrow> string \<Rightarrow> (io_error, fpath \<times> source) result" where
  "src_find t whole path =
     (if dir_operand path
      then bind_res (src_locate t True path) (\<lambda>(p, d). if d = SourceDir then Inr (p, d) else Inl IoOther)
      else src_locate t whole path)"

section \<open>Operations\<close>

definition src_prim :: "(fault \<Rightarrow> source_tree \<Rightarrow> ('e, 'a) result \<times> source_tree) \<Rightarrow> ('e, 'a) io" where
  "src_prim f w =
     (case f (faults w (tick w)) (sources w) of
        (r, t) \<Rightarrow> (r, w\<lparr>sources := t, tick := Suc (tick w)\<rparr>))"

definition src_query :: "bool \<Rightarrow> (source_tree \<Rightarrow> fpath \<Rightarrow> source \<Rightarrow> (io_error, 'a) result) \<Rightarrow> string \<Rightarrow> (io_error, 'a) io" where
  "src_query whole f path = src_prim (\<lambda>flt t.
     (case error_of flt of
        Some e \<Rightarrow> (Inl e, t)
      | None \<Rightarrow> (bind_res (src_find t whole path) (\<lambda>(p, d). f t p d), t)))"

text \<open>\<open>symlink_metadata\<close>, \<open>metadata\<close>, \<open>read_link\<close>, \<open>read_dir\<close> and reading a file to its end.\<close>

definition src_lstat :: "string \<Rightarrow> (io_error, source) io" where
  "src_lstat = src_query False (\<lambda>_ _ d. Inr d)"

definition src_stat :: "string \<Rightarrow> (io_error, source) io" where
  "src_stat = src_query True (\<lambda>_ _ d. Inr d)"

definition src_read_link :: "string \<Rightarrow> (io_error, string) io" where
  "src_read_link = src_query False (\<lambda>_ _ d. case d of SourceLink target \<Rightarrow> Inr target | _ \<Rightarrow> Inl IoOther)"

definition src_names :: "string \<Rightarrow> (io_error, string list) io" where
  "src_names = src_query True (\<lambda>t p d. case d of SourceDir \<Rightarrow> Inr (src_children p t) | _ \<Rightarrow> Inl IoOther)"

definition src_content :: "string \<Rightarrow> (io_error, string) io" where
  "src_content = src_query True (\<lambda>_ _ d. case d of SourceFile c _ \<Rightarrow> Inr c | _ \<Rightarrow> Inl IoOther)"

definition src_delete :: "fpath \<Rightarrow> source_tree \<Rightarrow> source_tree" where
  "src_delete p t = filter (\<lambda>(k, _). k \<noteq> p) t"

definition src_remove :: "(source_tree \<Rightarrow> fpath \<Rightarrow> source \<Rightarrow> io_error option) \<Rightarrow> string \<Rightarrow> (io_error, unit) io" where
  "src_remove refuse path = src_prim (\<lambda>flt t.
     (case error_of flt of
        Some e \<Rightarrow> (Inl e, t)
      | None \<Rightarrow>
        (case src_locate t False path of
           Inl e \<Rightarrow> (Inl e, t)
         | Inr (p, d) \<Rightarrow>
           (case refuse t p d of
              Some e \<Rightarrow> (Inl e, t)
            | None \<Rightarrow> (Inr (), src_delete p t)))))"

text \<open>
  \<open>remove_file\<close> unlinks anything but a directory; \<open>remove_dir\<close> removes an empty directory. Neither
  follows a link in the last place.
\<close>

definition src_remove_file :: "string \<Rightarrow> (io_error, unit) io" where
  "src_remove_file path =
     src_remove (\<lambda>_ _ d. if dir_operand path \<or> d = SourceDir then Some IoOther else None) path"

definition src_remove_dir :: "string \<Rightarrow> (io_error, unit) io" where
  "src_remove_dir path = src_remove (\<lambda>t p d.
     if d \<noteq> SourceDir \<or> p = [] \<or> ends_with ''/.'' path then Some IoOther
     else if src_children p t \<noteq> [] then Some IoDirectoryNotEmpty else None) path"

section \<open>Shrinking trees\<close>

definition shrunk :: "source_tree \<Rightarrow> source_tree \<Rightarrow> bool" where
  "shrunk t t' \<longleftrightarrow> (\<forall>q. src_node t' q = src_node t q \<or> src_node t' q = None)"

lemma src_node_Nil [simp]: "src_node t [] = Some SourceDir"
  by (simp add: src_node_def)

lemma src_node_delete: "src_node (src_delete p t) q = (if q = p \<and> q \<noteq> [] then None else src_node t q)"
proof -
  have "map_of (filter (\<lambda>(k, _). k \<noteq> p) t) q = (if q = p then None else map_of t q)"
    by (induction t) auto
  then show ?thesis by (cases "q = p") (simp_all add: src_node_def src_delete_def)
qed

lemma shrunk_refl [simp]: "shrunk t t"
  by (simp add: shrunk_def)

lemma shrunk_trans: "shrunk t t' \<Longrightarrow> shrunk t' t'' \<Longrightarrow> shrunk t t''"
  unfolding shrunk_def by metis

lemma shrunk_delete: "shrunk t (src_delete p t)"
  by (simp add: shrunk_def src_node_delete)

lemma shrunk_Some: "shrunk t t' \<Longrightarrow> src_node t' q = Some d \<Longrightarrow> src_node t q = Some d"
  unfolding shrunk_def by (metis option.distinct(1))

text \<open>What a path names in the smaller tree it names in the larger one.\<close>

lemma follow_shrunk: "shrunk t t' \<Longrightarrow> follow n t' whole p cs = Inr q \<Longrightarrow> follow n t whole p cs = Inr q"
proof (induction n t' whole p cs rule: follow.induct)
  case (5 n t' whole p s cs)
  then obtain d where d: "src_node t' (p @ [s]) = Some d" "src_node t (p @ [s]) = Some d"
    by (auto split: option.splits dest: shrunk_Some)
  with 5 show ?case by (cases d; cases n) (auto split: if_splits)
qed simp_all

text \<open>Following the last link makes no other difference.\<close>

lemma follow_whole:
  "follow n t False p cs = Inr q \<Longrightarrow> (\<And>target. src_node t q \<noteq> Some (SourceLink target)) \<Longrightarrow> follow n t True p cs = Inr q"
  "follow n t False p cs = Inl e \<Longrightarrow> follow n t True p cs = Inl e"
proof (induction n t False p cs rule: follow.induct)
  case (5 n t p s cs)
  { case 1
    show ?case
    proof (cases "src_node t (p @ [s])")
      case (Some d)
      with 1 5 show ?thesis by (cases d; cases n) (auto split: if_splits)
    qed (use 1 in simp)
  next
    case 2
    show ?case
    proof (cases "src_node t (p @ [s])")
      case (Some d)
      with 2 5 show ?thesis by (cases d; cases n) (auto split: if_splits)
    qed (use 2 in simp) }
qed simp_all

lemma src_locate_Inr:
  "src_locate t whole path = Inr (p, d) \<longleftrightarrow> src_resolve t whole path = Inr p \<and> src_node t p = Some d"
  by (auto simp: src_locate_def bind_res_Inr_iff split: option.splits)

lemma src_locate_shrunk:
  "shrunk t t' \<Longrightarrow> src_locate t' whole path = Inr (p, d) \<Longrightarrow> src_locate t whole path = Inr (p, d)"
  unfolding src_locate_Inr src_resolve_def by (blast intro: follow_shrunk shrunk_Some)

lemma src_locate_whole:
  "src_locate t False path = Inr (p, d) \<Longrightarrow> (\<And>target. d \<noteq> SourceLink target) \<Longrightarrow> src_locate t True path = Inr (p, d)"
  unfolding src_locate_Inr src_resolve_def by (metis follow_whole(1) option.inject)

lemma src_find_Inr: "src_find t whole path = Inr (p, d) \<longleftrightarrow>
    src_locate t (whole \<or> dir_operand path) path = Inr (p, d) \<and> (dir_operand path \<longrightarrow> d = SourceDir)"
  by (auto simp: src_find_def bind_res_Inr_iff split: if_splits)

lemma src_find_shrunk:
  "shrunk t t' \<Longrightarrow> src_find t' whole path = Inr (p, d) \<Longrightarrow> src_find t whole path = Inr (p, d)"
  unfolding src_find_Inr by (blast intro: src_locate_shrunk)

lemma src_find_whole:
  "src_find t False path = Inr (p, d) \<Longrightarrow> (\<And>target. d \<noteq> SourceLink target) \<Longrightarrow> src_find t True path = Inr (p, d)"
  unfolding src_find_Inr by (cases "dir_operand path") (auto intro: src_locate_whole)

lemma src_find_missing: "src_locate t False path = Inl IoNotFound \<Longrightarrow> src_find t False path \<noteq> Inr (p, d)"
proof
  assume l: "src_locate t False path = Inl IoNotFound" and "src_find t False path = Inr (p, d)"
  then have f: "src_locate t (dir_operand path) path = Inr (p, d)" by (simp add: src_find_Inr)
  with l have "dir_operand path" by (cases "dir_operand path") auto
  with f have p: "src_resolve t True path = Inr p" "src_node t p = Some d" by (simp_all add: src_locate_Inr)
  show False
  proof (cases "src_resolve t False path")
    case (Inl e)
    with follow_whole(2) [of MAX_LINKS t "[]" "components path" e] p(1) show False by (simp add: src_resolve_def)
  next
    case (Inr q)
    with l have "src_node t q = None" by (auto simp: src_locate_def split: option.splits)
    with follow_whole(1) [of MAX_LINKS t "[]" "components path" q] Inr p show False by (simp add: src_resolve_def)
  qed
qed

end
