(* ===== verification/Cleanup.thy ===== *)
theory Cleanup
  imports Sources Phases
begin

text \<open>
  Deleting imported sources (\<open>purgery-client/src/cleanup.rs\<close>). A cleanup state file in the client's
  state directory lists the sources of one run; entries are confirmed once the server reports them
  imported, and confirmed entries are deleted when they are still what was uploaded. The state
  directory belongs to \<open>nodes\<close>, the sources to \<open>sources\<close>. SHA-256 and the TOML codecs of the client
  are parameters; names and link targets are UTF-8; log output is left out.
\<close>

section \<open>Files of the client's state\<close>

record client_codecs =
  cc_toml :: "string \<Rightarrow> (string, toml_value) result"
  cc_de_cleanup :: "DurableCleanupState decoder"
  cc_ser_cleanup :: "DurableCleanupState encoder"
  cc_sha256 :: "string \<Rightarrow> string"

type_synonym 'a client = "(server_error, 'a) io"

text \<open>\<open>Path::with_extension\<close> on a path that has a file name.\<close>

definition with_ext :: "fpath \<Rightarrow> string \<Rightarrow> fpath" where
  "with_ext p ext = butlast p @ [stem_of (last p) @ ''.'' @ ext]"

definition state_dir_path :: "string \<Rightarrow> string client" where
  "state_dir_path state_dir =
     bind_io (ctx ''failed to create state dir'' (fs_create_dir_all (fpath_of state_dir))) (\<lambda>_. ret_io state_dir)"

definition cleanup_file_name :: "DurableCleanupState \<Rightarrow> string" where
  "cleanup_file_name state = ''cleanup-'' @ cs_nickname state @ ''-'' @ cs_operation_id state @ ''.toml''"

definition write_cleanup_state :: "client_codecs \<Rightarrow> DurableCleanupState \<Rightarrow> string \<Rightarrow> string client" where
  "write_cleanup_state cc state state_dir =
     bind_io (state_dir_path state_dir) (\<lambda>dir.
       let filename = cleanup_file_name state;
           final_path = path_join dir filename;
           tmp_path = path_join dir (filename @ ''.tmp'')
       in
       bind_io (ser_io ''failed to serialize cleanup state'' (cc_ser_cleanup cc state)) (\<lambda>content.
       bind_io (ctx ''failed to write cleanup state'' (fs_write (fpath_of tmp_path) content)) (\<lambda>_.
       bind_io (ctx ''failed to atomically publish cleanup state''
         (fs_rename (fpath_of tmp_path) (fpath_of final_path))) (\<lambda>_.
         ret_io final_path))))"

definition write_cleanup_state_atomic :: "client_codecs \<Rightarrow> fpath \<Rightarrow> DurableCleanupState \<Rightarrow> unit client" where
  "write_cleanup_state_atomic cc state_path state =
     (let tmp_path = with_ext state_path ''toml.tmp'' in
      bind_io (ser_io ''failed to serialize cleanup state'' (cc_ser_cleanup cc state)) (\<lambda>new_content.
      bind_io (ctx ''failed to write cleanup state'' (fs_write tmp_path new_content)) (\<lambda>_.
        ctx ''failed to atomically update cleanup state'' (fs_rename tmp_path state_path))))"

definition parse_cleanup :: "client_codecs \<Rightarrow> string \<Rightarrow> (server_error, DurableCleanupState) result" where
  "parse_cleanup cc content =
     (case require_compatible_toml_version (cc_toml cc) content ''cleanup state'' of
        Inl _ \<Rightarrow> Inl (Bail ''incompatible cleanup state version'')
      | Inr _ \<Rightarrow> map_err (\<lambda>_. Bail ''failed to parse cleanup state'') (cc_de_cleanup cc content))"

definition read_cleanup_state :: "client_codecs \<Rightarrow> fpath \<Rightarrow> DurableCleanupState client" where
  "read_cleanup_state cc state_path =
     bind_io (ctx ''failed to read cleanup state'' (fs_read state_path)) (\<lambda>content.
       lift_res (parse_cleanup cc content))"

section \<open>Confirming imports\<close>

definition confirm_all :: "DurableCleanupState \<Rightarrow> DurableCleanupState" where
  "confirm_all state = state\<lparr>cs_entries := map (\<lambda>e. e\<lparr>ce_import_confirmed := True\<rparr>) (cs_entries state)\<rparr>"

definition confirm_all_imports :: "client_codecs \<Rightarrow> fpath \<Rightarrow> unit client" where
  "confirm_all_imports cc state_path =
     bind_io (read_cleanup_state cc state_path) (\<lambda>state.
       write_cleanup_state_atomic cc state_path (confirm_all state))"

text \<open>The status reports this very entry as imported.\<close>

definition reported_imported :: "RunStatus \<Rightarrow> CleanupEntry \<Rightarrow> bool" where
  "reported_imported status e \<longleftrightarrow>
     list_ex (\<lambda>s. es_status s = FsImported \<and> es_local_path s = ce_local_path e \<and>
       es_relative_path s = ce_relative_path e \<and> es_kind s = ce_kind e) (rs_entries status)"

definition confirmed_dirs :: "CleanupEntry list \<Rightarrow> string list" where
  "confirmed_dirs es =
     map ce_relative_path (filter (\<lambda>e. ce_import_confirmed e \<and> ce_kind e = Directory) es)"

definition propagate :: "string list \<Rightarrow> CleanupEntry \<Rightarrow> CleanupEntry" where
  "propagate dirs e =
     (if ce_import_confirmed e then e
      else if list_ex (\<lambda>d. starts_with (d @ ''/'') (ce_relative_path e)) dirs
      then e\<lparr>ce_import_confirmed := True\<rparr> else e)"

definition confirm_from_status :: "RunStatus \<Rightarrow> DurableCleanupState \<Rightarrow> DurableCleanupState" where
  "confirm_from_status status state =
     (let first = map (\<lambda>e. e\<lparr>ce_import_confirmed := reported_imported status e\<rparr>) (cs_entries state)
      in state\<lparr>cs_entries := map (propagate (confirmed_dirs first)) first\<rparr>)"

definition confirm_imports_from_status :: "client_codecs \<Rightarrow> fpath \<Rightarrow> RunStatus \<Rightarrow> unit client" where
  "confirm_imports_from_status cc state_path status =
     bind_io (read_cleanup_state cc state_path) (\<lambda>state.
       write_cleanup_state_atomic cc state_path (confirm_from_status status state))"

section \<open>Cleaning one entry\<close>

text \<open>The digest of the file a path names, links followed.\<close>

definition compute_sha256 :: "client_codecs \<Rightarrow> string \<Rightarrow> string client" where
  "compute_sha256 cc path =
     bind_io (ctx ''failed to read file for SHA-256'' (src_content path)) (\<lambda>c. ret_io (cc_sha256 cc c))"

text \<open>\<open>as_nanos() as i64\<close>; a time before the epoch counts as zero.\<close>

definition mtime_nanos :: "int \<Rightarrow> 64 word" where
  "mtime_nanos m = (if m < 0 then 0 else word_of_int m)"

definition try_clean_symlink :: "CleanupEntry \<Rightarrow> source \<Rightarrow> bool client" where
  "try_clean_symlink entry symmeta =
     (case (symmeta, ce_link_target entry) of
        (SourceLink _, Some expected_target) \<Rightarrow>
          bind_io (attempt_io (src_read_link (ce_local_path entry))) (\<lambda>current.
            if current = Inr expected_target
            then bind_io (attempt_io (src_remove_file (ce_local_path entry))) (\<lambda>r. ret_io (is_ok r))
            else ret_io False)
      | _ \<Rightarrow> ret_io False)"

definition file_unchanged :: "CleanupEntry \<Rightarrow> source \<Rightarrow> bool" where
  "file_unchanged entry meta =
     (case meta of
        SourceFile c m \<Rightarrow> of_nat (length c) = ce_size entry \<and> mtime_nanos m = ce_mtime_ns entry
      | _ \<Rightarrow> False)"

definition try_clean_file :: "client_codecs \<Rightarrow> CleanupEntry \<Rightarrow> source \<Rightarrow> bool client" where
  "try_clean_file cc entry symmeta =
     (case symmeta of
        SourceFile _ _ \<Rightarrow>
          bind_io (attempt_io (src_stat (ce_local_path entry))) (\<lambda>meta.
            case meta of
              Inl _ \<Rightarrow> ret_io False
            | Inr m \<Rightarrow>
              if \<not> file_unchanged entry m then ret_io False
              else
                (case ce_sha256 entry of
                   None \<Rightarrow> ret_io False
                 | Some expected_sha \<Rightarrow>
                     bind_io (attempt_io (compute_sha256 cc (ce_local_path entry))) (\<lambda>actual.
                       if actual = Inr expected_sha
                       then bind_io (attempt_io (src_remove_file (ce_local_path entry))) (\<lambda>r. ret_io (is_ok r))
                       else ret_io False)))
      | _ \<Rightarrow> ret_io False)"

definition try_clean_entry :: "client_codecs \<Rightarrow> CleanupEntry \<Rightarrow> bool client" where
  "try_clean_entry cc entry =
     bind_io (attempt_io (src_lstat (ce_local_path entry))) (\<lambda>symmeta.
       case symmeta of
         Inl e \<Rightarrow> ret_io (e = IoNotFound)
       | Inr d \<Rightarrow>
         (case ce_kind entry of
            Directory \<Rightarrow> ret_io False
          | Symlink \<Rightarrow> try_clean_symlink entry d
          | RegularFile \<Rightarrow> try_clean_file cc entry d))"

text \<open>Every child on disk is tracked, and cleaned or never confirmed.\<close>

definition child_clear :: "CleanupEntry list \<Rightarrow> string \<Rightarrow> bool" where
  "child_clear entries child_path \<longleftrightarrow>
     list_ex (\<lambda>e. components (ce_local_path e) = components child_path) entries \<and>
     list_ex (\<lambda>e. components (ce_local_path e) = components child_path \<and>
       (ce_cleaned e \<or> \<not> ce_import_confirmed e)) entries"

definition can_remove_directory :: "CleanupEntry list \<Rightarrow> CleanupEntry \<Rightarrow> bool client" where
  "can_remove_directory entries dir_entry =
     bind_io (attempt_io (src_names (ce_local_path dir_entry))) (\<lambda>reader.
       case reader of
         Inl e \<Rightarrow> ret_io (e = IoNotFound)
       | Inr names \<Rightarrow>
           ret_io (list_all (\<lambda>name. child_clear entries (path_join (ce_local_path dir_entry) name)) names))"

section \<open>Processing a cleanup state file\<close>

datatype CleanupOutcome = Complete | StillPending

definition mark_cleaned :: "nat \<Rightarrow> DurableCleanupState \<Rightarrow> DurableCleanupState" where
  "mark_cleaned i state =
     state\<lparr>cs_entries := (cs_entries state)[i := (cs_entries state ! i)\<lparr>ce_cleaned := True\<rparr>]\<rparr>"

text \<open>Both loops run over the indices and stop at the first state that cannot be written.\<close>

fun clean_files :: "client_codecs \<Rightarrow> fpath \<Rightarrow> nat list \<Rightarrow> DurableCleanupState \<Rightarrow> DurableCleanupState client" where
  "clean_files cc state_path [] state = ret_io state"
| "clean_files cc state_path (i # is) state =
     (let e = cs_entries state ! i in
      if \<not> ce_import_confirmed e \<or> ce_cleaned e \<or> ce_kind e = Directory then clean_files cc state_path is state
      else
        bind_io (try_clean_entry cc e) (\<lambda>cleaned.
          if cleaned then
            bind_io (write_cleanup_state_atomic cc state_path (mark_cleaned i state)) (\<lambda>_.
              clean_files cc state_path is (mark_cleaned i state))
          else clean_files cc state_path is state))"

fun clean_dirs :: "client_codecs \<Rightarrow> fpath \<Rightarrow> nat list \<Rightarrow> DurableCleanupState \<Rightarrow> DurableCleanupState client" where
  "clean_dirs cc state_path [] state = ret_io state"
| "clean_dirs cc state_path (i # is) state =
     (let e = cs_entries state ! i in
      if \<not> ce_import_confirmed e \<or> ce_cleaned e \<or> ce_kind e \<noteq> Directory then clean_dirs cc state_path is state
      else
        bind_io (can_remove_directory (cs_entries state) e) (\<lambda>can.
          if \<not> can then clean_dirs cc state_path is state
          else
            bind_io (attempt_io (src_remove_dir (ce_local_path e))) (\<lambda>r.
              if r = Inr () \<or> r = Inl IoNotFound then
                bind_io (write_cleanup_state_atomic cc state_path (mark_cleaned i state)) (\<lambda>_.
                  clean_dirs cc state_path is (mark_cleaned i state))
              else clean_dirs cc state_path is state)))"

definition process_cleanup_state_file :: "client_codecs \<Rightarrow> fpath \<Rightarrow> CleanupOutcome client" where
  "process_cleanup_state_file cc state_path =
     bind_io (read_cleanup_state cc state_path) (\<lambda>state.
     bind_io (clean_files cc state_path [0..<length (cs_entries state)] state) (\<lambda>state.
     bind_io (clean_dirs cc state_path [0..<length (cs_entries state)] state) (\<lambda>state.
       ret_io (if list_all ce_cleaned (cs_entries state) then Complete else StillPending))))"

definition retire_cleanup_state_file :: "fpath \<Rightarrow> unit client" where
  "retire_cleanup_state_file state_path =
     ctx ''failed to remove cleanup state file'' (fs_remove_file state_path)"

definition process_cleanup_state_file_and_retire :: "client_codecs \<Rightarrow> fpath \<Rightarrow> CleanupOutcome client" where
  "process_cleanup_state_file_and_retire cc state_path =
     bind_io (process_cleanup_state_file cc state_path) (\<lambda>outcome.
       if outcome = Complete
       then bind_io (retire_cleanup_state_file state_path) (\<lambda>_. ret_io outcome)
       else ret_io outcome)"

section \<open>Resuming pending cleanups\<close>

text \<open>Which files of the state directory are cleanup states.\<close>

definition cleanup_name :: "string \<Rightarrow> bool" where
  "cleanup_name name \<longleftrightarrow> extension_of name = Some ''toml'' \<and> starts_with ''cleanup-'' name"

definition current_cleanup :: "client_codecs \<Rightarrow> string \<Rightarrow> DurableCleanupState option" where
  "current_cleanup cc content =
     (case probe_purgery_version_from_toml (cc_toml cc) content of
        Inl _ \<Rightarrow> None
      | Inr version \<Rightarrow>
        if \<not> is_ok (require_compatible_purgery_version version ''cleanup state'') then None
        else (case cc_de_cleanup cc content of Inl _ \<Rightarrow> None | Inr state \<Rightarrow> Some state))"

definition run_state_file :: "string \<Rightarrow> DurableCleanupState \<Rightarrow> fpath" where
  "run_state_file dir state =
     fpath_of (path_join (path_join (path_join dir ''runs'') (cs_nickname state @ ''-'' @ cs_operation_id state))
       ''state.toml'')"

text \<open>One entry of the state directory. A completed file is kept while a run state exists for it.\<close>

definition resume_one :: "client_codecs \<Rightarrow> string \<Rightarrow> string \<Rightarrow> unit client" where
  "resume_one cc dir name =
     (let state_path = fpath_of dir @ [name] in
      if \<not> cleanup_name name then ret_io ()
      else
        bind_io (attempt_io (fs_read state_path)) (\<lambda>content.
          case content of
            Inl _ \<Rightarrow> ret_io ()
          | Inr c \<Rightarrow>
            (case current_cleanup cc c of
               None \<Rightarrow> ret_io ()
             | Some state \<Rightarrow>
                 bind_io (attempt_io (process_cleanup_state_file cc state_path)) (\<lambda>outcome.
                   case outcome of
                     Inl (_ :: server_error) \<Rightarrow> ret_io ()
                   | Inr Complete \<Rightarrow>
                       bind_io (fs_exists (run_state_file dir state)) (\<lambda>run_exists.
                         if run_exists then ret_io ()
                         else
                           bind_io (attempt_io (retire_cleanup_state_file state_path))
                             (\<lambda>(_ :: (server_error, unit) result). ret_io ()))
                   | Inr StillPending \<Rightarrow>
                       bind_io (attempt_io (fs_read state_path)) (\<lambda>_. ret_io ())))))"

definition resume_pending_cleanups :: "client_codecs \<Rightarrow> string \<Rightarrow> unit client" where
  "resume_pending_cleanups cc state_dir =
     bind_io (attempt_io (state_dir_path state_dir)) (\<lambda>d.
       case d of
         Inl (_ :: server_error) \<Rightarrow> ret_io ()
       | Inr dir \<Rightarrow>
           bind_io (fs_exists (fpath_of dir)) (\<lambda>ex.
             if \<not> ex then ret_io ()
             else
               bind_io (ctx ''failed to read state dir'' (fs_read_dir (fpath_of dir))) (\<lambda>names.
                 for_io names (resume_one cc dir))))"

end
