(* ===== verification/Classify.thy ===== *)
theory Classify
  imports Cleanup
begin

text \<open>
  Classification of the source operand (\<open>purgery-client/src/classify.rs\<close>): the operand is brought
  into a form with one entry name, the entry becomes a manifest, and the identities of everything
  below it are captured for the later deletion. The working directory of the process and the walk of
  the \<open>walkdir\<close> crate are arguments; paths and link targets are UTF-8.
\<close>

datatype SourceKind = SourceRegularFile | SourceDirectory | SourceSymlink

record SourceSpec =
  sp_raw_input :: string
  sp_operation_path :: string
  sp_source_entry_name :: string
  sp_kind :: SourceKind

section \<open>The operand\<close>

text \<open>\<open>cwd\<close> is what \<open>current_dir\<close> gives.\<close>

definition normalize_operand :: "(io_error, string) result \<Rightarrow> string \<Rightarrow> (server_error, string \<times> string) result" where
  "normalize_operand cwd source =
     (if source = ''.'' \<or> source = ''..'' then
        bind_res (map_err (\<lambda>_. Bail ''failed to resolve current directory'') cwd) (\<lambda>cwd.
          let target = (if source = ''..'' then (case path_parent cwd of Some p \<Rightarrow> p | None \<Rightarrow> cwd) else cwd) in
          case path_file_name target of
            None \<Rightarrow> Inl (Bail ''cannot determine source entry name'')
          | Some name \<Rightarrow> if name = [] then Inl (Bail ''resolved path has no name'') else Inr (target, name))
      else
        let stripped = trim_end CHR ''/'' source in
        case path_file_name stripped of
          None \<Rightarrow> Inl (Bail ''cannot determine source entry name from path'')
        | Some name \<Rightarrow>
            if name = [] then Inl (Bail ''cannot determine source entry name from path'') else Inr (stripped, name))"

definition normalize_source :: "(io_error, string) result \<Rightarrow> string \<Rightarrow> SourceSpec client" where
  "normalize_source cwd source =
     (if source = ''/'' then fail_io (Bail ''cannot use root path as source entry: /'')
      else
        bind_io (lift_res (normalize_operand cwd source)) (\<lambda>(operation_path, source_entry_name).
        bind_io (ctx ''source path does not exist'' (src_lstat operation_path)) (\<lambda>file_type.
        bind_io
          (case file_type of
             SourceDir \<Rightarrow> ret_io SourceDirectory
           | SourceFile _ _ \<Rightarrow> ret_io SourceRegularFile
           | SourceLink _ \<Rightarrow> ret_io SourceSymlink
           | SourceOther \<Rightarrow> fail_io (Bail ''unsupported source kind'')) (\<lambda>kind.
          ret_io \<lparr>sp_raw_input = source, sp_operation_path = operation_path,
            sp_source_entry_name = source_entry_name, sp_kind = kind\<rparr>))))"

section \<open>The manifest\<close>

text \<open>\<open>len\<close> and \<open>modified\<close> of the metadata, and \<open>compute_sha256\<close> of the core crate.\<close>

definition len_of :: "source \<Rightarrow> u64" where
  "len_of d = (case d of SourceFile c _ \<Rightarrow> of_nat (length c) | _ \<Rightarrow> 0)"

definition mtime_of :: "source \<Rightarrow> 64 word" where
  "mtime_of d = (case d of SourceFile _ m \<Rightarrow> mtime_nanos m | _ \<Rightarrow> 0)"

definition core_sha256 :: "client_codecs \<Rightarrow> string \<Rightarrow> (io_error, string) io" where
  "core_sha256 cc path = bind_io (src_content path) (\<lambda>c. ret_io (cc_sha256 cc c))"

definition entry_kind :: "SourceKind \<Rightarrow> ManifestEntryKind" where
  "entry_kind k = (case k of SourceDirectory \<Rightarrow> Directory | SourceRegularFile \<Rightarrow> RegularFile | SourceSymlink \<Rightarrow> Symlink)"

definition is_regular :: "source \<Rightarrow> bool" where
  "is_regular d = (case d of SourceFile _ _ \<Rightarrow> True | _ \<Rightarrow> False)"

definition is_link :: "source \<Rightarrow> bool" where
  "is_link d = (case d of SourceLink _ \<Rightarrow> True | _ \<Rightarrow> False)"

definition build_manifest :: "client_codecs \<Rightarrow> SourceSpec \<Rightarrow> RunId \<Rightarrow> Nickname \<Rightarrow> string option \<Rightarrow> Manifest client" where
  "build_manifest cc spec run_id nickname transform =
     (let source_path = sp_operation_path spec; name = sp_source_entry_name spec in
      bind_io (ctx ''failed to read metadata'' (src_lstat source_path)) (\<lambda>metadata.
      bind_io (lift_res (map_err (\<lambda>_. Bail ''invalid source name'') (NormalizedRelativePath_new name))) (\<lambda>relative_path.
      bind_io (lift_res (map_err (\<lambda>_. Bail ''invalid staged path'')
        (NormalizedRelativePath_new (path_join ''files'' name)))) (\<lambda>staged_path.
      bind_io (lift_res (map_err (\<lambda>_. Bail ''invalid local path'') (ClientLocalPath_new source_path))) (\<lambda>local_path.
      bind_io
        (if is_regular metadata \<and> transform \<noteq> None
         then bind_io (ctx ''SHA-256 failed'' (core_sha256 cc source_path)) (\<lambda>sha. ret_io (mtime_of metadata, Some sha))
         else ret_io (0, None)) (\<lambda>(mtime_ns, sha256).
      bind_io
        (if is_link metadata
         then bind_io (ctx ''failed to read symlink'' (src_read_link source_path)) (\<lambda>target. ret_io (Some target))
         else ret_io None) (\<lambda>link_target.
        ret_io
          \<lparr>mf_purgery_version = PURGERY_VERSION, mf_run_id = run_id, mf_nickname = nickname,
           mf_entries =
             [\<lparr>me_local_path = local_path, me_staged_path = staged_path, me_relative_path = relative_path,
               me_kind = entry_kind (sp_kind spec), me_size = (if is_regular metadata then len_of metadata else 0),
               me_mtime_ns = mtime_ns, me_sha256 = sha256, me_link_target = link_target,
               me_transform = transform\<rparr>]\<rparr>)))))))"

section \<open>Identities for the cleanup\<close>

definition file_identity :: "string \<Rightarrow> string \<Rightarrow> u64 \<Rightarrow> 64 word \<Rightarrow> string \<Rightarrow> CleanupEntry" where
  "file_identity relative local len mtime sha =
     \<lparr>ce_relative_path = relative, ce_local_path = local, ce_kind = RegularFile, ce_size = len, ce_mtime_ns = mtime,
      ce_sha256 = Some sha, ce_link_target = None, ce_import_confirmed = False, ce_cleaned = False\<rparr>"

definition link_identity :: "string \<Rightarrow> string \<Rightarrow> string \<Rightarrow> CleanupEntry" where
  "link_identity relative local target =
     \<lparr>ce_relative_path = relative, ce_local_path = local, ce_kind = Symlink, ce_size = 0, ce_mtime_ns = 0,
      ce_sha256 = None, ce_link_target = Some target, ce_import_confirmed = False, ce_cleaned = False\<rparr>"

definition dir_identity :: "string \<Rightarrow> string \<Rightarrow> CleanupEntry" where
  "dir_identity relative local =
     \<lparr>ce_relative_path = relative, ce_local_path = local, ce_kind = Directory, ce_size = 0, ce_mtime_ns = 0,
      ce_sha256 = None, ce_link_target = None, ce_import_confirmed = False, ce_cleaned = False\<rparr>"

text \<open>The size and the modification time of a file below the source: a failed query counts as zero.\<close>

definition stat_or_zero :: "(source \<Rightarrow> 64 word) \<Rightarrow> string \<Rightarrow> 64 word client" where
  "stat_or_zero f path =
     bind_io (attempt_io (src_stat path)) (\<lambda>m. ret_io (case m of Inr d \<Rightarrow> f d | Inl _ \<Rightarrow> 0))"

text \<open>The loop over the walk, with the entries and the directories found so far.\<close>

fun capture_walk ::
    "client_codecs \<Rightarrow> SourceSpec \<Rightarrow> (unit, string) result list \<Rightarrow> CleanupEntry list \<Rightarrow> (string \<times> string) list \<Rightarrow>
     (CleanupEntry list \<times> (string \<times> string) list) client" where
  "capture_walk cc spec [] entries dirs = ret_io (entries, dirs)"
| "capture_walk cc spec (Inl _ # ws) entries dirs = capture_walk cc spec ws entries dirs"
| "capture_walk cc spec (Inr path # ws) entries dirs =
     bind_io (attempt_io (src_lstat path)) (\<lambda>ft.
       case (ft, path_strip_prefix path (sp_operation_path spec)) of
         (Inr d, Some relative) \<Rightarrow>
           (let relative_str = sp_source_entry_name spec @ ''/'' @ relative in
            case d of
              SourceDir \<Rightarrow> capture_walk cc spec ws entries (dirs @ [(relative_str, path)])
            | SourceFile _ _ \<Rightarrow>
                bind_io (stat_or_zero len_of path) (\<lambda>size.
                bind_io (stat_or_zero mtime_of path) (\<lambda>mtime.
                bind_io (ctx ''SHA-256 failed for cleanup identity'' (core_sha256 cc path)) (\<lambda>sha.
                  capture_walk cc spec ws (entries @ [file_identity relative_str path size mtime sha]) dirs)))
            | SourceLink _ \<Rightarrow>
                bind_io (ctx ''failed to read symlink target'' (src_read_link path)) (\<lambda>target.
                  capture_walk cc spec ws (entries @ [link_identity relative_str path target]) dirs)
            | SourceOther \<Rightarrow> capture_walk cc spec ws entries dirs)
       | _ \<Rightarrow> capture_walk cc spec ws entries dirs)"

text \<open>How deep a path is: its slashes.\<close>

definition depth :: "string \<Rightarrow> nat" where
  "depth path = length (filter (\<lambda>c. c = CHR ''/'') path)"

text \<open>\<open>walk\<close> gives what \<open>WalkDir::new\<close> finds below a path without following links.\<close>

definition capture_cleanup_identity ::
    "(string \<Rightarrow> (unit, string) result list client) \<Rightarrow> client_codecs \<Rightarrow> SourceSpec \<Rightarrow> CleanupEntry list client" where
  "capture_cleanup_identity walk cc spec =
     (let source_path = sp_operation_path spec; name = sp_source_entry_name spec in
      bind_io (ctx ''failed to read metadata'' (src_lstat source_path)) (\<lambda>metadata.
        case metadata of
          SourceFile _ _ \<Rightarrow>
            bind_io (ctx ''SHA-256 failed'' (core_sha256 cc source_path)) (\<lambda>sha.
              ret_io [file_identity name source_path (len_of metadata) (mtime_of metadata) sha])
        | SourceLink _ \<Rightarrow>
            bind_io (ctx ''failed to read symlink target'' (src_read_link source_path)) (\<lambda>target.
              ret_io [link_identity name source_path target])
        | _ \<Rightarrow>
            bind_io (walk source_path) (\<lambda>ws.
            bind_io (capture_walk cc spec ws [] [(name, source_path)]) (\<lambda>(entries, dirs).
              ret_io (sort_key (\<lambda>e. - int (depth (ce_local_path e)))
                (entries @ map (\<lambda>(r, l). dir_identity r l) (rev dirs)))))))"

end
