(* ===== verification/Runner.thy ===== *)
theory Runner
  imports Classify Shell Transform_Run
begin

text \<open>
  Remote commands and transfers (\<open>purgery-client/src/runner.rs\<close>): how \<open>ssh\<close> and \<open>rsync\<close> are called
  and how their outcomes are classified. The programs themselves are operations of the environment
  \<open>client_env\<close>, an argument of everything below, like the decoders of the wire formats. Message
  texts that are put together from outputs are left out, and so is the scripted runner of the tests.
\<close>

section \<open>The environment of the client\<close>

text \<open>
  What a finished command gives: its exit code (none after a signal), standard output and standard
  error. \<open>ev_ssh\<close> runs \<open>ssh -- host command\<close> to its end, \<open>ev_ssh_write\<close> with the given standard input;
  \<open>ev_spawn\<close> starts it and gives a handle, \<open>ev_try_wait\<close> asks whether a child has ended,
  \<open>ev_wait\<close> and \<open>ev_wait_timeout\<close> ask until it has or the time (in seconds) is over, \<open>ev_kill\<close> kills it,
  and \<open>ev_pipes\<close> are the reads that its two streams give. \<open>ev_rsync\<close> runs \<open>rsync\<close> with the arguments.
  \<open>ev_text\<close> is \<open>from_utf8_lossy\<close>. \<open>ev_beats\<close> is how often, after the first time, the heartbeat thread
  ran before its health is asked for. \<open>ev_polls\<close> bounds the polls for a terminal state: a process
  that is not stopped earlier has a bound as large as it takes. \<open>ev_walk\<close> and \<open>ev_split_walk\<close> are the
  walks of the \<open>walkdir\<close> crate, \<open>ev_generate\<close> draws a run id, \<open>ev_vars\<close> are the environment variables
  and \<open>ev_hostname\<close> is the buffer that \<open>gethostname\<close> fills.
\<close>

record cmd_output =
  co_code :: "int option"
  co_stdout :: string
  co_stderr :: string

record client_env =
  ev_codecs :: client_codecs
  ev_de_version :: "VersionResponse decoder"
  ev_de_begin :: "BeginRunResponse decoder"
  ev_de_prepare :: "PrepareRunResponse decoder"
  ev_de_run_state :: "RunStateResponse decoder"
  ev_de_process :: "ProcessRunResponse decoder"
  ev_de_error :: "ProtocolErrorResponse decoder"
  ev_de_status :: "RunStatus decoder"
  ev_ser_status :: "RunStatus encoder"
  ev_de_manifest :: "Manifest decoder"
  ev_ser_manifest :: "Manifest encoder"
  ev_de_run_config :: "RunConfig decoder"
  ev_ser_run_config :: "RunConfig encoder"
  ev_de_client_state :: "ClientRunState decoder"
  ev_ser_client_state :: "ClientRunState encoder"
  ev_ssh :: "string \<Rightarrow> string \<Rightarrow> (io_error, cmd_output) io"
  ev_ssh_write :: "string \<Rightarrow> string \<Rightarrow> string \<Rightarrow> (io_error, cmd_output) io"
  ev_spawn :: "string \<Rightarrow> string \<Rightarrow> (io_error, nat) io"
  ev_try_wait :: "nat \<Rightarrow> (io_error, int option option) io"
  ev_wait :: "nat \<Rightarrow> (io_error, int option) io"
  ev_wait_timeout :: "nat \<Rightarrow> nat \<Rightarrow> (io_error, int option option) io"
  ev_kill :: "nat \<Rightarrow> (io_error, unit) io"
  ev_pipes :: "nat \<Rightarrow> read_event list \<times> read_event list"
  ev_rsync :: "string list \<Rightarrow> (io_error, bool) io"
  ev_text :: "string \<Rightarrow> string"
  ev_beats :: "(server_error, nat) io"
  ev_polls :: nat
  ev_cwd :: "(io_error, string) result"
  ev_walk :: "string \<Rightarrow> (unit, string) result list client"
  ev_split_walk :: "string \<Rightarrow> (string \<times> bool) list client"
  ev_generate :: "RunId client"
  ev_vars :: "string \<Rightarrow> string option"
  ev_hostname :: "string option"

section \<open>Commands run to their end\<close>

datatype RawServerCommandResult =
    RawSuccess string string
  | RawRemoteFailure int string string
  | RawTransportFailure "int option" string
  | RawSignaled string

definition into_protocol_result :: "client_env \<Rightarrow> string \<Rightarrow> RawServerCommandResult \<Rightarrow> (server_error, string) result" where
  "into_protocol_result ev cmd_hint raw =
     (case raw of
        RawSuccess stdout _ \<Rightarrow> Inr stdout
      | RawRemoteFailure exit_code stdout stderr \<Rightarrow>
          (case parse_protocol_error_response (ev_de_error ev) stdout cmd_hint of
             Inr resp \<Rightarrow> Inl (Bail (pe_message (pe_error resp)))
           | Inl _ \<Rightarrow> Inl (Bail ''server command failed without a valid Purgery error response''))
      | RawTransportFailure exit_code stderr \<Rightarrow> Inl (Bail ''SSH transport failure'')
      | RawSignaled stderr \<Rightarrow> Inl (Bail ''local SSH process terminated by signal''))"

definition full_command :: "string \<Rightarrow> string list \<Rightarrow> string" where
  "full_command server_cmd args = foldl (\<lambda>cmd a. cmd @ '' '' @ shell_escape a) server_cmd args"

definition classify_output :: "client_env \<Rightarrow> cmd_output \<Rightarrow> RawServerCommandResult" where
  "classify_output ev out =
     (let stdout = ev_text ev (co_stdout out); stderr = ev_text ev (co_stderr out) in
      if co_code out = Some 0 then RawSuccess stdout stderr
      else if co_code out = Some 255 then RawTransportFailure (co_code out) stderr
      else case co_code out of
        Some code \<Rightarrow> RawRemoteFailure code stdout stderr
      | None \<Rightarrow> RawSignaled stderr)"

definition server_cmd_raw :: "client_env \<Rightarrow> string \<Rightarrow> string \<Rightarrow> string list \<Rightarrow> RawServerCommandResult client" where
  "server_cmd_raw ev host server_cmd args =
     bind_io (ctx ''failed to execute SSH command'' (ev_ssh ev host (full_command server_cmd args))) (\<lambda>output.
       ret_io (classify_output ev output))"

definition server_cmd :: "client_env \<Rightarrow> string \<Rightarrow> string \<Rightarrow> string list \<Rightarrow> string client" where
  "server_cmd ev host server_command args =
     bind_io (server_cmd_raw ev host server_command args) (\<lambda>raw.
       lift_res (into_protocol_result ev (case args of a # _ \<Rightarrow> a | [] \<Rightarrow> ''server'') raw))"

text \<open>A write that the remote side does not confirm is an error.\<close>

definition write_remote_file :: "client_env \<Rightarrow> string \<Rightarrow> string \<Rightarrow> string \<Rightarrow> unit client" where
  "write_remote_file ev host path content =
     bind_io (ctx ''failed to write over SSH'' (ev_ssh_write ev host (''cat > '' @ shell_escape path) content)) (\<lambda>output.
       if co_code output = Some 0 then ret_io () else fail_io (Bail ''failed to write remote file''))"

section \<open>Spawned commands\<close>

datatype RemoteCommandExit =
    ExitSuccess string
  | ExitRemoteFailure "int option" string string
  | ExitTransportFailure "int option" string
  | ExitKilled

definition MAX_STDOUT_BYTES :: nat where
  "MAX_STDOUT_BYTES = 64 * 1024"

definition MAX_STDERR_BYTES :: nat where
  "MAX_STDERR_BYTES = 64 * 1024"

text \<open>The drainer of a pipe: a failing read ends it like the end of the stream.\<close>

fun drain_tail :: "nat \<Rightarrow> read_event list \<Rightarrow> string \<Rightarrow> bool \<Rightarrow> string \<times> bool" where
  "drain_tail max_bytes [] buf truncated = (buf, truncated)"
| "drain_tail max_bytes (ReadChunk chunk # events) buf truncated =
     (if chunk = [] then (buf, truncated)
      else
        let extended = buf @ chunk in
        if max_bytes < length extended
        then drain_tail max_bytes events (drop (length extended - max_bytes) extended) True
        else drain_tail max_bytes events extended truncated)"
| "drain_tail max_bytes (ReadInterrupted # events) buf truncated = drain_tail max_bytes events buf truncated"
| "drain_tail max_bytes (ReadFailed e # events) buf truncated = (buf, truncated)"

definition spawn_drainer :: "read_event list \<Rightarrow> nat \<Rightarrow> string" where
  "spawn_drainer events max_bytes =
     (case drain_tail max_bytes events [] False of
        (buf, True) \<Rightarrow> ''...(output truncated; showing last '' @ nat_str max_bytes @ '' bytes)...'' @ [CHR 0x0A] @ buf
      | (buf, False) \<Rightarrow> buf)"

text \<open>\<open>str::trim\<close>.\<close>

definition str_trim :: "string \<Rightarrow> string" where
  "str_trim s = concat (rev (dropWhile is_whitespace (rev (dropWhile is_whitespace (utf8_chars s)))))"

definition classify_exit :: "client_env \<Rightarrow> nat \<Rightarrow> int option \<Rightarrow> RemoteCommandExit" where
  "classify_exit ev handle exit_code =
     (let drained_stdout = ev_text ev (spawn_drainer (fst (ev_pipes ev handle)) MAX_STDOUT_BYTES);
          drained_stderr = ev_text ev (spawn_drainer (snd (ev_pipes ev handle)) MAX_STDERR_BYTES)
      in
      if exit_code = Some 0 then ExitSuccess drained_stdout
      else if exit_code = Some 255 then ExitTransportFailure exit_code drained_stderr
      else case exit_code of
        Some code \<Rightarrow> ExitRemoteFailure (Some code) (str_trim drained_stdout) (str_trim drained_stderr)
      | None \<Rightarrow> ExitTransportFailure None drained_stderr)"

text \<open>A failing \<open>waitpid\<close> counts as a failure of the transport.\<close>

definition settle_wait :: "client_env \<Rightarrow> nat \<Rightarrow> (io_error, int option option) result \<Rightarrow> RemoteCommandExit option" where
  "settle_wait ev handle r =
     (case r of
        Inr (Some code) \<Rightarrow> Some (classify_exit ev handle code)
      | Inr None \<Rightarrow> None
      | Inl _ \<Rightarrow> Some (ExitTransportFailure None ''waitpid error''))"

definition try_wait :: "client_env \<Rightarrow> nat \<Rightarrow> RemoteCommandExit option client" where
  "try_wait ev handle =
     bind_io (attempt_io (ev_try_wait ev handle)) (\<lambda>r. ret_io (settle_wait ev handle r))"

definition wait_timeout :: "client_env \<Rightarrow> nat \<Rightarrow> nat \<Rightarrow> RemoteCommandExit option client" where
  "wait_timeout ev handle timeout =
     bind_io (attempt_io (ev_wait_timeout ev handle timeout)) (\<lambda>r. ret_io (settle_wait ev handle r))"

definition terminate_and_reap :: "client_env \<Rightarrow> nat \<Rightarrow> RemoteCommandExit client" where
  "terminate_and_reap ev handle =
     bind_io (attempt_io (ev_kill ev handle)) (\<lambda>_.
     bind_io (attempt_io (ev_wait ev handle)) (\<lambda>r.
       ret_io (case r of
         Inr code \<Rightarrow> classify_exit ev handle code
       | Inl _ \<Rightarrow> ExitTransportFailure None ''waitpid error'')))"

definition spawn_server_cmd :: "client_env \<Rightarrow> string \<Rightarrow> string \<Rightarrow> string list \<Rightarrow> nat client" where
  "spawn_server_cmd ev host server_command args =
     ctx ''failed to spawn SSH command'' (ev_spawn ev host (full_command server_command args))"

section \<open>Transfers\<close>

definition run_rsync :: "client_env \<Rightarrow> string \<Rightarrow> string \<Rightarrow> string \<Rightarrow> unit client" where
  "run_rsync ev source host destination_operand =
     bind_io (ctx ''failed to execute rsync'' (ev_rsync ev (build_rsync_args source (host @ '':'' @ destination_operand)))) (\<lambda>ok.
       if ok then ret_io () else fail_io (Bail ''rsync failed''))"

definition filter_transfer_args :: "string \<Rightarrow> string \<Rightarrow> string \<Rightarrow> string list \<Rightarrow> string \<Rightarrow> string list" where
  "filter_transfer_args source host remote_dir include_rules exclude_rule =
     [''--archive'', ''--partial'', ''--inplace'', ''--mkpath'', ''--protect-args'', ''--prune-empty-dirs''] @
     map (\<lambda>rule. ''--include='' @ rule) include_rules @
     [''--exclude='' @ exclude_rule, ''--'', source @ ''/'', host @ '':'' @ remote_dir @ ''/'']"

definition run_rsync_filter_transfer ::
    "client_env \<Rightarrow> string \<Rightarrow> string \<Rightarrow> string \<Rightarrow> string list \<Rightarrow> string \<Rightarrow> unit client" where
  "run_rsync_filter_transfer ev source host remote_dir include_rules exclude_rule =
     bind_io (ctx ''failed to execute rsync filter transfer''
       (ev_rsync ev (filter_transfer_args source host remote_dir include_rules exclude_rule))) (\<lambda>ok.
       if ok then ret_io () else fail_io (Bail ''rsync filter transfer failed''))"

section \<open>Responses\<close>

text \<open>A response is accepted with the protocol version of the client and a compatible program version.\<close>

definition accept_response :: "string \<Rightarrow> ('a \<Rightarrow> u32) \<Rightarrow> ('a \<Rightarrow> string) \<Rightarrow> 'a decoder \<Rightarrow> string \<Rightarrow> (server_error, 'a) result" where
  "accept_response what protocol version de toml =
     bind_res (map_err (\<lambda>_. Bail (''failed to parse '' @ what)) (de toml)) (\<lambda>resp.
       if protocol resp \<noteq> PROTOCOL_VERSION then Inl (Bail (what @ '' has another protocol_version''))
       else bind_res (map_err (\<lambda>_. Bail (''incompatible purgery_version in '' @ what))
         (require_compatible_purgery_version (version resp) what)) (\<lambda>_. Inr resp))"

definition parse_begin_response :: "client_env \<Rightarrow> string \<Rightarrow> (server_error, BeginRunResponse) result" where
  "parse_begin_response ev =
     accept_response ''begin-run response'' br_protocol_version br_purgery_version (ev_de_begin ev)"

definition parse_prepare_response :: "client_env \<Rightarrow> string \<Rightarrow> (server_error, PrepareRunResponse) result" where
  "parse_prepare_response ev =
     accept_response ''prepare-run response'' pp_protocol_version pp_purgery_version (ev_de_prepare ev)"

definition parse_run_state_response :: "client_env \<Rightarrow> string \<Rightarrow> (server_error, RunStateResponse) result" where
  "parse_run_state_response ev =
     accept_response ''run-state response'' rr_protocol_version rr_purgery_version (ev_de_run_state ev)"

end
