(* ===== verification/Drive.thy ===== *)
theory Drive
  imports Runner
begin

text \<open>
  The commands that the client sends to the server and the loop that drives a run to a terminal state
  (\<open>purgery-client/src/run.rs\<close>): a worker, which is a remote \<open>process-run\<close>, is supervised while the
  state of the run is polled. Log output and the pauses between polls are left out; the server's
  answers are whatever the environment gives.
\<close>

section \<open>Commands\<close>

text \<open>All commands about a run take the same arguments.\<close>

definition run_args :: "string \<Rightarrow> Nickname \<Rightarrow> RunId \<Rightarrow> string list" where
  "run_args command nickname run_id =
     [command, ''--nickname'', nickname_str nickname, ''--run-id'', run_id_str run_id]"

definition check_server_version :: "client_env \<Rightarrow> string \<Rightarrow> string \<Rightarrow> unit client" where
  "check_server_version ev host server_command =
     bind_io (server_cmd ev host server_command [''version'']) (\<lambda>output.
     bind_io (lift_res (accept_response ''server version response'' vr_protocol_version vr_purgery_version
       (ev_de_version ev) output)) (\<lambda>_. ret_io ()))"

definition client_begin_run :: "client_env \<Rightarrow> string \<Rightarrow> string \<Rightarrow> Nickname \<Rightarrow> RunId \<Rightarrow> BeginRunResponse client" where
  "client_begin_run ev host server_command nickname run_id =
     bind_io (server_cmd ev host server_command (run_args ''begin-run'' nickname run_id)) (\<lambda>output.
       lift_res (parse_begin_response ev output))"

definition client_prepare_run :: "client_env \<Rightarrow> string \<Rightarrow> string \<Rightarrow> Nickname \<Rightarrow> RunId \<Rightarrow> PrepareRunResponse client" where
  "client_prepare_run ev host server_command nickname run_id =
     bind_io (server_cmd ev host server_command (run_args ''prepare-run'' nickname run_id)) (\<lambda>output.
       lift_res (parse_prepare_response ev output))"

definition client_heartbeat_run :: "client_env \<Rightarrow> string \<Rightarrow> string \<Rightarrow> Nickname \<Rightarrow> RunId \<Rightarrow> unit client" where
  "client_heartbeat_run ev host server_command nickname run_id =
     bind_io (server_cmd ev host server_command (run_args ''heartbeat-run'' nickname run_id)) (\<lambda>_. ret_io ())"

definition client_finish_run :: "client_env \<Rightarrow> string \<Rightarrow> string \<Rightarrow> Nickname \<Rightarrow> RunId \<Rightarrow> unit client" where
  "client_finish_run ev host server_command nickname run_id =
     bind_io (server_cmd ev host server_command (run_args ''finish-run'' nickname run_id)) (\<lambda>_. ret_io ())"

definition client_run_state :: "client_env \<Rightarrow> string \<Rightarrow> string \<Rightarrow> Nickname \<Rightarrow> RunId \<Rightarrow> RunStateResponse client" where
  "client_run_state ev host server_command nickname run_id =
     bind_io (server_cmd ev host server_command (run_args ''run-state'' nickname run_id)) (\<lambda>output.
       lift_res (parse_run_state_response ev output))"

definition parse_status_output :: "client_env \<Rightarrow> string \<Rightarrow> (server_error, RunStatus) result" where
  "parse_status_output ev output =
     bind_res (map_err (\<lambda>_. Bail ''failed to parse status response'') (run_status_from_toml (ev_de_status ev) (str_trim output)))
       (\<lambda>status.
         if is_ok (require_compatible_purgery_version (rs_purgery_version status) ''status'') then Inr status
         else Inl (Bail ''server returned incompatible status version''))"

definition client_read_status :: "client_env \<Rightarrow> string \<Rightarrow> string \<Rightarrow> Nickname \<Rightarrow> RunId \<Rightarrow> RunStatus client" where
  "client_read_status ev host server_command nickname run_id =
     bind_io (server_cmd ev host server_command (run_args ''status'' nickname run_id)) (\<lambda>output.
       lift_res (parse_status_output ev output))"

section \<open>Progress and observations\<close>

record ProgressSnapshot =
  ps_phase :: string
  ps_terminal :: bool
  ps_processor_state :: "string option"
  ps_progress_state :: "string option"
  ps_entry_index :: "nat option"
  ps_entry_total :: "nat option"
  ps_updated_at :: u64

definition snapshot_of :: "RunStateResponse \<Rightarrow> ProgressSnapshot" where
  "snapshot_of s =
     \<lparr>ps_phase = rr_phase s, ps_terminal = rr_terminal s, ps_processor_state = rr_processor_state s,
      ps_progress_state = rr_progress_state s, ps_entry_index = rr_entry_index s,
      ps_entry_total = rr_entry_total s, ps_updated_at = rr_updated_at s\<rparr>"

definition MAX_NO_PROGRESS_COUNT :: u32 where
  "MAX_NO_PROGRESS_COUNT = 3"

record NoProgressTracker =
  np_count :: u32
  np_last_snapshot :: "ProgressSnapshot option"

definition NoProgressTracker_new :: NoProgressTracker where
  "NoProgressTracker_new = \<lparr>np_count = 0, np_last_snapshot = None\<rparr>"

definition advance :: "NoProgressTracker \<Rightarrow> RunStateResponse \<Rightarrow> bool \<times> NoProgressTracker" where
  "advance tracker state =
     (let snap = snapshot_of state in
      if np_last_snapshot tracker = Some snap
      then (np_count tracker + 1 < MAX_NO_PROGRESS_COUNT, tracker\<lparr>np_count := np_count tracker + 1\<rparr>)
      else (True, \<lparr>np_count = 0, np_last_snapshot = Some snap\<rparr>))"

datatype ProcessorObservation = ActiveProc | IdleProc | UnknownProc string | MissingProc

definition processor_observation :: "RunStateResponse \<Rightarrow> ProcessorObservation" where
  "processor_observation state =
     (case rr_processor_state state of
        None \<Rightarrow> MissingProc
      | Some s \<Rightarrow> if s = ''active'' then ActiveProc else if s = ''idle'' then IdleProc else UnknownProc s)"

definition dummy_run_state :: "Nickname \<Rightarrow> RunId \<Rightarrow> RunStateResponse" where
  "dummy_run_state nickname run_id =
     \<lparr>rr_protocol_version = PROTOCOL_VERSION, rr_purgery_version = [], rr_nickname = nickname_str nickname,
      rr_run_id = run_id_str run_id, rr_phase = ''starting'', rr_terminal = False, rr_message = [], rr_updated_at = 0,
      rr_observed_at = 0, rr_progress_state = None, rr_entry_index = None, rr_entry_total = None,
      rr_current_entry = None, rr_current_transform = None, rr_progress_status = None, rr_processor_state = None\<rparr>"

section \<open>The end of a worker\<close>

definition TERMINAL_WORKER_GRACE :: nat where
  "TERMINAL_WORKER_GRACE = 5"

definition finish_worker_after_terminal :: "client_env \<Rightarrow> nat option \<Rightarrow> unit client" where
  "finish_worker_after_terminal ev worker =
     (case worker of
        None \<Rightarrow> ret_io ()
      | Some w \<Rightarrow>
          bind_io (wait_timeout ev w TERMINAL_WORKER_GRACE) (\<lambda>exit.
            case exit of
              Some _ \<Rightarrow> ret_io ()
            | None \<Rightarrow> bind_io (terminate_and_reap ev w) (\<lambda>_. ret_io ())))"

definition terminate_worker_on_error :: "client_env \<Rightarrow> nat option \<Rightarrow> unit client" where
  "terminate_worker_on_error ev worker =
     (case worker of None \<Rightarrow> ret_io () | Some w \<Rightarrow> bind_io (terminate_and_reap ev w) (\<lambda>_. ret_io ()))"

datatype WorkerExitDecision = TerminalDecision RunStateResponse | ContinueWithFreshState RunStateResponse

definition parse_process_run_response :: "client_env \<Rightarrow> string \<Rightarrow> Nickname \<Rightarrow> RunId \<Rightarrow> (server_error, ProcessRunResponse) result" where
  "parse_process_run_response ev stdout nickname run_id =
     (if trims_to_empty stdout then Inl (Bail ''process-run produced empty stdout'')
      else
        bind_res (accept_response ''process-run response'' pr_protocol_version pr_purgery_version (ev_de_process ev) stdout)
          (\<lambda>resp.
            if pr_nickname resp \<noteq> nickname_str nickname \<or> pr_run_id resp \<noteq> run_id_str run_id
            then Inl (Bail ''process-run response envelope mismatch'')
            else Inr resp))"

definition handle_process_run_success ::
    "client_env \<Rightarrow> string \<Rightarrow> string \<Rightarrow> Nickname \<Rightarrow> RunId \<Rightarrow> string \<Rightarrow> NoProgressTracker \<Rightarrow>
     (WorkerExitDecision \<times> NoProgressTracker) client" where
  "handle_process_run_success ev host server_command nickname run_id stdout no_progress =
     bind_io (lift_res (parse_process_run_response ev stdout nickname run_id)) (\<lambda>resp.
       case outcome_from_str_name (pr_outcome resp) of
         None \<Rightarrow> fail_io (Bail ''unknown process-run outcome'')
       | Some outcome \<Rightarrow>
           bind_io (client_run_state ev host server_command nickname run_id) (\<lambda>fresh.
             if outcome = Processed \<or> outcome = AlreadyTerminal then
               (if \<not> rr_terminal fresh then fail_io (Bail ''fresh run-state is not terminal'')
                else ret_io (TerminalDecision fresh, no_progress))
             else if outcome = AlreadyActive then
               (if rr_phase fresh \<noteq> ''processing'' \<or> rr_processor_state fresh \<noteq> Some ''active''
                then fail_io (Bail ''fresh run-state is not processing/active'')
                else ret_io (ContinueWithFreshState fresh, no_progress))
             else if rr_terminal fresh then ret_io (TerminalDecision fresh, no_progress)
             else if rr_phase fresh = ''processing'' \<and> rr_processor_state fresh = Some ''active''
             then ret_io (ContinueWithFreshState fresh, no_progress)
             else if rr_phase fresh = ''ready'' then
               (case advance no_progress fresh of
                  (False, _) \<Rightarrow> fail_io (Bail ''process-run repeatedly exited without progress'')
                | (True, tracker) \<Rightarrow> ret_io (ContinueWithFreshState fresh, tracker))
             else ret_io (ContinueWithFreshState fresh, no_progress)))"

section \<open>The loop\<close>

record drive_state =
  dv_worker :: "nat option"
  dv_state :: RunStateResponse
  dv_tracker :: NoProgressTracker

text \<open>A worker has ended: the state of the run decides, read afresh.\<close>

definition drive_exit ::
    "client_env \<Rightarrow> string \<Rightarrow> string \<Rightarrow> Nickname \<Rightarrow> RunId \<Rightarrow> drive_state \<Rightarrow> RemoteCommandExit \<Rightarrow>
     (RunStateResponse + drive_state) client" where
  "drive_exit ev host server_command nickname run_id st exit =
     (case exit of
        ExitSuccess stdout \<Rightarrow>
          bind_io (handle_process_run_success ev host server_command nickname run_id stdout (dv_tracker st))
            (\<lambda>(decision, tracker). ret_io
              (case decision of
                 TerminalDecision ts \<Rightarrow> Inl ts
               | ContinueWithFreshState fresh \<Rightarrow>
                   Inr (st\<lparr>dv_worker := None, dv_state := fresh, dv_tracker := tracker\<rparr>)))
      | ExitTransportFailure _ _ \<Rightarrow>
          bind_io (client_run_state ev host server_command nickname run_id) (\<lambda>fresh.
            ret_io (if rr_terminal fresh then Inl fresh else Inr (st\<lparr>dv_worker := None, dv_state := fresh\<rparr>)))
      | ExitRemoteFailure _ _ _ \<Rightarrow>
          bind_io (attempt_io (client_run_state ev host server_command nickname run_id)) (\<lambda>r.
            case r of
              Inl _ \<Rightarrow> fail_io (Bail ''process-run remote failure'')
            | Inr fresh \<Rightarrow>
                if rr_terminal fresh then ret_io (Inl fresh)
                else if processor_observation fresh \<noteq> ActiveProc \<or> rr_phase fresh = ''ready''
                then fail_io (Bail ''process-run remote failure'')
                else ret_io (Inr (st\<lparr>dv_worker := None, dv_state := fresh\<rparr>)))
      | ExitKilled \<Rightarrow> fail_io (Bail ''process-run was killed''))"

text \<open>Whether to start a worker: never beside a live one, and never beside another processor.\<close>

definition drive_decide ::
    "client_env \<Rightarrow> string \<Rightarrow> string \<Rightarrow> Nickname \<Rightarrow> RunId \<Rightarrow> drive_state \<Rightarrow> drive_state client" where
  "drive_decide ev host server_command nickname run_id st =
     (let phase = rr_phase (dv_state st); obs = processor_observation (dv_state st);
          give_up = (\<lambda>msg. bind_io (terminate_worker_on_error ev (dv_worker st)) (\<lambda>_. fail_io (Bail msg)));
          restart = (if dv_worker st = None
            then bind_io (spawn_server_cmd ev host server_command (run_args ''process-run'' nickname run_id))
              (\<lambda>w. ret_io (st\<lparr>dv_worker := Some w\<rparr>))
            else ret_io st)
      in
      if phase = ''ready'' then restart
      else if phase = ''processing'' then
        (case obs of
           ActiveProc \<Rightarrow> ret_io st
         | IdleProc \<Rightarrow> restart
         | _ \<Rightarrow> if dv_worker st \<noteq> None then ret_io st else give_up ''processor ownership cannot be determined'')
      else if phase = ''not_found'' then give_up ''run not found on server''
      else give_up ''unexpected run-state phase'')"

text \<open>One round: poll, look at the worker, decide. \<open>Inl\<close> is the terminal state.\<close>

definition drive_polled ::
    "client_env \<Rightarrow> string \<Rightarrow> string \<Rightarrow> Nickname \<Rightarrow> RunId \<Rightarrow> drive_state \<Rightarrow> (RunStateResponse + drive_state) client" where
  "drive_polled ev host server_command nickname run_id st =
     (if rr_terminal (dv_state st)
      then bind_io (finish_worker_after_terminal ev (dv_worker st)) (\<lambda>_. ret_io (Inl (dv_state st)))
      else
        bind_io
          (case dv_worker st of
             None \<Rightarrow> ret_io (Inr st)
           | Some w \<Rightarrow>
               bind_io (try_wait ev w) (\<lambda>exit.
                 case exit of
                   None \<Rightarrow> ret_io (Inr st)
                 | Some e \<Rightarrow> drive_exit ev host server_command nickname run_id st e)) (\<lambda>r.
          case r of
            Inl ts \<Rightarrow> ret_io (Inl ts)
          | Inr st \<Rightarrow>
              bind_io (drive_decide ev host server_command nickname run_id st) (\<lambda>st. ret_io (Inr st))))"

definition drive_step ::
    "client_env \<Rightarrow> string \<Rightarrow> string \<Rightarrow> Nickname \<Rightarrow> RunId \<Rightarrow> drive_state \<Rightarrow> (RunStateResponse + drive_state) client" where
  "drive_step ev host server_command nickname run_id st =
     bind_io (attempt_io (client_run_state ev host server_command nickname run_id)) (\<lambda>r.
       case r of
         Inr s \<Rightarrow> drive_polled ev host server_command nickname run_id (st\<lparr>dv_state := s\<rparr>)
       | Inl e \<Rightarrow>
           if dv_worker st \<noteq> None then drive_polled ev host server_command nickname run_id st else fail_io e)"

text \<open>\<open>None\<close> is a loop that is still running after the given number of rounds.\<close>

fun drive_loop ::
    "client_env \<Rightarrow> string \<Rightarrow> string \<Rightarrow> Nickname \<Rightarrow> RunId \<Rightarrow> nat \<Rightarrow> drive_state \<Rightarrow> RunStateResponse option client" where
  "drive_loop ev host server_command nickname run_id 0 st = ret_io None"
| "drive_loop ev host server_command nickname run_id (Suc n) st =
     bind_io (drive_step ev host server_command nickname run_id st) (\<lambda>r.
       case r of
         Inl ts \<Rightarrow> ret_io (Some ts)
       | Inr st \<Rightarrow> drive_loop ev host server_command nickname run_id n st)"

definition drive_start :: "Nickname \<Rightarrow> RunId \<Rightarrow> drive_state" where
  "drive_start nickname run_id =
     \<lparr>dv_worker = None, dv_state = dummy_run_state nickname run_id, dv_tracker = NoProgressTracker_new\<rparr>"

definition drive_server_until_terminal ::
    "client_env \<Rightarrow> string \<Rightarrow> string \<Rightarrow> Nickname \<Rightarrow> RunId \<Rightarrow> RunStateResponse client" where
  "drive_server_until_terminal ev host server_command nickname run_id =
     bind_io (drive_loop ev host server_command nickname run_id (ev_polls ev) (drive_start nickname run_id)) (\<lambda>r.
       case r of
         Some ts \<Rightarrow> ret_io ts
       | None \<Rightarrow> fail_io (Bail ''stopped while waiting for a terminal state''))"

end
