(* ===== verification/Client_Run.thy ===== *)
theory Client_Run
  imports Drive Split
begin

text \<open>
  A run of the client (\<open>purgery-client/src/run.rs\<close>): the operands, the durable state of a run, resuming
  earlier runs, and the sync itself with its three ways (direct transfer, direct transfer with cleanup,
  run on the server) and its split mode. Log output is left out; a panic counts as an error. The
  heartbeat thread is taken to run, as often as the environment says, just before its health is
  asked for.
\<close>

section \<open>Operands\<close>

record RemoteDestination =
  rd_host :: string
  rd_path :: DestinationPath

definition parse_destination :: "string \<Rightarrow> (server_error, RemoteDestination) result" where
  "parse_destination destination =
     (case rfind_char CHR '':'' destination of
        None \<Rightarrow> Inl (Bail ''destination must be in format USER@HOST:PATH or HOST:PATH'')
      | Some colon_pos \<Rightarrow>
          let host = take colon_pos destination; path = drop (colon_pos + 1) destination in
          if host = [] \<or> path = [] then Inl (Bail ''destination host and path must not be empty'')
          else bind_res (map_err (\<lambda>_. Bail ''invalid destination path'') (DestinationPath_new path)) (\<lambda>p.
            Inr \<lparr>rd_host = host, rd_path = p\<rparr>))"

text \<open>
  Every byte of a character outside the alphabet becomes a dash here, where the code has one dash per
  character; runs of separators are merged afterwards, so the result is the same.
\<close>

definition sep_char :: "char \<Rightarrow> bool" where
  "sep_char c \<longleftrightarrow> c = CHR ''-'' \<or> c = CHR ''_''"

fun dedup_seps :: "string \<Rightarrow> string \<Rightarrow> string" where
  "dedup_seps acc [] = acc"
| "dedup_seps acc (c # cs) =
     (if sep_char c then
        (if acc \<noteq> [] \<and> sep_char (last acc) then dedup_seps acc cs else dedup_seps (acc @ [c]) cs)
      else dedup_seps (acc @ [c]) cs)"

definition trim_seps :: "string \<Rightarrow> string" where
  "trim_seps s = rev (dropWhile sep_char (rev (dropWhile sep_char s)))"

definition sanitize_nickname :: "string \<Rightarrow> string" where
  "sanitize_nickname raw =
     (let result = map (\<lambda>ch. if is_ascii_alphanumeric ch \<or> sep_char ch then ch else CHR ''-'') raw;
          trimmed = trim_seps (dedup_seps [] result)
      in if trimmed = [] then ''client'' else trimmed)"

definition auto_nickname_from :: "string option \<Rightarrow> string option \<Rightarrow> (server_error, Nickname) result" where
  "auto_nickname_from username hostname =
     (let fallback = map_err (\<lambda>_. Bail ''failed to generate auto nickname'') (Nickname_new ''client'') in
      case (case (username, hostname) of
              (Some u, Some h) \<Rightarrow> Some (u @ ''-'' @ h)
            | (None, Some h) \<Rightarrow> Some h
            | (Some u, None) \<Rightarrow> Some u
            | (None, None) \<Rightarrow> None) of
        None \<Rightarrow> fallback
      | Some raw \<Rightarrow> (case Nickname_new (sanitize_nickname raw) of Inr n \<Rightarrow> Inr n | Inl _ \<Rightarrow> fallback))"

definition hostname_from_bytes :: "(string \<Rightarrow> string) \<Rightarrow> string \<Rightarrow> string option" where
  "hostname_from_bytes as_text bytes =
     (let name = str_trim (as_text (takeWhile (\<lambda>b. b \<noteq> CHR 0x00) bytes)) in
      if name = [] then None else Some name)"

record SyncArgs =
  sa_transform :: "string option"
  sa_delete_after_import :: bool
  sa_split :: "string option"
  sa_nickname :: "string option"
  sa_state_dir :: "string option"
  sa_server_command :: string
  sa_source :: string
  sa_destination :: string

definition auto_nickname :: "client_env \<Rightarrow> (server_error, Nickname) result" where
  "auto_nickname ev =
     auto_nickname_from (case ev_vars ev ''USER'' of Some u \<Rightarrow> Some u | None \<Rightarrow> ev_vars ev ''LOGNAME'')
       (Option.bind (ev_hostname ev) (hostname_from_bytes (ev_text ev)))"

definition choose_nickname :: "client_env \<Rightarrow> SyncArgs \<Rightarrow> (server_error, Nickname) result" where
  "choose_nickname ev args =
     (case sa_nickname args of
        Some name \<Rightarrow> map_err (\<lambda>_. Bail ''invalid --nickname'') (Nickname_new name)
      | None \<Rightarrow> auto_nickname ev)"

definition resolve_state_dir :: "client_env \<Rightarrow> SyncArgs \<Rightarrow> string" where
  "resolve_state_dir ev args =
     (case sa_state_dir args of
        Some d \<Rightarrow> d
      | None \<Rightarrow>
        (case ev_vars ev ''XDG_STATE_HOME'' of
           Some d \<Rightarrow> d @ ''/purgery''
         | None \<Rightarrow>
           (case ev_vars ev ''HOME'' of
              Some h \<Rightarrow> h @ ''/.local/state/purgery''
            | None \<Rightarrow> ''/tmp/purgery-client'')))"

section \<open>The durable state of a run\<close>

definition run_state_dir :: "string \<Rightarrow> string \<Rightarrow> string \<Rightarrow> fpath" where
  "run_state_dir state_dir nickname run_id =
     fpath_of (path_join (path_join state_dir ''runs'') (nickname @ ''-'' @ run_id))"

definition to_toml_io :: "string \<Rightarrow> ('e, string) result \<Rightarrow> string client" where
  "to_toml_io msg r = lift_res (map_err (\<lambda>_. Bail msg) r)"

definition persist_client_run_state ::
    "client_env \<Rightarrow> string \<Rightarrow> Nickname \<Rightarrow> RunId \<Rightarrow> string \<Rightarrow> string \<Rightarrow> Manifest \<Rightarrow> RunConfig \<Rightarrow> string option \<Rightarrow>
     ClientRunPhase \<Rightarrow> unit client" where
  "persist_client_run_state ev state_dir nickname run_id host server_command manifest run_config terminal_status phase =
     bind_io (to_toml_io ''manifest serialization'' (manifest_to_toml (ev_ser_manifest ev) manifest)) (\<lambda>manifest_text.
     bind_io (to_toml_io ''run config serialization'' (run_config_to_toml (ev_ser_run_config ev) run_config)) (\<lambda>config_text.
       let durable =
             \<lparr>cr_protocol_version = PROTOCOL_VERSION, cr_purgery_version = PURGERY_VERSION,
              cr_nickname = nickname_str nickname, cr_run_id = run_id_str run_id, cr_host = host,
              cr_server_command = server_command, cr_manifest = manifest_text, cr_run_config = config_text,
              cr_phase = phase, cr_terminal_status = terminal_status\<rparr>;
           dir = run_state_dir state_dir (nickname_str nickname) (run_id_str run_id);
           path = dir @ [''state.toml''];
           tmp = dir @ [''state.toml.tmp'']
       in
       bind_io (ctx ''failed to create run state dir'' (fs_create_dir_all dir)) (\<lambda>_.
       bind_io (ser_io ''failed to serialize run state'' (ev_ser_client_state ev durable)) (\<lambda>content.
       bind_io (ctx ''failed to write run state'' (fs_write tmp content)) (\<lambda>_.
         ctx ''failed to publish run state'' (fs_rename tmp path))))))"

definition remove_client_run_state :: "string \<Rightarrow> Nickname \<Rightarrow> RunId \<Rightarrow> unit client" where
  "remove_client_run_state state_dir nickname run_id =
     quietly (fs_remove_dir_all (run_state_dir state_dir (nickname_str nickname) (run_id_str run_id)))"

definition cleanup_path_of :: "string \<Rightarrow> Nickname \<Rightarrow> RunId \<Rightarrow> fpath" where
  "cleanup_path_of state_dir nickname run_id =
     fpath_of (path_join state_dir (''cleanup-'' @ nickname_str nickname @ ''-'' @ run_id_str run_id @ ''.toml''))"

section \<open>The end of a run\<close>

definition ensure_successful_status :: "RunStatus \<Rightarrow> (server_error, unit) result" where
  "ensure_successful_status status =
     (if rs_state status = RsDone then Inr ()
      else Inl (Bail ''sync completed with unsuccessful server status''))"

text \<open>Cleaning up when a cleanup state was kept, and then the last phase; both ends of a run share it.\<close>

definition cleanup_complete_phase ::
    "client_env \<Rightarrow> string \<Rightarrow> string \<Rightarrow> string \<Rightarrow> Nickname \<Rightarrow> RunId \<Rightarrow> Manifest \<Rightarrow> RunConfig \<Rightarrow> fpath option \<Rightarrow> bool \<Rightarrow> unit client" where
  "cleanup_complete_phase ev state_dir host server_command nickname run_id manifest run_config state_path cleanup_complete =
     bind_io (persist_client_run_state ev state_dir nickname run_id host server_command manifest run_config None CleanupComplete) (\<lambda>_.
     bind_io
       (case state_path of
          Some p \<Rightarrow> if cleanup_complete then retire_cleanup_state_file p else ret_io ()
        | None \<Rightarrow> ret_io ()) (\<lambda>_.
       remove_client_run_state state_dir nickname run_id))"

definition confirm_and_clean :: "client_env \<Rightarrow> fpath \<Rightarrow> RunStatus \<Rightarrow> bool client" where
  "confirm_and_clean ev state_path status =
     bind_io (confirm_imports_from_status (ev_codecs ev) state_path status) (\<lambda>_.
     bind_io (process_cleanup_state_file (ev_codecs ev) state_path) (\<lambda>outcome. ret_io (outcome = Complete)))"

definition process_cleanup_from_status ::
    "client_env \<Rightarrow> string \<Rightarrow> string \<Rightarrow> string \<Rightarrow> Nickname \<Rightarrow> RunId \<Rightarrow> Manifest \<Rightarrow> RunConfig \<Rightarrow> RunStatus \<Rightarrow> unit client" where
  "process_cleanup_from_status ev state_dir host server_command nickname run_id manifest run_config status =
     (let cleanup_path = cleanup_path_of state_dir nickname run_id in
      bind_io (fs_exists cleanup_path) (\<lambda>ex.
      bind_io
        (if ex then confirm_and_clean ev cleanup_path status
         else if rc_delete_after_import run_config \<and> mf_entries manifest \<noteq> []
         then fail_io (Bail ''cleanup state file is required but missing or corrupt'')
         else ret_io False) (\<lambda>cleanup_complete.
        cleanup_complete_phase ev state_dir host server_command nickname run_id manifest run_config
          (Some cleanup_path) cleanup_complete)))"

definition finish_cleanup_complete_resume :: "client_env \<Rightarrow> string \<Rightarrow> Nickname \<Rightarrow> RunId \<Rightarrow> unit client" where
  "finish_cleanup_complete_resume ev state_dir nickname run_id =
     (let cleanup_path = cleanup_path_of state_dir nickname run_id in
      bind_io (fs_exists cleanup_path) (\<lambda>ex.
      bind_io (if ex then quietly (process_cleanup_state_file_and_retire (ev_codecs ev) cleanup_path) else ret_io ()) (\<lambda>_.
        remove_client_run_state state_dir nickname run_id)))"

section \<open>Resuming\<close>

text \<open>How many phases are still to come.\<close>

definition phases_left :: "ClientRunPhase \<Rightarrow> nat" where
  "phases_left phase =
     (case phase of UploadCompleteFinishPending \<Rightarrow> 2 | WaitingForTerminalState \<Rightarrow> 1 | _ \<Rightarrow> 0)"

text \<open>A persisted or received status, when it is of this run.\<close>

definition parse_persisted_status :: "client_env \<Rightarrow> Nickname \<Rightarrow> RunId \<Rightarrow> string \<Rightarrow> (server_error, RunStatus) result" where
  "parse_persisted_status ev nickname run_id ts =
     bind_res (map_err (\<lambda>_. Bail ''failed to parse persisted status'') (ev_de_status ev ts)) (\<lambda>s.
       if \<not> is_ok (require_compatible_purgery_version (rs_purgery_version s) ''status'')
       then Inl (Bail ''incompatible persisted status version'')
       else if rs_nickname s \<noteq> nickname \<or> rs_run_id s \<noteq> run_id
       then Inl (Bail ''persisted terminal status envelope does not match'')
       else Inr s)"

definition read_terminal_status :: "client_env \<Rightarrow> string \<Rightarrow> string \<Rightarrow> Nickname \<Rightarrow> RunId \<Rightarrow> RunStatus client" where
  "read_terminal_status ev host server_command nickname run_id =
     bind_io (client_read_status ev host server_command nickname run_id) (\<lambda>status.
       if rs_nickname status \<noteq> nickname \<or> rs_run_id status \<noteq> run_id
       then fail_io (Bail ''server status envelope does not match'')
       else ret_io status)"

function (sequential) drain_phase ::
    "client_env \<Rightarrow> string \<Rightarrow> string \<Rightarrow> string \<Rightarrow> Nickname \<Rightarrow> RunId \<Rightarrow> Manifest \<Rightarrow> RunConfig \<Rightarrow> ClientRunPhase \<Rightarrow>
     string option \<Rightarrow> unit client" where
  "drain_phase ev state_dir host sc nickname run_id manifest run_config UploadCompleteFinishPending terminal_status =
     bind_io (client_finish_run ev host sc nickname run_id) (\<lambda>_.
     bind_io (persist_client_run_state ev state_dir nickname run_id host sc manifest run_config None WaitingForTerminalState) (\<lambda>_.
       drain_phase ev state_dir host sc nickname run_id manifest run_config WaitingForTerminalState terminal_status))"
| "drain_phase ev state_dir host sc nickname run_id manifest run_config WaitingForTerminalState terminal_status =
     bind_io (drive_server_until_terminal ev host sc nickname run_id) (\<lambda>_.
     bind_io (read_terminal_status ev host sc nickname run_id) (\<lambda>status.
     bind_io (ser_io ''status serialization'' (ev_ser_status ev status)) (\<lambda>ts.
     bind_io (persist_client_run_state ev state_dir nickname run_id host sc manifest run_config (Some ts) TerminalStatusSeen) (\<lambda>_.
       drain_phase ev state_dir host sc nickname run_id manifest run_config TerminalStatusSeen (Some ts)))))"
| "drain_phase ev state_dir host sc nickname run_id manifest run_config TerminalStatusSeen terminal_status =
     bind_io
       (case terminal_status of
          Some ts \<Rightarrow> lift_res (parse_persisted_status ev nickname run_id ts)
        | None \<Rightarrow> client_read_status ev host sc nickname run_id) (\<lambda>status.
     bind_io (process_cleanup_from_status ev state_dir host sc nickname run_id manifest run_config status) (\<lambda>_.
       lift_res (ensure_successful_status status)))"
| "drain_phase ev state_dir host sc nickname run_id manifest run_config CleanupComplete terminal_status =
     finish_cleanup_complete_resume ev state_dir nickname run_id"
| "drain_phase ev state_dir host sc nickname run_id manifest run_config Abandoned terminal_status = ret_io ()"
| "drain_phase ev state_dir host sc nickname run_id manifest run_config CorruptPhase terminal_status =
     fail_io (Bail ''persisted run state is marked corrupt; manual intervention required'')"
  by pat_completeness auto
termination
  by (relation "measure (\<lambda>(_, _, _, _, _, _, _, _, phase, _). phases_left phase)") (auto simp: phases_left_def)

text \<open>A persisted manifest or run configuration, with its version gate.\<close>

definition gated :: "string \<Rightarrow> ('a \<Rightarrow> string) \<Rightarrow> 'a decoder \<Rightarrow> string \<Rightarrow> (server_error, 'a) result" where
  "gated what version de text =
     bind_res (map_err (\<lambda>_. Bail (''failed to parse persisted '' @ what)) (de text)) (\<lambda>x.
       if is_ok (require_compatible_purgery_version (version x) what) then Inr x
       else Inl (Bail (''incompatible persisted '' @ what @ '' version'')))"

definition drain_one :: "client_env \<Rightarrow> string \<Rightarrow> ClientRunState \<Rightarrow> unit client" where
  "drain_one ev state_dir state =
     bind_io (lift_res (map_err (\<lambda>_. Bail ''invalid nickname in persisted state'') (Nickname_new (cr_nickname state)))) (\<lambda>nickname.
     bind_io (lift_res (map_err (\<lambda>_. Bail ''invalid run_id in persisted state'') (RunId_new (cr_run_id state)))) (\<lambda>run_id.
     bind_io (lift_res (gated ''manifest'' mf_purgery_version (ev_de_manifest ev) (cr_manifest state))) (\<lambda>manifest.
     bind_io (lift_res (gated ''run config'' rc_purgery_version (ev_de_run_config ev) (cr_run_config state))) (\<lambda>run_config.
       if cr_phase state = CleanupComplete then finish_cleanup_complete_resume ev state_dir nickname run_id
       else
         bind_io (check_server_version ev (cr_host state) (cr_server_command state)) (\<lambda>_.
           drain_phase ev state_dir (cr_host state) (cr_server_command state) nickname run_id manifest run_config
             (cr_phase state) (cr_terminal_status state))))))"

datatype StateVerdict = StateSkip | StateCorrupt | StateGood ClientRunState

definition judge_run_state :: "client_env \<Rightarrow> string \<Rightarrow> StateVerdict" where
  "judge_run_state ev content =
     (case probe_purgery_version_from_toml (cc_toml (ev_codecs ev)) content of
        Inl MissingVersion \<Rightarrow> StateSkip
      | Inl (ProbeInvalidToml _) \<Rightarrow> StateCorrupt
      | Inr version \<Rightarrow>
          if \<not> is_ok (require_compatible_purgery_version version ''client run state'') then StateSkip
          else (case ev_de_client_state ev content of Inr s \<Rightarrow> StateGood s | Inl _ \<Rightarrow> StateCorrupt))"

text \<open>One directory of \<open>runs\<close>; the value says whether something went wrong.\<close>

definition resume_entry :: "client_env \<Rightarrow> string \<Rightarrow> fpath \<Rightarrow> bool client" where
  "resume_entry ev state_dir entry_dir =
     (let state_path = entry_dir @ [''state.toml''] in
      bind_io (fs_exists state_path) (\<lambda>ex.
        if \<not> ex then ret_io False
        else
          bind_io (attempt_io (fs_read state_path)) (\<lambda>content.
            case content of
              Inl _ \<Rightarrow> ret_io False
            | Inr c \<Rightarrow>
              (case judge_run_state ev c of
                 StateSkip \<Rightarrow> ret_io False
               | StateCorrupt \<Rightarrow>
                   bind_io (quietly (fs_rename state_path (entry_dir @ [''state.toml.corrupt'']))) (\<lambda>_. ret_io True)
               | StateGood persisted \<Rightarrow>
                   bind_io (attempt_io (drain_one ev state_dir persisted)) (\<lambda>r.
                     case r of
                       Inr _ \<Rightarrow> bind_io (quietly (fs_remove_dir_all entry_dir)) (\<lambda>_. ret_io False)
                     | Inl (_ :: server_error) \<Rightarrow> ret_io True)))))"

fun resume_entries :: "client_env \<Rightarrow> string \<Rightarrow> fpath \<Rightarrow> bool \<Rightarrow> string list \<Rightarrow> bool client" where
  "resume_entries ev state_dir runs_dir any_error [] = ret_io any_error"
| "resume_entries ev state_dir runs_dir any_error (name # names) =
     bind_io (resume_entry ev state_dir (runs_dir @ [name])) (\<lambda>bad.
       resume_entries ev state_dir runs_dir (any_error \<or> bad) names)"

definition resume_runs :: "client_env \<Rightarrow> string \<Rightarrow> unit client" where
  "resume_runs ev state_dir =
     (let runs_dir = fpath_of (path_join state_dir ''runs'') in
      bind_io (fs_is_dir runs_dir) (\<lambda>d.
        if \<not> d then ret_io ()
        else
          bind_io (attempt_io (fs_read_dir runs_dir)) (\<lambda>r.
            case r of
              Inl IoNotFound \<Rightarrow> ret_io ()
            | Inl e \<Rightarrow> fail_io (IoContext ''failed to read runs directory'' e)
            | Inr names \<Rightarrow>
                bind_io (resume_entries ev state_dir runs_dir False (sort names)) (\<lambda>any_error.
                  if any_error then fail_io (Bail ''failed to resume one or more prior run states; refusing to start new sync'')
                  else ret_io ()))))"

section \<open>Heartbeats\<close>

datatype HeartbeatState = HB_NOT_STARTED | HB_HEALTHY | HB_FAILED

text \<open>The pause between two heartbeats, in milliseconds.\<close>

definition half_interval :: "u64 \<Rightarrow> u64" where
  "half_interval interval_secs = min (max interval_secs 2 * 500) 600000"

text \<open>The loop of the thread: it ends with the first heartbeat that fails.\<close>

fun heartbeat_loop :: "client_env \<Rightarrow> string \<Rightarrow> string \<Rightarrow> Nickname \<Rightarrow> RunId \<Rightarrow> nat \<Rightarrow> HeartbeatState \<Rightarrow> HeartbeatState client" where
  "heartbeat_loop ev host sc nickname run_id 0 state = ret_io state"
| "heartbeat_loop ev host sc nickname run_id (Suc n) state =
     bind_io (attempt_io (client_heartbeat_run ev host sc nickname run_id)) (\<lambda>r.
       case r of
         Inl (_ :: server_error) \<Rightarrow> ret_io HB_FAILED
       | Inr _ \<Rightarrow> heartbeat_loop ev host sc nickname run_id n HB_HEALTHY)"

text \<open>Health is known after the first heartbeat at the earliest.\<close>

definition heartbeat_is_healthy :: "client_env \<Rightarrow> string \<Rightarrow> string \<Rightarrow> Nickname \<Rightarrow> RunId \<Rightarrow> unit client" where
  "heartbeat_is_healthy ev host sc nickname run_id =
     bind_io (ev_beats ev) (\<lambda>n.
     bind_io (heartbeat_loop ev host sc nickname run_id (Suc n) HB_NOT_STARTED) (\<lambda>state.
       if state = HB_FAILED then fail_io (Bail ''heartbeat failed'') else ret_io ()))"

section \<open>Syncing one entry\<close>

datatype ServerRunSetup = Needed | AlreadyDone

text \<open>The version check and the server's garbage collection, which may fail.\<close>

definition server_setup :: "client_env \<Rightarrow> string \<Rightarrow> string \<Rightarrow> ServerRunSetup \<Rightarrow> unit client" where
  "server_setup ev host sc setup =
     (case setup of
        Needed \<Rightarrow>
          bind_io (check_server_version ev host sc) (\<lambda>_. quietly (server_cmd ev host sc [''gc'']))
      | AlreadyDone \<Rightarrow> ret_io ())"

text \<open>Uploading into the run that was begun; the value is the configuration to go on with.\<close>

definition stage_run ::
    "client_env \<Rightarrow> SourceSpec \<Rightarrow> string \<Rightarrow> string \<Rightarrow> Nickname \<Rightarrow> RunId \<Rightarrow> Manifest \<Rightarrow> RunConfig \<Rightarrow> BeginRunResponse \<Rightarrow> RunConfig client" where
  "stage_run ev spec host sc nickname run_id manifest run_config begin_resp =
     bind_io (to_toml_io ''run config serialization'' (run_config_to_toml (ev_ser_run_config ev) run_config)) (\<lambda>config_text.
     bind_io (write_remote_file ev host (br_run_config_path begin_resp) config_text) (\<lambda>_.
     bind_io (to_toml_io ''manifest serialization'' (manifest_to_toml (ev_ser_manifest ev) manifest)) (\<lambda>manifest_text.
     bind_io (write_remote_file ev host (br_manifest_path begin_resp) manifest_text) (\<lambda>_.
     bind_io (client_prepare_run ev host sc nickname run_id) (\<lambda>prepare_resp.
     bind_io
       (case pp_destination prepare_resp of
          None \<Rightarrow> ret_io run_config
        | Some dest \<Rightarrow>
            bind_io (lift_res (map_err (\<lambda>_. Bail ''server returned invalid resolved destination'') (DestinationPath_new dest)))
              (\<lambda>d. ret_io \<lparr>rc_purgery_version = PURGERY_VERSION, rc_nickname = nickname, rc_destination = d,
                rc_delete_after_import = True\<rparr>)) (\<lambda>run_config.
     bind_io (run_rsync ev (sp_operation_path spec) host (trim_end CHR ''/'' (br_files_dir begin_resp) @ ''/'')) (\<lambda>_.
       ret_io run_config)))))))"

text \<open>A run on the server, from its start to the cleanup of the sources.\<close>

definition server_run ::
    "client_env \<Rightarrow> string \<Rightarrow> SourceSpec \<Rightarrow> RemoteDestination \<Rightarrow> string \<Rightarrow> Nickname \<Rightarrow> RunId \<Rightarrow> Manifest \<Rightarrow> fpath option \<Rightarrow>
     ServerRunSetup \<Rightarrow> unit client" where
  "server_run ev state_dir spec remote sc nickname run_id manifest cleanup_state_path setup =
     (let host = rd_host remote;
          run_config = \<lparr>rc_purgery_version = PURGERY_VERSION, rc_nickname = nickname,
            rc_destination = rd_path remote, rc_delete_after_import = True\<rparr>
      in
      bind_io (server_setup ev host sc setup) (\<lambda>_.
      bind_io (client_begin_run ev host sc nickname run_id) (\<lambda>begin_resp.
      bind_io (stage_run ev spec host sc nickname run_id manifest run_config begin_resp) (\<lambda>run_config.
      bind_io (persist_client_run_state ev state_dir nickname run_id host sc manifest run_config None UploadCompleteFinishPending) (\<lambda>_.
      bind_io (heartbeat_is_healthy ev host sc nickname run_id) (\<lambda>_.
      bind_io (client_finish_run ev host sc nickname run_id) (\<lambda>_.
      bind_io (persist_client_run_state ev state_dir nickname run_id host sc manifest run_config None WaitingForTerminalState) (\<lambda>_.
      bind_io (drive_server_until_terminal ev host sc nickname run_id) (\<lambda>_.
      bind_io (read_terminal_status ev host sc nickname run_id) (\<lambda>status.
      bind_io (ser_io ''status serialization'' (ev_ser_status ev status)) (\<lambda>terminal_status.
      bind_io (persist_client_run_state ev state_dir nickname run_id host sc manifest run_config (Some terminal_status) TerminalStatusSeen) (\<lambda>_.
      bind_io
        (case cleanup_state_path of
           Some p \<Rightarrow> confirm_and_clean ev p status
         | None \<Rightarrow> ret_io False) (\<lambda>cleanup_complete.
      bind_io (cleanup_complete_phase ev state_dir host sc nickname run_id manifest run_config cleanup_state_path cleanup_complete) (\<lambda>_.
        lift_res (ensure_successful_status status)))))))))))))))"

text \<open>The durable list of what is to be deleted.\<close>

definition prepare_cleanup :: "client_env \<Rightarrow> string \<Rightarrow> SourceSpec \<Rightarrow> Nickname \<Rightarrow> RunId \<Rightarrow> fpath option client" where
  "prepare_cleanup ev state_dir spec nickname run_id =
     bind_io (capture_cleanup_identity (ev_walk ev) (ev_codecs ev) spec) (\<lambda>entries.
       if entries = [] then ret_io None
       else
         bind_io (write_cleanup_state (ev_codecs ev)
           \<lparr>cs_purgery_version = PURGERY_VERSION, cs_nickname = nickname_str nickname, cs_operation_id = run_id_str run_id,
            cs_entries = entries\<rparr> state_dir) (\<lambda>p. ret_io (Some (fpath_of p))))"

text \<open>A direct transfer; with a cleanup state, what it lists counts as imported once rsync has succeeded.\<close>

definition direct_transfer :: "client_env \<Rightarrow> SourceSpec \<Rightarrow> RemoteDestination \<Rightarrow> fpath option \<Rightarrow> unit client" where
  "direct_transfer ev spec remote cleanup_state_path =
     bind_io (run_rsync ev (sp_operation_path spec) (rd_host remote) (dp_operand (rd_path remote))) (\<lambda>_.
       case cleanup_state_path of
         None \<Rightarrow> ret_io ()
       | Some p \<Rightarrow>
           bind_io (confirm_all_imports (ev_codecs ev) p) (\<lambda>_.
           bind_io (process_cleanup_state_file_and_retire (ev_codecs ev) p) (\<lambda>_. ret_io ())))"

definition sync_entry ::
    "client_env \<Rightarrow> SyncArgs \<Rightarrow> RunId \<Rightarrow> string \<Rightarrow> SourceSpec \<Rightarrow> ServerRunSetup \<Rightarrow> Nickname \<Rightarrow> unit client" where
  "sync_entry ev args run_id state_dir spec setup nickname =
     bind_io (lift_res (parse_destination (sa_destination args))) (\<lambda>remote.
       if sa_transform args = None \<and> \<not> sa_delete_after_import args then direct_transfer ev spec remote None
       else
         bind_io (build_manifest (ev_codecs ev) spec run_id nickname (sa_transform args)) (\<lambda>manifest.
         bind_io (if sa_delete_after_import args then prepare_cleanup ev state_dir spec nickname run_id else ret_io None) (\<lambda>p.
           if sa_transform args = None then direct_transfer ev spec remote p
           else server_run ev state_dir spec remote (sa_server_command args) nickname run_id manifest p setup)))"

text \<open>What every sync does first: earlier work is brought to its end, and the operands are checked.\<close>

definition sync_prologue :: "client_env \<Rightarrow> SyncArgs \<Rightarrow> (string \<times> SourceSpec \<times> Nickname) client" where
  "sync_prologue ev args =
     (let state_dir = resolve_state_dir ev args in
      bind_io (resume_pending_cleanups (ev_codecs ev) state_dir) (\<lambda>_.
      bind_io (resume_runs ev state_dir) (\<lambda>_.
      bind_io (normalize_source (ev_cwd ev) (sa_source args)) (\<lambda>spec.
        if sa_transform args \<noteq> None \<and> \<not> sa_delete_after_import args
        then fail_io (Bail ''--delete-after-import is required when --transform is used'')
        else bind_io (lift_res (choose_nickname ev args)) (\<lambda>nickname. ret_io (state_dir, spec, nickname))))))"

section \<open>Splitting\<close>

definition run_passthrough_split ::
    "client_env \<Rightarrow> string \<Rightarrow> SourceKind \<Rightarrow> string \<Rightarrow> string \<Rightarrow> string \<Rightarrow> unit client" where
  "run_passthrough_split ev source kind pat host remote_dir =
     (case build_split_filters pat of
        None \<Rightarrow> run_rsync ev source host remote_dir
      | Some f \<Rightarrow>
          if kind \<noteq> SourceDirectory then ret_io ()
          else run_rsync_filter_transfer ev source host remote_dir (include_rules f) (exclude_rule f))"

text \<open>Discovery over the tree of sources; a panic of the matcher is an error.\<close>

definition split_roots :: "client_env \<Rightarrow> string \<Rightarrow> string \<Rightarrow> SplitCandidate list client" where
  "split_roots ev source pat =
     bind_io (attempt_io (src_lstat source)) (\<lambda>m.
     bind_io (ev_split_walk ev source) (\<lambda>walk.
       case discover_split_entries (case m of Inr d \<Rightarrow> Some (d = SourceDir) | Inl _ \<Rightarrow> None) walk source pat of
         Some roots \<Rightarrow> ret_io roots
       | None \<Rightarrow> fail_io (Bail ''panic'')))"

text \<open>One root of a split: a sync of its own, without splitting.\<close>

definition split_args :: "SyncArgs \<Rightarrow> string \<Rightarrow> Nickname \<Rightarrow> string \<Rightarrow> string \<Rightarrow> SyncArgs" where
  "split_args args state_dir nickname source destination =
     args\<lparr>sa_split := None, sa_nickname := Some (nickname_str nickname), sa_state_dir := Some state_dir,
       sa_source := source, sa_destination := destination\<rparr>"

definition run_split_root :: "client_env \<Rightarrow> SyncArgs \<Rightarrow> string \<Rightarrow> SourceSpec \<Rightarrow> Nickname \<Rightarrow> SplitCandidate \<Rightarrow> unit client" where
  "run_split_root ev args state_dir spec nickname root =
     (let dest = sa_destination args @ split_target_suffix (sp_operation_path spec) (cand_path root);
          root_args = split_args args state_dir nickname (cand_path root) dest
      in
      bind_io (ev_generate ev) (\<lambda>split_run_id.
      bind_io (sync_prologue ev root_args) (\<lambda>(root_state_dir, root_spec, root_nickname).
        sync_entry ev root_args split_run_id root_state_dir root_spec AlreadyDone root_nickname)))"

definition run_split ::
    "client_env \<Rightarrow> SyncArgs \<Rightarrow> string \<Rightarrow> string \<Rightarrow> SourceSpec \<Rightarrow> ServerRunSetup \<Rightarrow> Nickname \<Rightarrow> unit client" where
  "run_split ev args pat state_dir spec setup nickname =
     bind_io (lift_res (map_err (\<lambda>_. Bail ''invalid split pattern'') (validate_split_pattern pat))) (\<lambda>_.
     bind_io (lift_res (parse_destination (sa_destination args))) (\<lambda>target.
       if sa_transform args = None \<and> \<not> sa_delete_after_import args
       then run_passthrough_split ev (sp_operation_path spec) (sp_kind spec) pat (rd_host target) (dp_operand (rd_path target))
       else
         bind_io (split_roots ev (sp_operation_path spec) pat) (\<lambda>entry_roots.
           if entry_roots = [] then ret_io ()
           else
             bind_io
               (if sa_transform args \<noteq> None then server_setup ev (rd_host target) (sa_server_command args) setup
                else ret_io ()) (\<lambda>_.
               for_io entry_roots (run_split_root ev args state_dir spec nickname)))))"

section \<open>The sync\<close>

definition run_sync_with_run_id :: "client_env \<Rightarrow> SyncArgs \<Rightarrow> RunId \<Rightarrow> ServerRunSetup \<Rightarrow> unit client" where
  "run_sync_with_run_id ev args run_id setup =
     bind_io (sync_prologue ev args) (\<lambda>(state_dir, spec, nickname).
       case sa_split args of
         Some pat \<Rightarrow> run_split ev args pat state_dir spec setup nickname
       | None \<Rightarrow> sync_entry ev args run_id state_dir spec setup nickname)"

definition run_sync :: "client_env \<Rightarrow> SyncArgs \<Rightarrow> unit client" where
  "run_sync ev args = bind_io (ev_generate ev) (\<lambda>run_id. run_sync_with_run_id ev args run_id Needed)"

end
