(* ===== verification/Drive_Laws.thy ===== *)
theory Drive_Laws
  imports Drive Wp Fs_Laws
begin

text \<open>
  What driving a run to its end guarantees (theory \<open>Drive\<close>): the state it returns is a terminal
  answer of the server, it never has more than one worker and leaves none behind, it waits without
  a worker only for another processor, and it returns once the server reports a terminal state.
\<close>

section \<open>Answers\<close>

text \<open>The server gave this state at some time.\<close>

definition answered :: "client_env \<Rightarrow> string \<Rightarrow> string \<Rightarrow> Nickname \<Rightarrow> RunId \<Rightarrow> RunStateResponse \<Rightarrow> bool" where
  "answered ev host command nickname run_id s \<longleftrightarrow>
     (\<exists>v v'. client_run_state ev host command nickname run_id v = (Inr s, v'))"

lemma answered_accepted:
  assumes "answered ev host command nickname run_id s"
  shows "rr_protocol_version s = PROTOCOL_VERSION"
    and "is_ok (require_compatible_purgery_version (rr_purgery_version s) ''run-state response'')"
proof -
  from assms obtain v v' where "client_run_state ev host command nickname run_id v = (Inr s, v')"
    by (auto simp: answered_def)
  then obtain out where "parse_run_state_response ev out = Inr s"
    unfolding client_run_state_def
    by (cases "server_cmd ev host command (run_args ''run-state'' nickname run_id) v")
      (auto simp: bind_io_def lift_res_def split: sum.split_asm)
  then show "rr_protocol_version s = PROTOCOL_VERSION"
    "is_ok (require_compatible_purgery_version (rr_purgery_version s) ''run-state response'')"
    by (auto simp: parse_run_state_response_def accept_response_def bind_res_Inr_iff map_err_Inr_iff split: if_splits)
qed

lemma wp_run_state:
  assumes "\<And>x v. (\<And>s. x = Inr s \<Longrightarrow> answered ev h c n r s) \<Longrightarrow> Q x v"
  shows "wp (client_run_state ev h c n r) Q w"
  by (rule wpI, rule assms) (auto simp: answered_def)

lemma wp_any: "(\<And>x v. Q x v) \<Longrightarrow> wp m Q w"
  by (rule wpI)

text \<open>What a round leaves: an answer, and a worker unless another processor is at work.\<close>

definition waits :: "drive_state \<Rightarrow> bool" where
  "waits st \<longleftrightarrow>
     rr_phase (dv_state st) = ''ready'' \<and> dv_worker st \<noteq> None \<or>
     rr_phase (dv_state st) = ''processing'' \<and> (dv_worker st \<noteq> None \<or> processor_observation (dv_state st) = ActiveProc)"

lemma decide_answers:
  "wp (drive_decide ev h c n r st) (\<lambda>x _. \<forall>st'. x = Inr st' \<longrightarrow> dv_state st' = dv_state st \<and> waits st') w"
  unfolding drive_decide_def Let_def terminate_worker_on_error_def spawn_server_cmd_def ctx_def
  by (auto simp: wp_simps waits_def split: ProcessorObservation.split option.split intro!: wp_any split: sum.split)

lemma success_answers:
  "wp (handle_process_run_success ev h c n r out t)
    (\<lambda>x _. \<forall>d t'. x = Inr (d, t') \<longrightarrow> (case d of TerminalDecision s \<Rightarrow> answered ev h c n r s \<and> rr_terminal s
      | ContinueWithFreshState s \<Rightarrow> answered ev h c n r s)) w"
  unfolding handle_process_run_success_def
  by (auto simp: wp_simps split: sum.split option.split prod.split bool.split intro!: wp_run_state)

lemma exit_answers:
  "wp (drive_exit ev h c n r st e)
    (\<lambda>x _. case x of Inl _ \<Rightarrow> True | Inr (Inl s) \<Rightarrow> answered ev h c n r s \<and> rr_terminal s
      | Inr (Inr st') \<Rightarrow> answered ev h c n r (dv_state st')) w"
proof (cases e)
  case (ExitSuccess out)
  show ?thesis unfolding drive_exit_def ExitSuccess
    by (auto simp: wp_simps intro!: wp_mono [OF success_answers] split: sum.split prod.split WorkerExitDecision.split)
next
  case (ExitRemoteFailure a b d)
  show ?thesis unfolding drive_exit_def ExitRemoteFailure
    by (auto simp: wp_simps intro!: wp_run_state split: sum.split)
next
  case (ExitTransportFailure a b)
  show ?thesis unfolding drive_exit_def ExitTransportFailure
    by (auto simp: wp_simps intro!: wp_run_state split: sum.split)
qed (simp add: drive_exit_def wp_simps)

lemma polled_answers:
  assumes "answered ev h c n r (dv_state st)"
  shows "wp (drive_polled ev h c n r st)
    (\<lambda>x _. case x of Inl _ \<Rightarrow> True | Inr (Inl s) \<Rightarrow> answered ev h c n r s \<and> rr_terminal s
      | Inr (Inr st') \<Rightarrow> answered ev h c n r (dv_state st') \<and> waits st') w"
proof (cases "rr_terminal (dv_state st)")
  case True
  with assms show ?thesis unfolding drive_polled_def
    by (auto simp: wp_simps split: sum.split intro!: wp_any)
next
  case False
  have decide: "wp (drive_decide ev h c n r st)
    (\<lambda>x v. case (case x of Inl e \<Rightarrow> Inl e | Inr st \<Rightarrow> Inr (Inr st)) of Inl _ \<Rightarrow> True | Inr (Inl s) \<Rightarrow> answered ev h c n r s \<and> rr_terminal s
      | Inr (Inr st') \<Rightarrow> answered ev h c n r (dv_state st') \<and> waits st') v" if "answered ev h c n r (dv_state st)" for st v
    using that by (auto intro!: wp_mono [OF decide_answers] split: sum.split)
  show ?thesis
  proof (cases "dv_worker st")
    case None
    with False assms show ?thesis unfolding drive_polled_def
      by (auto simp: wp_simps intro!: wp_mono [OF decide_answers] split: sum.split)
  next
    case (Some w)
    show ?thesis unfolding drive_polled_def
      using False assms Some
      by (auto simp: wp_simps try_wait_def intro!: wp_any wp_mono [OF decide_answers] wp_mono [OF exit_answers] split: sum.split option.split)
  qed
qed

lemma step_answers:
  assumes "dv_worker st \<noteq> None \<longrightarrow> answered ev h c n r (dv_state st)"
  shows "wp (drive_step ev h c n r st)
    (\<lambda>x _. case x of Inl _ \<Rightarrow> True | Inr (Inl s) \<Rightarrow> answered ev h c n r s \<and> rr_terminal s
      | Inr (Inr st') \<Rightarrow> answered ev h c n r (dv_state st') \<and> waits st') w"
  unfolding drive_step_def
  using assms by (auto simp: wp_simps intro!: wp_run_state polled_answers split: sum.split)

text \<open>The states of the loop between two rounds.\<close>

inductive drives :: "client_env \<Rightarrow> string \<Rightarrow> string \<Rightarrow> Nickname \<Rightarrow> RunId \<Rightarrow> drive_state \<Rightarrow> world \<Rightarrow> drive_state \<Rightarrow> world \<Rightarrow> bool"
  for ev h c n r where
  drives_start: "drives ev h c n r st w st w"
| drives_round: "drives ev h c n r st w st1 w1 \<Longrightarrow> drive_step ev h c n r st1 w1 = (Inr (Inr st2), w2) \<Longrightarrow>
    drives ev h c n r st w st2 w2"

inductive_cases drivesE: "drives ev h c n r st w st' w'"

lemma drives_first:
  assumes "drives ev h c n r st1 w1 st2 w2" "drive_step ev h c n r st w = (Inr (Inr st1), w1)"
  shows "drives ev h c n r st w st2 w2"
  using assms
proof (induction rule: drives.induct)
  case drives_start
  from drives.drives_round [OF drives.drives_start drives_start] show ?case .
next
  case drives_round
  from drives.drives_round [OF drives_round.IH [OF drives_round.prems] drives_round.hyps(2)] show ?case .
qed

text \<open>The loop with enough rounds ends in a round, with too few between two rounds.\<close>

lemma drive_loop_cases:
  assumes "drive_loop ev h c n r k st w = (x, w')"
  obtains (still) st' where "x = Inr None" "drives ev h c n r st w st' w'"
    | (finished) st1 w1 s where "drives ev h c n r st w st1 w1" "drive_step ev h c n r st1 w1 = (Inr (Inl s), w')" "x = Inr (Some s)"
    | (failed) st1 w1 e where "drives ev h c n r st w st1 w1" "drive_step ev h c n r st1 w1 = (Inl e, w')" "x = Inl e"
  using assms
proof (induction k arbitrary: st w thesis)
  case 0
  then show ?case by (auto simp: ret_io_def intro: drives_start)
next
  case (Suc k)
  obtain y v where y: "drive_step ev h c n r st w = (y, v)" by (metis surj_pair)
  show ?case
  proof (cases "\<exists>st1. y = Inr (Inr st1)")
    case True
    then obtain st1 where st1: "y = Inr (Inr st1)" by blast
    with Suc.prems(4) y have "drive_loop ev h c n r k st1 v = (x, w')" by (simp add: bind_io_def)
    then show ?thesis
      by (rule Suc.IH [rotated 3]) (use Suc.prems(1-3) drives_first [OF _ y [unfolded st1]] in blast)+
  next
    case False
    then consider e where "y = Inl e" | s where "y = Inr (Inl s)" by (metis sum.exhaust)
    then show ?thesis
    proof cases
      case 1
      with Suc.prems(4) y have "x = Inl e" "v = w'" by (simp_all add: bind_io_def)
      with Suc.prems(3) [OF drives.drives_start] y 1 show ?thesis by simp
    next
      case 2
      with Suc.prems(4) y have "x = Inr (Some s)" "v = w'" by (simp_all add: bind_io_def ret_io_def)
      with Suc.prems(2) [OF drives.drives_start] y 2 show ?thesis by simp
    qed
  qed
qed

lemma drives_answers:
  "drives ev h c n r st w st' w' \<Longrightarrow> dv_worker st = None \<Longrightarrow>
    (st' = st \<or> answered ev h c n r (dv_state st') \<and> waits st')"
proof (induction rule: drives.induct)
  case (drives_round st w st1 w1 st2 w2)
  then have "dv_worker st1 \<noteq> None \<longrightarrow> answered ev h c n r (dv_state st1)" by auto
  from wpD [OF step_answers [OF this] drives_round.hyps(2)] show ?case by simp
qed simp

lemma drive_answered:
  assumes "drive_server_until_terminal ev host command nickname run_id w = (Inr s, w')"
  shows "answered ev host command nickname run_id s" "rr_terminal s"
proof -
  from assms have loop: "drive_loop ev host command nickname run_id (ev_polls ev) (drive_start nickname run_id) w = (Inr (Some s), w')"
    by (auto simp: drive_server_until_terminal_def bind_io_def ret_io_def fail_io_def split: prod.splits sum.splits option.splits)
  then obtain st1 w1 where s: "drives ev host command nickname run_id (drive_start nickname run_id) w st1 w1"
    "drive_step ev host command nickname run_id st1 w1 = (Inr (Inl s), w')"
    by (rule drive_loop_cases) auto
  from drives_answers [OF s(1)] have "dv_worker st1 \<noteq> None \<longrightarrow> answered ev host command nickname run_id (dv_state st1)"
    by (auto simp: drive_start_def)
  from wpD [OF step_answers [OF this] s(2)] show "answered ev host command nickname run_id s" "rr_terminal s" by simp_all
qed

text \<open>
  C18. Driving a run returns only what the server said: a state that is terminal, that the server gave
  with the client's protocol version and a compatible program version, never the placeholder of the
  start. Between two rounds the client has a worker, or another processor is active on the run.
\<close>

theorem drive_returns_terminal_answer:
  shows "(drive_server_until_terminal ev host command nickname run_id w = (Inr s, w') \<longrightarrow>
      rr_terminal s \<and> rr_protocol_version s = PROTOCOL_VERSION \<and>
      is_ok (require_compatible_purgery_version (rr_purgery_version s) ''run-state response'') \<and>
      (\<exists>v v'. client_run_state ev host command nickname run_id v = (Inr s, v'))) \<and>
    (drives ev host command nickname run_id (drive_start nickname run_id) w st w' \<and> st \<noteq> drive_start nickname run_id \<longrightarrow>
      rr_phase (dv_state st) \<in> {''ready'', ''processing''} \<and>
      (dv_worker st = None \<longrightarrow> rr_phase (dv_state st) = ''processing'' \<and> rr_processor_state (dv_state st) = Some ''active''))"
proof (intro conjI impI)
  assume "drive_server_until_terminal ev host command nickname run_id w = (Inr s, w')"
  note a = drive_answered [OF this]
  from a answered_accepted [OF a(1)] show "rr_terminal s" "rr_protocol_version s = PROTOCOL_VERSION"
    "is_ok (require_compatible_purgery_version (rr_purgery_version s) ''run-state response'')"
    "\<exists>v v'. client_run_state ev host command nickname run_id v = (Inr s, v')"
    by (simp_all add: answered_def)
next
  assume "drives ev host command nickname run_id (drive_start nickname run_id) w st w' \<and> st \<noteq> drive_start nickname run_id"
  with drives_answers have "waits st" by (fastforce simp: drive_start_def)
  then show "rr_phase (dv_state st) \<in> {''ready'', ''processing''}"
    "dv_worker st = None \<Longrightarrow> rr_phase (dv_state st) = ''processing''"
    "dv_worker st = None \<Longrightarrow> rr_processor_state (dv_state st) = Some ''active''"
    by (auto simp: waits_def processor_observation_def split: option.split_asm if_split_asm)
qed

section \<open>Workers\<close>

text \<open>
  What the operations do to the set of the client's live children: a started child is a new one, a
  child that was found to have ended, or was waited for, is gone, and nothing else changes the set.
\<close>

definition reaps :: "client_env \<Rightarrow> (world \<Rightarrow> nat set) \<Rightarrow> bool" where
  "reaps ev alive \<longleftrightarrow>
     (\<forall>host command w r w'. ev_ssh ev host command w = (r, w') \<longrightarrow> alive w' = alive w) \<and>
     (\<forall>host command w r w'. ev_spawn ev host command w = (r, w') \<longrightarrow>
       (case r of Inl _ \<Rightarrow> alive w' = alive w | Inr h \<Rightarrow> h \<notin> alive w \<and> alive w' = insert h (alive w))) \<and>
     (\<forall>h w r w'. ev_try_wait ev h w = (r, w') \<longrightarrow> alive w' = (if r = Inr None then alive w else alive w - {h})) \<and>
     (\<forall>h secs w r w'. ev_wait_timeout ev h secs w = (r, w') \<longrightarrow> alive w' = (if r = Inr None then alive w else alive w - {h})) \<and>
     (\<forall>h w r w'. ev_wait ev h w = (r, w') \<longrightarrow> alive w' = alive w - {h}) \<and>
     (\<forall>h w r w'. ev_kill ev h w = (r, w') \<longrightarrow> alive w' = alive w)"

interpretation calm: world_relation "\<lambda>w w'. alive w' = alive w" for alive :: "world \<Rightarrow> nat set"
  by unfold_locales simp_all

lemma wp_kept: "(\<And>w r w'. m w = (r, w') \<Longrightarrow> R w w') \<Longrightarrow> (\<And>x v. R w v \<Longrightarrow> Q x v) \<Longrightarrow> wp m Q w"
  by (rule wpI) blast

definition owns :: "(world \<Rightarrow> nat set) \<Rightarrow> nat set \<Rightarrow> nat option \<Rightarrow> world \<Rightarrow> bool" where
  "owns alive A worker w \<longleftrightarrow> (case worker of None \<Rightarrow> alive w = A | Some h \<Rightarrow> h \<notin> A \<and> alive w = insert h A)"

lemma calm_ssh: "reaps ev alive \<Longrightarrow> calm.kept alive (ev_ssh ev host command)"
  by (simp add: calm.kept_def reaps_def)

lemma calm_run_state: "reaps ev alive \<Longrightarrow> calm.kept alive (client_run_state ev h c n r)"
  unfolding client_run_state_def server_cmd_def server_cmd_raw_def ctx_def
  by (intro calm.kept_intros calm_ssh)

lemma calm_success: "reaps ev alive \<Longrightarrow> calm.kept alive (handle_process_run_success ev h c n r out t)"
  unfolding handle_process_run_success_def
  by (intro calm.kept_intros calm.kept_cases calm_run_state)

lemma calm_exit: "reaps ev alive \<Longrightarrow> calm.kept alive (drive_exit ev h c n r st e)"
  unfolding drive_exit_def
  by (cases e; simp only: RemoteCommandExit.case; intro calm.kept_intros calm.kept_cases calm_run_state calm_success; assumption)

lemma reaps_ops:
  assumes "reaps ev alive"
  shows "wp (ev_spawn ev host command) (\<lambda>r v. case r of Inl _ \<Rightarrow> alive v = alive w | Inr h \<Rightarrow> h \<notin> alive w \<and> alive v = insert h (alive w)) w"
    and "wp (ev_try_wait ev h) (\<lambda>r v. alive v = (if r = Inr None then alive w else alive w - {h})) w"
    and "wp (ev_wait_timeout ev h secs) (\<lambda>r v. alive v = (if r = Inr None then alive w else alive w - {h})) w"
    and "wp (ev_wait ev h) (\<lambda>r v. alive v = alive w - {h}) w"
    and "wp (ev_kill ev h) (\<lambda>r v. alive v = alive w) w"
  using assms unfolding reaps_def by (auto intro!: wpI)

text \<open>A child that is waited for, or killed and waited for, is gone.\<close>

lemma reap_worker:
  assumes "reaps ev alive" "owns alive A (Some h) w"
  shows "wp (terminate_and_reap ev h) (\<lambda>_ v. alive v = A) w"
proof -
  have "wp (ev_wait ev h) (\<lambda>_ v. alive v = A) v" if "alive v = alive w" for v
    using assms(2) that by (intro wp_mono [OF reaps_ops(4) [OF assms(1)]]) (auto simp: owns_def)
  then show ?thesis unfolding terminate_and_reap_def
    by (auto simp: wp_simps intro!: wp_mono [OF reaps_ops(5) [OF assms(1)]])
qed

lemma terminate_worker:
  "reaps ev alive \<Longrightarrow> owns alive A worker w \<Longrightarrow> wp (terminate_worker_on_error ev worker) (\<lambda>_ v. alive v = A) w"
  unfolding terminate_worker_on_error_def
  by (cases worker) (auto simp: wp_simps owns_def intro!: wp_mono [OF reap_worker] split: sum.split)

text \<open>What asking for the end of a worker leaves.\<close>

lemma asked:
  assumes "owns alive A (Some h) w" "alive v = (if r = Inr None then alive w else alive w - {h})"
  shows "owns alive A (if settle_wait ev h r = None then Some h else None) v"
  using assms by (auto simp: owns_def settle_wait_def split: sum.split option.split)

lemma asked_worker:
  assumes "reaps ev alive" "owns alive A (Some h) w"
  shows "wp (try_wait ev h) (\<lambda>x v. \<exists>y. x = Inr y \<and> owns alive A (if y = None then Some h else None) v) w"
    and "wp (wait_timeout ev h secs) (\<lambda>x v. \<exists>y. x = Inr y \<and> owns alive A (if y = None then Some h else None) v) w"
  unfolding try_wait_def wait_timeout_def wp_simps sum.case
  by (rule wp_mono [OF reaps_ops(2) [OF assms(1)]], use asked [OF assms(2)] in blast)
    (rule wp_mono [OF reaps_ops(3) [OF assms(1)]], use asked [OF assms(2)] in blast)

lemma finish_worker:
  assumes "reaps ev alive" "owns alive A worker w"
  shows "wp (finish_worker_after_terminal ev worker) (\<lambda>_ v. alive v = A) w"
proof (cases worker)
  case (Some h)
  show ?thesis
    unfolding finish_worker_after_terminal_def Some option.case wp_bind
    by (rule wp_mono [OF asked_worker(2) [OF assms(1) assms(2) [unfolded Some]]])
      (auto simp: wp_simps owns_def [of _ _ None] intro!: wp_mono [OF reap_worker [OF assms(1)]]
        split: sum.split option.split if_split_asm)
qed (use assms in \<open>simp add: finish_worker_after_terminal_def wp_simps owns_def\<close>)

definition owned :: "(world \<Rightarrow> nat set) \<Rightarrow> nat set \<Rightarrow> (server_error, drive_state) result \<Rightarrow> world \<Rightarrow> bool" where
  "owned alive A x v \<longleftrightarrow> (case x of Inl _ \<Rightarrow> alive v = A | Inr st \<Rightarrow> owns alive A (dv_worker st) v)"

lemma owned_simps [simp]: "owned alive A (Inl e) v \<longleftrightarrow> alive v = A" "owned alive A (Inr st) v \<longleftrightarrow> owns alive A (dv_worker st) v"
  by (simp_all add: owned_def)

lemma decide_worker:
  assumes "reaps ev alive" "owns alive A (dv_worker st) w"
  shows "wp (drive_decide ev h c n r st) (owned alive A) w"
proof -
  have restart: "wp (if dv_worker st = None
            then bind_io (spawn_server_cmd ev h c args) (\<lambda>w. ret_io (st\<lparr>dv_worker := Some w\<rparr>))
            else ret_io st) (owned alive A) w" for args
  proof (cases "dv_worker st")
    case None
    with assms(2) have "alive w = A" by (simp add: owns_def)
    with None show ?thesis unfolding spawn_server_cmd_def ctx_def
      by (auto simp: wp_simps owns_def intro!: wp_mono [OF reaps_ops(1) [OF assms(1)]] split: sum.split sum.split_asm)
  qed (use assms(2) in \<open>simp add: wp_simps\<close>)
  have give_up: "wp (bind_io (terminate_worker_on_error ev (dv_worker st)) (\<lambda>_. fail_io (Bail msg))) (owned alive A) w" for msg
    unfolding wp_bind by (rule wp_mono [OF terminate_worker [OF assms]]) (simp add: wp_simps split: sum.split)
  have stay: "wp (ret_io st) (owned alive A) w"
    using assms(2) by (simp add: wp_simps)
  show ?thesis unfolding drive_decide_def Let_def
    by (cases "processor_observation (dv_state st)"; simp only: ProcessorObservation.case; intro restart give_up stay wp_ifI)
qed

definition stepped :: "(world \<Rightarrow> nat set) \<Rightarrow> nat set \<Rightarrow> (server_error, RunStateResponse + drive_state) result \<Rightarrow> world \<Rightarrow> bool" where
  "stepped alive A x v \<longleftrightarrow> (case x of Inr (Inr st) \<Rightarrow> owns alive A (dv_worker st) v | _ \<Rightarrow> alive v = A)"

lemma stepped_simps [simp]: "stepped alive A (Inl e) v \<longleftrightarrow> alive v = A" "stepped alive A (Inr (Inl s)) v \<longleftrightarrow> alive v = A"
  "stepped alive A (Inr (Inr st)) v \<longleftrightarrow> owns alive A (dv_worker st) v"
  by (simp_all add: stepped_def)

lemma exit_worker:
  assumes "reaps ev alive" "alive w = A"
  shows "wp (drive_exit ev h c n r st e) (\<lambda>x v. alive v = A \<and> (\<forall>st'. x = Inr (Inr st') \<longrightarrow> dv_worker st' = None)) w"
proof -
  have "wp (drive_exit ev h c n r st e) (\<lambda>x v. \<forall>st'. x = Inr (Inr st') \<longrightarrow> dv_worker st' = None) w"
    unfolding drive_exit_def
    by (cases e) (auto simp: wp_simps intro!: wp_any split: sum.split prod.split WorkerExitDecision.split)
  moreover have "wp (drive_exit ev h c n r st e) (\<lambda>x v. alive v = A) w"
    using calm.keptD [OF calm_exit [OF assms(1)]] assms(2) by (intro wpI) auto
  ultimately show ?thesis using wp_conj by fastforce
qed

lemma polled_worker:
  assumes "reaps ev alive" "owns alive A (dv_worker st) w"
  shows "wp (drive_polled ev h c n r st) (stepped alive A) w"
proof (cases "rr_terminal (dv_state st)")
  case True
  then show ?thesis unfolding drive_polled_def
    by (auto simp: wp_simps intro!: wp_mono [OF finish_worker [OF assms]] split: sum.split)
next
  case False
  have look: "wp (case dv_worker st of None \<Rightarrow> ret_io (Inr st)
         | Some w \<Rightarrow> bind_io (try_wait ev w) (\<lambda>exit.
               case exit of None \<Rightarrow> ret_io (Inr st) | Some e \<Rightarrow> drive_exit ev h c n r st e)) (stepped alive A) w"
  proof (cases "dv_worker st")
    case (Some k)
    show ?thesis unfolding Some option.case wp_bind
      by (rule wp_mono [OF asked_worker(1) [OF assms(1) assms(2) [unfolded Some]]])
        (auto simp: wp_simps Some owns_def [of _ _ None] stepped_def intro!: wp_mono [OF exit_worker [OF assms(1)]]
          split: sum.split option.split if_split_asm)
  qed (use assms(2) in \<open>simp add: wp_simps\<close>)
  define K where "K x = (case x of Inl ts \<Rightarrow> ret_io (Inl ts)
      | Inr st \<Rightarrow> bind_io (drive_decide ev h c n r st) (\<lambda>st. (ret_io (Inr st) :: (RunStateResponse + drive_state) client)))"
    for x :: "RunStateResponse + drive_state"
  have K: "wp (K x) (stepped alive A) v" if "stepped alive A (Inr x) v" for x v
    using that by (cases x)
      (auto simp: K_def wp_simps intro!: wp_mono [OF decide_worker [OF assms(1)]] split: sum.split sum.split_asm)
  have "drive_polled ev h c n r st = bind_io (case dv_worker st of None \<Rightarrow> ret_io (Inr st)
         | Some w \<Rightarrow> bind_io (try_wait ev w) (\<lambda>exit.
               case exit of None \<Rightarrow> ret_io (Inr st) | Some e \<Rightarrow> drive_exit ev h c n r st e)) K"
    using False by (simp only: drive_polled_def if_False K_def [abs_def])
  then show ?thesis by (simp only: wp_bind) (auto intro!: wp_mono [OF look] K split: sum.split)
qed

lemma step_worker:
  assumes "reaps ev alive" "owns alive A (dv_worker st) w"
  shows "wp (drive_step ev h c n r st) (stepped alive A) w"
proof -
  have "wp (drive_polled ev h c n r st') (stepped alive A) v" if "dv_worker st' = dv_worker st" "alive v = alive w" for st' v
    using polled_worker [OF assms(1), of A st' v] assms(2) that by (simp add: owns_def split: option.splits)
  note polled = this
  have "wp (client_run_state ev h c n r) (\<lambda>_ v. alive v = alive w) w"
    using calm.keptD [OF calm_run_state [OF assms(1)]] by (intro wpI) auto
  then show ?thesis unfolding drive_step_def wp_bind wp_attempt
  proof (rule wp_mono)
    fix x v assume v: "alive v = alive w"
    show "case Inr x of Inl e \<Rightarrow> stepped alive A (Inl e) v
      | Inr r' \<Rightarrow> wp (case r' of Inl e \<Rightarrow> if dv_worker st \<noteq> None then drive_polled ev h c n r st else fail_io e
          | Inr s \<Rightarrow> drive_polled ev h c n r (st\<lparr>dv_state := s\<rparr>)) (stepped alive A) v"
    proof (cases x)
      case (Inl e)
      have "dv_worker st = None \<Longrightarrow> alive v = A" using assms(2) v by (simp add: owns_def)
      with Inl polled [OF refl v] show ?thesis by (simp add: wp_fail)
    next
      case (Inr s)
      have "wp (drive_polled ev h c n r (st\<lparr>dv_state := s\<rparr>)) (stepped alive A) v" by (rule polled) (simp_all add: v)
      with Inr show ?thesis by simp
    qed
  qed
qed

text \<open>
  C17. The client has at most one worker for a run, and none is left behind: while a run is driven the
  client's live children are those of before and possibly one more, and when driving ends, with a
  terminal state or with any error, they are exactly those of before. This rests on what the operating
  system promises of children: a started one is new, and one that has ended and was waited for is gone.
\<close>

theorem drive_leaves_no_worker:
  assumes "reaps ev alive"
    and "drive_loop ev host command nickname run_id k (drive_start nickname run_id) w = (r, w')"
  shows "(r \<noteq> Inr None \<longrightarrow> alive w' = alive w) \<and> (\<exists>extra. card extra \<le> 1 \<and> extra \<inter> alive w = {} \<and> alive w' = alive w \<union> extra)"
proof -
  have drives: "owns alive A (dv_worker st') v" if "drives ev host command nickname run_id st u st' v" "owns alive A (dv_worker st) u" for A st u st' v
    using that
  proof (induction rule: drives.induct)
    case (drives_round st w st1 w1 st2 w2)
    from wpD [OF step_worker [OF assms(1) drives_round.IH [OF drives_round.prems]] drives_round.hyps(2)] show ?case by simp
  qed
  have start: "owns alive (alive w) (dv_worker (drive_start nickname run_id)) w" by (simp add: owns_def drive_start_def)
  from assms(2) show ?thesis
  proof (cases rule: drive_loop_cases)
    case (still st')
    from drives [OF still(2) start] have o: "owns alive (alive w) (dv_worker st') w'" .
    show ?thesis
    proof (cases "dv_worker st'")
      case (Some h)
      with o still(1) show ?thesis by (intro conjI exI [of _ "{h}"]) (auto simp: owns_def)
    qed (use o still(1) in \<open>auto simp: owns_def intro!: exI [of _ "{}"]\<close>)
  next
    case (finished st1 w1 s)
    from wpD [OF step_worker [OF assms(1) drives [OF finished(1) start]] finished(2)] have "alive w' = alive w" by simp
    then show ?thesis by (intro conjI exI [of _ "{}"]) auto
  next
    case (failed st1 w1 e)
    from wpD [OF step_worker [OF assms(1) drives [OF failed(1) start]] failed(2)] have "alive w' = alive w" by simp
    then show ?thesis by (intro conjI exI [of _ "{}"]) auto
  qed
qed

section \<open>The end of driving\<close>

text \<open>Operations do not turn the time back, and a command to the server takes time.\<close>

definition ticking :: "client_env \<Rightarrow> bool" where
  "ticking ev \<longleftrightarrow>
     (\<forall>host command w r w'. ev_ssh ev host command w = (r, w') \<longrightarrow> tick w < tick w') \<and>
     (\<forall>host command w r w'. ev_spawn ev host command w = (r, w') \<longrightarrow> tick w \<le> tick w') \<and>
     (\<forall>h w r w'. ev_try_wait ev h w = (r, w') \<longrightarrow> tick w \<le> tick w') \<and>
     (\<forall>h secs w r w'. ev_wait_timeout ev h secs w = (r, w') \<longrightarrow> tick w \<le> tick w') \<and>
     (\<forall>h w r w'. ev_wait ev h w = (r, w') \<longrightarrow> tick w \<le> tick w') \<and>
     (\<forall>h w r w'. ev_kill ev h w = (r, w') \<longrightarrow> tick w \<le> tick w')"

interpretation passing: world_relation "\<lambda>w w'. tick w \<le> tick w'"
  by unfold_locales simp_all

lemma passing_ops:
  assumes "ticking ev"
  shows "passing.kept (ev_ssh ev host command)" "passing.kept (ev_spawn ev host command)" "passing.kept (ev_try_wait ev h)"
    "passing.kept (ev_wait_timeout ev h secs)" "passing.kept (ev_wait ev h)" "passing.kept (ev_kill ev h)"
  using assms unfolding ticking_def passing.kept_def by (auto intro: less_imp_le)

lemma passing_run_state: "ticking ev \<Longrightarrow> passing.kept (client_run_state ev h c n r)"
  unfolding client_run_state_def server_cmd_def server_cmd_raw_def ctx_def
  by (intro passing.kept_intros passing_ops)

lemma run_state_ticks:
  assumes "ticking ev" "client_run_state ev h c n r w = (x, w')"
  shows "tick w < tick w'"
proof -
  let ?cmd = "full_command c (run_args ''run-state'' n r)"
  obtain y v where y: "ev_ssh ev h ?cmd w = (y, v)" by (metis surj_pair)
  with assms(1) have "tick w < tick v" by (auto simp: ticking_def)
  moreover from assms(2) y have "w' = v"
    by (cases y) (auto simp: client_run_state_def server_cmd_def server_cmd_raw_def bind_io_def ctx_def err_io_def ret_io_def
      lift_res_def split: sum.split_asm)
  ultimately show ?thesis by simp
qed

lemmas passing_rules = passing.kept_intros passing.kept_cases passing_run_state passing_ops

lemma passing_workers:
  assumes "ticking ev"
  shows "passing.kept (terminate_worker_on_error ev worker)" "passing.kept (finish_worker_after_terminal ev worker)"
    "passing.kept (try_wait ev k)" "passing.kept (spawn_server_cmd ev h c args)"
    "passing.kept (handle_process_run_success ev h c n r out t)"
  unfolding terminate_worker_on_error_def finish_worker_after_terminal_def terminate_and_reap_def wait_timeout_def try_wait_def
    spawn_server_cmd_def ctx_def handle_process_run_success_def
  by (intro passing_rules assms)+

lemma passing_exit: "ticking ev \<Longrightarrow> passing.kept (drive_exit ev h c n r st e)"
  unfolding drive_exit_def
  by (cases e; simp only: RemoteCommandExit.case; intro passing_rules passing_workers; assumption)

lemma passing_decide: "ticking ev \<Longrightarrow> passing.kept (drive_decide ev h c n r st)"
  unfolding drive_decide_def Let_def
  by (cases "processor_observation (dv_state st)"; simp only: ProcessorObservation.case; intro passing_rules passing_workers; assumption)

lemma passing_polled: "ticking ev \<Longrightarrow> passing.kept (drive_polled ev h c n r st)"
  unfolding drive_polled_def by (intro passing_rules passing_workers passing_exit passing_decide)

lemma step_ticks:
  assumes "ticking ev" "drive_step ev h c n r st w = (x, w')"
  shows "tick w < tick w'"
proof -
  obtain y v where y: "client_run_state ev h c n r w = (y, v)" by (metis surj_pair)
  have "tick w < tick v" using run_state_ticks [OF assms(1) y] .
  moreover have "tick v \<le> tick w'"
    using assms(2) y passing.keptD [OF passing_polled [OF assms(1)]]
    by (auto simp: drive_step_def bind_io_def attempt_io_def fail_io_def split: sum.split_asm if_split_asm)
  ultimately show ?thesis by simp
qed

lemma terminal_step:
  assumes "client_run_state ev h c n r w = (Inr s, v)" "rr_terminal s"
  shows "\<exists>x w'. drive_step ev h c n r st w = (x, w') \<and> (\<forall>st'. x \<noteq> Inr (Inr st'))"
  using assms by (auto simp: drive_step_def drive_polled_def bind_io_def attempt_io_def ret_io_def split: prod.split sum.split)

lemma drive_loop_ends:
  assumes "ticking ev" and "\<And>v. T \<le> tick v \<Longrightarrow> \<exists>s v'. client_run_state ev h c n r v = (Inr s, v') \<and> rr_terminal s"
  shows "\<exists>K x w'. x \<noteq> Inr None \<and> (\<forall>k \<ge> K. drive_loop ev h c n r k st w = (x, w'))"
proof (induction "T - tick w" arbitrary: st w rule: less_induct)
  case less
  obtain y v where y: "drive_step ev h c n r st w = (y, v)" by (metis surj_pair)
  have unfold: "drive_loop ev h c n r k st w = (case y of Inl e \<Rightarrow> (Inl e, v) | Inr (Inl s) \<Rightarrow> (Inr (Some s), v)
      | Inr (Inr st1) \<Rightarrow> drive_loop ev h c n r (k - 1) st1 v)" if "1 \<le> k" for k
    using that y by (cases k) (auto simp: bind_io_def ret_io_def split: sum.split)
  show ?case
  proof (cases "\<exists>st1. y = Inr (Inr st1)")
    case True
    then obtain st1 where st1: "y = Inr (Inr st1)" by blast
    have "tick w < T"
    proof (rule ccontr)
      assume "\<not> tick w < T"
      with assms(2) [of w] obtain s v' where "client_run_state ev h c n r w = (Inr s, v')" "rr_terminal s" by auto
      from terminal_step [OF this, of st] y st1 show False by auto
    qed
    with step_ticks [OF assms(1) y] have "T - tick v < T - tick w" by simp
    from less.hyps [OF this, of st1] obtain K x w' where
      K: "x \<noteq> Inr None" "\<And>k. K \<le> k \<Longrightarrow> drive_loop ev h c n r k st1 v = (x, w')" by blast
    have "drive_loop ev h c n r k st w = (x, w')" if "Suc K \<le> k" for k
      using that unfold [of k] K(2) [of "k - 1"] st1 by simp
    with K(1) show ?thesis by blast
  next
    case False
    then consider e where "y = Inl e" | s where "y = Inr (Inl s)" by (metis sum.exhaust)
    then show ?thesis
    proof cases
      case 1
      with unfold show ?thesis by (intro exI [of _ 1] exI [of _ "Inl e"] exI [of _ v]) simp
    next
      case 2
      with unfold show ?thesis by (intro exI [of _ 1] exI [of _ "Inr (Some s)"] exI [of _ v]) simp
    qed
  qed
qed

text \<open>
  C19. Driving ends: if from some time on the server answers every poll with a terminal state, the loop
  returns after finitely many rounds, with one and the same result for every larger bound; the result is
  a terminal state or an error, never a loop that is still running.
\<close>

theorem drive_terminates:
  assumes "ticking ev"
    and "\<And>v. T \<le> tick v \<Longrightarrow> \<exists>s v'. client_run_state ev host command nickname run_id v = (Inr s, v') \<and> rr_terminal s"
  shows "\<exists>K x w'. (\<forall>k \<ge> K. drive_loop ev host command nickname run_id k (drive_start nickname run_id) w = (x, w')) \<and>
    (case x of Inl _ \<Rightarrow> True | Inr None \<Rightarrow> False | Inr (Some s) \<Rightarrow> rr_terminal s)"
proof -
  from drive_loop_ends [OF assms] obtain K x w' where
    K: "x \<noteq> Inr None" "\<And>k. K \<le> k \<Longrightarrow> drive_loop ev host command nickname run_id k (drive_start nickname run_id) w = (x, w')"
    by blast
  have "rr_terminal s" if "x = Inr (Some s)" for s
    using K(2) [OF order_refl]
  proof (cases rule: drive_loop_cases)
    case (finished st1 w1 s')
    have "dv_worker st1 \<noteq> None \<longrightarrow> answered ev host command nickname run_id (dv_state st1)"
      using drives_answers [OF finished(1)] by (auto simp: drive_start_def)
    from wpD [OF step_answers [OF this] finished(2)] finished(3) that show ?thesis by simp
  qed (use that in simp_all)
  with K show ?thesis by (intro exI [of _ K] exI [of _ x] exI [of _ w']) (auto split: sum.split option.split)
qed

end
