(* ===== verification/Cleanup_Laws.thy ===== *)
theory Cleanup_Laws
  imports Cleanup Transform_Laws
begin

text \<open>
  Deleting sources is safe and its record is true: only verified sources disappear, whatever fails,
  and an entry recorded as cleaned is gone.
\<close>

section \<open>Operations on the sources\<close>

lemma src_query_run:
  "src_query whole f path w =
    (case error_of (faults w (tick w)) of
       Some e \<Rightarrow> Inl e
     | None \<Rightarrow> bind_res (src_find (sources w) whole path) (\<lambda>(p, d). f (sources w) p d), next_tick w)"
  by (simp add: src_query_def src_prim_def next_tick_def split: option.splits)

lemmas src_query_defs = src_lstat_def src_stat_def src_read_link_def src_names_def src_content_def

lemma next_tick_sources [simp]: "sources (next_tick w) = sources w"
  by (simp add: next_tick_def)

section \<open>What cleaning may delete\<close>

text \<open>The entry was confirmed and not yet cleaned, and the node is still what it recorded.\<close>

definition matches :: "client_codecs \<Rightarrow> CleanupEntry \<Rightarrow> source \<Rightarrow> bool" where
  "matches cc e d \<longleftrightarrow>
     (case ce_kind e of
        RegularFile \<Rightarrow> (\<exists>c m. d = SourceFile c m \<and> of_nat (length c) = ce_size e \<and>
          mtime_nanos m = ce_mtime_ns e \<and> ce_sha256 e = Some (cc_sha256 cc c))
      | Symlink \<Rightarrow> (\<exists>target. d = SourceLink target \<and> ce_link_target e = Some target)
      | Directory \<Rightarrow> d = SourceDir)"

definition pending :: "DurableCleanupState \<Rightarrow> CleanupEntry set" where
  "pending s = {e \<in> set (cs_entries s). ce_import_confirmed e \<and> \<not> ce_cleaned e}"

text \<open>The sources only shrink, and what is gone was found by an entry of \<open>E\<close> and matched it.\<close>

definition cleans :: "client_codecs \<Rightarrow> CleanupEntry set \<Rightarrow> world \<Rightarrow> world \<Rightarrow> bool" where
  "cleans cc E w w' \<longleftrightarrow> same_env w w' \<and> shrunk (sources w) (sources w') \<and>
     (\<forall>q d. src_node (sources w) q = Some d \<and> src_node (sources w') q = None \<longrightarrow>
       (\<exists>e \<in> E. src_locate (sources w) False (ce_local_path e) = Inr (q, d) \<and> matches cc e d))"

lemma cleans_trans:
  assumes "cleans cc E w w'" "cleans cc E w' w''"
  shows "cleans cc E w w''"
  unfolding cleans_def
proof (intro conjI allI impI)
  show "same_env w w''" "shrunk (sources w) (sources w'')"
    using assms by (auto simp: cleans_def intro: same_env_trans shrunk_trans)
  fix q d assume g: "src_node (sources w) q = Some d \<and> src_node (sources w'') q = None"
  show "\<exists>e\<in>E. src_locate (sources w) False (ce_local_path e) = Inr (q, d) \<and> matches cc e d"
  proof (cases "src_node (sources w') q")
    case None
    with g assms(1) show ?thesis by (auto simp: cleans_def)
  next
    case (Some d')
    with g assms(1) have "d' = d" by (auto simp: cleans_def dest: shrunk_Some)
    with Some g assms show ?thesis unfolding cleans_def by (meson src_locate_shrunk)
  qed
qed

interpretation clean: world_relation "cleans cc E" for cc E
proof
  show "cleans cc E w w" for w by (auto simp: cleans_def)
qed (rule cleans_trans)

lemma clean_mono: "clean.kept cc E m \<Longrightarrow> E \<subseteq> F \<Longrightarrow> clean.kept cc F m"
  unfolding clean.kept_def cleans_def by blast

lemma clean_same: "(\<And>w r w'. m w = (r, w') \<Longrightarrow> same_env w w' \<and> sources w' = sources w) \<Longrightarrow> clean.kept cc E m"
  unfolding clean.kept_def cleans_def by fastforce

lemma clean_prim: "clean.kept cc E (prim_io f)"
  by (rule clean_same) (auto simp: prim_io_def same_env_def split: prod.splits)

lemma clean_fs:
  "clean.kept cc E (fs_exists p)" "clean.kept cc E (fs_read p)" "clean.kept cc E (fs_write p c)"
  "clean.kept cc E (fs_rename p q)" "clean.kept cc E (fs_remove_file p)" "clean.kept cc E (fs_create_dir_all p)"
  "clean.kept cc E (fs_read_dir p)"
  by (simp_all only: fs_exists_def fs_read_def fs_write_def fs_rename_def fs_remove_file_def fs_create_dir_all_def
      fs_read_dir_def clean_prim)

lemma clean_query: "clean.kept cc E (src_query whole f p)"
  by (rule clean_same) (auto simp: src_query_run same_env_def next_tick_def)

lemma clean_ctx: "clean.kept cc E m \<Longrightarrow> clean.kept cc E (ctx msg m)"
  by (simp add: ctx_def clean.kept_err)

lemmas clean_rules = clean.kept_intros clean_fs clean_ctx clean_query

lemma clean_write: "clean.kept cc E (write_cleanup_state_atomic cc' p s)"
  unfolding write_cleanup_state_atomic_def Let_def ser_io_def by (intro clean_rules)

lemma clean_remove:
  assumes "src_remove refuse (ce_local_path e) w = (r, w')" "e \<in> E"
    and "\<And>p d. src_locate (sources w) False (ce_local_path e) = Inr (p, d) \<Longrightarrow> refuse (sources w) p d = None \<Longrightarrow> matches cc e d"
  shows "cleans cc E w w'"
proof -
  from assms(1) have env: "same_env w w'" by (auto simp: src_remove_def src_prim_def same_env_def split: prod.splits)
  from assms(1) consider "sources w' = sources w"
    | p d where "src_locate (sources w) False (ce_local_path e) = Inr (p, d)" "refuse (sources w) p d = None"
        "sources w' = src_delete p (sources w)"
    by (auto simp: src_remove_def src_prim_def split: option.splits sum.splits prod.splits)
  then show ?thesis
  proof cases
    case 1
    with env show ?thesis by (auto simp: cleans_def)
  next
    case (2 p d)
    with assms(2,3) env show ?thesis
      by (auto simp: cleans_def shrunk_delete src_node_delete src_locate_Inr split: if_splits)
  qed
qed

lemma cleans_tick [simp]: "cleans cc E (next_tick w) w' \<longleftrightarrow> cleans cc E w w'"
  by (simp add: cleans_def same_env_def next_tick_def)

lemma bind_query:
  "bind_io (attempt_io (src_query whole f path)) K w = K (fst (src_query whole f path w)) (next_tick w)"
  by (simp add: bind_io_def attempt_io_def src_query_run)

lemma query_Inr:
  "fst (src_query whole f path w) = Inr a \<Longrightarrow> \<exists>p d. src_find (sources w) whole path = Inr (p, d) \<and> f (sources w) p d = Inr a"
  by (auto simp: src_query_run bind_res_Inr_iff split: option.splits)

lemma clean_unlink:
  assumes "src_find (sources w) False (ce_local_path e) = Inr (p, d)" "matches cc e d" "e \<in> E"
    and "bind_io (attempt_io (src_remove_file (ce_local_path e))) (\<lambda>r. ret_io (is_ok r)) w = (r, w')"
  shows "cleans cc E w w'"
proof -
  obtain r1 w1 where 1: "src_remove_file (ce_local_path e) w = (r1, w1)" by (metis surj_pair)
  with assms(4) have "w' = w1" by (simp add: bind_io_def attempt_io_def ret_io_def)
  moreover have "cleans cc E w w1"
    by (rule clean_remove [OF 1 [unfolded src_remove_file_def] assms(3)])
      (use assms(1,2) in \<open>auto simp: src_find_Inr split: if_split_asm\<close>)
  ultimately show ?thesis by simp
qed

lemma clean_link:
  assumes "e \<in> E" "ce_kind e = Symlink" "src_find (sources w) False (ce_local_path e) = Inr (p, d)"
    and "try_clean_symlink e d w = (r, w')"
  shows "cleans cc E w w'"
proof (cases "(\<exists>x. d = SourceLink x) \<and> ce_link_target e \<noteq> None")
  case True
  then obtain x target where x: "d = SourceLink x" "ce_link_target e = Some target" by auto
  define K where "K current = (if current = Inr target
      then bind_io (attempt_io (src_remove_file (ce_local_path e))) (\<lambda>r. ret_io (is_ok r)) else (ret_io False :: bool client))"
    for current :: "(io_error, string) result"
  have "try_clean_symlink e d = bind_io (attempt_io (src_read_link (ce_local_path e))) K"
    by (simp only: try_clean_symlink_def x prod.case source.case option.case K_def [abs_def])
  with assms(4) have K: "K (fst (src_read_link (ce_local_path e) w)) (next_tick w) = (r, w')"
    by (simp only: src_read_link_def bind_query)
  show ?thesis
  proof (cases "fst (src_read_link (ce_local_path e) w) = Inr target")
    case True
    from query_Inr [OF True [unfolded src_read_link_def]] assms(3) x have "x = target" by auto
    with x assms(2) have "matches cc e d" by (simp add: matches_def)
    with clean_unlink [of "next_tick w"] K True assms(1,3) show ?thesis by (simp add: K_def)
  next
    case False
    with K have "w' = next_tick w" by (simp add: K_def ret_io_def)
    then show ?thesis using clean.R_refl [of cc E "next_tick w"] by simp
  qed
next
  case False
  with assms(4) have "w' = w" by (cases d; cases "ce_link_target e") (auto simp: try_clean_symlink_def ret_io_def)
  then show ?thesis by (simp add: clean.R_refl)
qed

lemma clean_file:
  assumes "e \<in> E" "ce_kind e = RegularFile" "src_find (sources w) False (ce_local_path e) = Inr (p, d)"
    and "try_clean_file cc e d w = (r, w')"
  shows "cleans cc E w w'"
proof (cases "\<exists>c m. d = SourceFile c m")
  case True
  then obtain c m where d: "d = SourceFile c m" by blast
  let ?path = "ce_local_path e"
  have whole: "src_find (sources w) True ?path = Inr (p, d)" by (rule src_find_whole [OF assms(3)]) (simp add: d)
  define J where "J sha actual = (if actual = Inr sha
      then bind_io (attempt_io (src_remove_file ?path)) (\<lambda>r. ret_io (is_ok r)) else (ret_io False :: bool client))"
    for sha and actual :: "(server_error, string) result"
  define K where "K meta = (case meta of Inl _ \<Rightarrow> (ret_io False :: bool client)
    | Inr m \<Rightarrow> if \<not> file_unchanged e m then ret_io False
        else (case ce_sha256 e of None \<Rightarrow> ret_io False
          | Some sha \<Rightarrow> bind_io (attempt_io (compute_sha256 cc ?path)) (J sha)))"
    for meta :: "(io_error, source) result"
  have "try_clean_file cc e d = bind_io (attempt_io (src_stat ?path)) K"
    by (simp only: try_clean_file_def d source.case K_def [abs_def] J_def [abs_def])
  with assms(4) have K: "K (fst (src_stat ?path w)) (next_tick w) = (r, w')"
    by (simp only: src_stat_def bind_query)
  show ?thesis
  proof (cases "fst (src_stat ?path w) = Inr d \<and> file_unchanged e d \<and> ce_sha256 e \<noteq> None")
    case True
    then obtain sha where sha: "ce_sha256 e = Some sha" by blast
    define actual where "actual = fst (compute_sha256 cc ?path (next_tick w))"
    have tick: "compute_sha256 cc ?path (next_tick w) = (actual, next_tick (next_tick w))"
      unfolding actual_def compute_sha256_def ctx_def src_content_def
      by (auto simp: bind_io_def err_io_def ret_io_def src_query_run split: option.splits sum.splits)
    from K True sha have J: "J sha actual (next_tick (next_tick w)) = (r, w')"
      by (simp add: K_def bind_io_def attempt_io_def tick)
    show ?thesis
    proof (cases "actual = Inr sha")
      case eq: True
      with tick have "sha = cc_sha256 cc c"
        using whole d unfolding compute_sha256_def ctx_def src_content_def
        by (auto simp: bind_io_def err_io_def ret_io_def src_query_run split: option.splits)
      with True sha d assms(2) have "matches cc e d" by (auto simp: matches_def file_unchanged_def)
      with clean_unlink [of "next_tick (next_tick w)"] J eq assms(1,3) show ?thesis by (simp add: J_def)
    next
      case False
      with J have "w' = next_tick (next_tick w)" by (simp add: J_def ret_io_def)
      then show ?thesis using clean.R_refl [of cc E "next_tick (next_tick w)"] by simp
    qed
  next
    case False
    have "fst (src_stat ?path w) = Inr d \<or> (\<exists>x. fst (src_stat ?path w) = Inl x)"
      using whole by (auto simp: src_stat_def src_query_run split: option.splits)
    with False K have "w' = next_tick w" by (auto simp: K_def ret_io_def split: if_splits)
    then show ?thesis using clean.R_refl [of cc E "next_tick w"] by simp
  qed
next
  case False
  with assms(4) have "w' = w" by (cases d) (auto simp: try_clean_file_def ret_io_def)
  then show ?thesis by (simp add: clean.R_refl)
qed

lemma clean_entry: "e \<in> E \<Longrightarrow> clean.kept cc E (try_clean_entry cc e)"
  unfolding clean.kept_def
proof (intro allI impI)
  fix w r w' assume e: "e \<in> E" and m: "try_clean_entry cc e w = (r, w')"
  define K where "K symmeta = (case symmeta of Inl e \<Rightarrow> ret_io (e = IoNotFound)
       | Inr d \<Rightarrow> (case ce_kind e of Directory \<Rightarrow> (ret_io False :: bool client) | Symlink \<Rightarrow> try_clean_symlink e d
          | RegularFile \<Rightarrow> try_clean_file cc e d))" for symmeta :: "(io_error, source) result"
  have "try_clean_entry cc e = bind_io (attempt_io (src_lstat (ce_local_path e))) K"
    unfolding try_clean_entry_def K_def by (rule refl)
  with m have K: "K (fst (src_lstat (ce_local_path e) w)) (next_tick w) = (r, w')"
    by (simp only: src_lstat_def bind_query)
  show "cleans cc E w w'"
  proof (cases "fst (src_lstat (ce_local_path e) w)")
    case (Inl x)
    with K have "w' = next_tick w" by (simp add: K_def ret_io_def)
    then show ?thesis using clean.R_refl [of cc E "next_tick w"] by simp
  next
    case (Inr d)
    from query_Inr [OF Inr [unfolded src_lstat_def]] obtain p where
      "src_find (sources (next_tick w)) False (ce_local_path e) = Inr (p, d)" by auto
    note found = this
    have "cleans cc E (next_tick w) w'"
    proof (cases "ce_kind e")
      case Symlink
      from K Inr Symlink show ?thesis by (intro clean_link [OF e Symlink found]) (simp add: K_def)
    next
      case RegularFile
      from K Inr RegularFile show ?thesis by (intro clean_file [OF e RegularFile found]) (simp add: K_def)
    next
      case Directory
      with K Inr show ?thesis by (simp add: K_def ret_io_def) (use clean.R_refl [of cc E "next_tick w"] in simp)
    qed
    then show ?thesis by simp
  qed
qed

section \<open>The loops\<close>

text \<open>Confirmed entries may have become cleaned; everything else is as it was.\<close>

definition cleaned_more :: "DurableCleanupState \<Rightarrow> DurableCleanupState \<Rightarrow> bool" where
  "cleaned_more s s' \<longleftrightarrow> s'\<lparr>cs_entries := []\<rparr> = s\<lparr>cs_entries := []\<rparr> \<and>
     length (cs_entries s') = length (cs_entries s) \<and>
     (\<forall>i < length (cs_entries s). cs_entries s' ! i = cs_entries s ! i \<or>
       (ce_import_confirmed (cs_entries s ! i) \<and> cs_entries s' ! i = (cs_entries s ! i)\<lparr>ce_cleaned := True\<rparr>))"

lemma cleaned_more_refl [simp]: "cleaned_more s s"
  by (simp add: cleaned_more_def)

lemma cleaned_more_trans:
  assumes "cleaned_more s s'" "cleaned_more s' s''"
  shows "cleaned_more s s''"
  unfolding cleaned_more_def
proof (intro conjI allI impI)
  fix i assume i: "i < length (cs_entries s)"
  then have "i < length (cs_entries s')" using assms(1) by (simp add: cleaned_more_def)
  with i assms have "cs_entries s' ! i = cs_entries s ! i \<or>
       (ce_import_confirmed (cs_entries s ! i) \<and> cs_entries s' ! i = (cs_entries s ! i)\<lparr>ce_cleaned := True\<rparr>)"
    "cs_entries s'' ! i = cs_entries s' ! i \<or>
       (ce_import_confirmed (cs_entries s' ! i) \<and> cs_entries s'' ! i = (cs_entries s' ! i)\<lparr>ce_cleaned := True\<rparr>)"
    unfolding cleaned_more_def by blast+
  then show "cs_entries s'' ! i = cs_entries s ! i \<or>
       (ce_import_confirmed (cs_entries s ! i) \<and> cs_entries s'' ! i = (cs_entries s ! i)\<lparr>ce_cleaned := True\<rparr>)"
    by (elim disjE conjE) simp_all
qed (use assms in \<open>simp_all add: cleaned_more_def\<close>)

lemma cleaned_more_length: "cleaned_more s s' \<Longrightarrow> length (cs_entries s') = length (cs_entries s)"
  by (simp add: cleaned_more_def)

lemma cleaned_more_pending: "cleaned_more s s' \<Longrightarrow> pending s' \<subseteq> pending s"
proof
  fix e assume m: "cleaned_more s s'" and "e \<in> pending s'"
  then obtain i where i: "i < length (cs_entries s)" "e = cs_entries s' ! i" "ce_import_confirmed e" "\<not> ce_cleaned e"
    by (auto simp: pending_def in_set_conv_nth cleaned_more_def)
  with m have "cs_entries s' ! i = cs_entries s ! i" unfolding cleaned_more_def by force
  with i show "e \<in> pending s" by (auto simp: pending_def)
qed

lemma mark_more:
  "i < length (cs_entries s) \<Longrightarrow> ce_import_confirmed (cs_entries s ! i) \<Longrightarrow> cleaned_more s (mark_cleaned i s)"
  by (auto simp: cleaned_more_def mark_cleaned_def nth_list_update)

lemma pending_nth:
  "i < length (cs_entries s) \<Longrightarrow> ce_import_confirmed (cs_entries s ! i) \<Longrightarrow> \<not> ce_cleaned (cs_entries s ! i) \<Longrightarrow>
   cs_entries s ! i \<in> pending s"
  by (simp add: pending_def)

lemma clean_can_remove: "clean.kept cc E (can_remove_directory es e)"
  unfolding can_remove_directory_def src_names_def by (intro clean_rules)

lemma clean_rmdir: "e \<in> E \<Longrightarrow> ce_kind e = Directory \<Longrightarrow> clean.kept cc E (src_remove_dir (ce_local_path e))"
  unfolding clean.kept_def src_remove_dir_def
  by (auto intro!: clean_remove simp: matches_def split: if_splits)

text \<open>
  The facts about either loop: a predicate \<open>P\<close> of the state and the world that each entry's attempt
  and each write keeps holds when the loop ends, and the error predicate \<open>Q\<close> when a write fails.
\<close>

lemma clean_files_rule:
  assumes step: "\<And>s w i x w1. P s w \<Longrightarrow> i < length (cs_entries s) \<Longrightarrow> ce_import_confirmed (cs_entries s ! i) \<Longrightarrow>
      \<not> ce_cleaned (cs_entries s ! i) \<Longrightarrow> try_clean_entry cc (cs_entries s ! i) w = (x, w1) \<Longrightarrow>
      (x \<noteq> Inr True \<longrightarrow> P s w1) \<and>
      (\<forall>y w2. x = Inr True \<longrightarrow> write_cleanup_state_atomic cc path (mark_cleaned i s) w1 = (y, w2) \<longrightarrow>
        (case y of Inl _ \<Rightarrow> Q w2 | Inr _ \<Rightarrow> P (mark_cleaned i s) w2))"
    and never: "\<And>e w. \<exists>b w1. try_clean_entry cc e w = (Inr b, w1)"
    and "P s w" "set is \<subseteq> {..<length (cs_entries s)}" "clean_files cc path is s w = (r, w')"
  shows "case r of Inl _ \<Rightarrow> Q w' | Inr s' \<Rightarrow> P s' w'"
  using assms(3-)
proof (induction "is" arbitrary: s w)
  case (Cons i js)
  let ?e = "cs_entries s ! i"
  show ?case
  proof (cases "\<not> ce_import_confirmed ?e \<or> ce_cleaned ?e \<or> ce_kind ?e = Directory")
    case True
    with Cons show ?thesis by (simp add: Let_def)
  next
    case False
    from never obtain b w1 where 1: "try_clean_entry cc ?e w = (Inr b, w1)" by blast
    from step [OF Cons.prems(1) _ _ _ 1] Cons.prems(2) False
    have s1: "\<not> b \<Longrightarrow> P s w1" and s2: "\<And>y w2. b \<Longrightarrow> write_cleanup_state_atomic cc path (mark_cleaned i s) w1 = (y, w2) \<Longrightarrow>
        case y of Inl _ \<Rightarrow> Q w2 | Inr _ \<Rightarrow> P (mark_cleaned i s) w2" by auto
    from Cons.prems(3) False 1 have run: "(if b then bind_io (write_cleanup_state_atomic cc path (mark_cleaned i s))
        (\<lambda>_. clean_files cc path js (mark_cleaned i s)) else clean_files cc path js s) w1 = (r, w')"
      by (simp add: Let_def bind_io_def [of "try_clean_entry _ _"])
    show ?thesis
    proof (cases b)
      case False
      with run s1 Cons.IH [of s w1] Cons.prems(2) show ?thesis by simp
    next
      case True
      with run have "bind_io (write_cleanup_state_atomic cc path (mark_cleaned i s))
        (\<lambda>_. clean_files cc path js (mark_cleaned i s)) w1 = (r, w')" by simp
      then show ?thesis
      proof (cases rule: bind_io_cases)
        case (err e)
        with s2 [OF True err(1)] show ?thesis by simp
      next
        case (ok u w2)
        with s2 [OF True ok(1)] Cons.IH [of "mark_cleaned i s" w2] Cons.prems(2) show ?thesis
          by (simp add: mark_cleaned_def)
      qed
    qed
  qed
qed (auto simp: ret_io_def)

lemma never_fails: "\<exists>b w1. try_clean_entry cc e w = (Inr b, w1)" "\<exists>b w1. can_remove_directory es e w = (Inr b, w1)"
proof -
  have link: "\<exists>b w1. try_clean_symlink e d w = (Inr b, w1)" for d w
    by (cases d; cases "ce_link_target e")
      (auto simp: try_clean_symlink_def bind_io_def attempt_io_def ret_io_def split: prod.splits)
  have reg: "\<exists>b w1. try_clean_file cc e d w = (Inr b, w1)" for d w
    by (cases d)
      (auto simp: try_clean_file_def bind_io_def attempt_io_def ret_io_def split: prod.splits sum.splits option.splits)
  have "\<exists>b w1. (case x of Inl e \<Rightarrow> ret_io (e = IoNotFound) | Inr d \<Rightarrow> (case ce_kind e of Directory \<Rightarrow> ret_io False
      | RegularFile \<Rightarrow> try_clean_file cc e d | Symlink \<Rightarrow> try_clean_symlink e d)) v = (Inr b, w1)"
    for x :: "(io_error, source) result" and v
    using link reg by (cases x; cases "ce_kind e") auto
  then show "\<exists>b w1. try_clean_entry cc e w = (Inr b, w1)"
    by (simp add: try_clean_entry_def src_lstat_def bind_query)
  show "\<exists>b w1. can_remove_directory es e w = (Inr b, w1)"
    by (cases "fst (src_names (ce_local_path e) w)") (auto simp: can_remove_directory_def src_names_def bind_query)
qed

lemma clean_dirs_rule:
  assumes step: "\<And>s w i can w1. P s w \<Longrightarrow> i < length (cs_entries s) \<Longrightarrow> ce_import_confirmed (cs_entries s ! i) \<Longrightarrow>
      \<not> ce_cleaned (cs_entries s ! i) \<Longrightarrow> ce_kind (cs_entries s ! i) = Directory \<Longrightarrow>
      can_remove_directory (cs_entries s) (cs_entries s ! i) w = (Inr can, w1) \<Longrightarrow>
      (\<not> can \<longrightarrow> P s w1) \<and>
      (\<forall>x w2. can \<longrightarrow> src_remove_dir (ce_local_path (cs_entries s ! i)) w1 = (x, w2) \<longrightarrow>
        (if x = Inr () \<or> x = Inl IoNotFound
         then \<forall>y w3. write_cleanup_state_atomic cc path (mark_cleaned i s) w2 = (y, w3) \<longrightarrow>
           (case y of Inl _ \<Rightarrow> Q w3 | Inr _ \<Rightarrow> P (mark_cleaned i s) w3)
         else P s w2))"
    and "P s w" "set is \<subseteq> {..<length (cs_entries s)}" "clean_dirs cc path is s w = (r, w')"
  shows "case r of Inl _ \<Rightarrow> Q w' | Inr s' \<Rightarrow> P s' w'"
  using assms(2-)
proof (induction "is" arbitrary: s w)
  case (Cons i js)
  let ?e = "cs_entries s ! i"
  show ?case
  proof (cases "\<not> ce_import_confirmed ?e \<or> ce_cleaned ?e \<or> ce_kind ?e \<noteq> Directory")
    case True
    with Cons show ?thesis by (simp add: Let_def)
  next
    case False
    obtain can w1 where 1: "can_remove_directory (cs_entries s) ?e w = (Inr can, w1)" using never_fails(2) by blast
    obtain x w2 where 2: "src_remove_dir (ce_local_path ?e) w1 = (x, w2)" by (metis surj_pair)
    obtain y w3 where 3: "write_cleanup_state_atomic cc path (mark_cleaned i s) w2 = (y, w3)" by (metis surj_pair)
    note s1 = step [OF Cons.prems(1) _ _ _ _ 1]
    have len: "set js \<subseteq> {..<length (cs_entries (mark_cleaned i s))}" "set js \<subseteq> {..<length (cs_entries s)}"
      using Cons.prems(2) by (auto simp: mark_cleaned_def)
    from Cons.prems(3) False 1 2 have "(if \<not> can then clean_dirs cc path js s w1 = (r, w')
       else if x = Inr () \<or> x = Inl IoNotFound then
         bind_io (write_cleanup_state_atomic cc path (mark_cleaned i s)) (\<lambda>_. clean_dirs cc path js (mark_cleaned i s)) w2 = (r, w')
       else clean_dirs cc path js s w2 = (r, w'))"
      by (cases can; cases "x = Inr () \<or> x = Inl IoNotFound")
        (auto simp: Let_def bind_io_def [of "can_remove_directory _ _"] bind_attempt)
    with s1 False Cons.prems(2) 2 3 Cons.IH [of s w1] Cons.IH [of s w2] Cons.IH [of "mark_cleaned i s" w3] len show ?thesis
      by (cases y) (auto simp: bind_io_def [of "write_cleanup_state_atomic _ _ _"] split: if_splits)
  qed
qed (auto simp: ret_io_def)

section \<open>Only verified sources are deleted\<close>

lemma read_cleanup_ok:
  "read_cleanup_state cc path w = (Inr s, w') \<Longrightarrow>
   \<exists>c l. view (nodes w) path = Some (FileN c 0 l) \<and> parse_cleanup cc c = Inr s \<and> nodes w' = nodes w \<and>
     sources w' = sources w \<and> same_env w w'"
  unfolding read_cleanup_state_def
proof (drule bind_read, elim disjE exE conjE)
  fix c l assume "view (nodes w) path = Some (FileN c 0 l)" "lift_res (parse_cleanup cc c) (next_tick w) = (Inr s, w')"
  then show ?thesis by (auto simp: lift_res_def next_tick_def same_env_def)
qed simp

lemma clean_read: "clean.kept cc E (read_cleanup_state cc' p)"
  unfolding read_cleanup_state_def by (intro clean_rules)

lemma cleans_loop_step:
  assumes "cleans cc (pending s0) w0 w" "cleaned_more s0 s" "clean.kept cc (pending s) m" "m w = (x, w1)"
  shows "cleans cc (pending s0) w0 w1"
  using clean.R_trans [OF assms(1) clean.keptD [OF clean_mono [OF assms(3) cleaned_more_pending [OF assms(2)]] assms(4)]] .

lemma clean_loops:
  fixes s0 s :: DurableCleanupState and cc :: client_codecs and w0 :: world
  defines "P \<equiv> \<lambda>s w. cleans cc (pending s0) w0 w \<and> cleaned_more s0 s"
  assumes "P s w" "set is \<subseteq> {..<length (cs_entries s)}"
  shows "clean_files cc path is s w = (r, w') \<Longrightarrow> case r of Inl _ \<Rightarrow> cleans cc (pending s0) w0 w' | Inr s' \<Rightarrow> P s' w'"
    and "clean_dirs cc path is s w = (r, w') \<Longrightarrow> case r of Inl _ \<Rightarrow> cleans cc (pending s0) w0 w' | Inr s' \<Rightarrow> P s' w'"
proof -
  have mark: "case y of Inl _ \<Rightarrow> cleans cc (pending s0) w0 v | Inr _ \<Rightarrow> P (mark_cleaned i s) v"
    if "P s u" "i < length (cs_entries s)" "ce_import_confirmed (cs_entries s ! i)"
      "write_cleanup_state_atomic cc path (mark_cleaned i s) u = (y, v)" for s u i y v
  proof -
    from that(1) have p: "cleans cc (pending s0) w0 u" "cleaned_more s0 s" by (simp_all add: P_def)
    from cleans_loop_step [OF p clean_write that(4)] cleaned_more_trans [OF p(2) mark_more [OF that(2,3)]]
    show ?thesis by (cases y) (simp_all add: P_def)
  qed
  { assume "clean_files cc path is s w = (r, w')"
    from _ never_fails(1) assms(2,3) this show "case r of Inl _ \<Rightarrow> cleans cc (pending s0) w0 w' | Inr s' \<Rightarrow> P s' w'"
    proof (rule clean_files_rule)
      fix s w i x w1
      assume a: "P s w" "i < length (cs_entries s)" "ce_import_confirmed (cs_entries s ! i)"
        "\<not> ce_cleaned (cs_entries s ! i)" "try_clean_entry cc (cs_entries s ! i) w = (x, w1)"
      from a(1) have p: "cleans cc (pending s0) w0 w" "cleaned_more s0 s" by (simp_all add: P_def)
      from cleans_loop_step [OF p clean_entry [OF pending_nth [OF a(2-4)]] a(5)] p(2) have "P s w1" by (simp add: P_def)
      with mark a(2,3) show "(x \<noteq> Inr True \<longrightarrow> P s w1) \<and>
        (\<forall>y w2. x = Inr True \<longrightarrow> write_cleanup_state_atomic cc path (mark_cleaned i s) w1 = (y, w2) \<longrightarrow>
        (case y of Inl _ \<Rightarrow> cleans cc (pending s0) w0 w2 | Inr _ \<Rightarrow> P (mark_cleaned i s) w2))" by blast
    qed }
  { assume "clean_dirs cc path is s w = (r, w')"
    from _ assms(2,3) this show "case r of Inl _ \<Rightarrow> cleans cc (pending s0) w0 w' | Inr s' \<Rightarrow> P s' w'"
    proof (rule clean_dirs_rule)
      fix s w i can w1
      assume a: "P s w" "i < length (cs_entries s)" "ce_import_confirmed (cs_entries s ! i)"
        "\<not> ce_cleaned (cs_entries s ! i)" "ce_kind (cs_entries s ! i) = Directory"
        "can_remove_directory (cs_entries s) (cs_entries s ! i) w = (Inr can, w1)"
      from a(1) have p: "cleans cc (pending s0) w0 w" "cleaned_more s0 s" by (simp_all add: P_def)
      note p1 = cleans_loop_step [OF p clean_can_remove a(6)]
      then have "P s w1" using p by (simp add: P_def)
      moreover have "P s w2" if "src_remove_dir (ce_local_path (cs_entries s ! i)) w1 = (x, w2)" for x w2
        using cleans_loop_step [OF p1 p(2) clean_rmdir [OF pending_nth [OF a(2-4)] a(5)] that] p(2) by (simp add: P_def)
      ultimately show "(\<not> can \<longrightarrow> P s w1) \<and>
        (\<forall>x w2. can \<longrightarrow> src_remove_dir (ce_local_path (cs_entries s ! i)) w1 = (x, w2) \<longrightarrow>
          (if x = Inr () \<or> x = Inl IoNotFound
           then \<forall>y w3. write_cleanup_state_atomic cc path (mark_cleaned i s) w2 = (y, w3) \<longrightarrow>
             (case y of Inl _ \<Rightarrow> cleans cc (pending s0) w0 w3 | Inr _ \<Rightarrow> P (mark_cleaned i s) w3)
           else P s w2))"
        using mark a(2,3) by metis
    qed }
qed

lemma process_cleans:
  assumes "process_cleanup_state_file cc path w = (r, w')"
  shows "sources w' = sources w \<or> (\<exists>c l s. view (nodes w) path = Some (FileN c 0 l) \<and> parse_cleanup cc c = Inr s \<and>
    cleans cc (pending s) w w')"
proof (cases "read_cleanup_state cc path w")
  case (Pair a w1)
  have range: "set [0..<n] \<subseteq> {..<n}" for n :: nat by auto
  show ?thesis
  proof (cases a)
    case (Inl e)
    have "shrunk (sources w) (sources w1) \<and> sources w1 = sources w"
      using clean.keptD [OF clean_read Pair, of cc "{}"] Pair
      by (auto simp: read_cleanup_state_def bind_io_def ctx_def err_io_def lift_res_def fs_read_def prim_io_def
          split: prod.splits sum.splits)
    with Inl Pair assms show ?thesis by (simp add: process_cleanup_state_file_def bind_io_def)
  next
    case (Inr s)
    from read_cleanup_ok [OF Pair [unfolded Inr]] obtain c l where c: "view (nodes w) path = Some (FileN c 0 l)"
      "parse_cleanup cc c = Inr s" "sources w1 = sources w" "same_env w w1" by blast
    then have start: "cleans cc (pending s) w w1 \<and> cleaned_more s s" by (auto simp: cleans_def)
    obtain b w2 where 2: "clean_files cc path [0..<length (cs_entries s)] s w1 = (b, w2)" by (metis surj_pair)
    from clean_loops(1) [OF start range 2] have r2: "case b of Inl _ \<Rightarrow> cleans cc (pending s) w w2
      | Inr s' \<Rightarrow> cleans cc (pending s) w w2 \<and> cleaned_more s s'" .
    show ?thesis
    proof (cases b)
      case (Inl e)
      with Inr Pair 2 assms r2 c show ?thesis by (auto simp: process_cleanup_state_file_def bind_io_def)
    next
      case b: (Inr s2)
      obtain d w3 where 3: "clean_dirs cc path [0..<length (cs_entries s2)] s2 w2 = (d, w3)" by (metis surj_pair)
      from clean_loops(2) [of cc s w w2 s2, OF _ range 3] r2 b have "cleans cc (pending s) w w3"
        by (cases d) auto
      moreover have "w' = w3" using Inr Pair 2 b 3 assms
        by (cases d) (auto simp: process_cleanup_state_file_def bind_io_def ret_io_def)
      ultimately show ?thesis using c by blast
    qed
  qed
qed

text \<open>
  C2. A source is deleted only when it is still exactly what was uploaded: whatever fails, every path
  that processing a cleanup state makes disappear was named by an entry of that state which was
  confirmed as imported and not yet cleaned, and what was there had the recorded length,
  modification time and SHA-256 (a file), the recorded target (a link, which is not followed), or
  was a directory. Nothing else among the sources changes.
\<close>

theorem only_verified_sources_deleted:
  assumes "process_cleanup_state_file cc path w = (r, w')"
  shows "src_node (sources w') q = src_node (sources w) q \<or>
    (src_node (sources w') q = None \<and>
     (\<exists>c l state e d. view (nodes w) path = Some (FileN c 0 l) \<and> parse_cleanup cc c = Inr state \<and>
        e \<in> set (cs_entries state) \<and> ce_import_confirmed e \<and> \<not> ce_cleaned e \<and>
        src_resolve (sources w) False (ce_local_path e) = Inr q \<and> src_node (sources w) q = Some d \<and>
        (case ce_kind e of
           RegularFile \<Rightarrow> \<exists>bytes m. d = SourceFile bytes m \<and> of_nat (length bytes) = ce_size e \<and>
             mtime_nanos m = ce_mtime_ns e \<and> ce_sha256 e = Some (cc_sha256 cc bytes)
         | Symlink \<Rightarrow> \<exists>target. d = SourceLink target \<and> ce_link_target e = Some target
         | Directory \<Rightarrow> d = SourceDir)))"
proof (cases "src_node (sources w') q = src_node (sources w) q")
  case False
  from process_cleans [OF assms] False obtain c l s where c: "view (nodes w) path = Some (FileN c 0 l)"
    "parse_cleanup cc c = Inr s" "cleans cc (pending s) w w'" by auto
  from False c(3) have gone: "src_node (sources w') q = None" by (auto simp: cleans_def shrunk_def)
  with False obtain d where d: "src_node (sources w) q = Some d" by (cases "src_node (sources w) q") auto
  with gone c(3) obtain e where e: "e \<in> pending s" "src_locate (sources w) False (ce_local_path e) = Inr (q, d)"
    "matches cc e d" unfolding cleans_def by blast
  then show ?thesis using gone c(1,2) d unfolding matches_def src_locate_Inr pending_def by blast
qed simp


section \<open>What is recorded as cleaned is gone\<close>

definition gone :: "source_tree \<Rightarrow> CleanupEntry \<Rightarrow> bool" where
  "gone t e \<longleftrightarrow> (\<forall>p d. src_find t False (ce_local_path e) \<noteq> Inr (p, d))"

lemma gone_shrunk: "shrunk t t' \<Longrightarrow> gone t e \<Longrightarrow> gone t' e"
  unfolding gone_def by (metis src_find_shrunk)

lemma gone_cleaned [simp]: "gone t (e\<lparr>ce_cleaned := b\<rparr>) = gone t e"
  by (simp add: gone_def)

definition truthful :: "DurableCleanupState \<Rightarrow> source_tree \<Rightarrow> DurableCleanupState \<Rightarrow> bool" where
  "truthful s0 t s \<longleftrightarrow> cleaned_more s0 s \<and>
     (\<forall>i < length (cs_entries s0). ce_cleaned (cs_entries s ! i) \<longrightarrow>
       ce_cleaned (cs_entries s0 ! i) \<or> gone t (cs_entries s0 ! i))"

lemma truthful_shrunk: "truthful s0 t s \<Longrightarrow> shrunk t t' \<Longrightarrow> truthful s0 t' s"
  unfolding truthful_def by (meson gone_shrunk)

lemma truthful_mark:
  assumes "truthful s0 t s" "i < length (cs_entries s)" "ce_import_confirmed (cs_entries s ! i)" "gone t (cs_entries s ! i)"
  shows "truthful s0 t (mark_cleaned i s)"
  unfolding truthful_def
proof (intro conjI allI impI)
  have more: "cleaned_more s0 s" using assms(1) by (simp add: truthful_def)
  then show "cleaned_more s0 (mark_cleaned i s)" by (rule cleaned_more_trans [OF _ mark_more [OF assms(2,3)]])
  fix j assume j: "j < length (cs_entries s0)" "ce_cleaned (cs_entries (mark_cleaned i s) ! j)"
  show "ce_cleaned (cs_entries s0 ! j) \<or> gone t (cs_entries s0 ! j)"
  proof (cases "j = i")
    case True
    from more j(1) have "cs_entries s ! j = cs_entries s0 ! j \<or>
        cs_entries s ! j = (cs_entries s0 ! j)\<lparr>ce_cleaned := True\<rparr>" unfolding cleaned_more_def by blast
    then show ?thesis using assms(4) True by (elim disjE) simp_all
  next
    case False
    with j assms(1,2) more show ?thesis by (auto simp: truthful_def mark_cleaned_def)
  qed
qed

text \<open>A file that is named like a cleanup state has another name for its temporary file.\<close>

lemma tmp_name:
  assumes "cleanup_name name"
  shows "with_ext (d @ [name]) ''toml.tmp'' = d @ [name @ ''.tmp'']"
proof -
  from assms obtain i where "rfind_char CHR ''.'' name = Some i" "drop (Suc i) name = ''toml''" "i \<noteq> 0"
    by (auto simp: cleanup_name_def extension_of_def split: option.splits if_splits)
  moreover from this have "name = take i name @ ''.'' @ drop (Suc i) name"
    using rfind_char_Some by (metis append_Cons append_Nil append_take_drop_id Cons_nth_drop_Suc)
  ultimately show ?thesis by (simp add: with_ext_def stem_of_def)
qed

definition on_disk ::
    "client_codecs \<Rightarrow> fpath \<Rightarrow> DurableCleanupState \<Rightarrow> world \<Rightarrow> world \<Rightarrow> bool" where
  "on_disk cc path s0 w0 w \<longleftrightarrow> same_env w0 w \<and> fs_wf (nodes w) \<and> shrunk (sources w0) (sources w) \<and>
     (\<forall>q. q \<noteq> path \<and> q \<noteq> with_ext path ''toml.tmp'' \<longrightarrow> view (nodes w) q = view (nodes w0) q) \<and>
     (view (nodes w) path = view (nodes w0) path \<or>
      (\<exists>s out l. cc_ser_cleanup cc s = Inr out \<and> view (nodes w) path = Some (FileN out 0 l) \<and> truthful s0 (sources w) s))"

lemma on_disk_sources:
  assumes "on_disk cc path s0 w0 w" "same_env w w'" "nodes w' = nodes w" "shrunk (sources w) (sources w')"
  shows "on_disk cc path s0 w0 w'"
proof -
  note d = assms(1) [unfolded on_disk_def]
  have "view (nodes w') path = view (nodes w0) path \<or>
      (\<exists>s out l. cc_ser_cleanup cc s = Inr out \<and> view (nodes w') path = Some (FileN out 0 l) \<and> truthful s0 (sources w') s)"
    using d truthful_shrunk [OF _ assms(4)] unfolding assms(3) by blast
  with d assms(2-4) show ?thesis
    unfolding on_disk_def by (auto intro: same_env_trans shrunk_trans)
qed

lemma write_cleanup_published:
  assumes wf: "fs_wf (nodes w)" and path: "path = d @ [name]" "cleanup_name name"
    and m: "write_cleanup_state_atomic cc path s w = (r, w')"
  shows "(r \<noteq> Inr () \<and> nodes w' = nodes w \<and> same_env w w') \<or>
    (\<exists>out. cc_ser_cleanup cc s = Inr out \<and> same_env w w' \<and> fs_wf (nodes w') \<and>
      published (with_ext path ''toml.tmp'') path out (r = Inr ()) (nodes w) (nodes w'))"
proof (cases "cc_ser_cleanup cc s")
  case (Inl e)
  with m show ?thesis by (auto simp: write_cleanup_state_atomic_def Let_def ser_io_def bind_io_def lift_res_def)
next
  case (Inr out)
  with m have "bind_io (ctx ''failed to write cleanup state'' (fs_write (with_ext path ''toml.tmp'') out))
      (\<lambda>_. ctx ''failed to atomically update cleanup state'' (fs_rename (with_ext path ''toml.tmp'') path)) w = (r, w')"
    by (simp add: write_cleanup_state_atomic_def Let_def ser_io_def bind_io_def lift_res_def)
  from ctx_publish_published [OF wf _ path(1) _ this, of "name @ ''.tmp''"] tmp_name [OF path(2), of d] path(1) Inr
  show ?thesis by auto
qed

lemma on_disk_write:
  assumes "on_disk cc path s0 w0 w" "truthful s0 (sources w) s" "path = d @ [name]" "cleanup_name name"
    and m: "write_cleanup_state_atomic cc path s w = (r, w')"
  shows "on_disk cc path s0 w0 w'"
proof -
  have shr: "shrunk (sources w) (sources w')"
    using clean.keptD [OF clean_write m, of undefined "{}"] by (simp add: cleans_def)
  note d = assms(1) [unfolded on_disk_def]
  from d write_cleanup_published [OF _ assms(3-5)] consider "nodes w' = nodes w" "same_env w w'"
    | out where "cc_ser_cleanup cc s = Inr out" "same_env w w'" "fs_wf (nodes w')"
      "published (with_ext path ''toml.tmp'') path out (r = Inr ()) (nodes w) (nodes w')" by blast
  then show ?thesis
  proof cases
    case 1
    then show ?thesis using on_disk_sources [OF assms(1)] shr by blast
  next
    case (2 out)
    have t: "truthful s0 (sources w') s'" if "truthful s0 (sources w) s'" for s' by (rule truthful_shrunk [OF that shr])
    have "view (nodes w') path = view (nodes w0) path \<or>
      (\<exists>s out l. cc_ser_cleanup cc s = Inr out \<and> view (nodes w') path = Some (FileN out 0 l) \<and> truthful s0 (sources w') s)"
    proof (cases "view (nodes w') path = view (nodes w) path")
      case True
      with d t show ?thesis by (metis (full_types))
    next
      case False
      with 2 t [OF assms(2)] show ?thesis unfolding published_def by blast
    qed
    moreover have "\<forall>q. q \<noteq> path \<and> q \<noteq> with_ext path ''toml.tmp'' \<longrightarrow> view (nodes w') q = view (nodes w0) q"
      using d 2(4) unfolding published_def by metis
    ultimately show ?thesis using d 2 shr unfolding on_disk_def by (auto intro: same_env_trans shrunk_trans)
  qed
qed

section \<open>What a successful attempt leaves\<close>

lemma reads_sources: "reads.kept (src_query whole f p)" "reads.kept (src_remove refuse p)"
  unfolding reads.kept_def same_nodes_def
  by (auto simp: src_query_run next_tick_def src_remove_def src_prim_def same_env_def split: prod.splits)

lemmas source_rules = reads_rules reads_sources

lemma reads_clean:
  "reads.kept (try_clean_entry cc e)" "reads.kept (can_remove_directory es e)" "reads.kept (src_remove_dir p)"
proof -
  have "reads.kept (try_clean_symlink e d)" for d
    unfolding try_clean_symlink_def src_read_link_def src_remove_file_def
    by (cases d; cases "ce_link_target e") (auto intro!: source_rules)
  moreover have "reads.kept (try_clean_file cc e d)" for d
    unfolding try_clean_file_def src_stat_def src_remove_file_def compute_sha256_def src_content_def ctx_def
    by (cases d; cases "ce_sha256 e") (auto intro!: source_rules split: if_splits)
  ultimately show "reads.kept (try_clean_entry cc e)"
    unfolding try_clean_entry_def src_lstat_def
    by (cases "ce_kind e") (auto intro!: source_rules)
  show "reads.kept (can_remove_directory es e)" "reads.kept (src_remove_dir p)"
    unfolding can_remove_directory_def src_names_def src_remove_dir_def by (intro source_rules)+
qed

lemma honest_query:
  assumes "honest w" "fst (src_query whole f path w) = Inl IoNotFound" "\<And>p d. f (sources w) p d \<noteq> Inl IoNotFound"
  shows "src_find (sources w) whole path = Inl IoNotFound"
proof -
  have "error_of (faults w (tick w)) \<noteq> Some IoNotFound" using assms(1) by (simp add: honest_def)
  with assms(2,3) show ?thesis
    by (cases "src_find (sources w) whole path") (auto simp: src_query_run split: option.splits)
qed

lemma removed_gone:
  assumes "src_remove refuse (ce_local_path e) w = (Inr (), w')" "\<And>t. refuse t [] SourceDir \<noteq> None"
    and "\<And>t p d. refuse t p d = None \<Longrightarrow> dir_operand (ce_local_path e) \<Longrightarrow> d = SourceDir"
  shows "gone (sources w') e"
proof -
  from assms(1) obtain p d where p: "src_locate (sources w) False (ce_local_path e) = Inr (p, d)"
    "refuse (sources w) p d = None" "sources w' = src_delete p (sources w)"
    by (auto simp: src_remove_def src_prim_def split: option.splits sum.splits prod.splits)
  have "p \<noteq> []" using p(1,2) assms(2) [of "sources w"] by (auto simp: src_locate_Inr)
  show ?thesis unfolding gone_def
  proof (intro allI notI)
    fix q d' assume f: "src_find (sources w') False (ce_local_path e) = Inr (q, d')"
    from src_find_shrunk [OF shrunk_delete f [unfolded p(3)]]
    have f2: "src_locate (sources w) (dir_operand (ce_local_path e)) (ce_local_path e) = Inr (q, d')"
      by (simp add: src_find_Inr)
    have "q = p"
    proof (cases "dir_operand (ce_local_path e)")
      case True
      with assms(3) p(2) have "d = SourceDir" by blast
      with src_locate_whole [OF p(1)] f2 True show ?thesis by simp
    qed (use f2 p(1) in simp)
    with f \<open>p \<noteq> []\<close> show False by (simp add: p(3) src_find_Inr src_locate_Inr src_node_delete)
  qed
qed

lemma missing_gone:
  "src_find (sources w) False (ce_local_path e) = Inl x \<Longrightarrow> gone (sources w) e"
  "src_locate (sources w) False (ce_local_path e) = Inl IoNotFound \<Longrightarrow> gone (sources w) e"
  by (simp_all add: gone_def src_find_missing)

lemma cleaned_gone:
  assumes "honest w" "try_clean_entry cc e w = (Inr True, w')"
  shows "gone (sources w') e"
proof -
  have unlink: "gone (sources w') e" if "bind_io (attempt_io (src_remove_file (ce_local_path e))) (\<lambda>r. ret_io (is_ok r)) v = ((Inr True :: (server_error, bool) result), w')" for v
  proof -
    from that have "src_remove_file (ce_local_path e) v = (Inr (), w')" by (auto simp: bind_ok attempt_io_eq is_ok_iff)
    then show ?thesis unfolding src_remove_file_def by (rule removed_gone) (simp_all split: if_split_asm)
  qed
  have "(fst (src_lstat (ce_local_path e) w) = Inl IoNotFound \<and> w' = next_tick w) \<or>
    (\<exists>v. bind_io (attempt_io (src_remove_file (ce_local_path e))) (\<lambda>r. ret_io (is_ok r)) v = ((Inr True :: (server_error, bool) result), w'))"
  proof (cases "fst (src_lstat (ce_local_path e) w)")
    case (Inl x)
    with assms(2) show ?thesis by (simp add: try_clean_entry_def src_lstat_def bind_query)
  next
    case (Inr d)
    with assms(2) have "(case ce_kind e of Directory \<Rightarrow> ret_io False | Symlink \<Rightarrow> try_clean_symlink e d
        | RegularFile \<Rightarrow> try_clean_file cc e d) (next_tick w) = (Inr True, w')"
      by (simp add: try_clean_entry_def src_lstat_def bind_query)
    moreover have "\<exists>v. bind_io (attempt_io (src_remove_file (ce_local_path e))) (\<lambda>r. ret_io (is_ok r)) v = ((Inr True :: (server_error, bool) result), w')"
      if "try_clean_symlink e d u = (Inr True, w')" for u
      using that by (cases d; cases "ce_link_target e") (auto simp: try_clean_symlink_def bind_ok [of "attempt_io (src_read_link _)"] split: if_splits)
    moreover have "\<exists>v. bind_io (attempt_io (src_remove_file (ce_local_path e))) (\<lambda>r. ret_io (is_ok r)) v = ((Inr True :: (server_error, bool) result), w')"
      if "try_clean_file cc e d u = (Inr True, w')" for u
    proof -
      define K where "K meta = (case meta of Inl _ \<Rightarrow> ret_io False
          | Inr m \<Rightarrow> if \<not> file_unchanged e m then ret_io False
              else (case ce_sha256 e of None \<Rightarrow> ret_io False
                | Some sha \<Rightarrow> bind_io (attempt_io (compute_sha256 cc (ce_local_path e))) (\<lambda>actual.
                    if actual = Inr sha
                    then bind_io (attempt_io (src_remove_file (ce_local_path e))) (\<lambda>r. ret_io (is_ok r))
                    else (ret_io False :: bool client))))" for meta :: "(io_error, source) result"
      from that obtain c m where "d = SourceFile c m" by (cases d) (simp_all add: try_clean_file_def)
      then have "try_clean_file cc e d = bind_io (attempt_io (src_stat (ce_local_path e))) K"
        by (simp only: try_clean_file_def source.case K_def [abs_def])
      with that have "K (fst (src_stat (ce_local_path e) u)) (next_tick u) = (Inr True, w')"
        by (simp only: src_stat_def bind_query)
      then show ?thesis unfolding K_def
        by (cases "fst (src_stat (ce_local_path e) u)"; cases "ce_sha256 e")
          (auto simp: bind_ok [of "attempt_io (compute_sha256 _ _)"] split: if_split_asm)
    qed
    ultimately show ?thesis by (cases "ce_kind e") auto
  qed
  then show ?thesis
  proof (elim disjE exE conjE)
    assume "fst (src_lstat (ce_local_path e) w) = Inl IoNotFound" "w' = next_tick w"
    with honest_query [OF assms(1)] show ?thesis by (auto simp: src_lstat_def intro!: missing_gone(1))
  qed (rule unlink)
qed

section \<open>The record is true\<close>

lemma on_disk_reads:
  assumes "on_disk cc path s0 w0 w" "reads.kept m" "clean.kept cc' E m" "m w = (x, w')"
  shows "on_disk cc path s0 w0 w'" "shrunk (sources w) (sources w')"
proof -
  show shr: "shrunk (sources w) (sources w')" using clean.keptD [OF assms(3,4)] by (simp add: cleans_def)
  show "on_disk cc path s0 w0 w'"
    by (rule on_disk_sources [OF assms(1) _ _ shr])
      (use reads.keptD [OF assms(2,4)] in \<open>simp_all add: same_nodes_def\<close>)
qed

lemma shrunk_write: "write_cleanup_state_atomic cc path s w = (r, w') \<Longrightarrow> shrunk (sources w) (sources w')"
  using clean.keptD [OF clean_write, of cc path s w r w' undefined "{}"] by (simp add: cleans_def)

lemma true_loops:
  fixes s0 s :: DurableCleanupState and cc :: client_codecs and w0 :: world and path :: fpath
  defines "P \<equiv> \<lambda>s w. on_disk cc path s0 w0 w \<and> truthful s0 (sources w) s"
  assumes path: "path = d @ [name]" "cleanup_name name" and hon: "honest w0"
    and "P s w" "set is \<subseteq> {..<length (cs_entries s)}"
  shows "clean_files cc path is s w = (r, w') \<Longrightarrow> case r of Inl _ \<Rightarrow> on_disk cc path s0 w0 w' | Inr s' \<Rightarrow> P s' w'"
    and "clean_dirs cc path is s w = (r, w') \<Longrightarrow> case r of Inl _ \<Rightarrow> on_disk cc path s0 w0 w' | Inr s' \<Rightarrow> P s' w'"
proof -
  have mark: "case y of Inl _ \<Rightarrow> on_disk cc path s0 w0 v | Inr _ \<Rightarrow> P (mark_cleaned i s) v"
    if "P s u" "i < length (cs_entries s)" "ce_import_confirmed (cs_entries s ! i)" "gone (sources u) (cs_entries s ! i)"
      "write_cleanup_state_atomic cc path (mark_cleaned i s) u = (y, v)" for s u i y v
  proof -
    from that(1) have p: "on_disk cc path s0 w0 u" "truthful s0 (sources u) s" by (simp_all add: P_def)
    note t = truthful_mark [OF p(2) that(2-4)]
    from on_disk_write [OF p(1) t path that(5)] truthful_shrunk [OF t shrunk_write [OF that(5)]]
    show ?thesis by (cases y) (simp_all add: P_def)
  qed
  have kept: "P s v" "shrunk (sources u) (sources v)"
    if "P s u" "reads.kept m" "clean.kept cc (pending s) m" "m u = (x, v)"
    for s u and m :: "('e, 'a) io" and x v
    using that on_disk_reads [of cc path s0 w0 u m] truthful_shrunk by (fastforce simp: P_def)+
  have honest: "honest u" if "P s u" for s u
    using that hon honest_env by (auto simp: P_def on_disk_def)
  { assume "clean_files cc path is s w = (r, w')"
    from _ never_fails(1) assms(5,6) this show "case r of Inl _ \<Rightarrow> on_disk cc path s0 w0 w' | Inr s' \<Rightarrow> P s' w'"
    proof (rule clean_files_rule)
      fix s w i x w1
      assume a: "P s w" "i < length (cs_entries s)" "ce_import_confirmed (cs_entries s ! i)"
        "\<not> ce_cleaned (cs_entries s ! i)" "try_clean_entry cc (cs_entries s ! i) w = (x, w1)"
      note p1 = kept(1) [OF a(1) reads_clean(1) clean_entry [OF pending_nth [OF a(2-4)]] a(5)]
      have "gone (sources w1) (cs_entries s ! i)" if "x = Inr True"
        using cleaned_gone [OF honest [OF a(1)] a(5) [unfolded that]] .
      with p1 mark [OF p1 a(2,3)] show "(x \<noteq> Inr True \<longrightarrow> P s w1) \<and>
        (\<forall>y w2. x = Inr True \<longrightarrow> write_cleanup_state_atomic cc path (mark_cleaned i s) w1 = (y, w2) \<longrightarrow>
        (case y of Inl _ \<Rightarrow> on_disk cc path s0 w0 w2 | Inr _ \<Rightarrow> P (mark_cleaned i s) w2))" by blast
    qed }
  { assume "clean_dirs cc path is s w = (r, w')"
    from _ assms(5,6) this show "case r of Inl _ \<Rightarrow> on_disk cc path s0 w0 w' | Inr s' \<Rightarrow> P s' w'"
    proof (rule clean_dirs_rule)
      fix s w i can w1
      assume a: "P s w" "i < length (cs_entries s)" "ce_import_confirmed (cs_entries s ! i)"
        "\<not> ce_cleaned (cs_entries s ! i)" "ce_kind (cs_entries s ! i) = Directory"
        "can_remove_directory (cs_entries s) (cs_entries s ! i) w = (Inr can, w1)"
      let ?e = "cs_entries s ! i"
      note p1 = kept(1) [OF a(1) reads_clean(2) clean_can_remove a(6)]
      have p2: "P s w2" if "src_remove_dir (ce_local_path ?e) w1 = (x, w2)" for x w2
        using kept(1) [OF p1 reads_clean(3) clean_rmdir [OF pending_nth [OF a(2-4)] a(5)] that] .
      have "gone (sources w2) ?e" if "src_remove_dir (ce_local_path ?e) w1 = (x, w2)" "x = Inr () \<or> x = Inl IoNotFound" for x w2
        using that(2)
      proof
        assume "x = Inr ()"
        with that(1) have "src_remove_dir (ce_local_path ?e) w1 = (Inr (), w2)" by simp
        then show ?thesis unfolding src_remove_dir_def by (rule removed_gone) (simp_all split: if_split_asm)
      next
        assume "x = Inl IoNotFound"
        with that(1) honest [OF p1] show ?thesis
          by (intro missing_gone(2))
            (auto simp: src_remove_dir_def src_remove_def src_prim_def honest_def src_delete_def
              split: option.split_asm sum.split_asm prod.split_asm if_split_asm)
      qed
      with p1 p2 mark [OF p2 a(2,3)] show "(\<not> can \<longrightarrow> P s w1) \<and>
        (\<forall>x w2. can \<longrightarrow> src_remove_dir (ce_local_path ?e) w1 = (x, w2) \<longrightarrow>
          (if x = Inr () \<or> x = Inl IoNotFound
           then \<forall>y w3. write_cleanup_state_atomic cc path (mark_cleaned i s) w2 = (y, w3) \<longrightarrow>
             (case y of Inl _ \<Rightarrow> on_disk cc path s0 w0 w3 | Inr _ \<Rightarrow> P (mark_cleaned i s) w3)
           else P s w2))" by metis
    qed }
qed

lemma process_on_disk:
  assumes hon: "honest w" and wf: "fs_wf (nodes w)" and path: "path = d @ [name]" "cleanup_name name"
    and src: "view (nodes w) path = Some (FileN c 0 l)" "parse_cleanup cc c = Inr s0"
    and run: "process_cleanup_state_file cc path w = (r, w')"
  shows "on_disk cc path s0 w w' \<and> (\<forall>out. r = Inr out \<longrightarrow>
    (\<exists>s. truthful s0 (sources w') s \<and> (out = Complete \<longleftrightarrow> list_all ce_cleaned (cs_entries s))))"
proof -
  have range: "set [0..<n] \<subseteq> {..<n}" for n :: nat by auto
  have here: "on_disk cc path s0 w w" using wf by (simp add: on_disk_def)
  obtain a w1 where 1: "read_cleanup_state cc path w = (a, w1)" by (metis surj_pair)
  have reads: "reads.kept (read_cleanup_state cc path)"
    unfolding read_cleanup_state_def by (intro reads_rules)
  note d1 = on_disk_reads [OF here reads clean_read [of undefined "{}"] 1]
  show ?thesis
  proof (cases a)
    case (Inl e)
    with 1 run d1 show ?thesis by (auto simp: process_cleanup_state_file_def bind_io_def)
  next
    case (Inr s)
    with read_cleanup_ok [OF 1 [unfolded Inr]] src have s: "s = s0" by auto
    with d1 have start: "on_disk cc path s0 w w1 \<and> truthful s0 (sources w1) s0" by (simp add: truthful_def)
    obtain b w2 where 2: "clean_files cc path [0..<length (cs_entries s0)] s0 w1 = (b, w2)" by (metis surj_pair)
    note r2 = true_loops(1) [OF path hon start range 2]
    show ?thesis
    proof (cases b)
      case (Inl e)
      with Inr s 1 2 run r2 show ?thesis by (auto simp: process_cleanup_state_file_def bind_io_def)
    next
      case b: (Inr s2)
      obtain x w3 where 3: "clean_dirs cc path [0..<length (cs_entries s2)] s2 w2 = (x, w3)" by (metis surj_pair)
      have "on_disk cc path s0 w w2 \<and> truthful s0 (sources w2) s2" using r2 b by simp
      note r3 = true_loops(2) [OF path hon this range 3]
      from Inr s 1 2 b 3 run have "w' = w3 \<and> r = map_sum id (\<lambda>s. if list_all ce_cleaned (cs_entries s) then Complete else StillPending) x"
        by (cases x) (auto simp: process_cleanup_state_file_def bind_io_def ret_io_def)
      with r3 show ?thesis by (cases x) auto
    qed
  qed
qed

text \<open>
  C9. The record of a cleanup is true, whatever fails short of an error disguised as absence: the
  state file afterwards is the old one or the whole of a state that differs from the old one only in
  that confirmed entries, whose sources are gone, are marked as cleaned; no other file of the state
  directory but the temporary one changes; and an outcome \<open>Complete\<close> means that every entry was
  cleaned before or was confirmed and is gone.
\<close>

theorem cleanup_record_true:
  assumes "honest w" "fs_wf (nodes w)" "path = d @ [name]" "cleanup_name name"
    and "view (nodes w) path = Some (FileN c 0 l)" "parse_cleanup cc c = Inr s0"
    and "process_cleanup_state_file cc path w = (r, w')"
  shows "(view (nodes w') path = view (nodes w) path \<or>
     (\<exists>s out l. cc_ser_cleanup cc s = Inr out \<and> view (nodes w') path = Some (FileN out 0 l) \<and> cleaned_more s0 s \<and>
       (\<forall>i < length (cs_entries s0). ce_cleaned (cs_entries s ! i) \<longrightarrow>
         ce_cleaned (cs_entries s0 ! i) \<or> gone (sources w') (cs_entries s0 ! i)))) \<and>
    (\<forall>q. q \<noteq> path \<and> q \<noteq> d @ [name @ ''.tmp''] \<longrightarrow> view (nodes w') q = view (nodes w) q) \<and>
    (r = Inr Complete \<longrightarrow> (\<forall>e \<in> set (cs_entries s0). ce_cleaned e \<or> (ce_import_confirmed e \<and> gone (sources w') e)))"
proof -
  note p = process_on_disk [OF assms]
  have "ce_cleaned e \<or> (ce_import_confirmed e \<and> gone (sources w') e)" if r: "r = Inr Complete" "e \<in> set (cs_entries s0)" for e
  proof -
    from p r obtain s where s: "truthful s0 (sources w') s" "list_all ce_cleaned (cs_entries s)" by auto
    from r(2) obtain i where i: "i < length (cs_entries s0)" "e = cs_entries s0 ! i" by (auto simp: in_set_conv_nth)
    with s have c: "ce_cleaned (cs_entries s ! i)" by (auto simp: truthful_def cleaned_more_def list_all_length)
    with s(1) i have "cs_entries s ! i = e \<or> ce_import_confirmed e" unfolding truthful_def cleaned_more_def by auto
    with c s(1) i show ?thesis by (auto simp: truthful_def)
  qed
  with p show ?thesis unfolding on_disk_def truthful_def tmp_name [OF assms(4), of d, folded assms(3)] by blast
qed


section \<open>Confirmation\<close>

lemma matches_flag [simp]: "matches cc (e\<lparr>ce_import_confirmed := b\<rparr>) d = matches cc e d"
  by (cases "ce_kind e") (simp_all add: matches_def)

lemma reported_flag [simp]: "reported_imported status (e\<lparr>ce_import_confirmed := b\<rparr>) = reported_imported status e"
  by (simp add: reported_imported_def)

lemma confirm_nth:
  assumes "i < length (cs_entries s)"
  defines "e \<equiv> cs_entries s ! i"
  shows "cs_entries (confirm_from_status status s) ! i = e\<lparr>ce_import_confirmed := reported_imported status e \<or>
    (\<exists>f \<in> set (cs_entries s). ce_kind f = Directory \<and> reported_imported status f \<and>
      prefix (ce_relative_path f @ ''/'') (ce_relative_path e))\<rparr>"
proof -
  define dirs where "dirs = confirmed_dirs (map (\<lambda>e. e\<lparr>ce_import_confirmed := reported_imported status e\<rparr>) (cs_entries s))"
  have "list_ex (\<lambda>d. starts_with (d @ ''/'') (ce_relative_path e)) dirs \<longleftrightarrow>
    (\<exists>f \<in> set (cs_entries s). ce_kind f = Directory \<and> reported_imported status f \<and>
      prefix (ce_relative_path f @ ''/'') (ce_relative_path e))"
    by (auto simp: dirs_def confirmed_dirs_def list_ex_iff starts_with_def)
  moreover have "cs_entries (confirm_from_status status s) ! i =
      propagate dirs (e\<lparr>ce_import_confirmed := reported_imported status e\<rparr>)"
    using assms(1) by (simp add: confirm_from_status_def Let_def dirs_def e_def)
  ultimately show ?thesis by (cases "reported_imported status e") (simp_all add: propagate_def)
qed

lemma length_confirm [simp]: "length (cs_entries (confirm_from_status status s)) = length (cs_entries s)"
  by (simp add: confirm_from_status_def Let_def)

lemma confirm_file:
  assumes "fs_wf (nodes w)" "path = d @ [name]" "cleanup_name name"
    and "view (nodes w) path = Some (FileN c 0 l)" "parse_cleanup cc c = Inr s"
    and "confirm_imports_from_status cc path status w = (r, w')"
  shows "cleans cc {} w w' \<and>
    ((r \<noteq> Inr () \<and> view (nodes w') path = view (nodes w) path) \<or>
     (\<exists>out l. cc_ser_cleanup cc (confirm_from_status status s) = Inr out \<and> view (nodes w') path = Some (FileN out 0 l)))"
proof
  have "clean.kept cc {} (confirm_imports_from_status cc path status)"
    unfolding confirm_imports_from_status_def by (intro clean_rules clean_read clean_write)
  from clean.keptD [OF this assms(6)] show "cleans cc {} w w'" .
  obtain a w1 where 1: "read_cleanup_state cc path w = (a, w1)" by (metis surj_pair)
  have reads: "reads.kept (read_cleanup_state cc path)" unfolding read_cleanup_state_def by (intro reads_rules)
  note n1 = reads.keptD [OF reads 1]
  obtain x w2 where 2: "write_cleanup_state_atomic cc path (confirm_from_status status s) w1 = (x, w2)" by (metis surj_pair)
  show "(r \<noteq> Inr () \<and> view (nodes w') path = view (nodes w) path) \<or>
     (\<exists>out l. cc_ser_cleanup cc (confirm_from_status status s) = Inr out \<and> view (nodes w') path = Some (FileN out 0 l))"
  proof (cases a)
    case (Inl e)
    with 1 n1 assms(6) show ?thesis by (auto simp: confirm_imports_from_status_def bind_io_def same_nodes_def)
  next
    case (Inr s')
    with read_cleanup_ok [OF 1 [unfolded Inr]] assms(4,5) have "s' = s" by auto
    with Inr 1 2 assms(6) have w2: "r = x" "w' = w2" by (auto simp: confirm_imports_from_status_def bind_io_def)
    have "fs_wf (nodes w1)" "nodes w1 = nodes w" using n1 assms(1) by (simp_all add: same_nodes_def)
    from write_cleanup_published [OF this(1) assms(2,3) 2] this(2) w2 show ?thesis
      by (cases "view (nodes w') path = view (nodes w) path") (auto simp: published_def)
  qed
qed

text \<open>
  C10. Confirmation follows the status exactly: an entry is confirmed if and only if the status reports
  it imported, with the same local path, relative path and kind, or reports so a directory of the
  state that contains it; nothing else of an entry changes. The state file is replaced as a whole or,
  on any failure, kept, and no source is touched.
\<close>

theorem confirmation_exact:
  assumes "fs_wf (nodes w)" "path = d @ [name]" "cleanup_name name"
    and "view (nodes w) path = Some (FileN c 0 l)" "parse_cleanup cc c = Inr s"
    and "confirm_imports_from_status cc path status w = (r, w')"
  shows "(\<forall>q. src_node (sources w') q = src_node (sources w) q) \<and>
    ((r \<noteq> Inr () \<and> view (nodes w') path = view (nodes w) path) \<or>
     (\<exists>out l. cc_ser_cleanup cc (confirm_from_status status s) = Inr out \<and> view (nodes w') path = Some (FileN out 0 l))) \<and>
    (\<forall>i < length (cs_entries s). let e = cs_entries s ! i in
      cs_entries (confirm_from_status status s) ! i = e\<lparr>ce_import_confirmed :=
        (\<exists>f \<in> set (cs_entries s). (f = e \<or> ce_kind f = Directory \<and> prefix (ce_relative_path f @ ''/'') (ce_relative_path e)) \<and>
          (\<exists>st \<in> set (rs_entries status). es_status st = FsImported \<and> es_local_path st = ce_local_path f \<and>
            es_relative_path st = ce_relative_path f \<and> es_kind st = ce_kind f))\<rparr>)"
proof (intro conjI)
  note f = confirm_file [OF assms]
  from f show "\<forall>q. src_node (sources w') q = src_node (sources w) q"
    unfolding cleans_def shrunk_def by (metis empty_iff not_None_eq)
  from f show "(r \<noteq> Inr () \<and> view (nodes w') path = view (nodes w) path) \<or>
     (\<exists>out l. cc_ser_cleanup cc (confirm_from_status status s) = Inr out \<and> view (nodes w') path = Some (FileN out 0 l))" by blast
  show "\<forall>i < length (cs_entries s). let e = cs_entries s ! i in
      cs_entries (confirm_from_status status s) ! i = e\<lparr>ce_import_confirmed :=
        (\<exists>f \<in> set (cs_entries s). (f = e \<or> ce_kind f = Directory \<and> prefix (ce_relative_path f @ ''/'') (ce_relative_path e)) \<and>
          (\<exists>st \<in> set (rs_entries status). es_status st = FsImported \<and> es_local_path st = ce_local_path f \<and>
            es_relative_path st = ce_relative_path f \<and> es_kind st = ce_kind f))\<rparr>"
  proof (intro allI impI)
    fix i assume i: "i < length (cs_entries s)"
    have rep: "reported_imported status f \<longleftrightarrow> (\<exists>st \<in> set (rs_entries status). es_status st = FsImported \<and>
        es_local_path st = ce_local_path f \<and> es_relative_path st = ce_relative_path f \<and> es_kind st = ce_kind f)" for f
      by (simp add: reported_imported_def list_ex_iff)
    show "let e = cs_entries s ! i in
      cs_entries (confirm_from_status status s) ! i = e\<lparr>ce_import_confirmed :=
        (\<exists>f \<in> set (cs_entries s). (f = e \<or> ce_kind f = Directory \<and> prefix (ce_relative_path f @ ''/'') (ce_relative_path e)) \<and>
          (\<exists>st \<in> set (rs_entries status). es_status st = FsImported \<and> es_local_path st = ce_local_path f \<and>
            es_relative_path st = ce_relative_path f \<and> es_kind st = ce_kind f))\<rparr>"
      unfolding Let_def confirm_nth [OF i] rep [symmetric]
      by (rule arg_cong [where f = "\<lambda>b. (cs_entries s ! i)\<lparr>ce_import_confirmed := b\<rparr>"]) (use nth_mem [OF i] in blast)
  qed
qed

end
