(* ===== verification/Client_Sync.thy ===== *)
theory Client_Sync
  imports Client_Run Drive_Laws Cleanup_Laws
begin

text \<open>
  What a sync guarantees, whatever fails on the client, on the server and in between: the durable record
  of a run is written before the run is finished, only sources that the server reported imported are
  deleted, and success means that the server said so.
\<close>

section \<open>Remote operations\<close>

text \<open>
  What the client asks of other machines and of its children happens elsewhere: its own directories and
  sources stay as they are; time may pass.
\<close>

definition elsewhere :: "world \<Rightarrow> world \<Rightarrow> bool" where
  "elsewhere w w' \<longleftrightarrow> same_env w w' \<and> nodes w' = nodes w \<and> sources w' = sources w"

interpretation remote: world_relation elsewhere
  by unfold_locales (auto simp: elsewhere_def intro: same_env_trans)

definition remote_elsewhere :: "client_env \<Rightarrow> bool" where
  "remote_elsewhere ev \<longleftrightarrow>
     (\<forall>host command. remote.kept (ev_ssh ev host command)) \<and>
     (\<forall>host command c. remote.kept (ev_ssh_write ev host command c)) \<and>
     (\<forall>host command. remote.kept (ev_spawn ev host command)) \<and>
     (\<forall>h. remote.kept (ev_try_wait ev h)) \<and> (\<forall>h. remote.kept (ev_wait ev h)) \<and>
     (\<forall>h secs. remote.kept (ev_wait_timeout ev h secs)) \<and> (\<forall>h. remote.kept (ev_kill ev h)) \<and>
     (\<forall>args. remote.kept (ev_rsync ev args)) \<and> remote.kept (ev_beats ev)"

lemma remote_ops:
  assumes "remote_elsewhere ev"
  shows "remote.kept (ev_ssh ev host command)" "remote.kept (ev_ssh_write ev host command c)"
    "remote.kept (ev_spawn ev host command)" "remote.kept (ev_try_wait ev h)" "remote.kept (ev_wait ev h)"
    "remote.kept (ev_wait_timeout ev h secs)" "remote.kept (ev_kill ev h)" "remote.kept (ev_rsync ev args)"
    "remote.kept (ev_beats ev)"
  using assms by (simp_all add: remote_elsewhere_def)

lemmas remote_rules = remote.kept_intros remote.kept_cases remote_ops

lemma remote_commands:
  assumes "remote_elsewhere ev"
  shows "remote.kept (server_cmd ev host c args)" "remote.kept (write_remote_file ev host path content)"
    "remote.kept (run_rsync ev src host opd)" "remote.kept (spawn_server_cmd ev host c args)"
    "remote.kept (try_wait ev h)" "remote.kept (wait_timeout ev h secs)" "remote.kept (terminate_and_reap ev h)"
  unfolding server_cmd_def server_cmd_raw_def write_remote_file_def run_rsync_def spawn_server_cmd_def try_wait_def
    wait_timeout_def terminate_and_reap_def ctx_def
  by (intro remote_rules assms)+

lemma remote_requests:
  assumes "remote_elsewhere ev"
  shows "remote.kept (check_server_version ev host c)" "remote.kept (client_begin_run ev host c n r)"
    "remote.kept (client_prepare_run ev host c n r)" "remote.kept (client_heartbeat_run ev host c n r)"
    "remote.kept (client_finish_run ev host c n r)" "remote.kept (client_run_state ev host c n r)"
    "remote.kept (client_read_status ev host c n r)"
  unfolding check_server_version_def client_begin_run_def client_prepare_run_def client_heartbeat_run_def
    client_finish_run_def client_run_state_def client_read_status_def
  by (intro remote_rules remote_commands assms)+

lemma remote_heartbeats: "remote_elsewhere ev \<Longrightarrow> remote.kept (heartbeat_loop ev host c n r k st)"
  by (induction k arbitrary: st) (auto intro!: remote_rules remote_requests)

lemma remote_healthy: "remote_elsewhere ev \<Longrightarrow> remote.kept (heartbeat_is_healthy ev host c n r)"
  unfolding heartbeat_is_healthy_def by (intro remote_rules remote_heartbeats)

lemma remote_exit: "remote_elsewhere ev \<Longrightarrow> remote.kept (drive_exit ev h c n r st e)"
  unfolding drive_exit_def handle_process_run_success_def
  by (cases e; simp only: RemoteCommandExit.case; intro remote_rules remote_requests; assumption)

lemma remote_decide: "remote_elsewhere ev \<Longrightarrow> remote.kept (drive_decide ev h c n r st)"
  unfolding drive_decide_def Let_def terminate_worker_on_error_def
  by (cases "processor_observation (dv_state st)"; simp only: ProcessorObservation.case;
      intro remote_rules remote_requests remote_commands; assumption)

lemma remote_polled: "remote_elsewhere ev \<Longrightarrow> remote.kept (drive_polled ev h c n r st)"
  unfolding drive_polled_def finish_worker_after_terminal_def
  by (intro remote_rules remote_exit remote_decide remote_commands)

lemma remote_step: "remote_elsewhere ev \<Longrightarrow> remote.kept (drive_step ev h c n r st)"
  unfolding drive_step_def by (intro remote_rules remote_polled remote_requests)

lemma remote_loop: "remote_elsewhere ev \<Longrightarrow> remote.kept (drive_loop ev h c n r k st)"
  by (induction k arbitrary: st) (auto intro!: remote_rules remote_step)

lemma remote_drive: "remote_elsewhere ev \<Longrightarrow> remote.kept (drive_server_until_terminal ev h c n r)"
  unfolding drive_server_until_terminal_def by (intro remote_rules remote_loop)

lemma remote_setup: "remote_elsewhere ev \<Longrightarrow> remote.kept (server_setup ev h c su)"
  unfolding server_setup_def quietly_def
  by (cases su; simp only: ServerRunSetup.case; intro remote_rules remote_requests remote_commands; assumption)

lemma remote_status: "remote_elsewhere ev \<Longrightarrow> remote.kept (read_terminal_status ev h c n r)"
  unfolding read_terminal_status_def by (intro remote_rules remote_requests)

lemma remote_stage: "remote_elsewhere ev \<Longrightarrow> remote.kept (stage_run ev spec h c n r m rc resp)"
  unfolding stage_run_def to_toml_io_def
  by (intro remote_rules remote_requests remote_commands)


section \<open>Operations beside a set of paths\<close>

definition aside :: "fpath set \<Rightarrow> world \<Rightarrow> world \<Rightarrow> bool" where
  "aside S w w' \<longleftrightarrow> same_env w w' \<and> sources w' = sources w \<and> (fs_wf (nodes w) \<longrightarrow> fs_wf (nodes w')) \<and>
     (\<forall>q. q \<notin> S \<longrightarrow> view (nodes w') q = view (nodes w) q)"

interpretation beside: world_relation "aside S" for S
  by unfold_locales (auto simp: aside_def intro: same_env_trans)

lemma beside_remote: "remote.kept m \<Longrightarrow> beside.kept S m"
  unfolding remote.kept_def beside.kept_def elsewhere_def aside_def by metis

lemma beside_prim:
  assumes "tree.kept (prim_io f)" "frame.kept S (prim_io f)"
  shows "beside.kept S (prim_io f)"
  unfolding beside.kept_def
proof (intro allI impI)
  fix w r w' assume m: "prim_io f w = (r, w')"
  then have "sources w' = sources w" by (auto simp: prim_io_def split: prod.splits)
  with tree.keptD [OF assms(1) m] frame.keptD [OF assms(2) m] show "aside S w w'"
    by (auto simp: aside_def keeps_tree_def same_outside_def)
qed

lemma beside_files:
  shows "p \<in> S \<Longrightarrow> beside.kept S (fs_write p c)"
    and "(\<And>r. prefix p r \<or> prefix q r \<Longrightarrow> r \<in> S) \<Longrightarrow> beside.kept S (fs_rename p q)"
    and "(\<And>q. q \<noteq> [] \<Longrightarrow> prefix q p \<Longrightarrow> q \<in> S) \<Longrightarrow> beside.kept S (fs_create_dir_all p)"
    and "(\<And>r. prefix p r \<Longrightarrow> r \<in> S) \<Longrightarrow> beside.kept S (fs_remove_dir_all p)"
    and "(\<And>r. prefix p r \<Longrightarrow> r \<in> S) \<Longrightarrow> beside.kept S (fs_remove_file p)"
    and "beside.kept S (fs_exists p)"
proof -
  note rule = beside_prim [of _ S]
  show "p \<in> S \<Longrightarrow> beside.kept S (fs_write p c)"
    using frame_write tree_prims(7) unfolding fs_write_def by (rule rule [rotated])
  show "(\<And>r. prefix p r \<or> prefix q r \<Longrightarrow> r \<in> S) \<Longrightarrow> beside.kept S (fs_rename p q)"
    using frame_rename tree_prims(8) unfolding fs_rename_def by (rule rule [rotated])
  show "(\<And>q. q \<noteq> [] \<Longrightarrow> prefix q p \<Longrightarrow> q \<in> S) \<Longrightarrow> beside.kept S (fs_create_dir_all p)"
    using frame_create_dir_all tree_prims(10) unfolding fs_create_dir_all_def by (rule rule [rotated])
  show "(\<And>r. prefix p r \<Longrightarrow> r \<in> S) \<Longrightarrow> beside.kept S (fs_remove_dir_all p)"
    using frame_remove(1) tree_prims(11) unfolding fs_remove_dir_all_def by (rule rule [rotated])
  show "(\<And>r. prefix p r \<Longrightarrow> r \<in> S) \<Longrightarrow> beside.kept S (fs_remove_file p)"
    using frame_remove(2) tree_prims(12) unfolding fs_remove_file_def by (rule rule [rotated])
  show "beside.kept S (fs_exists p)"
    using frame_reads(1) tree_prims(1) unfolding fs_exists_def by (rule rule [rotated])
qed

text \<open>The directory of a run: what is on the way to it or below it.\<close>

definition around :: "fpath \<Rightarrow> fpath set" where
  "around d = {q. prefix q d \<or> prefix d q}"

lemma beside_persist:
  "beside.kept (around (run_state_dir sd (nickname_str n) (run_id_str r)))
     (persist_client_run_state ev sd n r host sc m rc ts phase)"
  unfolding persist_client_run_state_def to_toml_io_def ser_io_def Let_def ctx_def
  by (intro beside.kept_intros beside_files) (auto simp: around_def dest: append_prefixD)

lemma beside_remove:
  "beside.kept (around (run_state_dir sd (nickname_str n) (run_id_str r))) (remove_client_run_state sd n r)"
  unfolding remove_client_run_state_def quietly_def
  by (intro beside.kept_intros beside_files) (auto simp: around_def)

text \<open>The file of the cleanup state is not on the way.\<close>

lemma fpath_join:
  assumes "a \<noteq> []" "plain_name b"
  shows "fpath_of (path_join a b) = fpath_of a @ [b]"
proof -
  have "b \<noteq> []" "CHR ''/'' \<notin> set b" using assms(2) by (simp_all add: plain_name_def)
  with assms show ?thesis by (simp add: fpath_of_def components_join_piece plain_name_def)
qed

definition run_names :: "Nickname \<Rightarrow> RunId \<Rightarrow> bool" where
  "run_names n r \<longleftrightarrow> Nickname_new (nickname_str n) = Inr n \<and> RunId_new (run_id_str r) = Inr r"

lemma run_names_plain:
  assumes "run_names n r" "CHR ''/'' \<notin> set a" "CHR ''/'' \<notin> set b"
  shows "plain_name (a @ nickname_str n @ CHR ''-'' # run_id_str r @ b)"
proof -
  have n: "plain_name (nickname_str n)" using assms(1) Nickname_new_plain unfolding run_names_def by blast
  have r: "CHR ''/'' \<notin> set (run_id_str r)" using assms(1) RunId_new_no_slash unfolding run_names_def by blast
  let ?s = "a @ nickname_str n @ CHR ''-'' # run_id_str r @ b"
  have "t \<noteq> ''.'' \<and> t \<noteq> ''..''" if "CHR ''-'' \<in> set t" for t using that by auto
  then have "?s \<noteq> ''.'' \<and> ?s \<noteq> ''..''" by simp
  with n r assms(2,3) show ?thesis by (auto simp: plain_name_def)
qed

lemma run_state_dir_eq:
  assumes "sd \<noteq> []" "run_names n r"
  shows "run_state_dir sd (nickname_str n) (run_id_str r) =
    fpath_of sd @ [''runs'', nickname_str n @ ''-'' @ run_id_str r]"
  using run_names_plain [OF assms(2), of "[]" "[]"] assms(1) fpath_join path_join_nonempty
  by (simp add: run_state_dir_def plain_name_def)

lemma cleanup_path_eq:
  assumes "sd \<noteq> []" "run_names n r"
  shows "cleanup_path_of sd n r = fpath_of sd @ [''cleanup-'' @ nickname_str n @ ''-'' @ run_id_str r @ ''.toml'']"
  using run_names_plain [OF assms(2), of "''cleanup-''" "''.toml''"] assms(1) fpath_join
  by (simp add: cleanup_path_of_def)

lemma extension_toml: "s \<noteq> [] \<Longrightarrow> extension_of (s @ ''.toml'') = Some ''toml''"
  by (simp add: extension_of_def rfind_char_def)

lemma cleanup_path_beside:
  assumes "sd \<noteq> []" "run_names n r"
  shows "\<exists>d name. cleanup_path_of sd n r = d @ [name] \<and> cleanup_name name"
    "cleanup_path_of sd n r \<notin> around (run_state_dir sd (nickname_str n) (run_id_str r))"
proof -
  have "cleanup_name (''cleanup-'' @ nickname_str n @ ''-'' @ run_id_str r @ ''.toml'')"
    using extension_toml [of "''cleanup-'' @ nickname_str n @ ''-'' @ run_id_str r"]
    by (simp add: cleanup_name_def starts_with_def)
  then show "\<exists>d name. cleanup_path_of sd n r = d @ [name] \<and> cleanup_name name"
    unfolding cleanup_path_eq [OF assms] by blast
  show "cleanup_path_of sd n r \<notin> around (run_state_dir sd (nickname_str n) (run_id_str r))"
    by (simp add: cleanup_path_eq [OF assms] run_state_dir_eq [OF assms] around_def)
qed


section \<open>The durable record comes first\<close>

text \<open>The run is on the client's disk, as one whose upload is complete.\<close>

definition recorded :: "client_env \<Rightarrow> string \<Rightarrow> Nickname \<Rightarrow> RunId \<Rightarrow> world \<Rightarrow> bool" where
  "recorded ev sd n r w \<longleftrightarrow> (\<exists>state content l. ev_ser_client_state ev state = Inr content \<and>
     cr_nickname state = nickname_str n \<and> cr_run_id state = run_id_str r \<and> cr_phase state = UploadCompleteFinishPending \<and>
     view (nodes w) (run_state_dir sd (nickname_str n) (run_id_str r) @ [''state.toml'']) = Some (FileN content 0 l))"

lemma recordedI:
  "ev_ser_client_state ev state = Inr content \<Longrightarrow> cr_nickname state = nickname_str n \<Longrightarrow> cr_run_id state = run_id_str r \<Longrightarrow>
   cr_phase state = UploadCompleteFinishPending \<Longrightarrow>
   view (nodes w) (run_state_dir sd (nickname_str n) (run_id_str r) @ [''state.toml'']) = Some (FileN content 0 l) \<Longrightarrow> recorded ev sd n r w"
  unfolding recorded_def by blast

lemma persist_recorded:
  "wp (persist_client_run_state ev sd n r host sc m rc ts UploadCompleteFinishPending)
     (\<lambda>x v. x = Inr () \<longrightarrow> recorded ev sd n r v) w"
proof -
  define D where "D = run_state_dir sd (nickname_str n) (run_id_str r)"
  have publish: "wp (bind_io (ctx m1 (fs_write (D @ [''state.toml.tmp'']) c)) (\<lambda>_. ctx m2 (fs_rename (D @ [''state.toml.tmp'']) (D @ [''state.toml'']))))
    (\<lambda>x v. x = Inr () \<longrightarrow> (\<exists>l. view (nodes v) (D @ [''state.toml'']) = Some (FileN c 0 l))) w" for m1 m2 c w
    unfolding ctx_def wp_simps
  proof (rule wpI, goal_cases)
    case (1 x v)
    show ?case
    proof (cases x)
      case (Inr u)
      with fs_write_effect [OF 1] obtain l where l: "view (nodes v) (D @ [''state.toml.tmp'']) = Some (FileN c 0 l)" by auto
      show ?thesis unfolding Inr
      proof (simp add: map_err_Inr_iff, rule wpI, goal_cases)
        case (1 y v')
        with fs_rename_effect [OF 1] l show ?case by (auto simp: vmove_def)
      qed
    qed simp
  qed
  show ?thesis
    unfolding persist_client_run_state_def Let_def D_def [symmetric] to_toml_io_def ser_io_def map_err_Inr_iff
    by (rule wp_bind_lift, rule wp_bind_lift, rule wp_bind_any, rule wp_bind_lift, rule wp_mono [OF publish])
      (auto simp: D_def map_err_Inr_iff intro: recordedI)
qed


text \<open>Two environments that differ only in what \<open>ssh\<close> gives for the command \<open>c\<close>.\<close>

definition differs_at :: "string \<Rightarrow> client_env \<Rightarrow> client_env \<Rightarrow> bool" where
  "differs_at c ev ev' \<longleftrightarrow> (\<exists>g. ev' = ev\<lparr>ev_ssh := g\<rparr> \<and> (\<forall>host command. command \<noteq> c \<longrightarrow> g host command = ev_ssh ev host command))"

lemma differs_server_cmd_at:
  assumes "differs_at c ev ev'" "ev_ssh ev' host (full_command sc args) v = ev_ssh ev host (full_command sc args) v"
  shows "server_cmd ev' host sc args v = server_cmd ev host sc args v"
proof -
  obtain g where g: "ev' = ev\<lparr>ev_ssh := g\<rparr>" "\<forall>host command. command \<noteq> c \<longrightarrow> g host command = ev_ssh ev host command"
    using assms(1) unfolding differs_at_def by blast
  have fields: "ev_text ev' = ev_text ev" "ev_de_error ev' = ev_de_error ev" by (simp_all add: g(1))
  have "classify_output ev' = classify_output ev" "into_protocol_result ev' = into_protocol_result ev"
    by (intro ext, unfold classify_output_def into_protocol_result_def fields) (rule refl)+
  then show ?thesis by (simp add: server_cmd_def server_cmd_raw_def ctx_def bind_io_def err_io_def assms(2))
qed

lemma differs_server_cmd:
  assumes "differs_at c ev ev'" "full_command sc args \<noteq> c"
  shows "server_cmd ev' host sc args = server_cmd ev host sc args"
proof
  fix v show "server_cmd ev' host sc args v = server_cmd ev host sc args v"
    using assms by (intro differs_server_cmd_at [OF assms(1)]) (auto simp: differs_at_def)
qed

lemma differs_fields:
  assumes "differs_at c ev ev'"
  shows "ev_de_version ev' = ev_de_version ev" "ev_de_begin ev' = ev_de_begin ev" "ev_de_prepare ev' = ev_de_prepare ev"
    "ev_de_run_state ev' = ev_de_run_state ev" "ev_de_process ev' = ev_de_process ev" "ev_de_status ev' = ev_de_status ev"
    "ev_ser_status ev' = ev_ser_status ev" "ev_ser_manifest ev' = ev_ser_manifest ev" "ev_ser_run_config ev' = ev_ser_run_config ev"
    "ev_ser_client_state ev' = ev_ser_client_state ev" "ev_codecs ev' = ev_codecs ev" "ev_beats ev' = ev_beats ev"
    "ev_polls ev' = ev_polls ev" "ev_ssh_write ev' = ev_ssh_write ev" "ev_spawn ev' = ev_spawn ev" "ev_rsync ev' = ev_rsync ev"
    "ev_try_wait ev' = ev_try_wait ev" "ev_wait ev' = ev_wait ev" "ev_wait_timeout ev' = ev_wait_timeout ev"
    "ev_kill ev' = ev_kill ev" "ev_pipes ev' = ev_pipes ev" "ev_text ev' = ev_text ev"
  using assms by (auto simp: differs_at_def)

lemma full_command_eq: "full_command sc args = sc @ concat (map (\<lambda>a. CHR '' '' # shell_escape a) args)"
proof -
  have "foldl (\<lambda>cmd a. cmd @ '' '' @ shell_escape a) acc args = acc @ concat (map (\<lambda>a. CHR '' '' # shell_escape a) args)" for acc
    by (induction args arbitrary: acc) simp_all
  then show ?thesis by (simp add: full_command_def)
qed

text \<open>No other command of the client is the one that finishes a run.\<close>

definition finish_command :: "string \<Rightarrow> Nickname \<Rightarrow> RunId \<Rightarrow> string" where
  "finish_command sc n r = full_command sc (run_args ''finish-run'' n r)"

lemma other_commands:
  "full_command sc [''version''] \<noteq> finish_command sc n r" "full_command sc [''gc''] \<noteq> finish_command sc n r"
  "full_command sc (run_args ''begin-run'' n r) \<noteq> finish_command sc n r"
  "full_command sc (run_args ''prepare-run'' n r) \<noteq> finish_command sc n r"
  "full_command sc (run_args ''heartbeat-run'' n r) \<noteq> finish_command sc n r"
  "full_command sc (run_args ''run-state'' n r) \<noteq> finish_command sc n r"
  "full_command sc (run_args ''status'' n r) \<noteq> finish_command sc n r"
  by (simp_all add: finish_command_def full_command_eq run_args_def shell_escape_def)


lemma differs_requests:
  assumes "differs_at (finish_command sc n r) ev ev'"
  shows "check_server_version ev' h sc = check_server_version ev h sc" "client_begin_run ev' h sc n r = client_begin_run ev h sc n r"
    "client_prepare_run ev' h sc n r = client_prepare_run ev h sc n r"
    "client_heartbeat_run ev' h sc n r = client_heartbeat_run ev h sc n r"
    "client_run_state ev' h sc n r = client_run_state ev h sc n r"
    "client_read_status ev' h sc n r = client_read_status ev h sc n r"
    "server_cmd ev' h sc [''gc''] = server_cmd ev h sc [''gc'']"
  by (unfold check_server_version_def client_begin_run_def client_prepare_run_def client_heartbeat_run_def
      client_run_state_def client_read_status_def parse_begin_response_def parse_prepare_response_def
      parse_run_state_response_def parse_status_output_def differs_fields [OF assms] differs_server_cmd [OF assms other_commands(1)]
      differs_server_cmd [OF assms other_commands(2)] differs_server_cmd [OF assms other_commands(3)]
      differs_server_cmd [OF assms other_commands(4)] differs_server_cmd [OF assms other_commands(5)]
      differs_server_cmd [OF assms other_commands(6)] differs_server_cmd [OF assms other_commands(7)]) (rule refl)+

lemma differs_local:
  assumes "differs_at c ev ev'"
  shows "persist_client_run_state ev' = persist_client_run_state ev" "confirm_and_clean ev' = confirm_and_clean ev"
    "cleanup_complete_phase ev' = cleanup_complete_phase ev" "run_rsync ev' = run_rsync ev"
    "write_remote_file ev' = write_remote_file ev" "spawn_server_cmd ev' = spawn_server_cmd ev"
    "try_wait ev' = try_wait ev" "wait_timeout ev' = wait_timeout ev" "terminate_and_reap ev' = terminate_and_reap ev"
proof -
  have exit: "classify_exit ev' = classify_exit ev"
    by (intro ext, unfold classify_exit_def differs_fields [OF assms]) (rule refl)
  have settle: "settle_wait ev' = settle_wait ev"
    by (intro ext, unfold settle_wait_def exit) (rule refl)
  show "try_wait ev' = try_wait ev" "wait_timeout ev' = wait_timeout ev" "terminate_and_reap ev' = terminate_and_reap ev"
    by (unfold try_wait_def wait_timeout_def terminate_and_reap_def exit settle differs_fields [OF assms]) (rule refl)+
  show p: "persist_client_run_state ev' = persist_client_run_state ev"
    by (intro ext, unfold persist_client_run_state_def differs_fields [OF assms]) (rule refl)
  show "confirm_and_clean ev' = confirm_and_clean ev" "run_rsync ev' = run_rsync ev"
    "write_remote_file ev' = write_remote_file ev" "spawn_server_cmd ev' = spawn_server_cmd ev"
    by (unfold confirm_and_clean_def run_rsync_def write_remote_file_def spawn_server_cmd_def
        differs_fields [OF assms]) (rule refl)+
  show "cleanup_complete_phase ev' = cleanup_complete_phase ev"
    by (intro ext, unfold cleanup_complete_phase_def p) (rule refl)
qed

lemma differs_drive:
  assumes "differs_at (finish_command sc n r) ev ev'"
  shows "drive_server_until_terminal ev' h sc n r = drive_server_until_terminal ev h sc n r"
proof -
  note eqs = differs_requests [OF assms] differs_local [OF assms] differs_fields [OF assms]
  have success: "handle_process_run_success ev' h sc n r out t = handle_process_run_success ev h sc n r out t" for out t
    by (unfold handle_process_run_success_def parse_process_run_response_def eqs) (rule refl)
  have exit: "drive_exit ev' h sc n r st e = drive_exit ev h sc n r st e" for st e
    by (unfold drive_exit_def success eqs) (rule refl)
  have decide: "drive_decide ev' h sc n r st = drive_decide ev h sc n r st" for st
    by (unfold drive_decide_def terminate_worker_on_error_def eqs) (rule refl)
  have polled: "drive_polled ev' h sc n r st = drive_polled ev h sc n r st" for st
    by (unfold drive_polled_def finish_worker_after_terminal_def exit decide eqs) (rule refl)
  have step: "drive_step ev' h sc n r st = drive_step ev h sc n r st" for st
    by (unfold drive_step_def polled eqs) (rule refl)
  have loop: "drive_loop ev' h sc n r k = drive_loop ev h sc n r k" for k
  proof (induction k)
    case (Suc k)
    show ?case by (intro ext, unfold drive_loop.simps step Suc.IH) (rule refl)
  qed (simp add: fun_eq_iff)
  show ?thesis by (unfold drive_server_until_terminal_def loop eqs) (rule refl)
qed

lemma differs_heartbeats:
  assumes "differs_at (finish_command sc n r) ev ev'"
  shows "heartbeat_is_healthy ev' h sc n r = heartbeat_is_healthy ev h sc n r"
proof -
  have loop: "heartbeat_loop ev' h sc n r k st = heartbeat_loop ev h sc n r k st" for k st
  proof (induction k arbitrary: st)
    case (Suc k)
    show ?case by (unfold heartbeat_loop.simps differs_requests [OF assms] Suc.IH) (rule refl)
  qed simp
  show ?thesis by (unfold heartbeat_is_healthy_def loop differs_fields [OF assms]) (rule refl)
qed

lemma recorded_elsewhere: "recorded ev sd n r w \<Longrightarrow> elsewhere w v \<Longrightarrow> recorded ev sd n r v"
  by (simp add: recorded_def elsewhere_def)

text \<open>
  C5. The client tells the server to finish a run only when the run can be resumed: by then its
  directory holds, whole, the state of this very run with a complete upload. So whatever
  \<open>finish-run\<close> would do in a world without this record makes no difference to a sync: it is never
  asked to.
\<close>

theorem finish_needs_record:
  assumes "remote_elsewhere ev"
    and "\<And>h c v. c \<noteq> finish_command sc n r \<or> recorded ev sd n r v \<Longrightarrow> g h c v = ev_ssh ev h c v"
  shows "server_run (ev\<lparr>ev_ssh := g\<rparr>) sd spec remote sc n r manifest p su w =
    server_run ev sd spec remote sc n r manifest p su w"
proof -
  define ev' where "ev' = ev\<lparr>ev_ssh := g\<rparr>"
  have d: "differs_at (finish_command sc n r) ev ev'"
    using assms(2) unfolding differs_at_def ev'_def by (auto simp: fun_eq_iff)
  note eqs = differs_requests [OF d] differs_local [OF d] differs_fields [OF d] differs_drive [OF d] differs_heartbeats [OF d]
  have prelim: "server_setup ev' h sc su = server_setup ev h sc su" for h
    by (unfold server_setup_def eqs) (rule refl)
  have stage: "stage_run ev' spec h sc n r manifest rc b = stage_run ev spec h sc n r manifest rc b" for h rc b
    by (unfold stage_run_def eqs) (rule refl)
  have status: "read_terminal_status ev' h sc n r = read_terminal_status ev h sc n r" for h
    by (unfold read_terminal_status_def eqs) (rule refl)
  have finish: "client_finish_run ev' h sc n r v = client_finish_run ev h sc n r v" if "recorded ev sd n r v" for h v
  proof -
    have "ev_ssh ev' h (finish_command sc n r) v = ev_ssh ev h (finish_command sc n r) v"
      using assms(2) that by (simp add: ev'_def)
    from differs_server_cmd_at [OF d this [unfolded finish_command_def]] show ?thesis
      by (simp add: client_finish_run_def bind_io_def)
  qed
  show ?thesis
    unfolding ev'_def [symmetric] server_run_def prelim stage status eqs Let_def
  proof (rule bind_io_cong, rule bind_io_cong, rule bind_io_cong, rule bind_io_cong, rule bind_io_cong, rule bind_io_first)
    fix a1 v1 b v2 rc v3 a4 v4 a5 v5
    assume persist: "persist_client_run_state ev sd n r (rd_host remote) sc manifest rc None UploadCompleteFinishPending v3 = (Inr a4, v4)"
      and healthy: "heartbeat_is_healthy ev (rd_host remote) sc n r v4 = (Inr a5, v5)"
    from wpD [OF persist_recorded persist] have "recorded ev sd n r v4" by simp
    with remote.keptD [OF remote_healthy [OF assms(1)] healthy] have "recorded ev sd n r v5" by (rule recorded_elsewhere [rotated])
    then show "client_finish_run ev' (rd_host remote) sc n r v5 = client_finish_run ev (rd_host remote) sc n r v5" by (rule finish)
  qed
qed

section \<open>What a run on the server may delete\<close>

lemma wp_bind_kept:
  assumes "beside.kept S m" "aside S w0 w"
    and "\<And>a v. m w = (Inr a, v) \<Longrightarrow> aside S w0 v \<Longrightarrow> wp (f a) Q v"
    and "\<And>e v. aside S w0 v \<Longrightarrow> Q (Inl e) v"
  shows "wp (bind_io m f) Q w"
proof -
  have "aside S w0 v" if "m w = (x, v)" for x v
    using beside.R_trans [OF assms(2) beside.keptD [OF assms(1) that]] .
  then have "wp m (\<lambda>x v. m w = (x, v) \<and> aside S w0 v) w" by (auto intro: wpI)
  then show ?thesis by (rule wp_bind_mono) (auto intro: assms(3,4))
qed

text \<open>The server reported the entry as imported, or a directory of the state that contains it.\<close>

definition reported :: "RunStatus \<Rightarrow> DurableCleanupState \<Rightarrow> CleanupEntry \<Rightarrow> bool" where
  "reported status s e \<longleftrightarrow> reported_imported status e \<or>
     (\<exists>f \<in> set (cs_entries s). ce_kind f = Directory \<and> reported_imported status f \<and>
        prefix (ce_relative_path f @ ''/'') (ce_relative_path e))"

lemma pending_confirmed:
  assumes "e \<in> pending (confirm_from_status status s)"
  obtains e0 where "e0 \<in> set (cs_entries s)" "reported status s e0" "e = e0\<lparr>ce_import_confirmed := True\<rparr>"
proof -
  from assms obtain i where i: "i < length (cs_entries s)" "e = cs_entries (confirm_from_status status s) ! i" "ce_import_confirmed e"
    by (auto simp: pending_def in_set_conv_nth)
  have e: "e = (cs_entries s ! i)\<lparr>ce_import_confirmed := reported status s (cs_entries s ! i)\<rparr>"
    unfolding i(2) confirm_nth [OF i(1)] reported_def by (rule refl)
  with i(3) have "reported status s (cs_entries s ! i)" by simp
  with that [of "cs_entries s ! i"] e i(1) show thesis by simp
qed

text \<open>The sources shrink by entries that the status reports and that still match.\<close>

definition deletes_reported :: "client_codecs \<Rightarrow> RunStatus \<Rightarrow> DurableCleanupState \<Rightarrow> source_tree \<Rightarrow> source_tree \<Rightarrow> bool" where
  "deletes_reported cc status s t t' \<longleftrightarrow> (\<forall>q. src_node t' q = src_node t q \<or>
     src_node t' q = None \<and> (\<exists>e d. e \<in> set (cs_entries s) \<and> reported status s e \<and> src_node t q = Some d \<and>
       src_resolve t False (ce_local_path e) = Inr q \<and> matches cc e d))"

definition reads_back :: "client_codecs \<Rightarrow> DurableCleanupState \<Rightarrow> bool" where
  "reads_back cc s \<longleftrightarrow> (\<forall>status content. cc_ser_cleanup cc (confirm_from_status status s) = Inr content \<longrightarrow>
     parse_cleanup cc content = Inr (confirm_from_status status s))"

lemma confirmed_deletes:
  assumes "cleans cc {} w v" and "sources v' = sources v \<or> cleans cc (pending (confirm_from_status status s)) v v'"
  shows "deletes_reported cc status s (sources w) (sources v')"
proof -
  have c: "\<exists>E. E \<subseteq> pending (confirm_from_status status s) \<and> shrunk (sources w) (sources v') \<and>
     (\<forall>q d. src_node (sources w) q = Some d \<and> src_node (sources v') q = None \<longrightarrow>
       (\<exists>e \<in> E. src_locate (sources w) False (ce_local_path e) = Inr (q, d) \<and> matches cc e d))"
    using assms(2)
  proof
    assume "sources v' = sources v"
    with assms(1) show ?thesis by (intro exI [of _ "{}"]) (simp add: cleans_def)
  next
    assume c: "cleans cc (pending (confirm_from_status status s)) v v'"
    have "cleans cc (pending (confirm_from_status status s)) w v" using assms(1) by (auto simp: cleans_def)
    from cleans_trans [OF this c] show ?thesis by (intro exI [of _ "pending (confirm_from_status status s)"]) (simp add: cleans_def)
  qed
  then obtain E where E: "E \<subseteq> pending (confirm_from_status status s)" "shrunk (sources w) (sources v')"
    "\<And>q d. src_node (sources w) q = Some d \<Longrightarrow> src_node (sources v') q = None \<Longrightarrow>
       \<exists>e \<in> E. src_locate (sources w) False (ce_local_path e) = Inr (q, d) \<and> matches cc e d" by blast
  show ?thesis unfolding deletes_reported_def
  proof (intro allI disjCI)
    fix q assume ne: "\<not> (src_node (sources v') q = None \<and> (\<exists>e d. e \<in> set (cs_entries s) \<and> reported status s e \<and> src_node (sources w) q = Some d \<and>
       src_resolve (sources w) False (ce_local_path e) = Inr q \<and> matches cc e d))"
    show "src_node (sources v') q = src_node (sources w) q"
    proof (rule ccontr)
      assume diff: "src_node (sources v') q \<noteq> src_node (sources w) q"
      with E(2) have none: "src_node (sources v') q = None" by (auto simp: shrunk_def)
      with diff obtain d where d: "src_node (sources w) q = Some d" by (cases "src_node (sources w) q") auto
      from E(3) [OF d none] obtain e where e: "e \<in> E" "src_locate (sources w) False (ce_local_path e) = Inr (q, d)" "matches cc e d" by blast
      from e(1) E(1) have "e \<in> pending (confirm_from_status status s)" by blast
      then obtain e0 where e0: "e0 \<in> set (cs_entries s)" "reported status s e0" "e = e0\<lparr>ce_import_confirmed := True\<rparr>"
        by (rule pending_confirmed)
      with e have "src_resolve (sources w) False (ce_local_path e0) = Inr q" "matches cc e0 d"
        by (simp_all add: src_locate_Inr)
      with ne none d e0 show False by blast
    qed
  qed
qed


lemma confirm_and_clean_deletes:
  assumes "fs_wf (nodes w)" "path = d @ [name]" "cleanup_name name"
    and "view (nodes w) path = Some (FileN c 0 l)" "parse_cleanup (ev_codecs ev) c = Inr s" "reads_back (ev_codecs ev) s"
  shows "wp (confirm_and_clean ev path status) (\<lambda>_ v. deletes_reported (ev_codecs ev) status s (sources w) (sources v)) w"
proof -
  let ?cc = "ev_codecs ev"
  obtain x v where 1: "confirm_imports_from_status ?cc path status w = (x, v)" by (metis surj_pair)
  note f = confirm_file [OF assms(1-5) 1]
  show ?thesis
  proof (cases x)
    case (Inl e)
    with 1 f confirmed_deletes [of ?cc w v v] show ?thesis by (simp add: confirm_and_clean_def wp_def bind_io_def)
  next
    case (Inr u)
    with f assms(6) obtain out l where out: "view (nodes v) path = Some (FileN out 0 l)"
      "parse_cleanup ?cc out = Inr (confirm_from_status status s)" unfolding reads_back_def by auto
    obtain y v' where 2: "process_cleanup_state_file ?cc path v = (y, v')" by (metis surj_pair)
    from process_cleans [OF 2] out have "sources v' = sources v \<or> cleans ?cc (pending (confirm_from_status status s)) v v'" by auto
    with f confirmed_deletes have "deletes_reported ?cc status s (sources w) (sources v')" by blast
    with 1 2 Inr show ?thesis by (cases y) (simp_all add: confirm_and_clean_def wp_def bind_io_def ret_io_def)
  qed
qed

lemma kept_sources: "beside.kept UNIV m \<Longrightarrow> m w = (x, w') \<Longrightarrow> sources w' = sources w"
  using beside.keptD [of UNIV m w x w'] by (simp add: aside_def)

lemma beside_complete: "beside.kept UNIV (cleanup_complete_phase ev sd host sc n r manifest rc sp b)"
proof -
  have "beside.kept UNIV (persist_client_run_state ev sd n r host sc manifest rc None CleanupComplete)"
    unfolding persist_client_run_state_def to_toml_io_def ser_io_def Let_def ctx_def
    by (intro beside.kept_intros beside_files) simp_all
  moreover have "beside.kept UNIV (remove_client_run_state sd n r)"
    unfolding remove_client_run_state_def quietly_def by (intro beside.kept_intros beside_files) simp_all
  ultimately show ?thesis
    unfolding cleanup_complete_phase_def retire_cleanup_state_file_def ctx_def
    by (intro beside.kept_intros beside.kept_cases beside_files) simp_all
qed

lemma read_terminal_ok:
  assumes "read_terminal_status ev h sc n r w = (Inr status, w')"
  shows "client_read_status ev h sc n r w = (Inr status, w') \<and> rs_nickname status = n \<and> rs_run_id status = r"
  using assms unfolding read_terminal_status_def
  by (cases "client_read_status ev h sc n r w") (auto simp: bind_io_def ret_io_def fail_io_def split: sum.split_asm if_split_asm)

text \<open>
  C1. A run on the server deletes only what the server reported imported: whatever fails, on either
  side and in the transport, a source that is gone when the client's part of a run is over was listed
  in the cleanup state, is reported as imported, itself or in a directory of the state, by a status
  that the server gave for this very run, and was still exactly what was recorded. Before such a
  status is there no source is touched.
\<close>

theorem server_run_deletes_reported:
  assumes "remote_elsewhere ev" "sd \<noteq> []" "run_names n r"
    and "fs_wf (nodes w)" "view (nodes w) (cleanup_path_of sd n r) = Some (FileN c 0 l)"
    and "parse_cleanup (ev_codecs ev) c = Inr s" "reads_back (ev_codecs ev) s"
    and "server_run ev sd spec remote sc n r manifest (Some (cleanup_path_of sd n r)) su w = (x, w')"
    and "src_node (sources w') q \<noteq> src_node (sources w) q"
  shows "src_node (sources w') q = None \<and>
    (\<exists>status v v' e d. client_read_status ev (rd_host remote) sc n r v = (Inr status, v') \<and>
      rs_nickname status = n \<and> rs_run_id status = r \<and> e \<in> set (cs_entries s) \<and>
      src_resolve (sources w) False (ce_local_path e) = Inr q \<and> src_node (sources w) q = Some d \<and>
      matches (ev_codecs ev) e d \<and>
      (\<exists>f \<in> set (cs_entries s). (f = e \<or> ce_kind f = Directory \<and> prefix (ce_relative_path f @ ''/'') (ce_relative_path e)) \<and>
        (\<exists>st \<in> set (rs_entries status). es_status st = FsImported \<and> es_local_path st = ce_local_path f \<and>
          es_relative_path st = ce_relative_path f \<and> es_kind st = ce_kind f)))"
proof -
  let ?p = "cleanup_path_of sd n r" and ?S = "around (run_state_dir sd (nickname_str n) (run_id_str r))"
  define Q where "Q t \<longleftrightarrow> t = sources w \<or> (\<exists>status v v'. read_terminal_status ev (rd_host remote) sc n r v = (Inr status, v') \<and>
    deletes_reported (ev_codecs ev) status s (sources w) t)" for t
  have before: "Q (sources v)" if "aside ?S w v" for v using that by (simp add: aside_def Q_def)
  note steps = wp_bind_kept [where S = ?S]
  have tail: "wp (bind_io (confirm_and_clean ev ?p status) (\<lambda>b. bind_io (cleanup_complete_phase ev sd (rd_host remote) sc n r manifest rc (Some ?p) b)
        (\<lambda>_. lift_res (ensure_successful_status status)))) (\<lambda>_ v. Q (sources v)) v1"
    if "read_terminal_status ev (rd_host remote) sc n r v = (Inr status, v')" "aside ?S w v1" for status v v' v1 rc
  proof -
    from cleanup_path_beside(1) [OF assms(2,3)] obtain d name where p: "?p = d @ [name]" "cleanup_name name" by blast
    from that(2) cleanup_path_beside(2) [OF assms(2,3)] assms(4,5)
    have v1: "fs_wf (nodes v1)" "view (nodes v1) ?p = Some (FileN c 0 l)" "sources v1 = sources w" by (simp_all add: aside_def)
    have Q: "Q (sources u)" if "deletes_reported (ev_codecs ev) status s (sources v1) (sources u)" for u
      using that \<open>read_terminal_status _ _ _ _ _ _ = _\<close> v1(3) unfolding Q_def by auto
    show ?thesis
    proof (rule wp_bind_mono [OF confirm_and_clean_deletes [OF v1(1) p v1(2) assms(6,7)]])
      fix b and u :: world assume "deletes_reported (ev_codecs ev) status s (sources v1) (sources u)"
      then have "Q (sources u)" by (rule Q)
      then show "wp (bind_io (cleanup_complete_phase ev sd (rd_host remote) sc n r manifest rc (Some ?p) b)
        (\<lambda>_. lift_res (ensure_successful_status status))) (\<lambda>_ v. Q (sources v)) u"
        by (intro wpI) (use kept_sources [OF beside.kept_bind [OF beside_complete beside.kept_lift]] in force)
    qed (rule Q)
  qed
  have "wp (server_run ev sd spec remote sc n r manifest (Some ?p) su) (\<lambda>_ v. Q (sources v)) w"
    unfolding server_run_def Let_def ser_io_def option.case
    by (rule steps [OF beside_remote [OF remote_setup [OF assms(1)]] beside.R_refl],
      rule steps [OF beside_remote [OF remote_requests(2) [OF assms(1)]]], assumption,
      rule steps [OF beside_remote [OF remote_stage [OF assms(1)]]], assumption, rule steps [OF beside_persist], assumption,
      rule steps [OF beside_remote [OF remote_healthy [OF assms(1)]]], assumption,
      rule steps [OF beside_remote [OF remote_requests(5) [OF assms(1)]]], assumption, rule steps [OF beside_persist], assumption,
      rule steps [OF beside_remote [OF remote_drive [OF assms(1)]]], assumption,
      rule steps [OF beside_remote [OF remote_status [OF assms(1)]]], assumption, rule steps [OF beside.kept_lift], assumption,
      rule steps [OF beside_persist], assumption, rule tail) (simp_all add: before)
  from wpD [OF this assms(8)] have "Q (sources w')" .
  with assms(9) obtain status v v' where st: "read_terminal_status ev (rd_host remote) sc n r v = (Inr status, v')"
    "deletes_reported (ev_codecs ev) status s (sources w) (sources w')" by (auto simp: Q_def)
  from st(2) assms(9) obtain e d where e: "src_node (sources w') q = None" "e \<in> set (cs_entries s)" "reported status s e"
    "src_node (sources w) q = Some d" "src_resolve (sources w) False (ce_local_path e) = Inr q" "matches (ev_codecs ev) e d"
    unfolding deletes_reported_def by blast
  from e(2,3) have "\<exists>f \<in> set (cs_entries s). (f = e \<or> ce_kind f = Directory \<and> prefix (ce_relative_path f @ ''/'') (ce_relative_path e)) \<and>
      reported_imported status f" unfolding reported_def by blast
  then show ?thesis unfolding reported_imported_def list_ex_iff
    using e read_terminal_ok [OF st(1)] by blast
qed

section \<open>What success means\<close>

lemma rsync_ok: "run_rsync ev src h opd w = (Inr (), w') \<longleftrightarrow> ev_rsync ev (build_rsync_args src (h @ '':'' @ opd)) w = (Inr True, w')"
  by (auto simp: run_rsync_def bind_ok ctx_ok ret_io_def fail_io_def split: if_splits)

section \<open>The steps of a successful sync\<close>

text \<open>
  A step takes the world to the next one. \<open>in_order\<close> takes a list of steps, each in the world that the one
  before it left, so that nothing happens in between. What a step is: an operation with its value, whatever
  comes of an operation that may fail, a command of the server with an acceptable output, a file written on the
  server, a completed transfer.
\<close>

type_synonym step = "world \<Rightarrow> world \<Rightarrow> bool"

inductive in_order :: "step list \<Rightarrow> world \<Rightarrow> world \<Rightarrow> bool" where
  Stop: "in_order [] w w"
| Step: "s w v \<Longrightarrow> in_order ss v w' \<Longrightarrow> in_order (s # ss) w w'"

inductive_simps in_order_simps [simp]: "in_order [] w w'" "in_order (s # ss) w w'"

lemma in_order_append: "in_order (ss @ ts) w w' \<longleftrightarrow> (\<exists>v. in_order ss w v \<and> in_order ts v w')"
  by (induction ss arbitrary: w) auto

definition does :: "('e, 'a) io \<Rightarrow> 'a \<Rightarrow> step" where
  "does m a w w' \<longleftrightarrow> m w = (Inr a, w')"

definition tries :: "('e, 'a) io \<Rightarrow> step" where
  "tries m w w' \<longleftrightarrow> (\<exists>x. m w = (x, w'))"

definition asks :: "client_env \<Rightarrow> string \<Rightarrow> string \<Rightarrow> string list \<Rightarrow> (string \<Rightarrow> bool) \<Rightarrow> step" where
  "asks ev host sc command accepted w w' \<longleftrightarrow> (\<exists>out. server_cmd ev host sc command w = (Inr out, w') \<and> accepted out)"

definition writes :: "client_env \<Rightarrow> string \<Rightarrow> string \<Rightarrow> ('e, string) result \<Rightarrow> step" where
  "writes ev host path text w w' \<longleftrightarrow> (\<exists>t. text = Inr t \<and> write_remote_file ev host path t w = (Inr (), w'))"

definition transfers :: "client_env \<Rightarrow> string \<Rightarrow> string \<Rightarrow> string \<Rightarrow> step" where
  "transfers ev source host target = does (ev_rsync ev (build_rsync_args source (host @ '':'' @ target))) True"

text \<open>The configuration that the client sends and keeps, for a destination.\<close>

definition run_config_to :: "Nickname \<Rightarrow> DestinationPath \<Rightarrow> RunConfig" where
  "run_config_to n dest = \<lparr>rc_purgery_version = PURGERY_VERSION, rc_nickname = n, rc_destination = dest, rc_delete_after_import = True\<rparr>"

definition setup_steps :: "client_env \<Rightarrow> string \<Rightarrow> string \<Rightarrow> ServerRunSetup \<Rightarrow> step list" where
  "setup_steps ev host sc su =
     (case su of
        Needed \<Rightarrow> [asks ev host sc [''version''] (\<lambda>out. is_ok (accept_response ''server version response''
            vr_protocol_version vr_purgery_version (ev_de_version ev) out)),
          tries (server_cmd ev host sc [''gc''])]
      | AlreadyDone \<Rightarrow> [])"

text \<open>The destination that the answer to \<open>prepare-run\<close> leaves to go on with.\<close>

definition prepares :: "client_env \<Rightarrow> DestinationPath \<Rightarrow> DestinationPath \<Rightarrow> string \<Rightarrow> bool" where
  "prepares ev dest dest' out \<longleftrightarrow> (\<exists>resp. parse_prepare_response ev out = Inr resp \<and>
     (case pp_destination resp of None \<Rightarrow> dest' = dest | Some t \<Rightarrow> DestinationPath_new t = Inr dest'))"

definition upload_steps ::
    "client_env \<Rightarrow> SourceSpec \<Rightarrow> string \<Rightarrow> string \<Rightarrow> Nickname \<Rightarrow> RunId \<Rightarrow> Manifest \<Rightarrow> DestinationPath \<Rightarrow> DestinationPath \<Rightarrow>
     BeginRunResponse \<Rightarrow> step list" where
  "upload_steps ev spec host sc n r m dest dest' b =
     [asks ev host sc (run_args ''begin-run'' n r) (\<lambda>out. parse_begin_response ev out = Inr b),
      writes ev host (br_run_config_path b) (run_config_to_toml (ev_ser_run_config ev) (run_config_to n dest)),
      writes ev host (br_manifest_path b) (manifest_to_toml (ev_ser_manifest ev) m),
      asks ev host sc (run_args ''prepare-run'' n r) (prepares ev dest dest'),
      transfers ev (sp_operation_path spec) host (trim_end CHR ''/'' (br_files_dir b) @ ''/'')]"

text \<open>The end of a run: its status on disk, the sources, and then the record.\<close>

definition cleanup_steps ::
    "client_env \<Rightarrow> string \<Rightarrow> string \<Rightarrow> string \<Rightarrow> Nickname \<Rightarrow> RunId \<Rightarrow> Manifest \<Rightarrow> RunConfig \<Rightarrow> fpath option \<Rightarrow> RunStatus \<Rightarrow>
     CleanupOutcome \<Rightarrow> step list" where
  "cleanup_steps ev sd host sc n r m rc p status outcome =
     (case p of
        Some q \<Rightarrow> [does (confirm_imports_from_status (ev_codecs ev) q status) (), does (process_cleanup_state_file (ev_codecs ev) q) outcome]
      | None \<Rightarrow> []) @
     [does (persist_client_run_state ev sd n r host sc m rc None CleanupComplete) ()] @
     (case p of Some q \<Rightarrow> if outcome = Complete then [does (retire_cleanup_state_file q) ()] else [] | None \<Rightarrow> []) @
     [tries (fs_remove_dir_all (run_state_dir sd (nickname_str n) (run_id_str r)) :: (io_error, unit) io)]"

definition run_steps ::
    "client_env \<Rightarrow> string \<Rightarrow> string \<Rightarrow> string \<Rightarrow> Nickname \<Rightarrow> RunId \<Rightarrow> Manifest \<Rightarrow> RunConfig \<Rightarrow> fpath option \<Rightarrow> nat \<Rightarrow>
     RunStateResponse \<Rightarrow> RunStatus \<Rightarrow> string \<Rightarrow> CleanupOutcome \<Rightarrow> step list" where
  "run_steps ev sd host sc n r m rc p beats s status ts outcome =
     [does (persist_client_run_state ev sd n r host sc m rc None UploadCompleteFinishPending) (), does (ev_beats ev) beats] @
     replicate (Suc beats) (asks ev host sc (run_args ''heartbeat-run'' n r) (\<lambda>_. True)) @
     [asks ev host sc (run_args ''finish-run'' n r) (\<lambda>_. True),
      does (persist_client_run_state ev sd n r host sc m rc None WaitingForTerminalState) (),
      does (drive_server_until_terminal ev host sc n r) s,
      asks ev host sc (run_args ''status'' n r) (\<lambda>out. parse_status_output ev out = Inr status),
      does (persist_client_run_state ev sd n r host sc m rc (Some ts) TerminalStatusSeen) ()] @
     cleanup_steps ev sd host sc n r m rc p status outcome"

lemma quietly_ok: "quietly m w = (Inr (), w') \<longleftrightarrow> tries m w w'"
  by (auto simp: quietly_def tries_def bind_io_def attempt_io_def ret_io_def split: prod.splits sum.splits)

lemma to_toml_ok: "to_toml_io msg x w = (Inr t, w') \<longleftrightarrow> x = Inr t \<and> w' = w"
  by (auto simp: to_toml_io_def lift_ok map_err_Inr_iff Inr_map_err)

lemma ser_ok: "ser_io msg x w = (Inr t, w') \<longleftrightarrow> x = Inr t \<and> w' = w"
  by (auto simp: ser_io_def lift_ok map_err_Inr_iff Inr_map_err)

lemma ret_ok: "ret_io a w = (Inr b, w') \<longleftrightarrow> b = a \<and> w' = w"
  by (auto simp: ret_io_def)

lemma fail_ok: "\<not> fail_io e w = (Inr b, w')"
  by (simp add: fail_io_def)

lemmas ok_simps = bind_ok lift_ok ctx_ok ret_ok fail_ok to_toml_ok ser_ok

lemma asks_ok:
  "client_begin_run ev h sc n r w = (Inr b, w') \<Longrightarrow>
    asks ev h sc (run_args ''begin-run'' n r) (\<lambda>out. parse_begin_response ev out = Inr b) w w'"
  "client_finish_run ev h sc n r w = (Inr (), w') \<Longrightarrow> asks ev h sc (run_args ''finish-run'' n r) (\<lambda>_. True) w w'"
  "client_heartbeat_run ev h sc n r w = (Inr (), w') \<Longrightarrow> asks ev h sc (run_args ''heartbeat-run'' n r) (\<lambda>_. True) w w'"
  "client_read_status ev h sc n r w = (Inr status, w') \<Longrightarrow>
    asks ev h sc (run_args ''status'' n r) (\<lambda>out. parse_status_output ev out = Inr status) w w'"
  by (auto simp: asks_def ok_simps client_begin_run_def client_finish_run_def client_heartbeat_run_def client_read_status_def)

lemma setup_in_order: "server_setup ev h sc su w = (Inr (), w') \<Longrightarrow> in_order (setup_steps ev h sc su) w w'"
  by (cases su) (auto simp: server_setup_def setup_steps_def ok_simps check_server_version_def asks_def is_ok_iff quietly_ok intro: sym)

lemma stage_in_order:
  assumes "client_begin_run ev h sc n r w = (Inr b, v)" "stage_run ev spec h sc n r m (run_config_to n dest) b v = (Inr rc, w')"
  shows "\<exists>dest'. rc = run_config_to n dest' \<and> in_order (upload_steps ev spec h sc n r m dest dest' b) w w'"
proof -
  from assms(2) obtain t v1 t' v2 resp v3 v4 where s: "run_config_to_toml (ev_ser_run_config ev) (run_config_to n dest) = Inr t"
    "write_remote_file ev h (br_run_config_path b) t v = (Inr (), v1)" "manifest_to_toml (ev_ser_manifest ev) m = Inr t'"
    "write_remote_file ev h (br_manifest_path b) t' v1 = (Inr (), v2)" "client_prepare_run ev h sc n r v2 = (Inr resp, v3)"
    and d: "(case pp_destination resp of None \<Rightarrow> ret_io (run_config_to n dest)
        | Some dest \<Rightarrow> bind_io (lift_res (map_err (\<lambda>_. Bail ''server returned invalid resolved destination'') (DestinationPath_new dest)))
              (\<lambda>d. ret_io \<lparr>rc_purgery_version = PURGERY_VERSION, rc_nickname = n, rc_destination = d,
                rc_delete_after_import = True\<rparr>)) v3 = (Inr rc, v4)"
    and r: "run_rsync ev (sp_operation_path spec) h (trim_end CHR ''/'' (br_files_dir b) @ ''/'') v4 = (Inr (), w')"
    unfolding stage_run_def by (auto simp: ok_simps)
  from d obtain dest' where dest': "rc = run_config_to n dest'" "v4 = v3"
    "case pp_destination resp of None \<Rightarrow> dest' = dest | Some t \<Rightarrow> DestinationPath_new t = Inr dest'"
    by (cases "pp_destination resp") (auto simp: ok_simps map_err_Inr_iff Inr_map_err run_config_to_def)
  have "asks ev h sc (run_args ''prepare-run'' n r) (prepares ev dest dest') v2 v3"
    using s(5) dest'(3) unfolding client_prepare_run_def bind_ok lift_ok asks_def prepares_def by blast
  with s asks_ok(1) [OF assms(1)] r dest'(2) have "in_order (upload_steps ev spec h sc n r m dest dest' b) w w'"
    by (auto simp: upload_steps_def writes_def transfers_def does_def rsync_ok)
  with dest'(1) show ?thesis by blast
qed

lemma heartbeats_in_order:
  assumes "heartbeat_loop ev h sc n r k st w = (Inr st', w')" "st' \<noteq> HB_FAILED"
  shows "in_order (replicate k (asks ev h sc (run_args ''heartbeat-run'' n r) (\<lambda>_. True))) w w'"
  using assms
proof (induction k arbitrary: st w)
  case (Suc k)
  from Suc.prems obtain x v where 1: "client_heartbeat_run ev h sc n r w = (x, v)"
    "(case x of Inl (_ :: server_error) \<Rightarrow> ret_io HB_FAILED | Inr _ \<Rightarrow> heartbeat_loop ev h sc n r k HB_HEALTHY) v = (Inr st', w')"
    by (cases "client_heartbeat_run ev h sc n r w") (auto simp: bind_io_def attempt_io_def)
  with Suc.prems(2) obtain u where "x = Inr u" by (cases x) (auto simp: ret_ok)
  with 1 Suc.IH Suc.prems(2) asks_ok(3) [of ev h sc n r w v] show ?case by auto
qed (auto simp: ret_ok)

lemma healthy_in_order:
  assumes "heartbeat_is_healthy ev h sc n r w = (Inr (), w')"
  shows "\<exists>k. in_order (does (ev_beats ev) k # replicate (Suc k) (asks ev h sc (run_args ''heartbeat-run'' n r) (\<lambda>_. True))) w w'"
proof -
  from assms obtain k v st v' where k: "ev_beats ev w = (Inr k, v)" "heartbeat_loop ev h sc n r (Suc k) HB_NOT_STARTED v = (Inr st, v')"
    "st \<noteq> HB_FAILED" "w' = v'"
    unfolding heartbeat_is_healthy_def by (auto simp: ok_simps simp del: heartbeat_loop.simps split: if_splits)
  from heartbeats_in_order [OF k(2,3)] k(1,4) show ?thesis by (auto simp: does_def)
qed

lemma cleanup_in_order:
  assumes "(case p of Some q \<Rightarrow> confirm_and_clean ev q status | None \<Rightarrow> ret_io False) w = (Inr b, v)"
    and "cleanup_complete_phase ev sd h sc n r m rc p b v = (Inr (), w')"
  shows "\<exists>outcome. in_order (cleanup_steps ev sd h sc n r m rc p status outcome) w w'"
proof (cases p)
  case None
  with assms show ?thesis
    by (auto simp: ok_simps cleanup_complete_phase_def cleanup_steps_def does_def remove_client_run_state_def quietly_ok)
next
  case (Some q)
  with assms(1) obtain v1 outcome where "confirm_imports_from_status (ev_codecs ev) q status w = (Inr (), v1)"
    "process_cleanup_state_file (ev_codecs ev) q v1 = (Inr outcome, v)" "b = (outcome = Complete)"
    by (auto simp: confirm_and_clean_def ok_simps)
  moreover from assms(2) Some obtain v2 v3 where "persist_client_run_state ev sd n r h sc m rc None CleanupComplete v = (Inr (), v2)"
    "(if b then retire_cleanup_state_file q else ret_io ()) v2 = (Inr (), v3)" "remove_client_run_state sd n r v3 = (Inr (), w')"
    by (auto simp: ok_simps cleanup_complete_phase_def)
  ultimately show ?thesis using Some
    by (intro exI [of _ outcome]) (auto simp: cleanup_steps_def does_def remove_client_run_state_def quietly_ok in_order_append ret_ok split: if_splits)
qed

lemma server_run_in_order:
  assumes "server_run ev sd spec remote sc n r m p su w = (Inr (), w')"
  shows "\<exists>b dest k s status ts outcome. rr_terminal s \<and> rs_nickname status = n \<and> rs_run_id status = r \<and> rs_state status = RsDone \<and>
    in_order (setup_steps ev (rd_host remote) sc su @ upload_steps ev spec (rd_host remote) sc n r m (rd_path remote) dest b @
      run_steps ev sd (rd_host remote) sc n r m (run_config_to n dest) p k s status ts outcome) w w'"
proof -
  let ?h = "rd_host remote"
  from assms obtain u v1 b v2 rc v3 v4 v5 v6 v7 s v8 status v9 ts v10 c v11 where
    1: "server_setup ev ?h sc su w = (Inr (), v1)" "client_begin_run ev ?h sc n r v1 = (Inr b, v2)"
    "stage_run ev spec ?h sc n r m (run_config_to n (rd_path remote)) b v2 = (Inr rc, v3)"
    and 2: "persist_client_run_state ev sd n r ?h sc m rc None UploadCompleteFinishPending v3 = (Inr (), v4)"
    "heartbeat_is_healthy ev ?h sc n r v4 = (Inr (), v5)" "client_finish_run ev ?h sc n r v5 = (Inr (), v6)"
    "persist_client_run_state ev sd n r ?h sc m rc None WaitingForTerminalState v6 = (Inr (), v7)"
    "drive_server_until_terminal ev ?h sc n r v7 = (Inr s, v8)" "read_terminal_status ev ?h sc n r v8 = (Inr status, v9)"
    "persist_client_run_state ev sd n r ?h sc m rc (Some ts) TerminalStatusSeen v9 = (Inr (), v10)"
    and 3: "(case p of Some q \<Rightarrow> confirm_and_clean ev q status | None \<Rightarrow> ret_io False) v10 = (Inr c, v11)"
    "cleanup_complete_phase ev sd ?h sc n r m rc p c v11 = (Inr (), w')" "rs_state status = RsDone"
    unfolding server_run_def Let_def run_config_to_def
    by (auto simp: bind_ok ser_ok lift_ok ensure_successful_status_def split: if_splits)
  from stage_in_order [OF 1(2,3)] obtain dest where dest: "rc = run_config_to n dest"
    "in_order (upload_steps ev spec ?h sc n r m (rd_path remote) dest b) v1 v3" by blast
  from healthy_in_order [OF 2(2)] obtain k where
    k: "in_order (does (ev_beats ev) k # replicate (Suc k) (asks ev ?h sc (run_args ''heartbeat-run'' n r) (\<lambda>_. True))) v4 v5" by blast
  from cleanup_in_order [OF 3(1,2)] obtain outcome where clean: "in_order (cleanup_steps ev sd ?h sc n r m rc p status outcome) v10 w'" by blast
  from drive_answered [OF 2(5)] have "rr_terminal s" unfolding answered_def by blast
  moreover have "in_order (run_steps ev sd ?h sc n r m rc p k s status ts outcome) v3 w'"
  proof -
    from k obtain u where u: "does (ev_beats ev) k v4 u" "in_order (replicate (Suc k) (asks ev ?h sc (run_args ''heartbeat-run'' n r) (\<lambda>_. True))) u v5"
      by (auto simp del: replicate.simps)
    have "in_order [does (persist_client_run_state ev sd n r ?h sc m rc None UploadCompleteFinishPending) (), does (ev_beats ev) k] v3 u"
      using 2(1) u(1) by (auto simp: does_def)
    moreover have "in_order [asks ev ?h sc (run_args ''finish-run'' n r) (\<lambda>_. True),
      does (persist_client_run_state ev sd n r ?h sc m rc None WaitingForTerminalState) (), does (drive_server_until_terminal ev ?h sc n r) s,
      asks ev ?h sc (run_args ''status'' n r) (\<lambda>out. parse_status_output ev out = Inr status),
      does (persist_client_run_state ev sd n r ?h sc m rc (Some ts) TerminalStatusSeen) ()] v5 v10"
      using 2(4,5,7) asks_ok(2) [OF 2(3)] asks_ok(4) [OF conjunct1 [OF read_terminal_ok [OF 2(6)]]] by (auto simp: does_def)
    ultimately show ?thesis unfolding run_steps_def in_order_append using u(2) clean by blast
  qed
  ultimately show ?thesis using setup_in_order [OF 1(1)] dest read_terminal_ok [OF 2(6)] 3(3) unfolding in_order_append by blast
qed

lemma prologue_ok:
  assumes "sync_prologue ev args w = (Inr (sd, spec, n), w')"
  obtains v where "choose_nickname ev args = Inr n" "sa_transform args \<noteq> None \<longrightarrow> sa_delete_after_import args"
    "normalize_source (ev_cwd ev) (sa_source args) v = (Inr spec, w')"
  using assms unfolding sync_prologue_def Let_def
  by (elim bind_okE) (auto simp: lift_ok bind_ok ret_io_def fail_io_def split: if_splits)

text \<open>A direct transfer, and what follows when its sources are to be deleted.\<close>

definition direct_steps :: "client_env \<Rightarrow> SourceSpec \<Rightarrow> RemoteDestination \<Rightarrow> fpath option \<Rightarrow> CleanupOutcome \<Rightarrow> step list" where
  "direct_steps ev spec remote p outcome =
     transfers ev (sp_operation_path spec) (rd_host remote) (dp_operand (rd_path remote)) #
     (case p of
        None \<Rightarrow> []
      | Some q \<Rightarrow> [does (confirm_all_imports (ev_codecs ev) q) (), does (process_cleanup_state_file_and_retire (ev_codecs ev) q) outcome])"

lemma direct_in_order:
  "direct_transfer ev spec remote p w = (Inr (), w') \<Longrightarrow> \<exists>outcome. in_order (direct_steps ev spec remote p outcome) w w'"
  by (cases p) (auto simp: direct_transfer_def direct_steps_def ok_simps rsync_ok transfers_def does_def)


end
