(* ===== verification/Client_Record.thy ===== *)
theory Client_Record
  imports Client_Sync
begin

text \<open>
  The durable record of a run refines a small protocol: whatever fails, the phase on the client's disk
  only moves along its steps, each of them justified by an answer of the server.
\<close>

section \<open>The protocol\<close>

text \<open>The abstraction: the phase that a later invocation would read from the state file.\<close>

definition durable :: "client_env \<Rightarrow> string \<Rightarrow> Nickname \<Rightarrow> RunId \<Rightarrow> world \<Rightarrow> ClientRunPhase option" where
  "durable ev sd n r w =
     (case view (nodes w) (run_state_dir sd (nickname_str n) (run_id_str r) @ [''state.toml'']) of
        Some (FileN c _ _) \<Rightarrow> (case ev_de_client_state ev c of Inr s \<Rightarrow> Some (cr_phase s) | Inl _ \<Rightarrow> None)
      | _ \<Rightarrow> None)"

text \<open>What is asked of the codec: the phase of a state survives.\<close>

definition serde_phase :: "client_env \<Rightarrow> bool" where
  "serde_phase ev \<longleftrightarrow> (\<forall>s c. ev_ser_client_state ev s = Inr c \<longrightarrow>
     (\<exists>s'. ev_de_client_state ev c = Inr s' \<and> cr_phase s' = cr_phase s))"

inductive run_protocol ::
    "client_env \<Rightarrow> string \<Rightarrow> string \<Rightarrow> Nickname \<Rightarrow> RunId \<Rightarrow> ClientRunPhase option \<Rightarrow> ClientRunPhase option \<Rightarrow> bool"
  for ev host sc n r
where
  uploaded: "client_begin_run ev host sc n r v = (Inr b, v') \<Longrightarrow>
    run_protocol ev host sc n r None (Some UploadCompleteFinishPending)"
| finished: "client_finish_run ev host sc n r v = (Inr (), v') \<Longrightarrow>
    run_protocol ev host sc n r (Some UploadCompleteFinishPending) (Some WaitingForTerminalState)"
| reported: "client_run_state ev host sc n r v = (Inr s, v') \<Longrightarrow> rr_terminal s \<Longrightarrow>
    client_read_status ev host sc n r u = (Inr status, u') \<Longrightarrow> rs_nickname status = n \<Longrightarrow> rs_run_id status = r \<Longrightarrow>
    run_protocol ev host sc n r (Some WaitingForTerminalState) (Some TerminalStatusSeen)"
| cleaned: "run_protocol ev host sc n r (Some TerminalStatusSeen) (Some CleanupComplete)"
| removed: "run_protocol ev host sc n r (Some CleanupComplete) None"

text \<open>Where an operation that started with the record \<open>d\<close> may stop, and where it stops on success.\<close>

definition follows ::
    "client_env \<Rightarrow> string \<Rightarrow> string \<Rightarrow> string \<Rightarrow> Nickname \<Rightarrow> RunId \<Rightarrow> ClientRunPhase option \<Rightarrow> (server_error, unit) result \<Rightarrow> world \<Rightarrow> bool" where
  "follows ev sd host sc n r d x w \<longleftrightarrow> (run_protocol ev host sc n r)\<^sup>*\<^sup>* d (durable ev sd n r w) \<and>
     (x = Inr () \<longrightarrow> durable ev sd n r w \<in> {None, Some CleanupComplete})"

lemma removed_follows: "(run_protocol ev host sc n r)\<^sup>*\<^sup>* (Some CleanupComplete) None"
  by (rule r_into_rtranclp) (rule run_protocol.removed)

lemma follows_step: "run_protocol ev host sc n r d d' \<Longrightarrow> follows ev sd host sc n r d' x w \<Longrightarrow> follows ev sd host sc n r d x w"
  by (auto simp: follows_def intro: converse_rtranclp_into_rtranclp)

lemma follows_fail:
  "durable ev sd n r w = d \<Longrightarrow> follows ev sd host sc n r d (Inl e) w"
  "durable ev sd n r w = d' \<Longrightarrow> run_protocol ev host sc n r d d' \<Longrightarrow> follows ev sd host sc n r d (Inl e) w"
  by (auto simp: follows_def)

section \<open>Operations beside the record\<close>

definition record_path :: "string \<Rightarrow> Nickname \<Rightarrow> RunId \<Rightarrow> fpath" where
  "record_path sd n r = run_state_dir sd (nickname_str n) (run_id_str r) @ [''state.toml'']"

abbreviation keeps_record :: "string \<Rightarrow> Nickname \<Rightarrow> RunId \<Rightarrow> ('e, 'a) io \<Rightarrow> bool" where
  "keeps_record sd n r \<equiv> frame.kept (- {record_path sd n r})"

lemma frame_remote: "remote.kept m \<Longrightarrow> frame.kept S m"
  unfolding remote.kept_def frame.kept_def elsewhere_def same_outside_def by metis

lemma frame_same: "reads.kept m \<Longrightarrow> frame.kept S m"
  unfolding reads.kept_def frame.kept_def same_nodes_def same_outside_def by metis

lemma durable_cong:
  "view (nodes v) (record_path sd n r) = view (nodes w) (record_path sd n r) \<Longrightarrow> durable ev sd n r v = durable ev sd n r w"
  by (simp add: durable_def record_path_def)

lemma record_kept: "keeps_record sd n r m \<Longrightarrow> m w = (x, v) \<Longrightarrow> durable ev sd n r v = durable ev sd n r w"
  by (drule (1) frame.keptD, rule durable_cong) (simp add: same_outside_def)

lemma wp_stay:
  assumes "keeps_record sd n r m" "durable ev sd n r w = d"
    and "\<And>a v. m w = (Inr a, v) \<Longrightarrow> durable ev sd n r v = d \<Longrightarrow> wp (f a) Q v"
    and "\<And>e v. durable ev sd n r v = d \<Longrightarrow> Q (Inl e) v"
  shows "wp (bind_io m f) Q w"
proof -
  have "durable ev sd n r v = d" if "m w = (x, v)" for x v using record_kept [OF assms(1) that] assms(2) by simp
  then have "wp m (\<lambda>x v. m w = (x, v) \<and> durable ev sd n r v = d) w" by (auto intro: wpI)
  then show ?thesis by (rule wp_bind_mono) (auto intro: assms(3,4))
qed

text \<open>The files of the cleanup state are beside it.\<close>

lemma cleanup_files_beside:
  assumes "sd \<noteq> []" "run_names n r"
  shows "\<not> prefix (cleanup_path_of sd n r) (record_path sd n r)"
    "\<not> prefix (with_ext (cleanup_path_of sd n r) ''toml.tmp'') (record_path sd n r)"
proof -
  have name: "cleanup_name (''cleanup-'' @ nickname_str n @ ''-'' @ run_id_str r @ ''.toml'')"
    using extension_toml [of "''cleanup-'' @ nickname_str n @ ''-'' @ run_id_str r"]
    by (simp add: cleanup_name_def starts_with_def)
  show "\<not> prefix (cleanup_path_of sd n r) (record_path sd n r)"
    by (simp add: cleanup_path_eq [OF assms] run_state_dir_eq [OF assms] record_path_def)
  show "\<not> prefix (with_ext (cleanup_path_of sd n r) ''toml.tmp'') (record_path sd n r)"
    unfolding cleanup_path_eq [OF assms] tmp_name [OF name]
    by (simp add: run_state_dir_eq [OF assms] record_path_def)
qed

lemma frame_write_cleanup:
  assumes "\<not> prefix p q" "\<not> prefix (with_ext p ''toml.tmp'') q"
  shows "frame.kept (- {q}) (write_cleanup_state_atomic cc p s)"
  unfolding write_cleanup_state_atomic_def Let_def ser_io_def ctx_def
  using assms by (intro frame.kept_intros frame_write frame_rename) auto

lemma frame_clean_loops:
  assumes "\<not> prefix p q" "\<not> prefix (with_ext p ''toml.tmp'') q"
  shows "frame.kept (- {q}) (clean_files cc p ks s)" "frame.kept (- {q}) (clean_dirs cc p ks s)"
proof (induction ks arbitrary: s)
  case (Cons k ks)
  note rules = frame.kept_intros frame_same [OF reads_clean(1)] frame_same [OF reads_clean(2)] frame_same [OF reads_clean(3)]
    frame_write_cleanup [OF assms]
  {
    case 1
    show ?case unfolding clean_files.simps Let_def by (intro rules Cons.IH)
  next
    case 2
    show ?case unfolding clean_dirs.simps Let_def by (intro rules Cons.IH)
  }
qed (simp_all add: frame.kept_ret)

lemma frame_cleanup:
  assumes "\<not> prefix p q" "\<not> prefix (with_ext p ''toml.tmp'') q"
  shows "frame.kept (- {q}) (process_cleanup_state_file cc p)" "frame.kept (- {q}) (confirm_imports_from_status cc p status)"
    "frame.kept (- {q}) (retire_cleanup_state_file p)"
proof -
  have read: "frame.kept (- {q}) (read_cleanup_state cc p)"
    unfolding read_cleanup_state_def ctx_def by (intro frame.kept_intros frame_reads)
  show "frame.kept (- {q}) (process_cleanup_state_file cc p)" "frame.kept (- {q}) (confirm_imports_from_status cc p status)"
    unfolding process_cleanup_state_file_def confirm_imports_from_status_def
    by (intro frame.kept_intros read frame_clean_loops frame_write_cleanup assms)+
  show "frame.kept (- {q}) (retire_cleanup_state_file p)"
    unfolding retire_cleanup_state_file_def ctx_def using assms(1) by (intro frame.kept_intros frame_remove) auto
qed

section \<open>Operations on the record\<close>

lemma publish_moves:
  assumes "serde_phase ev" "ev_ser_client_state ev s = Inr c" "cr_phase s = phase"
    and "D = run_state_dir sd (nickname_str n) (run_id_str r)"
  shows "wp (bind_io (ctx msg (fs_write (D @ [''state.toml.tmp'']) c)) (\<lambda>_. ctx msg' (fs_rename (D @ [''state.toml.tmp'']) (D @ [''state.toml'']))))
    (\<lambda>x v. durable ev sd n r v = Some phase \<or> x \<noteq> Inr () \<and> durable ev sd n r v = durable ev sd n r w) w"
proof (rule wp_stay [where ev = ev, OF _ refl])
  show "keeps_record sd n r (ctx msg (fs_write (D @ [''state.toml.tmp'']) c))"
    unfolding ctx_def assms(4) by (intro frame.kept_intros frame_write) (simp add: record_path_def)
next
  fix a v assume a: "ctx msg (fs_write (D @ [''state.toml.tmp'']) c) w = (Inr a, v)" and v: "durable ev sd n r v = durable ev sd n r w"
  from a have a: "fs_write (D @ [''state.toml.tmp'']) c w = (Inr (), v)" by (cases rule: ctx_cases) auto
  show "wp (ctx msg' (fs_rename (D @ [''state.toml.tmp'']) (D @ [''state.toml''])))
    (\<lambda>x v. durable ev sd n r v = Some phase \<or> x \<noteq> Inr () \<and> durable ev sd n r v = durable ev sd n r w) v"
  proof (rule wpI)
    fix x v' assume "ctx msg' (fs_rename (D @ [''state.toml.tmp'']) (D @ [''state.toml''])) v = (x, v')"
    then show "durable ev sd n r v' = Some phase \<or> x \<noteq> Inr () \<and> durable ev sd n r v' = durable ev sd n r w"
    proof (cases rule: ctx_cases)
      case (err e)
      from fs_rename_effect [OF err(1)] have "view (nodes v') = view (nodes v)" by blast
      then have "durable ev sd n r v' = durable ev sd n r v" by (simp add: durable_def)
      with v err(2) show ?thesis by simp
    next
      case (ok u)
      with fs_write_effect [OF a] fs_rename_effect [OF ok(1)] obtain l where
        "view (nodes v') (D @ [''state.toml'']) = Some (FileN c 0 l)" by (auto simp: vmove_def)
      moreover from assms(1-3) obtain s' where "ev_de_client_state ev c = Inr s'" "cr_phase s' = phase" unfolding serde_phase_def by blast
      ultimately show ?thesis unfolding durable_def assms(4) [symmetric] by simp
    qed
  qed
qed simp

lemma persist_moves:
  assumes "serde_phase ev"
  shows "wp (persist_client_run_state ev sd n r host sc m rc ts phase)
    (\<lambda>x v. durable ev sd n r v = Some phase \<or> x \<noteq> Inr () \<and> durable ev sd n r v = durable ev sd n r w) w"
proof -
  define D where "D = run_state_dir sd (nickname_str n) (run_id_str r)"
  have dirs: "keeps_record sd n r (ctx msg (fs_create_dir_all D))" for msg
    unfolding ctx_def D_def by (intro frame.kept_intros frame_create_dir_all) (auto simp: record_path_def dest: prefix_length_le)
  note publish = publish_moves [OF assms _ _ D_def]
  show ?thesis
    unfolding persist_client_run_state_def to_toml_io_def ser_io_def Let_def D_def [symmetric]
  proof (rule wp_bind_lift, rule wp_bind_lift, rule wp_stay [where ev = ev, OF dirs refl], rule wp_bind_lift, goal_cases)
    case (1 m_text c_text u v content)
    from 1(5) have "ev_ser_client_state ev
       \<lparr>cr_protocol_version = PROTOCOL_VERSION, cr_purgery_version = PURGERY_VERSION, cr_nickname = nickname_str n,
        cr_run_id = run_id_str r, cr_host = host, cr_server_command = sc, cr_manifest = m_text, cr_run_config = c_text,
        cr_phase = phase, cr_terminal_status = ts\<rparr> = Inr content"
      unfolding map_err_Inr_iff by blast
    from publish [OF this, of phase, where w = v] show ?case unfolding 1(4) by simp
  qed simp_all
qed

lemma wp_persist:
  assumes "serde_phase ev" "durable ev sd n r w = d"
    and "\<And>v. durable ev sd n r v = Some phase \<Longrightarrow> wp (f ()) Q v"
    and "\<And>e v. durable ev sd n r v = d \<or> durable ev sd n r v = Some phase \<Longrightarrow> Q (Inl e) v"
  shows "wp (bind_io (persist_client_run_state ev sd n r host sc m rc ts phase) f) Q w"
  by (rule wp_bind_mono [OF persist_moves [OF assms(1)]]) (use assms(2-4) in auto)

lemma remove_moves:
  "wp (remove_client_run_state sd n r) (\<lambda>x v. durable ev sd n r v = None \<or> durable ev sd n r v = durable ev sd n r w) w"
proof (rule wpI)
  let ?D = "run_state_dir sd (nickname_str n) (run_id_str r)"
  fix x v assume "remove_client_run_state sd n r w = (x, v)"
  then obtain y where y: "fs_remove_dir_all ?D w = (y, v)"
    by (auto simp: remove_client_run_state_def quietly_def bind_io_def attempt_io_def ret_io_def split: prod.splits sum.splits)
  have "view (nodes v) (record_path sd n r) = None \<or> view (nodes v) (record_path sd n r) = view (nodes w) (record_path sd n r)"
    using fs_remove_dir_all_effect [OF y] by (cases y) (auto simp: record_path_def removes_below_def)
  then show "durable ev sd n r v = None \<or> durable ev sd n r v = durable ev sd n r w"
    by (auto simp: durable_def record_path_def)
qed


section \<open>The end of a run\<close>

lemma complete_follows:
  assumes "serde_phase ev" "sd \<noteq> []" "run_names n r" "p = None \<or> p = Some (cleanup_path_of sd n r)"
    and "durable ev sd n r w = Some TerminalStatusSeen"
    and "\<And>x v. durable ev sd n r v \<in> {None, Some CleanupComplete} \<Longrightarrow> Q (Inl x) v"
    and "\<And>v. durable ev sd n r v \<in> {None, Some CleanupComplete} \<Longrightarrow> wp (f ()) Q v"
    and "\<And>e v. durable ev sd n r v = Some TerminalStatusSeen \<Longrightarrow> Q (Inl e) v"
  shows "wp (bind_io (cleanup_complete_phase ev sd host sc n r m rc p b) f) Q w"
proof (rule wp_bind_mono)
  have retire: "keeps_record sd n r (case p of Some q \<Rightarrow> if b then retire_cleanup_state_file q else ret_io () | None \<Rightarrow> ret_io ())"
    using assms(4) frame_cleanup(3) [OF cleanup_files_beside [OF assms(2,3)]]
    by (auto intro: frame.kept_ret)
  show "wp (cleanup_complete_phase ev sd host sc n r m rc p b)
    (\<lambda>x v. durable ev sd n r v \<in> {None, Some CleanupComplete} \<or> x \<noteq> Inr () \<and> durable ev sd n r v = Some TerminalStatusSeen) w"
    unfolding cleanup_complete_phase_def
    by (rule wp_persist [OF assms(1,5)], rule wp_stay [OF retire], assumption, rule wp_mono [OF remove_moves [where ev = ev]]) auto
qed (use assms(6-8) in auto)


lemma cleanup_follows:
  assumes "serde_phase ev" "sd \<noteq> []" "run_names n r" "durable ev sd n r w = Some TerminalStatusSeen"
    and "\<And>v. durable ev sd n r v \<in> {None, Some CleanupComplete} \<Longrightarrow> wp (f ()) Q v"
    and "\<And>e v. durable ev sd n r v \<in> {None, Some CleanupComplete, Some TerminalStatusSeen} \<Longrightarrow> Q (Inl e) v"
  shows "wp (bind_io (process_cleanup_from_status ev sd host sc n r m rc status) f) Q w"
proof -
  note beside = frame_cleanup [OF cleanup_files_beside [OF assms(2,3)]]
  have clean: "keeps_record sd n r (confirm_and_clean ev (cleanup_path_of sd n r) status)"
    unfolding confirm_and_clean_def by (intro frame.kept_intros beside)
  have "wp (process_cleanup_from_status ev sd host sc n r m rc status)
    (\<lambda>x v. durable ev sd n r v \<in> {None, Some CleanupComplete} \<or> x \<noteq> Inr () \<and> durable ev sd n r v = Some TerminalStatusSeen) w"
    unfolding process_cleanup_from_status_def Let_def
  proof (rule wp_stay [OF frame_reads(1) assms(4)], rule wp_stay [where ev = ev and sd = sd and n = n and r = r and d = "Some TerminalStatusSeen"], goal_cases)
    case (1 ex v)
    show ?case by (intro frame.kept_intros clean)
  next
    case (3 ex v b v')
    have "wp (bind_io (cleanup_complete_phase ev sd host sc n r m rc (Some (cleanup_path_of sd n r)) b) ret_io)
      (\<lambda>x v. durable ev sd n r v \<in> {None, Some CleanupComplete} \<or> x \<noteq> Inr () \<and> durable ev sd n r v = Some TerminalStatusSeen) v'"
      by (rule complete_follows [OF assms(1-3) _ 3(4)]) (auto simp: wp_ret)
    then show ?case by (simp add: wp_def bind_io_def ret_io_def split: prod.splits sum.splits)
  qed auto
  then show ?thesis by (rule wp_bind_mono) (use assms(5,6) in auto)
qed

text \<open>The two steps with the server's answers, as both ends of a run take them.\<close>

lemma report_follows:
  assumes "serde_phase ev" "remote_elsewhere ev" "durable ev sd n r w = Some WaitingForTerminalState"
    and "\<And>status t v. durable ev sd n r v = Some TerminalStatusSeen \<Longrightarrow> wp (f status t) (follows ev sd host sc n r (Some TerminalStatusSeen)) v"
  shows "wp (bind_io (drive_server_until_terminal ev host sc n r) (\<lambda>_.
      bind_io (read_terminal_status ev host sc n r) (\<lambda>status.
      bind_io (ser_io msg (ev_ser_status ev status)) (\<lambda>t.
      bind_io (persist_client_run_state ev sd n r host sc m rc (Some t) TerminalStatusSeen) (\<lambda>_. f status t)))))
    (follows ev sd host sc n r (Some WaitingForTerminalState)) w"
  unfolding ser_io_def
proof (rule wp_stay [OF frame_remote [OF remote_drive [OF assms(2)]] assms(3)],
    rule wp_stay [OF frame_remote [OF remote_status [OF assms(2)]]], assumption, rule wp_bind_lift, rule wp_persist [OF assms(1)], assumption,
    goal_cases)
  have step: "run_protocol ev host sc n r (Some WaitingForTerminalState) (Some TerminalStatusSeen)"
    if "drive_server_until_terminal ev host sc n r u = (Inr s, u')" "read_terminal_status ev host sc n r v = (Inr status, v')" for s u u' v v' status
  proof -
    from drive_answered [OF that(1)] obtain u u' where "client_run_state ev host sc n r u = (Inr s, u')" "rr_terminal s"
      unfolding answered_def by blast
    with read_terminal_ok [OF that(2)] show ?thesis by (blast intro: run_protocol.reported)
  qed
  {
    case (1 s v status v1 t v2)
    from assms(4) [OF 1(6)] follows_step [OF step [OF 1(1,3)]] show ?case by (rule wp_mono)
  next
    case (2 s v status v1 t e v2)
    with step show ?case by (auto intro: follows_fail)
  }
qed (auto intro: follows_fail)

lemma finish_follows:
  assumes "serde_phase ev" "remote_elsewhere ev" "durable ev sd n r w = Some UploadCompleteFinishPending"
    and "\<And>v. durable ev sd n r v = Some WaitingForTerminalState \<Longrightarrow> wp f (follows ev sd host sc n r (Some WaitingForTerminalState)) v"
  shows "wp (bind_io (client_finish_run ev host sc n r) (\<lambda>_.
      bind_io (persist_client_run_state ev sd n r host sc m rc None WaitingForTerminalState) (\<lambda>_. f)))
    (follows ev sd host sc n r (Some UploadCompleteFinishPending)) w"
proof (rule wp_stay [OF frame_remote [OF remote_requests(5) [OF assms(2)]] assms(3)], rule wp_persist [OF assms(1)], assumption, goal_cases)
  have step: "run_protocol ev host sc n r (Some UploadCompleteFinishPending) (Some WaitingForTerminalState)"
    if "client_finish_run ev host sc n r u = (Inr a, u')" for u a u'
    using that by (cases a) (auto intro: run_protocol.finished)
  {
    case (1 a v v1)
    from assms(4) [OF 1(3)] follows_step [OF step [OF 1(1)]] show ?case by (rule wp_mono)
  next
    case (2 a v e v1)
    with step show ?case by (auto intro: follows_fail)
  }
qed (rule follows_fail)

lemma drain_follows:
  assumes "serde_phase ev" "remote_elsewhere ev" "sd \<noteq> []" "run_names n r"
  shows "durable ev sd n r w = Some CleanupComplete \<Longrightarrow>
      wp (finish_cleanup_complete_resume ev sd n r) (follows ev sd host sc n r (Some CleanupComplete)) w"
    and "durable ev sd n r w = Some TerminalStatusSeen \<Longrightarrow>
      wp (drain_phase ev sd host sc n r m rc TerminalStatusSeen ts) (follows ev sd host sc n r (Some TerminalStatusSeen)) w"
    and "durable ev sd n r w = Some WaitingForTerminalState \<Longrightarrow>
      wp (drain_phase ev sd host sc n r m rc WaitingForTerminalState ts) (follows ev sd host sc n r (Some WaitingForTerminalState)) w"
    and "durable ev sd n r w = Some UploadCompleteFinishPending \<Longrightarrow>
      wp (drain_phase ev sd host sc n r m rc UploadCompleteFinishPending ts) (follows ev sd host sc n r (Some UploadCompleteFinishPending)) w"
proof -
  let ?follows = "follows ev sd host sc n r"
  have cleaned': "?follows (Some TerminalStatusSeen) x v" if "durable ev sd n r v \<in> {None, Some CleanupComplete}" for x v
    by (rule follows_step [OF run_protocol.cleaned]) (use that in \<open>auto simp: follows_def intro: removed_follows\<close>)
  show seen: "wp (drain_phase ev sd host sc n r m rc TerminalStatusSeen ts) (?follows (Some TerminalStatusSeen)) w"
    if "durable ev sd n r w = Some TerminalStatusSeen" for w ts
    unfolding drain_phase.simps(3)
  proof (rule wp_stay [OF _ that], goal_cases)
    case 1
    show ?case by (cases ts) (auto intro: frame.kept_lift frame_remote remote_requests assms(2))
  next
    case (2 a v)
    show ?case by (rule cleanup_follows [OF assms(1,3,4) 2(2)]) (auto simp: wp_lift follows_fail cleaned')
  qed (rule follows_fail)
  show waiting: "wp (drain_phase ev sd host sc n r m rc WaitingForTerminalState ts) (?follows (Some WaitingForTerminalState)) w"
    if "durable ev sd n r w = Some WaitingForTerminalState" for w ts
    unfolding drain_phase.simps(2) by (rule report_follows [OF assms(1,2) that seen])
  show "wp (drain_phase ev sd host sc n r m rc UploadCompleteFinishPending ts) (?follows (Some UploadCompleteFinishPending)) w"
    if "durable ev sd n r w = Some UploadCompleteFinishPending" for w ts
    unfolding drain_phase.simps(1) by (rule finish_follows [OF assms(1,2) that waiting])
  show "wp (finish_cleanup_complete_resume ev sd n r) (?follows (Some CleanupComplete)) w"
    if "durable ev sd n r w = Some CleanupComplete" for w
    unfolding finish_cleanup_complete_resume_def Let_def
  proof (rule wp_stay [OF frame_reads(1) that], rule wp_stay [where ev = ev and sd = sd and n = n and r = r and d = "Some CleanupComplete"], goal_cases)
    case 1
    show ?case unfolding quietly_def process_cleanup_state_file_and_retire_def
      by (intro frame.kept_intros frame_cleanup cleanup_files_beside assms)
  next
    case (3 ex v u v')
    then show ?case
      by (intro wp_mono [OF remove_moves [where ev = ev]]) (auto simp: follows_def intro: removed_follows)
  qed (auto intro: follows_fail)
qed


section \<open>Refinement\<close>

text \<open>
  C7. Resuming refines the protocol: whatever fails, on the client's disk, on the server or in between,
  the record of a resumed run has moved along the steps of the protocol, each one behind the answer of
  the server that allows it; a resumption that succeeds has come to its end, with the record gone or
  marked complete, unless the run was abandoned before.
\<close>

theorem resume_refines_protocol:
  assumes "serde_phase ev" "remote_elsewhere ev" "sd \<noteq> []"
    and "Nickname_new (cr_nickname state) = Inr n" "RunId_new (cr_run_id state) = Inr r"
    and "durable ev sd n r w = Some (cr_phase state)"
    and "drain_one ev sd state w = (x, w')"
  shows "(run_protocol ev (cr_host state) (cr_server_command state) n r)\<^sup>*\<^sup>* (Some (cr_phase state)) (durable ev sd n r w') \<and>
    (x = Inr () \<and> cr_phase state \<noteq> Abandoned \<longrightarrow> durable ev sd n r w' \<in> {None, Some CleanupComplete})"
proof -
  let ?host = "cr_host state" and ?sc = "cr_server_command state" and ?ph = "cr_phase state"
  let ?Q = "\<lambda>x v. (run_protocol ev ?host ?sc n r)\<^sup>*\<^sup>* (Some ?ph) (durable ev sd n r v) \<and>
    (x = Inr () \<and> ?ph \<noteq> Abandoned \<longrightarrow> durable ev sd n r v \<in> {None, Some CleanupComplete})"
  have names: "run_names n r"
    using assms(4,5) by (auto simp: run_names_def Nickname_new_Inr_iff RunId_new_Inr_iff)
  note drain = drain_follows [OF assms(1-3) names, where host = ?host and sc = ?sc]
  have weaken: "wp m (follows ev sd ?host ?sc n r (Some ?ph)) v \<Longrightarrow> wp m ?Q v" for m v
    by (erule wp_mono) (simp add: follows_def)
  have "wp (drain_phase ev sd ?host ?sc n r m rc ?ph ts) ?Q v" if "durable ev sd n r v = Some ?ph" "?ph \<noteq> CleanupComplete" for m rc ts v
    using that drain(2-4) weaken by (cases ?ph) (simp_all add: wp_ret wp_fail)
  note phases = this
  have start: "bind_io (lift_res (Inr a)) f = f a" for a :: 'a and f :: "'a \<Rightarrow> (server_error, unit) io"
    by (rule ext) (simp add: bind_io_def lift_res_def)
  have "wp (drain_one ev sd state) ?Q w"
    unfolding drain_one_def assms(4,5) map_err_simps start
  proof (rule wp_bind_lift, rule wp_bind_lift, rule wp_ifI, goal_cases)
    case (1 m rc)
    show ?case by (rule weaken) (use drain(1) assms(6) 1(3) in simp)
  next
    case (2 m rc)
    show ?case
      by (rule wp_stay [OF frame_remote [OF remote_requests(1) [OF assms(2)]] assms(6)], rule phases, assumption, rule 2(3)) simp
  qed (use assms(6) in simp_all)
  from wpD [OF this assms(7)] show ?thesis by simp
qed

text \<open>
  C6. A run refines the same protocol from its start: whatever fails, its record is then absent or one
  that the protocol leads to, so that a later invocation can take it up, and a sync that succeeds has
  brought it to its end.
\<close>

theorem run_refines_protocol:
  assumes "serde_phase ev" "remote_elsewhere ev" "sd \<noteq> []" "run_names n r"
    and "p = None \<or> p = Some (cleanup_path_of sd n r)" "durable ev sd n r w = None"
    and "server_run ev sd spec remote sc n r manifest p su w = (x, w')"
  shows "(run_protocol ev (rd_host remote) sc n r)\<^sup>*\<^sup>* None (durable ev sd n r w') \<and>
    (x = Inr () \<longrightarrow> durable ev sd n r w' \<in> {None, Some CleanupComplete})"
proof -
  let ?host = "rd_host remote"
  let ?P = "run_protocol ev ?host sc n r" and ?follows = "follows ev sd ?host sc n r"
  have clean: "keeps_record sd n r (case p of Some q \<Rightarrow> confirm_and_clean ev q status | None \<Rightarrow> ret_io False)" for status
    unfolding confirm_and_clean_def using assms(5) frame_cleanup [OF cleanup_files_beside [OF assms(3,4)]]
    by (auto intro!: frame.kept_intros)
  have final: "?follows (Some TerminalStatusSeen) y v" if "durable ev sd n r v \<in> {None, Some CleanupComplete}" for y v
    by (rule follows_step [OF run_protocol.cleaned]) (use that in \<open>auto simp: follows_def intro: removed_follows\<close>)
  have seen: "wp (bind_io (case p of Some q \<Rightarrow> confirm_and_clean ev q status | None \<Rightarrow> ret_io False)
      (\<lambda>b. bind_io (cleanup_complete_phase ev sd ?host sc n r manifest rc p b) (\<lambda>_. lift_res (ensure_successful_status status))))
      (?follows (Some TerminalStatusSeen)) v"
    if "durable ev sd n r v = Some TerminalStatusSeen" for v status rc
    by (rule wp_stay [OF clean that], rule complete_follows [OF assms(1,3-5)], assumption)
      (auto simp: wp_lift follows_fail final)
  have "wp (server_run ev sd spec remote sc n r manifest p su) (?follows None) w"
    unfolding server_run_def Let_def
  proof (rule wp_stay [OF frame_remote [OF remote_setup [OF assms(2)]] assms(6)],
      rule wp_stay [OF frame_remote [OF remote_requests(2) [OF assms(2)]]], assumption,
      rule wp_stay [OF frame_remote [OF remote_stage [OF assms(2)]]], assumption, rule wp_persist [OF assms(1)], assumption, goal_cases)
    case (1 u v b v1 rc v2 v3)
    have "wp (bind_io (heartbeat_is_healthy ev ?host sc n r) (\<lambda>_. bind_io (client_finish_run ev ?host sc n r) (\<lambda>_.
        bind_io (persist_client_run_state ev sd n r ?host sc manifest rc None WaitingForTerminalState) (\<lambda>_.
        bind_io (drive_server_until_terminal ev ?host sc n r) (\<lambda>_.
        bind_io (read_terminal_status ev ?host sc n r) (\<lambda>status.
        bind_io (ser_io ''status serialization'' (ev_ser_status ev status)) (\<lambda>ts.
        bind_io (persist_client_run_state ev sd n r ?host sc manifest rc (Some ts) TerminalStatusSeen) (\<lambda>_.
        bind_io (case p of Some q \<Rightarrow> confirm_and_clean ev q status | None \<Rightarrow> ret_io False) (\<lambda>b.
        bind_io (cleanup_complete_phase ev sd ?host sc n r manifest rc p b) (\<lambda>_. lift_res (ensure_successful_status status)))))))))))
        (?follows (Some UploadCompleteFinishPending)) v3"
      by (rule wp_stay [OF frame_remote [OF remote_healthy [OF assms(2)]] 1(7)], rule finish_follows [OF assms(1,2)], assumption,
          rule report_follows [OF assms(1,2)], assumption, rule seen, assumption) (rule follows_fail)
    from this follows_step [OF run_protocol.uploaded [OF 1(3)]] show ?case by (rule wp_mono)
  next
    case (2 u v b v1 rc v2 e v3)
    with run_protocol.uploaded [OF 2(3)] show ?case by (auto intro: follows_fail)
  qed (auto intro: follows_fail)
  from wpD [OF this assms(7)] show ?thesis by (simp add: follows_def)
qed

end
