(* ===== verification/Client_Resume.thy ===== *)
theory Client_Resume
  imports Client_Sync
begin

text \<open>
  How earlier runs are taken up before a sync starts: every one of them is attempted, whatever happened to
  those before it, nothing of a run that failed is thrown away, and one failure is enough to refuse the sync.
\<close>

section \<open>One earlier run\<close>

text \<open>What may happen to the directory \<open>d\<close> of a run; \<open>bad\<close> tells that it could not be resumed.\<close>

definition same_disk :: "world \<Rightarrow> world \<Rightarrow> bool" where
  "same_disk w w' \<longleftrightarrow> view (nodes w') = view (nodes w) \<and> sources w' = sources w"

text \<open>
  What the state file of the directory holds, unless it is not there, is no file, or one of the two
  operations that look at it fails.
\<close>

definition readable_state :: "world \<Rightarrow> fpath \<Rightarrow> string option" where
  "readable_state w d =
     (case look (nodes w) (d @ [''state.toml'']) of
        Some (FileN c _ _) \<Rightarrow>
          if faults w (tick w) \<noteq> StatFail \<and> error_of (faults w (Suc (tick w))) = None then Some c else None
      | _ \<Rightarrow> None)"

definition settled :: "client_env \<Rightarrow> string \<Rightarrow> fpath \<Rightarrow> world \<Rightarrow> bool \<Rightarrow> world \<Rightarrow> bool" where
  "settled ev sd d w bad w' \<longleftrightarrow>
     (case readable_state w d of
        None \<Rightarrow> \<not> bad \<and> same_disk w w'
      | Some c \<Rightarrow>
          (case judge_run_state ev c of
             StateSkip \<Rightarrow> \<not> bad \<and> same_disk w w'
           | StateCorrupt \<Rightarrow> bad \<and> sources w' = sources w \<and>
               (view (nodes w') = view (nodes w) \<or>
                view (nodes w') = vmove (d @ [''state.toml'']) (d @ [''state.toml.corrupt'']) (view (nodes w)))
           | StateGood s \<Rightarrow> \<exists>x v. drain_one ev sd s (next_tick (next_tick w)) = (x, v) \<and>
               (if bad then x \<noteq> Inr () \<and> w' = v else x = Inr () \<and> (\<exists>y. fs_remove_dir_all d v = (y, w')))))"

lemma prim_sources: "prim_io f w = (r, w') \<Longrightarrow> sources w' = sources w"
  by (auto simp: prim_io_def split: prod.splits)

lemma same_disk_ticks [simp]: "same_disk w (next_tick w)" "same_disk w (next_tick (next_tick w))"
  by (simp_all add: same_disk_def)

lemma fs_read_run: "fs_read p w =
    (case error_of (faults w (tick w)) of
       Some e \<Rightarrow> Inl e
     | None \<Rightarrow> (case look (nodes w) p of None \<Rightarrow> Inl IoNotFound | Some (DirN _) \<Rightarrow> Inl IoOther | Some (FileN c _ _) \<Rightarrow> Inr c),
     next_tick w)"
  by (simp add: fs_read_def prim_io_def next_tick_def split: option.split node.split)

text \<open>What is left of the attempt once the file has been read.\<close>

definition resume_judged :: "client_env \<Rightarrow> string \<Rightarrow> fpath \<Rightarrow> string \<Rightarrow> bool client" where
  "resume_judged ev sd d c =
     (case judge_run_state ev c of
        StateSkip \<Rightarrow> ret_io False
      | StateCorrupt \<Rightarrow> bind_io (quietly (fs_rename (d @ [''state.toml'']) (d @ [''state.toml.corrupt'']))) (\<lambda>_. ret_io True)
      | StateGood s \<Rightarrow> bind_io (attempt_io (drain_one ev sd s)) (\<lambda>r.
          case r of Inr _ \<Rightarrow> bind_io (quietly (fs_remove_dir_all d)) (\<lambda>_. ret_io False)
          | Inl (_ :: server_error) \<Rightarrow> ret_io True))"

lemma resume_entry_judged:
  "\<exists>v. same_disk w v \<and> resume_entry ev sd d w =
     (case readable_state w d of None \<Rightarrow> (Inr False, v) | Some c \<Rightarrow> resume_judged ev sd d c (next_tick (next_tick w)))"
proof -
  let ?p = "d @ [''state.toml'']"
  have run: "resume_entry ev sd d w =
      (if faults w (tick w) \<noteq> StatFail \<and> look (nodes w) ?p \<noteq> None
       then (case fst (fs_read ?p (next_tick w)) of
               Inl _ \<Rightarrow> (Inr False, next_tick (next_tick w))
             | Inr c \<Rightarrow> resume_judged ev sd d c (next_tick (next_tick w)))
       else (Inr False, next_tick w))"
  proof -
    have start: "resume_entry ev sd d w = (\<lambda>ex. if \<not> ex then ret_io False
        else bind_io (attempt_io (fs_read ?p)) (\<lambda>content. case content of Inl _ \<Rightarrow> ret_io False | Inr c \<Rightarrow> resume_judged ev sd d c))
        (faults w (tick w) \<noteq> StatFail \<and> view (nodes w) ?p \<noteq> None) (next_tick w)"
      unfolding resume_entry_def resume_judged_def Let_def by (rule bind_queries(1))
    obtain t where "fs_read ?p (next_tick w) = (t, next_tick (next_tick w))" by (simp add: fs_read_run)
    then show ?thesis unfolding start
      by (auto simp: look_None_view bind_io_def attempt_io_def ret_io_def split: sum.split)
  qed
  show ?thesis
  proof (cases "readable_state w d")
    case (Some c)
    then have "fst (fs_read ?p (next_tick w)) = Inr c" "faults w (tick w) \<noteq> StatFail" "look (nodes w) ?p \<noteq> None"
      by (auto simp: readable_state_def fs_read_run next_tick_def split: option.splits node.splits if_splits)
    with run Some show ?thesis by (intro exI [of _ w]) (simp add: same_disk_def)
  next
    case None
    then have "\<exists>e. fst (fs_read ?p (next_tick w)) = Inl e" if "faults w (tick w) \<noteq> StatFail" "look (nodes w) ?p \<noteq> None"
      using that by (auto simp: readable_state_def fs_read_run next_tick_def split: option.splits node.splits if_splits)
    with run None same_disk_ticks show ?thesis by (auto split: if_splits)
  qed
qed

lemma resume_judged_settled:
  assumes "readable_state w d = Some c" "resume_judged ev sd d c (next_tick (next_tick w)) = (x, w')"
  shows "\<exists>bad. x = Inr bad \<and> settled ev sd d w bad w'"
proof (cases "judge_run_state ev c")
  case StateSkip
  with assms have "x = Inr False" "w' = next_tick (next_tick w)" by (simp_all add: resume_judged_def ret_io_def)
  with StateSkip assms(1) show ?thesis by (intro exI [of _ False]) (simp add: settled_def)
next
  case StateCorrupt
  let ?p = "d @ [''state.toml'']" and ?q = "d @ [''state.toml.corrupt'']"
  obtain y v where r: "fs_rename ?p ?q (next_tick (next_tick w)) = (y, v)" by (metis surj_pair)
  with assms(2) StateCorrupt have "x = Inr True" "w' = v"
    by (auto simp: resume_judged_def bind_io_def ret_io_def quietly_def attempt_io_def split: prod.splits sum.splits)
  moreover from r have "sources v = sources w" unfolding fs_rename_def by (auto dest: prim_sources)
  moreover have "view (nodes v) = view (nodes w) \<or> view (nodes v) = vmove ?p ?q (view (nodes w))"
    using fs_rename_effect [OF r] by (cases y) auto
  ultimately show ?thesis using StateCorrupt assms(1) by (intro exI [of _ True]) (simp add: settled_def)
next
  case (StateGood s)
  obtain y v where r: "drain_one ev sd s (next_tick (next_tick w)) = (y, v)" by (metis surj_pair)
  show ?thesis
  proof (cases y)
    case (Inl e)
    with assms(2) r StateGood have "x = Inr True" "w' = v" by (auto simp: resume_judged_def bind_io_def ret_io_def attempt_io_def)
    with StateGood assms(1) r Inl show ?thesis by (intro exI [of _ True]) (simp add: settled_def)
  next
    case (Inr u)
    obtain z v' where z: "fs_remove_dir_all d v = (z, v')" by (metis surj_pair)
    with assms(2) r StateGood Inr have "x = Inr False" "w' = v'"
      by (auto simp: resume_judged_def bind_io_def ret_io_def quietly_def attempt_io_def split: prod.splits sum.splits)
    with StateGood assms(1) r Inr z show ?thesis by (intro exI [of _ False]) (simp add: settled_def)
  qed
qed

lemma resume_entry_settled:
  assumes "resume_entry ev sd d w = (x, w')"
  shows "\<exists>bad. x = Inr bad \<and> settled ev sd d w bad w'"
proof (cases "readable_state w d")
  case None
  with resume_entry_judged [of w ev sd d] assms show ?thesis by (intro exI [of _ False]) (auto simp: settled_def)
next
  case (Some c)
  with resume_entry_judged [of w ev sd d] assms resume_judged_settled [OF Some] show ?thesis by auto
qed

section \<open>All of them\<close>

lemma resume_entries_settled:
  assumes "resume_entries ev sd dir any names w = (x, w')"
  shows "\<exists>bads ws. length bads = length names \<and> length ws = Suc (length names) \<and> ws ! 0 = w \<and> last ws = w' \<and>
    (\<forall>i < length names. settled ev sd (dir @ [names ! i]) (ws ! i) (bads ! i) (ws ! Suc i)) \<and> x = Inr (any \<or> True \<in> set bads)"
  using assms
proof (induction names arbitrary: any w)
  case Nil
  then show ?case by (intro exI [of _ "[]"] exI [of _ "[w]"]) (simp add: ret_io_def)
next
  case (Cons name names)
  obtain y v where 1: "resume_entry ev sd (dir @ [name]) w = (y, v)" by (metis surj_pair)
  from resume_entry_settled [OF this] obtain bad where bad: "y = Inr bad" "settled ev sd (dir @ [name]) w bad v" by blast
  with 1 Cons.prems have "resume_entries ev sd dir (any \<or> bad) names v = (x, w')" by (simp add: bind_io_def)
  from Cons.IH [OF this] obtain bads ws where ih: "length bads = length names" "length ws = Suc (length names)" "ws ! 0 = v" "last ws = w'"
    "\<And>i. i < length names \<Longrightarrow> settled ev sd (dir @ [names ! i]) (ws ! i) (bads ! i) (ws ! Suc i)" "x = Inr ((any \<or> bad) \<or> True \<in> set bads)"
    by blast
  have "settled ev sd (dir @ [(name # names) ! i]) ((w # ws) ! i) ((bad # bads) ! i) ((w # ws) ! Suc i)" if "i < length (name # names)" for i
    using that bad(2) ih(3,5) by (cases i) auto
  with ih show ?case by (intro exI [of _ "bad # bads"] exI [of _ "w # ws"]) auto
qed

text \<open>
  C8. A run that cannot be resumed stops the next sync and nothing else: when a sync starts, every
  directory of an earlier run is attempted, in order and also after failures. A directory is passed over, and the
  disk left as it is, exactly when its state file is missing, cannot be read or is of another version; a
  corrupt state file is set aside or left, never removed, and counts as a failure; every other run is
  drained, from the disk as the attempts before it left it, loses its directory when that succeeded, and is left
  as its own resumption left it when that failed. If one of them failed, the sync is refused with the disk as
  the last attempt left it.
\<close>

theorem failed_resume_refuses_sync:
  assumes "run_sync_with_run_id ev args r su w0 = (y, w')" "sd = resolve_state_dir ev args"
    and "dir = fpath_of (path_join sd ''runs'')"
    and "resume_pending_cleanups (ev_codecs ev) sd w0 = (Inr (), w)"
    and "fs_is_dir dir w = (Inr True :: (server_error, bool) result, w1)" "fs_read_dir dir w1 = (Inr names, w2)"
  shows "\<exists>bads ws. length bads = length names \<and> length ws = Suc (length names) \<and> ws ! 0 = w2 \<and>
    (\<forall>i < length names. settled ev sd (dir @ [sort names ! i]) (ws ! i) (bads ! i) (ws ! Suc i)) \<and>
    (True \<in> set bads \<longrightarrow> w' = last ws \<and>
      y = Inl (Bail ''failed to resume one or more prior run states; refusing to start new sync''))"
proof -
  obtain x v where e: "resume_entries ev sd dir False (sort names) w2 = (x, v)" by (metis surj_pair)
  from resume_entries_settled [OF this] obtain bads ws where bads: "length bads = length names" "length ws = Suc (length names)"
    "ws ! 0 = w2" "last ws = v" "\<And>i. i < length names \<Longrightarrow> settled ev sd (dir @ [sort names ! i]) (ws ! i) (bads ! i) (ws ! Suc i)"
    "x = Inr (True \<in> set bads)" by auto
  have "resume_runs ev sd w = (Inl (Bail ''failed to resume one or more prior run states; refusing to start new sync''), v)"
    if "True \<in> set bads"
    using assms(5,6) e that unfolding resume_runs_def assms(3) [symmetric] Let_def
    by (simp add: bind_io_def attempt_io_def fail_io_def bads(6))
  with assms(1,4) have "w' = last ws \<and> y = Inl (Bail ''failed to resume one or more prior run states; refusing to start new sync'')"
    if "True \<in> set bads"
    using that by (simp add: run_sync_with_run_id_def sync_prologue_def Let_def bind_io_def bads(4) assms(2))
  with bads show ?thesis by blast
qed

end
