(* ===== verification/Client_Samples.thy ===== *)
theory Client_Samples
  imports Cleanup_Laws Run_Samples
begin

text \<open>
  Concrete instances of the theorems about the client: a state directory \<open>/s\<close> with one cleanup
  state, and one source file.
\<close>

section \<open>A sample client\<close>

definition client_at :: "nat \<Rightarrow> fs \<Rightarrow> source_tree \<Rightarrow> world" where
  "client_at t fs src = (sample_at t fs)\<lparr>sources := src\<rparr>"

definition sample_cleanup :: DurableCleanupState where
  "sample_cleanup = \<lparr>cs_purgery_version = PURGERY_VERSION, cs_nickname = ''n'', cs_operation_id = ''R'',
     cs_entries = [\<lparr>ce_relative_path = ''x'', ce_local_path = ''/a/x'', ce_kind = RegularFile, ce_size = 1,
       ce_mtime_ns = 5, ce_sha256 = Some ''0'', ce_link_target = None, ce_import_confirmed = True, ce_cleaned = False\<rparr>]\<rparr>"

definition sample_client_codecs :: client_codecs where
  "sample_client_codecs = \<lparr>cc_toml = (\<lambda>_. Inr (TTable [(''purgery_version'', TString PURGERY_VERSION)])),
     cc_de_cleanup = (\<lambda>_. Inr sample_cleanup), cc_ser_cleanup = (\<lambda>_. Inr ''e''), cc_sha256 = (\<lambda>_. ''0'')\<rparr>"

abbreviation sample_cleanup_path :: fpath where
  "sample_cleanup_path \<equiv> [''s'', ''cleanup-n-R.toml'']"

definition sample_state_dir :: fs where
  "sample_state_dir = [([''s''], DirN 0), (sample_cleanup_path, FileN ''c'' 0 None)]"

definition sample_sources :: source_tree where
  "sample_sources = [([''a''], SourceDir), ([''a'', ''x''], SourceFile ''a'' 5)]"

lemma client_fields [simp]: "nodes (client_at t fs src) = fs" "sources (client_at t fs src) = src"
  "faults (client_at t fs src) = (\<lambda>_. Pass)" "tick (client_at t fs src) = t"
  by (simp_all add: client_at_def sample_at_def)

lemma client_prim: "prim_io f (client_at t fs src) =
    (case f Pass (int t * 10 ^ 9) fs of (r, fs') \<Rightarrow> (r, client_at (Suc t) fs' src))"
  "src_prim g (client_at t fs src) = (case g Pass src of (r, src') \<Rightarrow> (r, client_at (Suc t) fs src'))"
  by (simp_all add: prim_io_def src_prim_def client_at_def sample_at_def split: prod.splits)

lemma sample_accepted: "require_compatible_toml_version (cc_toml sample_client_codecs) c ctxt = Inr ()"
  using parse_current current_accepted
  by (simp add: require_compatible_toml_version_def probe_purgery_version_from_toml_def sample_client_codecs_def version_field_def)

lemma sample_parse: "parse_cleanup sample_client_codecs c = Inr sample_cleanup"
  unfolding parse_cleanup_def sample_accepted by (simp add: sample_client_codecs_def)

lemmas client_step = bind_io_def attempt_io_def err_io_def ret_io_def fail_io_def lift_res_def ctx_def ser_io_def Let_def

lemma sample_found: "src_find sample_sources whole ''/a/x'' = Inr ([''a'', ''x''], SourceFile ''a'' 5)"
  "src_locate sample_sources whole ''/a/x'' = Inr ([''a'', ''x''], SourceFile ''a'' 5)" "\<not> dir_operand ''/a/x''"
  by (cases whole; code_simp)+

lemma sample_removed: "src_delete [''a'', ''x''] sample_sources = [([''a''], SourceDir)]"
  by code_simp

lemma sample_tmp: "with_ext sample_cleanup_path ''toml.tmp'' = [''s'', ''cleanup-n-R.toml.tmp'']"
  by code_simp

lemma sample_process: "\<exists>t fs. process_cleanup_state_file sample_client_codecs sample_cleanup_path
    (client_at 0 sample_state_dir sample_sources) = (Inr Complete, client_at t fs [([''a''], SourceDir)])"
proof -
  have fields: "ce_local_path (hd (cs_entries sample_cleanup)) = ''/a/x''" "ce_kind (hd (cs_entries sample_cleanup)) = RegularFile"
    "ce_import_confirmed (hd (cs_entries sample_cleanup))" "\<not> ce_cleaned (hd (cs_entries sample_cleanup))"
    "ce_sha256 (hd (cs_entries sample_cleanup)) = Some ''0''" "file_unchanged (hd (cs_entries sample_cleanup)) (SourceFile ''a'' 5)"
    by (simp_all add: sample_cleanup_def file_unchanged_def mtime_nanos_def)
  have codec: "cc_ser_cleanup sample_client_codecs s = Inr ''e''" "cc_sha256 sample_client_codecs c = ''0''" for s c
    by (simp_all add: sample_client_codecs_def)
  have read: "read_cleanup_state sample_client_codecs sample_cleanup_path (client_at 0 sample_state_dir sample_sources) =
      (Inr sample_cleanup, client_at (Suc 0) sample_state_dir sample_sources)"
    by (simp add: read_cleanup_state_def client_step fs_read_def client_prim error_of_Pass sample_parse look_def
        sample_state_dir_def)
  have clean: "try_clean_entry sample_client_codecs (hd (cs_entries sample_cleanup)) (client_at t fs sample_sources) =
      (Inr True, client_at (Suc (Suc (Suc (Suc t)))) fs [([''a''], SourceDir)])" for t fs
    by (simp add: try_clean_entry_def try_clean_file_def compute_sha256_def client_step src_lstat_def src_stat_def src_content_def
        src_remove_file_def src_remove_def src_query_def client_prim error_of_Pass sample_found fields codec bind_res_def sample_removed
        is_ok_def)
  have stored: "\<exists>fs'. write_cleanup_state_atomic sample_client_codecs sample_cleanup_path s (client_at t sample_state_dir src) =
      (Inr (), client_at (Suc (Suc t)) fs' src)" for s t src
    by (simp add: write_cleanup_state_atomic_def sample_tmp client_step codec fs_write_def fs_rename_def client_prim error_of_Pass
       sample_state_dir_def sample_fs) blast
  have len: "length (cs_entries sample_cleanup) = 1" "cs_entries sample_cleanup ! 0 = hd (cs_entries sample_cleanup)"
    "cs_entries (mark_cleaned 0 sample_cleanup) = [(hd (cs_entries sample_cleanup))\<lparr>ce_cleaned := True\<rparr>]"
    by (simp_all add: sample_cleanup_def mark_cleaned_def)
  show ?thesis
    using stored [of "mark_cleaned 0 sample_cleanup" "Suc (Suc (Suc (Suc (Suc 0))))" "[([''a''], SourceDir)]"]
    by (auto simp: process_cleanup_state_file_def client_step read fields len clean) blast
qed

section \<open>Cleanup\<close>

lemma sample_client_facts: "view sample_state_dir sample_cleanup_path = Some (FileN ''c'' 0 None)"
  "fs_wf sample_state_dir" "honest (client_at t fs src)" "cleanup_name ''cleanup-n-R.toml''"
proof -
  show "view sample_state_dir sample_cleanup_path = Some (FileN ''c'' 0 None)"
    by (simp add: view_def look_def sample_state_dir_def)
  show "fs_wf sample_state_dir" by (auto simp: fs_wf_def keys_def sample_state_dir_def look_def is_dir_node_def)
  show "honest (client_at t fs src)" by (simp add: honest_def error_of_Pass)
  show "cleanup_name ''cleanup-n-R.toml''" by code_simp
qed

lemma only_verified_sources_deleted_witness:
  "\<exists>w'. process_cleanup_state_file sample_client_codecs sample_cleanup_path
       (client_at 0 sample_state_dir sample_sources) = (Inr Complete, w') \<and>
     src_node (sources w') [''a'', ''x''] = None \<and> src_node sample_sources [''a'', ''x''] \<noteq> None \<and>
     (\<exists>state \<in> {sample_cleanup}. \<exists>e \<in> set (cs_entries state). ce_import_confirmed e \<and> ce_sha256 e = Some ''0'')"
proof -
  obtain t fs where run: "process_cleanup_state_file sample_client_codecs sample_cleanup_path
    (client_at 0 sample_state_dir sample_sources) = (Inr Complete, client_at t fs [([''a''], SourceDir)])"
    using sample_process by blast
  from only_verified_sources_deleted [OF run, of "[''a'', ''x'']"] run show ?thesis
    by (auto simp: src_node_def sample_sources_def sample_parse sample_cleanup_def)
qed

lemma cleanup_record_true_witness:
  "\<exists>w'. process_cleanup_state_file sample_client_codecs sample_cleanup_path
       (client_at 0 sample_state_dir sample_sources) = (Inr Complete, w') \<and>
     (\<forall>e \<in> set (cs_entries sample_cleanup). gone (sources w') e)"
proof -
  obtain t fs where run: "process_cleanup_state_file sample_client_codecs sample_cleanup_path
    (client_at 0 sample_state_dir sample_sources) = (Inr Complete, client_at t fs [([''a''], SourceDir)])"
    using sample_process by blast
  have "view (nodes (client_at 0 sample_state_dir sample_sources)) sample_cleanup_path = Some (FileN ''c'' 0 None)"
    "fs_wf (nodes (client_at 0 sample_state_dir sample_sources))"
    by (simp_all add: sample_client_facts)
  from cleanup_record_true [OF sample_client_facts(3) this(2) _ sample_client_facts(4) this(1) sample_parse run, of "[''s'']"] run
  show ?thesis by (simp add: sample_cleanup_def)
qed

definition sample_imported :: RunStatus where
  "sample_imported = sample_status\<lparr>rs_entries := [\<lparr>es_kind = RegularFile, es_local_path = ''/a/x'',
     es_relative_path = ''x'', es_status = FsImported, es_final_paths = [], es_transform = None, es_error = None\<rparr>]\<rparr>"

lemma confirmation_exact_witness:
  "\<exists>r w'. confirm_imports_from_status sample_client_codecs sample_cleanup_path sample_imported
       (client_at 0 sample_state_dir sample_sources) = (r, w') \<and>
     (\<forall>q. src_node (sources w') q = src_node sample_sources q) \<and>
     ce_import_confirmed (cs_entries (confirm_from_status sample_imported sample_cleanup) ! 0)"
proof -
  obtain r w' where run: "confirm_imports_from_status sample_client_codecs sample_cleanup_path sample_imported
       (client_at 0 sample_state_dir sample_sources) = (r, w')" by (metis surj_pair)
  have "view (nodes (client_at 0 sample_state_dir sample_sources)) sample_cleanup_path = Some (FileN ''c'' 0 None)"
    "fs_wf (nodes (client_at 0 sample_state_dir sample_sources))"
    by (simp_all add: sample_client_facts)
  from confirmation_exact [OF this(2) _ sample_client_facts(4) this(1) sample_parse run, of "[''s'']"] run
  show ?thesis by (simp add: sample_cleanup_def sample_imported_def Let_def)
qed

end
