(* ===== verification/Client_Laws.thy ===== *)
theory Client_Laws
  imports Client_Run Server_Laws
begin

text \<open>
  The operands of the client and the pause between its heartbeats (theory \<open>Client_Run\<close>).
\<close>

section \<open>Nicknames\<close>

fun no_double_sep :: "string \<Rightarrow> bool" where
  "no_double_sep (a # b # cs) \<longleftrightarrow> \<not> (sep_char a \<and> sep_char b) \<and> no_double_sep (b # cs)"
| "no_double_sep _ \<longleftrightarrow> True"

lemma no_double_sep_snoc: "no_double_sep (s @ [c]) \<longleftrightarrow> no_double_sep s \<and> \<not> (s \<noteq> [] \<and> sep_char (last s) \<and> sep_char c)"
  by (induction s rule: no_double_sep.induct) auto

lemma dedup_seps_ok: "no_double_sep acc \<Longrightarrow> no_double_sep (dedup_seps acc s)"
  by (induction acc s rule: dedup_seps.induct) (auto simp: no_double_sep_snoc)

lemma dedup_seps_set: "set (dedup_seps acc s) \<subseteq> set acc \<union> set s"
  by (induction acc s rule: dedup_seps.induct) (auto split: if_splits)

lemma no_double_sep_suffix: "no_double_sep (a @ b) \<Longrightarrow> no_double_sep b"
proof (induction a)
  case (Cons x a)
  then show ?case by (cases "a @ b") auto
qed simp

lemma no_double_sep_prefix: "no_double_sep (a @ b) \<Longrightarrow> no_double_sep a"
  by (induction a rule: no_double_sep.induct) auto

lemma trim_seps_split: "\<exists>a b. s = a @ trim_seps s @ b"
proof -
  have "s = takeWhile sep_char s @ dropWhile sep_char s" by simp
  moreover obtain b where "dropWhile sep_char s = rev (dropWhile sep_char (rev (dropWhile sep_char s))) @ b"
    by (metis rev_append rev_rev_ident takeWhile_dropWhile_id)
  ultimately show ?thesis unfolding trim_seps_def by metis
qed

lemma trim_seps_ends:
  assumes "trim_seps s \<noteq> []"
  shows "\<not> sep_char (hd (trim_seps s))" "\<not> sep_char (last (trim_seps s))"
proof -
  let ?d = "dropWhile sep_char s"
  have d: "?d \<noteq> []" using assms by (metis dropWhile.simps(1) rev.simps(1) trim_seps_def)
  then have h: "\<not> sep_char (hd ?d)" by (rule hd_dropWhile)
  have r: "dropWhile sep_char (rev ?d) \<noteq> []" using assms by (metis rev.simps(1) trim_seps_def)
  from hd_dropWhile [OF r] show "\<not> sep_char (last (trim_seps s))" by (simp add: trim_seps_def last_rev)
  obtain b where b: "?d = trim_seps s @ b"
    unfolding trim_seps_def by (metis rev_append rev_rev_ident takeWhile_dropWhile_id)
  have "hd ?d = hd (trim_seps s)" by (subst b) (rule hd_append2 [OF assms])
  with h show "\<not> sep_char (hd (trim_seps s))" by simp
qed

definition clean_name :: "string \<Rightarrow> bool" where
  "clean_name s \<longleftrightarrow> s \<noteq> [] \<and> (\<forall>c \<in> set s. is_ascii_alphanumeric c \<or> sep_char c) \<and> no_double_sep s \<and>
     \<not> sep_char (hd s) \<and> \<not> sep_char (last s)"

lemma sanitized_clean: "clean_name (sanitize_nickname raw)"
proof -
  define m where "m = map (\<lambda>ch. if is_ascii_alphanumeric ch \<or> sep_char ch then ch else CHR ''-'') raw"
  define t where "t = trim_seps (dedup_seps [] m)"
  have s: "sanitize_nickname raw = (if t = [] then ''client'' else t)" by (simp add: sanitize_nickname_def t_def m_def Let_def)
  have client: "clean_name ''client''" by code_simp
  obtain a b where ab: "dedup_seps [] m = a @ t @ b" using trim_seps_split [of "dedup_seps [] m"] t_def by auto
  have "no_double_sep (dedup_seps [] m)" by (rule dedup_seps_ok) simp
  then have "no_double_sep t" unfolding ab by (blast dest: no_double_sep_suffix no_double_sep_prefix)
  moreover have "\<forall>c \<in> set t. is_ascii_alphanumeric c \<or> sep_char c"
    using dedup_seps_set [of "[]" m] ab by (fastforce simp: m_def sep_char_def)
  ultimately have "t \<noteq> [] \<Longrightarrow> clean_name t"
    using trim_seps_ends [of "dedup_seps [] m"] by (simp add: clean_name_def t_def)
  with client show ?thesis by (simp only: s split: if_split) blast
qed

lemma clean_name_accepted: "clean_name s \<Longrightarrow> Nickname_new s = Inr (Nickname s)"
  by (auto simp: clean_name_def Nickname_new_Inr_iff nickname_byte_def sep_char_def)

text \<open>
  C40. Without a nickname on the command line there always is one: whatever the user and the host are
  called, the generated name is accepted, begins and ends with a letter or digit, never has two
  separators in a row, and so is a plain name of a directory.
\<close>

theorem auto_nickname_valid:
  assumes "sa_nickname args = None"
  shows "\<exists>n. choose_nickname ev args = Inr n \<and> Nickname_new (nickname_str n) = Inr n \<and> plain_name (nickname_str n) \<and>
    clean_name (nickname_str n)"
proof -
  have client: "clean_name ''client''" by code_simp
  have "\<exists>s. clean_name s \<and> auto_nickname_from u h = Inr (Nickname s)" for u h
    using clean_name_accepted [OF sanitized_clean] clean_name_accepted [OF client] sanitized_clean client
    by (cases u; cases h) (auto simp: auto_nickname_from_def Let_def)
  then obtain s where s: "clean_name s" "choose_nickname ev args = Inr (Nickname s)"
    using assms by (auto simp: choose_nickname_def auto_nickname_def)
  note n = clean_name_accepted [OF s(1)]
  with s Nickname_new_plain [OF n] show ?thesis by auto
qed

section \<open>Destinations\<close>

text \<open>
  The operand is split at its last colon: it is accepted exactly when there is one, with something
  before it and a valid path after it; then host and path are these parts and, put together again, they
  are the operand, in particular what is handed to \<open>rsync\<close>.
\<close>

theorem parse_destination_exact:
  "parse_destination s = Inr d \<longleftrightarrow>
    (\<exists>path. s = rd_host d @ '':'' @ path \<and> rd_host d \<noteq> [] \<and> path \<noteq> [] \<and> CHR '':'' \<notin> set path \<and>
      DestinationPath_new path = Inr (rd_path d))"
proof
  assume p: "parse_destination s = Inr d"
  then obtain i where i: "rfind_char CHR '':'' s = Some i" by (auto simp: parse_destination_def split: option.splits)
  note at = rfind_char_Some [OF i]
  then have "s = take i s @ '':'' @ drop (Suc i) s" using id_take_nth_drop [of i s] by simp
  moreover from p i have "rd_host d = take i s" "take i s \<noteq> []" "drop (Suc i) s \<noteq> []" "DestinationPath_new (drop (Suc i) s) = Inr (rd_path d)"
    by (auto simp: parse_destination_def Let_def bind_res_Inr_iff map_err_Inr_iff split: if_splits)
  ultimately show "\<exists>path. s = rd_host d @ '':'' @ path \<and> rd_host d \<noteq> [] \<and> path \<noteq> [] \<and> CHR '':'' \<notin> set path \<and>
      DestinationPath_new path = Inr (rd_path d)" using at by (intro exI [of _ "drop (Suc i) s"]) simp
next
  assume "\<exists>path. s = rd_host d @ '':'' @ path \<and> rd_host d \<noteq> [] \<and> path \<noteq> [] \<and> CHR '':'' \<notin> set path \<and>
      DestinationPath_new path = Inr (rd_path d)"
  then obtain path where s: "s = rd_host d @ '':'' @ path" "rd_host d \<noteq> []" "path \<noteq> []" "CHR '':'' \<notin> set path"
    "DestinationPath_new path = Inr (rd_path d)" by blast
  obtain i where i: "rfind_char CHR '':'' s = Some i" using rfind_char_None [of "CHR '':''" s] s(1) by fastforce
  note at = rfind_char_Some [OF i]
  have "i = length (rd_host d)"
  proof (rule linorder_cases [of i "length (rd_host d)"])
    assume "i < length (rd_host d)"
    then have "CHR '':'' \<in> set (drop (Suc i) s)" using s(1) by simp
    with at show ?thesis by simp
  next
    assume "length (rd_host d) < i"
    then have "s ! i = path ! (i - Suc (length (rd_host d)))" using s(1) by (simp add: nth_append nth_Cons')
    moreover have "i - Suc (length (rd_host d)) < length path" using at s(1) \<open>_ < i\<close> by auto
    ultimately show ?thesis using at s(4) by (metis nth_mem)
  qed
  with i s show "parse_destination s = Inr d"
    by (simp add: parse_destination_def Let_def bind_res_def)
qed

section \<open>Heartbeats\<close>

text \<open>
  The pause between two heartbeats is at most ten minutes; for an interval whose product with 500
  fits 64 bits it is at least a second and at most half the interval, so that one lost heartbeat does
  not let a lease of that interval pass; with intervals that the server's check accepts, a lease lasts
  four pauses. A larger interval wraps around: there is one that gives no pause at all.
\<close>

theorem heartbeat_pause_bounds:
  "unat (half_interval i) \<le> 600000 \<and>
   (unat i * 500 < 2 ^ 64 \<longrightarrow> 1000 \<le> unat (half_interval i) \<and> (2 \<le> unat i \<longrightarrow> 2 * unat (half_interval i) \<le> 1000 * unat i)) \<and>
   (check_intervals gc = Inr () \<and> heartbeat_interval_secs gc = i \<and> 2 \<le> unat i \<and> unat i * 500 < 2 ^ 64 \<longrightarrow>
      4 * unat (half_interval i) \<le> 1000 * unat (incoming_lease_secs gc)) \<and>
   (\<exists>j. 2 ^ 62 \<le> unat j \<and> half_interval j = 0)"
proof (intro conjI impI)
  have m: "unat (min a b) = min (unat a) (unat b)" "unat (max a b) = max (unat a) (unat b)" for a b :: u64
    by (simp_all add: min_def max_def word_le_nat_alt)
  show "unat (half_interval i) \<le> 600000" by (simp add: half_interval_def m)
  have h: "unat (half_interval i) = min (max (unat i) 2 * 500) 600000" if "unat i * 500 < 2 ^ 64"
  proof -
    have "unat (max i 2 * 500) = max (unat i) 2 * 500" using that by (simp add: unat_word_ariths m)
    then show ?thesis by (simp add: half_interval_def m)
  qed
  show "1000 \<le> unat (half_interval i)" if "unat i * 500 < 2 ^ 64" unfolding h [OF that] by simp
  show two: "2 * unat (half_interval i) \<le> 1000 * unat i" if "unat i * 500 < 2 ^ 64" "2 \<le> unat i"
    unfolding h [OF that(1)] using that(2) by simp
  assume c: "check_intervals gc = Inr () \<and> heartbeat_interval_secs gc = i \<and> 2 \<le> unat i \<and> unat i * 500 < 2 ^ 64"
  then have "i \<le> incoming_lease_secs gc div 2" by (auto simp: check_intervals_def not_less split: if_splits)
  then have "2 * unat i \<le> unat (incoming_lease_secs gc)" by (simp add: word_le_nat_alt unat_div)
  with two c show "4 * unat (half_interval i) \<le> 1000 * unat (incoming_lease_secs gc)" by simp
next
  show "\<exists>j. 2 ^ 62 \<le> unat j \<and> half_interval j = 0"
    by (intro exI [of _ "0x4000000000000000"]) (simp add: half_interval_def max_def min_def)
qed

end
