(* ===== verification/Classify_Laws.thy ===== *)
theory Classify_Laws
  imports Classify Cleanup_Laws Entries Server_Laws "HOL-Library.Multiset"
begin

text \<open>
  What classification captures (theory \<open>Classify\<close>) is what the cleanup later asks for, and what it
  puts into a manifest is what the server accepts.
\<close>

section \<open>Captured identities\<close>

text \<open>The identity of a node found at a path.\<close>

definition identity_of :: "client_codecs \<Rightarrow> string \<Rightarrow> string \<Rightarrow> source \<Rightarrow> CleanupEntry option" where
  "identity_of cc relative path d =
     (case d of
        SourceFile c m \<Rightarrow> Some (file_identity relative path (of_nat (length c)) (mtime_nanos m) (cc_sha256 cc c))
      | SourceLink target \<Rightarrow> Some (link_identity relative path target)
      | SourceDir \<Rightarrow> Some (dir_identity relative path)
      | SourceOther \<Rightarrow> None)"

text \<open>The identity of a path that the walk found.\<close>

definition walked :: "client_codecs \<Rightarrow> source_tree \<Rightarrow> SourceSpec \<Rightarrow> string \<Rightarrow> CleanupEntry option" where
  "walked cc t spec path =
     (case (src_find t False path, path_strip_prefix path (sp_operation_path spec)) of
        (Inr (_, d), Some relative) \<Rightarrow> identity_of cc (sp_source_entry_name spec @ ''/'' @ relative) path d
      | _ \<Rightarrow> None)"

fun paths_of :: "(unit, string) result list \<Rightarrow> string list" where
  "paths_of [] = []"
| "paths_of (Inl _ # ws) = paths_of ws"
| "paths_of (Inr p # ws) = p # paths_of ws"

text \<open>A walk that depends on the tree only.\<close>

definition tree_walk :: "(source_tree \<Rightarrow> string \<Rightarrow> (unit, string) result list) \<Rightarrow> string \<Rightarrow> (unit, string) result list client" where
  "tree_walk W path w = (Inr (W (sources w) path), w)"

definition later :: "world \<Rightarrow> world \<Rightarrow> bool" where
  "later w w' \<longleftrightarrow> sources w' = sources w \<and> faultless w'"

lemma later_refl: "faultless w \<Longrightarrow> later w w"
  by (simp add: later_def)

lemma later_next [simp]: "later w (next_tick v) = later w v"
  by (simp add: later_def)

lemma query_faultless: "faultless w \<Longrightarrow>
  src_query whole f p w = (bind_res (src_find (sources w) whole p) (\<lambda>(q, d). f (sources w) q d), next_tick w)"
  by (simp add: src_query_run error_of_def)

lemma file_whole: "src_find t False p = Inr (q, SourceFile c m) \<Longrightarrow> src_find t True p = Inr (q, SourceFile c m)"
  by (rule src_find_whole) simp_all

lemma sha_faultless: "faultless w \<Longrightarrow> src_find (sources w) False p = Inr (q, SourceFile c m) \<Longrightarrow>
    core_sha256 cc p w = (Inr (cc_sha256 cc c), next_tick w)"
  using file_whole by (fastforce simp: core_sha256_def src_content_def bind_io_def query_faultless ret_io_def)

lemma stat_faultless: "faultless w \<Longrightarrow> src_find (sources w) False p = Inr (q, SourceFile c m) \<Longrightarrow>
    stat_or_zero f p w = (Inr (f (SourceFile c m)), next_tick w)"
  using file_whole
  by (fastforce simp: stat_or_zero_def src_stat_def bind_io_def attempt_io_def query_faultless ret_io_def)

lemma link_faultless: "faultless w \<Longrightarrow> src_find (sources w) False p = Inr (q, SourceLink target) \<Longrightarrow>
    src_read_link p w = (Inr target, next_tick w)"
  by (simp add: src_read_link_def query_faultless)

lemma lstat_faultless: "faultless w \<Longrightarrow> src_lstat p w = (map_sum id snd (src_find (sources w) False p), next_tick w)"
  by (cases "src_find (sources w) False p") (auto simp: src_lstat_def query_faultless)

lemmas io_defs = Let_def bind_io_def attempt_io_def ctx_def err_io_def ret_io_def

definition dir_pair :: "CleanupEntry \<Rightarrow> string \<times> string" where
  "dir_pair e = (ce_relative_path e, ce_local_path e)"

lemma identity_fields [simp]:
  "ce_kind (file_identity r l s m h) = RegularFile" "ce_kind (link_identity r l t) = Symlink" "ce_kind (dir_identity r l) = Directory"
  "ce_local_path (file_identity r l s m h) = l" "ce_local_path (link_identity r l t) = l" "ce_local_path (dir_identity r l) = l"
  "dir_pair (dir_identity r l) = (r, l)"
  by (simp_all add: file_identity_def link_identity_def dir_identity_def dir_pair_def)

lemma map_filter_Cons: "List.map_filter f (x # xs) = (case f x of None \<Rightarrow> List.map_filter f xs | Some y \<Rightarrow> y # List.map_filter f xs)"
  by (simp add: List.map_filter_def split: option.splits)

lemma capture_walk_faultless:
  assumes "faultless w"
  shows "\<exists>w'. capture_walk cc spec ws es ds w =
     (Inr (es @ filter (\<lambda>e. ce_kind e \<noteq> Directory) (List.map_filter (walked cc (sources w) spec) (paths_of ws)),
       ds @ map dir_pair (filter (\<lambda>e. ce_kind e = Directory) (List.map_filter (walked cc (sources w) spec) (paths_of ws)))), w')
     \<and> later w w'"
  using assms
proof (induction ws arbitrary: es ds w)
  case Nil
  then show ?case by (simp add: ret_io_def List.map_filter_def later_def)
next
  case (Cons r ws)
  show ?case
  proof (cases r)
    case (Inl u)
    with Cons show ?thesis by simp
  next
    case (Inr path)
    let ?found = "src_find (sources w) False path" and ?rel = "path_strip_prefix path (sp_operation_path spec)"
    show ?thesis
    proof (cases "walked cc (sources w) spec path")
      case None
      with Cons.IH [of "next_tick w" es ds] Cons.prems Inr show ?thesis
        by (auto simp: io_defs lstat_faultless walked_def identity_of_def map_filter_Cons later_def
          split: sum.splits option.splits source.splits prod.splits)
    next
      case (Some e)
      then obtain q d rel where d: "?found = Inr (q, d)" "?rel = Some rel"
        "identity_of cc (sp_source_entry_name spec @ ''/'' @ rel) path d = Some e"
        by (auto simp: walked_def split: sum.splits option.splits)
      show ?thesis
      proof (cases d)
        case (SourceFile c m)
        with Cons.IH [of "next_tick (next_tick (next_tick (next_tick w)))" "es @ [e]" ds] Cons.prems Inr Some d show ?thesis
          by (auto simp: io_defs lstat_faultless stat_faultless sha_faultless identity_of_def map_filter_Cons len_of_def mtime_of_def
            later_def)
      next
        case (SourceLink target)
        with Cons.IH [of "next_tick (next_tick w)" "es @ [e]" ds] Cons.prems Inr Some d show ?thesis
          by (auto simp: io_defs lstat_faultless link_faultless identity_of_def map_filter_Cons later_def)
      next
        case SourceDir
        with Cons.IH [of "next_tick w" es "ds @ [dir_pair e]"] Cons.prems Inr Some d show ?thesis
          by (auto simp: io_defs lstat_faultless identity_of_def map_filter_Cons later_def)
      next
        case SourceOther
        with d show ?thesis by (simp add: identity_of_def)
      qed
    qed
  qed
qed

lemma restore_dirs:
  "\<forall>e \<in> set es. dir_identity (ce_relative_path e) (ce_local_path e) = e \<Longrightarrow>
    map (\<lambda>(r, l). dir_identity r l) (rev (map dir_pair es)) = rev es"
  by (induction es) (auto simp: dir_pair_def)

lemma capture_faultless:
  assumes "faultless w" "src_find (sources w) False (sp_operation_path spec) = Inr (q, d)" "d \<noteq> SourceOther"
    and "capture_cleanup_identity (tree_walk W) cc spec w = (r, w')"
  shows "\<exists>es top. r = Inr es \<and> sources w' = sources w \<and>
    identity_of cc (sp_source_entry_name spec) (sp_operation_path spec) d = Some top \<and>
    mset es = mset (top # (if d = SourceDir
      then List.map_filter (walked cc (sources w) spec) (paths_of (W (sources w) (sp_operation_path spec))) else [])) \<and>
    sorted (map (\<lambda>e. - int (depth (ce_local_path e))) es)"
proof (cases d)
  case SourceDir
  let ?w1 = "next_tick w" and ?op = "sp_operation_path spec"
  let ?found = "List.map_filter (walked cc (sources w) spec) (paths_of (W (sources w) ?op))"
  obtain v where v: "capture_walk cc spec (W (sources w) ?op) [] [(sp_source_entry_name spec, ?op)] ?w1 =
     (Inr (filter (\<lambda>e. ce_kind e \<noteq> Directory) ?found,
       (sp_source_entry_name spec, ?op) # map dir_pair (filter (\<lambda>e. ce_kind e = Directory) ?found)), v)" "later w v"
    using capture_walk_faultless [of ?w1 cc spec "W (sources w) ?op" "[]" "[(sp_source_entry_name spec, ?op)]"] assms(1)
    by (auto simp: later_def)
  have dirs: "map (\<lambda>(r, l). dir_identity r l) (rev (map dir_pair (filter (\<lambda>e. ce_kind e = Directory) ?found))) =
      rev (filter (\<lambda>e. ce_kind e = Directory) ?found)"
    by (rule restore_dirs)
      (auto simp: List.map_filter_def walked_def identity_of_def dir_identity_def split: sum.splits option.splits source.splits)
  define es where "es = sort_key (\<lambda>e. - int (depth (ce_local_path e)))
    (filter (\<lambda>e. ce_kind e \<noteq> Directory) ?found @ rev (filter (\<lambda>e. ce_kind e = Directory) ?found) @ [dir_identity (sp_source_entry_name spec) ?op])"
  have "r = Inr es \<and> w' = v"
    using assms(1,2,4) v(1) SourceDir
    by (simp add: capture_cleanup_identity_def io_defs lstat_faultless tree_walk_def es_def dirs)
  moreover have "mset es = add_mset (dir_identity (sp_source_entry_name spec) ?op) (mset ?found)"
    by (simp add: es_def)
  ultimately show ?thesis
    using SourceDir v(2) by (auto simp: identity_of_def later_def es_def)
qed (use assms in \<open>auto simp: capture_cleanup_identity_def io_defs lstat_faultless sha_faultless link_faultless
      identity_of_def len_of_def mtime_of_def\<close>)

lemma captured_found:
  assumes "e \<in> set (List.map_filter (walked cc t spec) ps) \<or> identity_of cc n p d = Some e \<and> src_find t False p = Inr (q, d)"
  shows "\<exists>q d r. src_find t False (ce_local_path e) = Inr (q, d) \<and> identity_of cc r (ce_local_path e) d = Some e"
  using assms
  by (auto simp: List.map_filter_def walked_def identity_of_def split: sum.splits option.splits source.splits)

lemma locate_plain: "src_find t False p = Inr (q, d) \<Longrightarrow> d \<noteq> SourceDir \<Longrightarrow> src_locate t False p = Inr (q, d) \<and> \<not> dir_operand p"
  by (cases "dir_operand p") (auto simp: src_find_Inr)

lemma clean_captured:
  assumes "faultless v" "src_find (sources v) False (ce_local_path e) = Inr (q, d)"
    and "identity_of cc r (ce_local_path e) d = Some e" "ce_kind e \<noteq> Directory"
  shows "\<exists>v'. try_clean_entry cc e v = (Inr True, v') \<and> sources v' = src_delete q (sources v)"
proof -
  have unlink: "\<exists>v'. src_remove_file (ce_local_path e) u = (Inr (), v') \<and> sources v' = src_delete q (sources v)"
    if "faultless u" "sources u = sources v" "d \<noteq> SourceDir" for u
    using that locate_plain [OF assms(2)] by (simp add: src_remove_file_def src_remove_def src_prim_def error_of_def)
  show ?thesis
  proof (cases d)
    case (SourceFile c m)
    let ?u = "next_tick (next_tick (next_tick v))"
    obtain v' where "src_remove_file (ce_local_path e) ?u = (Inr (), v')" "sources v' = src_delete q (sources v)"
      using unlink [of ?u] assms(1) SourceFile by auto
    moreover from assms(3) SourceFile
    have e: "file_identity r (ce_local_path e) (of_nat (length c)) (mtime_nanos m) (cc_sha256 cc c) = e"
      by (simp add: identity_of_def)
    have "ce_kind e = RegularFile" "file_unchanged e (SourceFile c m)" "ce_sha256 e = Some (cc_sha256 cc c)"
      using arg_cong [OF e, of ce_kind] arg_cong [OF e, of ce_size] arg_cong [OF e, of ce_mtime_ns] arg_cong [OF e, of ce_sha256]
      by (simp_all add: file_identity_def file_unchanged_def)
    ultimately show ?thesis using assms(1,2) SourceFile file_whole [OF assms(2) [unfolded SourceFile]]
      by (auto simp: try_clean_entry_def try_clean_file_def io_defs lstat_faultless src_stat_def compute_sha256_def src_content_def
        query_faultless)
  next
    case (SourceLink target)
    let ?u = "next_tick (next_tick v)"
    obtain v' where "src_remove_file (ce_local_path e) ?u = (Inr (), v')" "sources v' = src_delete q (sources v)"
      using unlink [of ?u] assms(1) SourceLink by auto
    moreover from assms(3) SourceLink have e: "link_identity r (ce_local_path e) target = e" by (simp add: identity_of_def)
    have "ce_kind e = Symlink" "ce_link_target e = Some target"
      using arg_cong [OF e, of ce_kind] arg_cong [OF e, of ce_link_target] by (simp_all add: link_identity_def)
    ultimately show ?thesis using assms(1,2) SourceLink
      by (auto simp: try_clean_entry_def try_clean_symlink_def io_defs lstat_faultless link_faultless)
  next
    case SourceDir
    with assms(3) have "dir_identity r (ce_local_path e) = e" by (simp add: identity_of_def)
    from arg_cong [OF this, of ce_kind] assms(4) show ?thesis by simp
  qed (use assms in \<open>simp add: identity_of_def\<close>)
qed

section \<open>What the walk yields\<close>

text \<open>
  A tidy tree has plain names, and every node is in a directory. The documented walk of a directory yields, once
  each, every node strictly below it, as the operand joined with the relative path.
\<close>

definition tidy :: "source_tree \<Rightarrow> bool" where
  "tidy t \<longleftrightarrow> (\<forall>p s. src_node t (p @ [s]) \<noteq> None \<longrightarrow> plain_name s \<and> src_node t p = Some SourceDir)"

definition walk_is :: "(unit, string) result list \<Rightarrow> source_tree \<Rightarrow> string \<Rightarrow> fpath \<Rightarrow> fpath list \<Rightarrow> bool" where
  "walk_is ws t path q qs \<longleftrightarrow> distinct qs \<and> set qs = {p. p \<noteq> [] \<and> src_node t (q @ p) \<noteq> None} \<and>
     ws = map (\<lambda>p. Inr (path_join path (rel_path p))) qs"

lemma tidy_above: "tidy t \<Longrightarrow> src_node t (p @ x # xs) \<noteq> None \<Longrightarrow> src_node t p = Some SourceDir"
proof (induction xs rule: rev_induct)
  case Nil
  then show ?case unfolding tidy_def by blast
next
  case (snoc y ys)
  from snoc.prems have "src_node t ((p @ x # ys) @ [y]) \<noteq> None" by simp
  with snoc.prems(1) have "src_node t (p @ x # ys) = Some SourceDir" unfolding tidy_def by blast
  with snoc.IH snoc.prems(1) show ?case by simp
qed

lemma tidy_names: "tidy t \<Longrightarrow> src_node t (q @ p) \<noteq> None \<Longrightarrow> list_all plain_name p"
proof (induction p rule: rev_induct)
  case (snoc s p)
  from snoc.prems have "src_node t ((q @ p) @ [s]) \<noteq> None" by simp
  with snoc.prems(1) have "plain_name s" "src_node t (q @ p) = Some SourceDir" unfolding tidy_def by blast+
  with snoc.IH snoc.prems(1) show ?case by simp
qed simp

text \<open>A path is followed through a directory that its first part leads to.\<close>

lemma follow_through:
  assumes "follow n t whole p cs = Inr q" "whole" "src_node t q = Some SourceDir" "ds \<noteq> []"
  shows "\<exists>m. follow n t final p (cs @ ds) = follow m t final q ds"
  using assms
proof (induction n t whole p cs rule: follow.induct)
  case (5 n t whole p s cs)
  then show ?case by (cases n) (auto split: option.splits source.splits if_splits)
qed auto

lemma follow_below:
  "tidy t \<Longrightarrow> src_node t (q @ p) \<noteq> None \<Longrightarrow> follow m t False q (map Normal p) = Inr (q @ p)"
proof (induction p arbitrary: q)
  case (Cons s p)
  show ?case
  proof (cases p)
    case Nil
    with Cons.prems show ?thesis by (auto split: option.splits source.splits)
  next
    case (Cons s' p')
    with Cons.prems tidy_above [of t "q @ [s]" s' p'] have "src_node t (q @ [s]) = Some SourceDir" by simp
    with Cons.IH [of "q @ [s]"] Cons.prems show ?thesis by simp
  qed
qed simp

lemma rel_path_last: "p \<noteq> [] \<Longrightarrow> list_all plain_name p \<Longrightarrow> \<exists>x. rel_path p = x @ last p \<and> (x = [] \<or> last x = CHR ''/'')"
  by (cases p rule: rev_cases; cases "butlast p = []") (auto simp: rel_path_def join_with_append)

lemma below_not_dir_operand:
  assumes "p \<noteq> []" "list_all plain_name p"
  shows "\<not> dir_operand (path_join path (rel_path p))"
proof -
  from rel_path_last [OF assms] obtain x where x: "rel_path p = x @ last p" "x = [] \<or> last x = CHR ''/''" by blast
  from assms have n: "plain_name (last p)" by (simp add: list_all_iff)
  define y where "y = (if path = [] \<or> last path = CHR ''/'' then path else path @ ''/'')"
  have y: "path_join path (rel_path p) = y @ rel_path p" "y = [] \<or> last y = CHR ''/''"
    using path_absolute_rel_path [OF assms(2)] by (auto simp: path_join_def y_def)
  define z where "z = y @ x"
  have z: "path_join path (rel_path p) = z @ last p" "z = [] \<or> last z = CHR ''/''"
    using x y by (cases "x = []"; simp add: z_def last_append)+
  have "\<not> ends_with ''/'' (z @ last p)"
    using n by (auto simp: ends_with_char plain_name_def) (metis last_in_set)
  moreover have "\<not> ends_with ''/.'' (z @ last p)"
  proof
    assume "ends_with ''/.'' (z @ last p)"
    then obtain y where y: "z @ last p = y @ ''/.''" by (auto simp: ends_with_iff)
    from n have l: "last p \<noteq> []" "CHR ''/'' \<notin> set (last p)" "last p \<noteq> ''.''" by (auto simp: plain_name_def)
    from l(1) obtain u c where u: "last p = u @ [c]" by (cases "last p" rule: rev_cases) auto
    with y have "z @ u = y @ ''/''" "c = CHR ''.''" by (auto simp: append_eq_append_conv2 Cons_eq_append_conv)
    with u l show False by (cases u rule: rev_cases) auto
  qed
  ultimately show ?thesis by (simp add: dir_operand_def z(1))
qed

text \<open>Below a directory, taking the operand away gives the relative path back.\<close>

lemma drop_real_trivial: "trivial_piece x \<Longrightarrow> drop_real k (x # xs) = drop_real k xs"
  by (cases k) simp_all

lemma drop_real_pieces:
  "drop_real (length (filter (\<lambda>p. \<not> trivial_piece p) xs)) (xs @ ys) = dropWhile trivial_piece ys"
  by (induction xs) (auto simp: drop_real_trivial)

lemma before_body_join:
  assumes "path \<noteq> []" "\<not> path_absolute r" "before_body path = (pre, body)"
  shows "\<exists>b xs. before_body (path_join path r) = (pre, b) \<and> split_on CHR ''/'' b = xs @ split_on CHR ''/'' r \<and>
    filter (\<lambda>p. \<not> trivial_piece p) xs = body_pieces body"
proof -
  have dots: "path @ t = ''.'' \<or> prefix ''./'' (path @ t) \<longleftrightarrow> path = ''.'' \<or> prefix ''./'' path"
    if "last path = CHR ''/'' \<or> (\<exists>u. t = CHR ''/'' # u)" for t
    using assms(1) that by (cases path; cases "tl path") (auto simp: prefix_def)
  have root: "path_absolute (path @ t) = path_absolute path" for t
    using assms(1) by (cases path) auto
  have before: "before_body (path @ t) = (pre, body @ t)" if "last path = CHR ''/'' \<or> (\<exists>u. t = CHR ''/'' # u)" for t
    using assms(1,3) dots [OF that] root [of t] by (auto simp: before_body_def split: if_splits)
  show ?thesis
  proof (cases "last path = CHR ''/''")
    case False
    then have "path_join path r = path @ CHR ''/'' # r" using assms(1,2) by (simp add: path_join_def)
    then show ?thesis using before [of "CHR ''/'' # r"] by (auto simp: split_on_append_sep body_pieces_def)
  next
    case True
    then have j: "path_join path r = path @ r" using assms(2) by (simp add: path_join_def)
    have "body = [] \<or> last body = CHR ''/''"
      using True assms(1,3) by (cases path) (auto simp: before_body_def split: if_splits)
    then consider "body = []" | b where "body = b @ ''/''" by (metis append_butlast_last_id)
    then show ?thesis
    proof cases
      case 1
      with j before [of r] True show ?thesis
        by (intro exI [of _ r] exI [of _ "[]"]) (simp add: body_pieces_def trivial_piece_def)
    next
      case 2
      with j before [of r] True show ?thesis
        by (intro exI [of _ "body @ r"] exI [of _ "split_on CHR ''/'' b"])
          (simp add: split_on_append_sep body_pieces_append_slash body_pieces_def [of b])
    qed
  qed
qed

lemma components_nonempty: "s \<noteq> [] \<Longrightarrow> components s \<noteq> []"
proof
  assume "s \<noteq> []" "components s = []"
  then have n: "\<not> path_absolute s" "s \<noteq> ''.''" "\<not> prefix ''./'' s" "body_pieces s = []"
    by (auto simp: components_body split: if_splits)
  then have "trivial_piece (hd (split_on CHR ''/'' s))"
    by (cases "split_on CHR ''/'' s") (auto simp: body_pieces_def split: if_splits)
  then have "takeWhile (\<lambda>c. c \<noteq> CHR ''/'') s = [] \<or> takeWhile (\<lambda>c. c \<noteq> CHR ''/'') s = ''.''"
    by (simp add: hd_split_on trivial_piece_def)
  with n(1-3) \<open>s \<noteq> []\<close> show False by (cases s; cases "tl s") (auto split: if_splits)
qed

lemma strip_joined:
  assumes "path \<noteq> []" "p \<noteq> []" "list_all plain_name p"
  shows "path_strip_prefix (path_join path (rel_path p)) path = Some (rel_path p)"
proof -
  obtain pre body where b: "before_body path = (pre, body)" by (metis surj_pair)
  have r: "\<not> path_absolute (rel_path p)" "split_on CHR ''/'' (rel_path p) = p" "body_pieces (rel_path p) = p"
    using assms path_absolute_rel_path [of p] by (simp_all add: rel_path_def split_on_plain body_pieces_plain)
  from before_body_join [OF assms(1) r(1) b] obtain b' xs where j: "before_body (path_join path (rel_path p)) = (pre, b')"
    "split_on CHR ''/'' b' = xs @ p" "filter (\<lambda>p. \<not> trivial_piece p) xs = body_pieces body" unfolding r(2) by blast
  have pre: "pre = [] \<or> pre = ''/'' \<or> pre = ''.''" using b by (auto simp: before_body_def split: if_splits)
  have k: "length (components path) = (if pre = [] then 0 else 1) + length (filter (\<lambda>p. \<not> trivial_piece p) xs)"
    using pre by (auto simp: components_def b j(3))
  have starts: "path_starts_with (path_join path (rel_path p)) path"
    using components_join [OF assms(1) r(1)] by (simp add: path_starts_with_def)
  have "drop_real (if pre = [] then length (components path) else length (components path) - 1) (xs @ p) = p"
    using drop_real_pieces [of xs p] dropWhile_trivial_plain [OF assms(3)] by (simp add: k)
  then show ?thesis
    using starts components_nonempty [OF assms(1)] assms(3)
    by (simp add: path_strip_prefix_def j(1,2) Let_def trim_pieces_plain) (simp add: rel_path_def)
qed

text \<open>What a tidy tree has below a directory is found under the joined path, and nothing else.\<close>

lemma found_below:
  assumes "tidy t" "src_find t False path = Inr (q, SourceDir)" "path \<noteq> []" "p \<noteq> []" "src_node t (q @ p) = Some d"
  shows "src_find t False (path_join path (rel_path p)) = Inr (q @ p, d)"
proof -
  have plain: "list_all plain_name p" using tidy_names [OF assms(1), of q p] assms(5) by simp
  have "src_find t True path = Inr (q, SourceDir)" using assms(2) by (rule src_find_whole) simp
  then have q: "follow MAX_LINKS t True [] (components path) = Inr q" "src_node t q = Some SourceDir"
    by (auto simp: src_find_Inr src_locate_Inr src_resolve_def)
  have "components (path_join path (rel_path p)) = components path @ map Normal p"
    using components_join [OF assms(3) path_absolute_rel_path [OF plain]] plain
    by (simp add: rel_path_def body_pieces_plain map_piece_comp_plain)
  moreover obtain m where "follow MAX_LINKS t False [] (components path @ map Normal p) = follow m t False q (map Normal p)"
    using follow_through [OF q(1) TrueI q(2), of "map Normal p" False] assms(4) by auto
  ultimately have "src_resolve t False (path_join path (rel_path p)) = Inr (q @ p)"
    using follow_below [OF assms(1), of q p m] assms(5) by (simp add: src_resolve_def)
  with assms(5) below_not_dir_operand [OF assms(4) plain] show ?thesis by (simp add: src_find_Inr src_locate_Inr)
qed

text \<open>The identities of the nodes at the given places below a directory.\<close>

definition identities_below :: "client_codecs \<Rightarrow> source_tree \<Rightarrow> SourceSpec \<Rightarrow> fpath \<Rightarrow> fpath list \<Rightarrow> CleanupEntry list" where
  "identities_below cc t spec q qs =
     List.map_filter (\<lambda>p. Option.bind (src_node t (q @ p))
       (identity_of cc (sp_source_entry_name spec @ ''/'' @ rel_path p) (path_join (sp_operation_path spec) (rel_path p)))) qs"

lemma walked_below:
  assumes "tidy t" "src_find t False (sp_operation_path spec) = Inr (q, SourceDir)" "sp_operation_path spec \<noteq> []"
    and "walk_is ws t (sp_operation_path spec) q qs"
  shows "List.map_filter (walked cc t spec) (paths_of ws) =
    identities_below cc t spec q qs"
proof -
  have paths: "paths_of (map (\<lambda>p. Inr (f p)) qs) = map f qs" for f :: "fpath \<Rightarrow> string" and qs by (induction qs) simp_all
  have one: "walked cc t spec (path_join (sp_operation_path spec) (rel_path p)) = Option.bind (src_node t (q @ p))
      (identity_of cc (sp_source_entry_name spec @ ''/'' @ rel_path p) (path_join (sp_operation_path spec) (rel_path p)))"
    if p: "p \<in> set qs" for p
  proof -
    from assms(4) p obtain d where d: "p \<noteq> []" "src_node t (q @ p) = Some d" by (auto simp: walk_is_def)
    with tidy_names [OF assms(1), of q p] have "list_all plain_name p" by simp
    from found_below [OF assms(1-3) d] strip_joined [OF assms(3) d(1) this] d(2) show ?thesis by (simp add: walked_def)
  qed
  have "List.map_filter (walked cc t spec) (map (\<lambda>p. path_join (sp_operation_path spec) (rel_path p)) ps) =
    List.map_filter (\<lambda>p. Option.bind (src_node t (q @ p))
      (identity_of cc (sp_source_entry_name spec @ ''/'' @ rel_path p) (path_join (sp_operation_path spec) (rel_path p)))) ps"
    if "set ps \<subseteq> set qs" for ps
    using that by (induction ps) (simp_all add: map_filter_Cons map_filter_simps one split: option.split)
  with assms(4) show ?thesis by (simp add: walk_is_def paths identities_below_def)
qed

section \<open>The captured identities\<close>

text \<open>
  C30. Without faults, the captured identities are exactly those of the source and of what the walk yields below it:
  one entry per file, link and directory, with the length, modification time and digest, or the target, that the
  tree has, and the entries come deepest first, so that a directory comes after what it contains. Where the walk yields
  every node below the source and the tree is tidy, they are the identities of exactly those nodes (a walk that meets an
  error skips what it cannot read, and such a node has no identity). They are what the cleanup asks for: it removes
  each file and link with such an identity from an unchanged tree, and nothing else. Nothing is said here of the
  removal of directories, which need to be empty first.
\<close>

theorem captured_identity_exact:
  assumes "faultless w" "src_find (sources w) False (sp_operation_path spec) = Inr (q, d)" "d \<noteq> SourceOther"
    and "capture_cleanup_identity (tree_walk W) cc spec w = (r, w')"
  shows "\<exists>es top. r = Inr es \<and> sources w' = sources w \<and>
    identity_of cc (sp_source_entry_name spec) (sp_operation_path spec) d = Some top \<and>
    mset es = mset (top # (if d = SourceDir
      then List.map_filter (walked cc (sources w) spec) (paths_of (W (sources w) (sp_operation_path spec))) else [])) \<and>
    (\<forall>qs. tidy (sources w) \<and> sp_operation_path spec \<noteq> [] \<and> d = SourceDir \<and>
        walk_is (W (sources w) (sp_operation_path spec)) (sources w) (sp_operation_path spec) q qs \<longrightarrow>
      mset es = mset (top # identities_below cc (sources w) spec q qs)) \<and>
    sorted (map (\<lambda>e. - int (depth (ce_local_path e))) es) \<and>
    (\<forall>e \<in> set es. ce_kind e = Directory \<or> (\<forall>v. faultless v \<and> sources v = sources w \<longrightarrow>
      (\<exists>p v'. src_resolve (sources v) False (ce_local_path e) = Inr p \<and> try_clean_entry cc e v = (Inr True, v') \<and>
        sources v' = src_delete p (sources v))))"
proof -
  from capture_faultless [OF assms] obtain es top where es: "r = Inr es" "sources w' = sources w"
    "identity_of cc (sp_source_entry_name spec) (sp_operation_path spec) d = Some top"
    "mset es = mset (top # (if d = SourceDir
      then List.map_filter (walked cc (sources w) spec) (paths_of (W (sources w) (sp_operation_path spec))) else []))"
    "sorted (map (\<lambda>e. - int (depth (ce_local_path e))) es)" by blast
  have "\<exists>p v'. src_resolve (sources v) False (ce_local_path e) = Inr p \<and> try_clean_entry cc e v = (Inr True, v') \<and>
        sources v' = src_delete p (sources v)"
    if e: "e \<in> set es" "ce_kind e \<noteq> Directory" and v: "faultless v" "sources v = sources w" for e v
  proof -
    from e(1) have "e \<in> set (top # (if d = SourceDir
      then List.map_filter (walked cc (sources w) spec) (paths_of (W (sources w) (sp_operation_path spec))) else []))"
      using mset_eq_setD [OF es(4)] by blast
    then have "e \<in> set (List.map_filter (walked cc (sources w) spec) (paths_of (W (sources w) (sp_operation_path spec)))) \<or>
      identity_of cc (sp_source_entry_name spec) (sp_operation_path spec) d = Some e \<and>
      src_find (sources w) False (sp_operation_path spec) = Inr (q, d)"
      using es(3) assms(2) by (cases "d = SourceDir") auto
    from captured_found [OF this] obtain q d r where
      f: "src_find (sources w) False (ce_local_path e) = Inr (q, d)" "identity_of cc r (ce_local_path e) d = Some e"
      by blast
    have "d \<noteq> SourceDir"
    proof
      assume "d = SourceDir"
      with f(2) have "dir_identity r (ce_local_path e) = e" by (simp add: identity_of_def)
      from arg_cong [OF this, of ce_kind] e(2) show False by simp
    qed
    from locate_plain [OF f(1) this] have "src_resolve (sources v) False (ce_local_path e) = Inr q"
      using v by (auto simp: src_locate_Inr)
    with clean_captured [OF v(1) f(1) [folded v(2)] f(2) e(2)] show ?thesis by blast
  qed
  moreover have "mset es = mset (top # identities_below cc (sources w) spec q qs)"
    if "tidy (sources w)" "sp_operation_path spec \<noteq> []" "d = SourceDir"
      "walk_is (W (sources w) (sp_operation_path spec)) (sources w) (sp_operation_path spec) q qs" for qs
    using es(4) walked_below [OF that(1) assms(2) [unfolded that(3)] that(2,4)] that(3) by simp
  ultimately show ?thesis using es by (intro exI [of _ es] exI [of _ top] conjI) blast+
qed

section \<open>Manifests\<close>

lemma path_file_name_plain:
  assumes "path_file_name s = Some name"
  shows "plain_name name"
proof -
  obtain cs where c: "components s = cs @ [Normal name]"
    using assms by (cases "components s" rule: rev_cases) (auto simp: path_file_name_def split: comp.splits)
  obtain pre body where b: "before_body s = (pre, body)" by (metis surj_pair)
  from c have "Normal name \<in> set (components s)" by simp
  with b obtain p where p: "p \<in> set (body_pieces body)" "piece_comp p = Normal name"
    by (auto simp: components_def split: if_splits)
  then have "name = p" "p \<noteq> ''..''" by (auto simp: piece_comp_def split: if_splits)
  with p(1) body_piece_facts [of p body] show ?thesis by (auto simp: plain_name_def)
qed

lemma normalized_name: "plain_name name \<Longrightarrow> NormalizedRelativePath_new name = Inr (NormalizedRelativePath name)"
  using normalize_relative_rel_path [of "[name]"] by (simp add: NormalizedRelativePath_new_def rel_path_def)

lemma staged_name: "plain_name name \<Longrightarrow>
    NormalizedRelativePath_new (path_join ''files'' name) = Inr (NormalizedRelativePath (''files/'' @ name))"
  using normalize_relative_rel_path [of "[''files'', name]"]
  by (cases name) (auto simp: NormalizedRelativePath_new_def rel_path_def path_join_def path_absolute_def plain_name_def)

lemma normalize_operand_named:
  assumes "normalize_operand cwd s = Inr (p, name)"
  shows "path_file_name p = Some name"
  using assms by (auto simp: normalize_operand_def bind_res_Inr_iff Let_def split: if_split_asm option.split_asm)

lemma file_name_Nil [simp]: "path_file_name [] = None"
  by code_simp

text \<open>What the two operations found, had they been successful.\<close>

lemma bind_query_ok: "bind_io (ctx msg (src_query whole f p)) K w = (Inr a, w') \<Longrightarrow>
    \<exists>q d x. src_find (sources w) whole p = Inr (q, d) \<and> f (sources w) q d = Inr x \<and> K x (next_tick w) = (Inr a, w')"
  by (auto simp: bind_io_def ctx_def err_io_def src_query_run map_err_Inr_iff bind_res_Inr_iff
      split: option.splits sum.splits)

lemma normalize_source_ok:
  assumes "normalize_source cwd s w = (Inr spec, w')"
  shows "\<exists>q d. normalize_operand cwd s = Inr (sp_operation_path spec, sp_source_entry_name spec) \<and>
    src_find (sources w) False (sp_operation_path spec) = Inr (q, d) \<and> sources w' = sources w \<and>
    (case d of SourceDir \<Rightarrow> sp_kind spec = SourceDirectory | SourceFile _ _ \<Rightarrow> sp_kind spec = SourceRegularFile
       | SourceLink _ \<Rightarrow> sp_kind spec = SourceSymlink | SourceOther \<Rightarrow> False)"
proof -
  obtain op name where n: "normalize_operand cwd s = Inr (op, name)"
    using assms by (cases "normalize_operand cwd s")
      (auto simp: normalize_source_def bind_io_def lift_res_def fail_io_def split: if_splits)
  with assms have "bind_io (ctx ''source path does not exist'' (src_lstat op)) (\<lambda>file_type.
        bind_io
          (case file_type of
             SourceDir \<Rightarrow> ret_io SourceDirectory
           | SourceFile _ _ \<Rightarrow> ret_io SourceRegularFile
           | SourceLink _ \<Rightarrow> ret_io SourceSymlink
           | SourceOther \<Rightarrow> fail_io (Bail ''unsupported source kind'')) (\<lambda>kind.
          ret_io \<lparr>sp_raw_input = s, sp_operation_path = op, sp_source_entry_name = name, sp_kind = kind\<rparr>)) w = (Inr spec, w')"
    by (auto simp: normalize_source_def bind_io_def [of "lift_res _"] lift_res_def fail_io_def split: if_splits)
  from bind_query_ok [OF this [unfolded src_lstat_def]] obtain q d where f: "src_find (sources w) False op = Inr (q, d)"
    "bind_io (case d of
             SourceDir \<Rightarrow> ret_io SourceDirectory
           | SourceFile _ _ \<Rightarrow> ret_io SourceRegularFile
           | SourceLink _ \<Rightarrow> ret_io SourceSymlink
           | SourceOther \<Rightarrow> fail_io (Bail ''unsupported source kind'')) (\<lambda>kind.
          ret_io \<lparr>sp_raw_input = s, sp_operation_path = op, sp_source_entry_name = name, sp_kind = kind\<rparr>) (next_tick w) = (Inr spec, w')"
    by auto
  with n show ?thesis by (intro exI [of _ q] exI [of _ d]) (cases d, auto simp: bind_io_def ret_io_def fail_io_def)
qed

lemma lift_Inr [simp]: "bind_io (lift_res (Inr a)) K = K a"
  by (simp add: fun_eq_iff bind_io_def lift_res_def)

lemma lift_Inl [simp]: "bind_io (lift_res (Inl e)) K w = (Inl e, w)"
  by (simp add: bind_io_def lift_res_def)

text \<open>The entry of a manifest for a node.\<close>

definition manifest_entry :: "client_codecs \<Rightarrow> string \<Rightarrow> string \<Rightarrow> string \<Rightarrow> source \<Rightarrow> ManifestEntry" where
  "manifest_entry cc path name transform d =
     \<lparr>me_local_path = ClientLocalPath path, me_staged_path = NormalizedRelativePath (''files/'' @ name),
      me_relative_path = NormalizedRelativePath name,
      me_kind = (case d of SourceFile _ _ \<Rightarrow> RegularFile | SourceLink _ \<Rightarrow> Symlink | _ \<Rightarrow> Directory),
      me_size = len_of d, me_mtime_ns = mtime_of d,
      me_sha256 = (case d of SourceFile c _ \<Rightarrow> Some (cc_sha256 cc c) | _ \<Rightarrow> None),
      me_link_target = (case d of SourceLink target \<Rightarrow> Some target | _ \<Rightarrow> None), me_transform = Some transform\<rparr>"

lemma build_manifest_ok:
  assumes "plain_name (sp_source_entry_name spec)" "sp_operation_path spec \<noteq> []"
    and "src_find (sources w) False (sp_operation_path spec) = Inr (q, d)"
    and "entry_kind (sp_kind spec) = (case d of SourceFile _ _ \<Rightarrow> RegularFile | SourceLink _ \<Rightarrow> Symlink | _ \<Rightarrow> Directory)"
    and "build_manifest cc spec run_id nickname (Some t) w = (Inr m, w')"
  shows "m = \<lparr>mf_purgery_version = PURGERY_VERSION, mf_run_id = run_id, mf_nickname = nickname,
      mf_entries = [manifest_entry cc (sp_operation_path spec) (sp_source_entry_name spec) t d]\<rparr>"
proof -
  let ?op = "sp_operation_path spec"
  have loc: "ClientLocalPath_new ?op = Inr (ClientLocalPath ?op)" using assms(2) by (simp add: ClientLocalPath_new_def)
  define K where "K p metadata = (\<lambda>(mtime_ns, sha256). bind_io
        (if is_link metadata
         then bind_io (ctx ''failed to read symlink'' (src_read_link p)) (\<lambda>target. ret_io (Some target))
         else ret_io None) (\<lambda>link_target.
        ret_io
          \<lparr>mf_purgery_version = PURGERY_VERSION, mf_run_id = run_id, mf_nickname = nickname,
           mf_entries =
             [\<lparr>me_local_path = ClientLocalPath ?op, me_staged_path = NormalizedRelativePath (''files/'' @ sp_source_entry_name spec),
               me_relative_path = NormalizedRelativePath (sp_source_entry_name spec),
               me_kind = entry_kind (sp_kind spec), me_size = (if is_regular metadata then len_of metadata else 0),
               me_mtime_ns = mtime_ns, me_sha256 = sha256, me_link_target = link_target,
               me_transform = Some t\<rparr>]\<rparr> :: Manifest client))" for p metadata
  from assms(5) have "bind_io (ctx ''failed to read metadata'' (src_lstat ?op)) (\<lambda>metadata.
      bind_io
        (if is_regular metadata
         then bind_io (ctx ''SHA-256 failed'' (core_sha256 cc ?op)) (\<lambda>sha. ret_io (mtime_of metadata, Some sha))
         else ret_io (0, None)) (K ?op metadata)) w = (Inr m, w')"
    by (simp add: build_manifest_def Let_def normalized_name [OF assms(1)] staged_name [OF assms(1)] loc K_def)
  from bind_query_ok [OF this [unfolded src_lstat_def]] assms(3)
  have K: "bind_io
        (if is_regular d
         then bind_io (ctx ''SHA-256 failed'' (core_sha256 cc ?op)) (\<lambda>sha. ret_io (mtime_of d, Some sha))
         else ret_io (0, None)) (K ?op d) (next_tick w) = (Inr m, w')" by auto
  show ?thesis
  proof (cases d)
    case (SourceFile c mt)
    from file_whole [OF assms(3) [unfolded SourceFile]] K show ?thesis
      by (auto simp: SourceFile is_regular_def core_sha256_def bind_io_def ctx_def err_io_def ret_io_def K_def is_link_def
        src_content_def src_query_run manifest_entry_def assms(4) split: option.splits)
  next
    case (SourceLink target)
    from K assms(3) show ?thesis
      by (auto simp: SourceLink is_regular_def bind_io_def ctx_def err_io_def ret_io_def K_def is_link_def
        src_read_link_def src_query_run manifest_entry_def assms(4) len_of_def mtime_of_def split: option.splits)
  qed (use K in \<open>auto simp: is_regular_def bind_io_def ret_io_def K_def is_link_def manifest_entry_def assms(4) len_of_def mtime_of_def\<close>)
qed

text \<open>
  A copy of a node on the server's side: its metadata, digest and target are those of the node, whenever they
  are asked for.
\<close>

definition reads_as :: "('e, 'a) io \<Rightarrow> 'a \<Rightarrow> bool" where
  "reads_as m a \<longleftrightarrow> (\<forall>u. \<exists>u'. m u = (Inr a, u'))"

definition holds_copy :: "payload_ops \<Rightarrow> client_codecs \<Rightarrow> fpath \<Rightarrow> source \<Rightarrow> bool" where
  "holds_copy pl cc p d \<longleftrightarrow>
     (case d of
        SourceFile c _ \<Rightarrow> reads_as (pl_lstat pl p) KFile \<and> reads_as (pl_len pl p) (of_nat (length c)) \<and> reads_as (pl_sha256 pl p) (cc_sha256 cc c)
      | SourceLink target \<Rightarrow> reads_as (pl_lstat pl p) KLink \<and> reads_as (pl_read_link pl p) target
      | SourceDir \<Rightarrow> reads_as (pl_lstat pl p) KDir
      | SourceOther \<Rightarrow> False)"

lemma copy_passes:
  assumes "holds_copy pl cc (fpath_of path) d"
  shows "reads_as (check_staged pl (manifest_entry cc local name t d) path :: (string, unit) io) ()"
  unfolding reads_as_def
proof
  fix u
  note io = check_staged_def check_identity_def verify_staged_at_def verify_staged_def fail_with_def kind_matches_def bind_io_def err_io_def
    attempt_io_def ret_io_def manifest_entry_def len_of_def is_ok_def
  from assms show "\<exists>u'. check_staged pl (manifest_entry cc local name t d) path u = (Inr (), u')"
  proof (cases d)
    case (SourceFile c m)
    with assms have ok: "reads_as (pl_lstat pl (fpath_of path)) KFile" "reads_as (pl_len pl (fpath_of path)) (of_nat (length c))"
      "reads_as (pl_sha256 pl (fpath_of path)) (cc_sha256 cc c)" by (simp_all add: holds_copy_def)
    from ok(1) obtain u1 where 1: "pl_lstat pl (fpath_of path) u = (Inr KFile, u1)" unfolding reads_as_def by blast
    from ok(2) obtain u2 where 2: "pl_len pl (fpath_of path) u1 = (Inr (of_nat (length c)), u2)" unfolding reads_as_def by blast
    from ok(3) obtain u3 where 3: "pl_sha256 pl (fpath_of path) u2 = (Inr (cc_sha256 cc c), u3)" unfolding reads_as_def by blast
    show ?thesis by (simp add: io SourceFile 1 2 3)
  next
    case (SourceLink target)
    with assms have ok: "reads_as (pl_lstat pl (fpath_of path)) KLink" "reads_as (pl_read_link pl (fpath_of path)) target"
      by (simp_all add: holds_copy_def)
    from ok(1) obtain u1 where 1: "pl_lstat pl (fpath_of path) u = (Inr KLink, u1)" unfolding reads_as_def by blast
    from ok(2) obtain u2 where 2: "pl_read_link pl (fpath_of path) u1 = (Inr target, u2)" unfolding reads_as_def by blast
    show ?thesis by (simp add: io SourceLink 1 2)
  next
    case SourceDir
    with assms have "reads_as (pl_lstat pl (fpath_of path)) KDir" by (simp add: holds_copy_def)
    then obtain u1 where 1: "pl_lstat pl (fpath_of path) u = (Inr KDir, u1)" unfolding reads_as_def by blast
    show ?thesis by (simp add: io SourceDir 1)
  next
    case SourceOther
    with assms show ?thesis by (simp add: holds_copy_def)
  qed
qed

text \<open>A text whose version field can be seen by the gates before it is decoded.\<close>

definition shows_version :: "toml_parser \<Rightarrow> string \<Rightarrow> string \<Rightarrow> bool" where
  "shows_version toml text version \<longleftrightarrow> (\<exists>v. toml text = Inr v \<and> version_field v = Some version)"

lemma current_shown:
  "shows_version toml text PURGERY_VERSION \<Longrightarrow> require_compatible_toml_version toml text what = Inr () \<and> check_toml_version toml text = TomlCompatible"
  unfolding check_toml_version_compatible using current_accepted parse_current
  by (auto simp: shows_version_def require_compatible_toml_version_def probe_purgery_version_from_toml_def require_compatible_iff)

text \<open>
  C31. The manifest that the client builds for a classified source passes every check that the server makes of a manifest
  and of the staged copy. Its text passes the version gates of \<open>prepare-run\<close> and of the claim, and where it decodes to what was
  written it is read with no error. Its nickname and run are those of the directory. The plan is valid exactly when the
  server has a valid transform of that name. It has one entry, under the staged path that the server expects; and a copy of the
  source's own node, a file, a link or a directory, passes the check of the staged entry. The later steps of
  processing, the plan of the destination and the transform, can still fail.
\<close>

theorem client_manifest_accepted:
  assumes "normalize_source cwd s w = (Inr spec, w1)" "sources v = sources w1"
    and "build_manifest cc spec run_id nickname (Some t) v = (Inr m, v')"
    and "rc_nickname run_config = nickname" "rc_delete_after_import run_config"
  shows "(\<forall>toml text what. shows_version toml text (mf_purgery_version m) \<longrightarrow>
      require_compatible_toml_version toml text what = Inr () \<and> check_toml_version toml text = TomlCompatible) \<and>
    (\<forall>de text. de text = Inr m \<longrightarrow> manifest_from_toml de text = Inr m) \<and>
    validate_envelope nickname run_id run_config m = Inr () \<and>
    (is_ok (validate_transform_run config m run_config) \<longleftrightarrow>
      (\<exists>def. map_of (sc_transforms config) t = Some def \<and> is_ok (validate_transform_definition def))) \<and>
    (\<exists>e q d. mf_entries m = [e] \<and> me_transform e = Some t \<and> expected_staged e = Some (me_staged_path e) \<and>
      src_find (sources w) False (sp_operation_path spec) = Inr (q, d) \<and>
      (\<forall>pl path. holds_copy pl cc (fpath_of path) d \<longrightarrow> reads_as (check_staged pl e path) ()))"
proof -
  from normalize_source_ok [OF assms(1)] obtain q d where n:
    "normalize_operand cwd s = Inr (sp_operation_path spec, sp_source_entry_name spec)"
    "src_find (sources w) False (sp_operation_path spec) = Inr (q, d)" "sources w1 = sources w"
    "case d of SourceDir \<Rightarrow> sp_kind spec = SourceDirectory | SourceFile _ _ \<Rightarrow> sp_kind spec = SourceRegularFile
       | SourceLink _ \<Rightarrow> sp_kind spec = SourceSymlink | SourceOther \<Rightarrow> False" by blast
  have plain: "plain_name (sp_source_entry_name spec)" using normalize_operand_named [OF n(1)] path_file_name_plain by blast
  have op: "sp_operation_path spec \<noteq> []"
    using normalize_operand_named [OF n(1)] by auto
  have kind: "entry_kind (sp_kind spec) = (case d of SourceFile _ _ \<Rightarrow> RegularFile | SourceLink _ \<Rightarrow> Symlink | _ \<Rightarrow> Directory)"
    using n(4) by (cases d) (simp_all add: entry_kind_def)
  let ?e = "manifest_entry cc (sp_operation_path spec) (sp_source_entry_name spec) t d"
  have m: "mf_entries m = [?e]" "mf_nickname m = nickname" "mf_run_id m = run_id" "mf_purgery_version m = PURGERY_VERSION"
    using build_manifest_ok [OF plain op _ kind assms(3), of q] n(2,3) assms(2) by simp_all
  have e: "me_transform ?e = Some t" "entry_ok ?e" "expected_staged ?e = Some (me_staged_path ?e)"
    using n(4) by (simp add: manifest_entry_def, cases d)
      (simp_all add: entry_ok_def manifest_entry_def len_of_def mtime_of_def expected_staged_def staged_name [OF plain])
  have "validate_envelope nickname run_id run_config m = Inr ()"
    using m(2,3) assms(4) by (simp add: validate_envelope_def)
  moreover have "is_ok (validate_transform_run config m run_config) \<longleftrightarrow>
      (\<exists>def. map_of (sc_transforms config) t = Some def \<and> is_ok (validate_transform_definition def))"
    using m(1) assms(5) e(1) by (simp add: validate_transform_run_def split: option.split)
  moreover have "manifest_from_toml de input = Inr m" if "de input = Inr m" for de input
    using that m(1) e(2) by (simp add: manifest_from_toml_def entry_ok_iff)
  moreover have "\<exists>e q d. mf_entries m = [e] \<and> me_transform e = Some t \<and> expected_staged e = Some (me_staged_path e) \<and>
      src_find (sources w) False (sp_operation_path spec) = Inr (q, d) \<and>
      (\<forall>pl path. holds_copy pl cc (fpath_of path) d \<longrightarrow> reads_as (check_staged pl e path) ())"
    using copy_passes by (intro exI [of _ ?e] exI [of _ q] exI [of _ d] conjI m(1) e(1,3) n(2)) blast
  ultimately show ?thesis using current_shown [folded m(4)] by (intro conjI) blast+
qed

end
