(* ===== verification/Sync_Samples.thy ===== *)
theory Sync_Samples
  imports Client_Samples Client_Laws Client_Sync Classify_Laws
begin

text \<open>
  Concrete instances of the theorems about runs of the client: a client with one source file \<open>/a/x\<close>
  and the state directory \<open>/s\<close>, and a server that answers every command.
\<close>

section \<open>A sample environment\<close>

definition sample_answer :: "bool \<Rightarrow> RunStateResponse" where
  "sample_answer terminal = (dummy_run_state (Nickname ''n'') (RunId ''R''))
     \<lparr>rr_purgery_version := PURGERY_VERSION, rr_phase := (if terminal then ''done'' else ''ready''), rr_terminal := terminal\<rparr>"

definition sample_ssh :: "(io_error, cmd_output) io" where
  "sample_ssh w = (Inr \<lparr>co_code = Some 0, co_stdout = (if tick w = 0 then ''r'' else ''t''), co_stderr = []\<rparr>, next_tick w)"

definition sample_env :: client_env where
  "sample_env =
     \<lparr>ev_codecs = sample_client_codecs,
      ev_de_version = (\<lambda>_. Inr \<lparr>vr_protocol_version = PROTOCOL_VERSION, vr_purgery_version = PURGERY_VERSION\<rparr>),
      ev_de_begin = (\<lambda>_. Inr \<lparr>br_protocol_version = PROTOCOL_VERSION, br_purgery_version = PURGERY_VERSION,
        br_nickname = ''n'', br_run_id = ''R'', br_incoming_dir = ''/i'', br_files_dir = ''/i/files'',
        br_run_config_path = ''/i/run.toml'', br_manifest_path = ''/i/manifest.toml'', br_heartbeat_interval_secs = 60\<rparr>),
      ev_de_prepare = (\<lambda>_. Inr \<lparr>pp_protocol_version = PROTOCOL_VERSION, pp_purgery_version = PURGERY_VERSION,
        pp_nickname = ''n'', pp_run_id = ''R'', pp_destination = None\<rparr>),
      ev_de_run_state = (\<lambda>t. Inr (sample_answer (t = ''t''))),
      ev_de_process = (\<lambda>_. Inl ''''), ev_de_error = (\<lambda>_. Inl ''''),
      ev_de_status = (\<lambda>_. Inr sample_imported), ev_ser_status = (\<lambda>_. Inr ''s''),
      ev_de_manifest = (\<lambda>_. Inr sample_manifest), ev_ser_manifest = (\<lambda>_. Inr ''m''),
      ev_de_run_config = (\<lambda>_. Inr sample_run_config), ev_ser_run_config = (\<lambda>_. Inr ''c''),
      ev_de_client_state = (\<lambda>_. Inl ''''), ev_ser_client_state = (\<lambda>_. Inr ''q''),
      ev_ssh = (\<lambda>_ _. sample_ssh), ev_ssh_write = (\<lambda>_ _ _. sample_ssh), ev_spawn = (\<lambda>_ _. fail_io IoOther),
      ev_try_wait = (\<lambda>_. ret_io None), ev_wait = (\<lambda>_. ret_io (Some 0)), ev_wait_timeout = (\<lambda>_ _. ret_io None),
      ev_kill = (\<lambda>_. ret_io ()), ev_pipes = (\<lambda>_. ([], [])), ev_rsync = (\<lambda>_. ret_io True), ev_text = id,
      ev_beats = ret_io 0, ev_polls = 5, ev_cwd = Inr ''/'', ev_walk = (\<lambda>_. ret_io []), ev_split_walk = (\<lambda>_. ret_io []),
      ev_generate = ret_io (RunId ''R''), ev_vars = (\<lambda>_. None), ev_hostname = None\<rparr>"

lemma sample_run_state:
  "client_run_state sample_env h c n r w = (Inr (sample_answer (tick w \<noteq> 0)), next_tick w)"
proof -
  have "parse_run_state_response sample_env t = Inr (sample_answer (t = ''t''))" for t
    using current_accepted
    by (simp add: parse_run_state_response_def accept_response_def sample_env_def sample_answer_def dummy_run_state_def bind_res_def)
  then show ?thesis
    by (simp add: client_run_state_def server_cmd_def server_cmd_raw_def client_step classify_output_def into_protocol_result_def
       sample_env_def [THEN arg_cong, of ev_ssh] sample_env_def [THEN arg_cong, of ev_text] sample_ssh_def)
qed


section \<open>Driving\<close>

text \<open>A client whose child is a file: it is started, waited for and gone.\<close>

definition sample_alive :: "world \<Rightarrow> nat set" where
  "sample_alive w = (if look (nodes w) [''child''] = None then {} else {7})"

definition sample_reap :: "world \<Rightarrow> world" where
  "sample_reap w = w\<lparr>nodes := del_tree [''child''] (nodes w)\<rparr>"

definition child_env :: client_env where
  "child_env = sample_env
     \<lparr>ev_spawn := (\<lambda>_ _ w. if sample_alive w = {} then (Inr 7, w\<lparr>nodes := put_node [''child''] (DirN 0) (nodes w)\<rparr>) else (Inl IoOther, w)),
      ev_try_wait := (\<lambda>h w. if h = 7 then (Inr None, w) else (Inr (Some (Some 0)), w)),
      ev_wait := (\<lambda>h w. (Inr (Some 0), if h = 7 then sample_reap w else w)),
      ev_wait_timeout := (\<lambda>h _ w. (Inr (Some (Some 0)), if h = 7 then sample_reap w else w))\<rparr>"

lemma sample_reaps: "reaps child_env sample_alive"
  unfolding reaps_def child_env_def sample_alive_def sample_reap_def sample_env_def
  by (auto simp: sample_ssh_def next_tick_def look_put look_del_tree ret_io_def)

lemma child_run_state: "client_run_state child_env h c n r w = (Inr (sample_answer (tick w \<noteq> 0)), next_tick w)"
proof -
  have "client_run_state child_env h c n r w = client_run_state sample_env h c n r w"
    unfolding client_run_state_def server_cmd_def server_cmd_raw_def parse_run_state_response_def
    by (simp add: child_env_def classify_output_def [abs_def] into_protocol_result_def [abs_def])
  then show ?thesis by (simp add: sample_run_state)
qed

lemma sample_answer_fields: "rr_terminal (sample_answer b) = b" "rr_phase (sample_answer b) = (if b then ''done'' else ''ready'')"
  by (simp_all add: sample_answer_def)

lemma child_driven:
  "\<exists>w'. drive_loop child_env h c n r (Suc (Suc k)) (drive_start n r) (client_at 0 [] src) = (Inr (Some (sample_answer True)), w')"
proof -
  let ?w = "client_at 0 [] src"
  define w1 where "w1 = (next_tick ?w)\<lparr>nodes := put_node [''child''] (DirN 0) (nodes ?w)\<rparr>"
  define st1 where "st1 = (drive_start n r)\<lparr>dv_state := sample_answer False, dv_worker := Some 7\<rparr>"
  have tick: "tick (next_tick w) = Suc (tick w)" for w by (simp add: next_tick_def)
  have spawn: "ev_spawn child_env h' c' (next_tick ?w) = (Inr 7, w1)" for h' c'
    by (simp add: child_env_def w1_def sample_alive_def next_tick_def look_def)
  have 1: "drive_step child_env h c n r (drive_start n r) ?w = (Inr (Inr st1), w1)"
    by (simp add: drive_step_def drive_polled_def drive_decide_def client_step child_run_state sample_answer_fields
       spawn_server_cmd_def spawn st1_def drive_start_def)
  have wait: "ev_wait_timeout child_env (7 :: nat) secs w = (Inr (Some (Some 0)), sample_reap w)" for secs w
    by (simp add: child_env_def)
  have 2: "\<exists>w'. drive_step child_env h c n r st1 w1 = (Inr (Inl (sample_answer True)), w')"
    by (simp add: drive_step_def drive_polled_def client_step child_run_state sample_answer_fields st1_def w1_def tick
       finish_worker_after_terminal_def wait_timeout_def settle_wait_def wait)
  from 1 2 show ?thesis by (auto simp: bind_io_def ret_io_def)
qed

lemma drive_leaves_no_worker_witness:
  "\<exists>w'. drive_loop child_env ''h'' ''p'' (Nickname ''n'') (RunId ''R'') 2 (drive_start (Nickname ''n'') (RunId ''R'')) (client_at 0 [] []) =
      (Inr (Some (sample_answer True)), w') \<and> sample_alive w' = {}"
proof -
  obtain w' where run: "drive_loop child_env ''h'' ''p'' (Nickname ''n'') (RunId ''R'') 2 (drive_start (Nickname ''n'') (RunId ''R''))
      (client_at 0 [] []) = (Inr (Some (sample_answer True)), w')"
    using child_driven [of "''h''" "''p''" "Nickname ''n''" "RunId ''R''" 0 "[]"] by (metis numeral_2_eq_2)
  from drive_leaves_no_worker [OF sample_reaps run] run show ?thesis by (simp add: sample_alive_def look_def)
qed

lemma drive_returns_terminal_answer_witness:
  "\<exists>s w'. drive_server_until_terminal child_env ''h'' ''p'' (Nickname ''n'') (RunId ''R'') (client_at 0 [] []) = (Inr s, w') \<and>
     rr_terminal s \<and> rr_protocol_version s = PROTOCOL_VERSION"
proof -
  have "ev_polls child_env = Suc (Suc 3)" by (simp add: child_env_def sample_env_def)
  with child_driven [of "''h''" "''p''" "Nickname ''n''" "RunId ''R''" 3 "[]"] obtain w' where
    run: "drive_server_until_terminal child_env ''h'' ''p'' (Nickname ''n'') (RunId ''R'') (client_at 0 [] []) = (Inr (sample_answer True), w')"
    by (auto simp: drive_server_until_terminal_def bind_io_def ret_io_def)
  with drive_returns_terminal_answer [of child_env "''h''" "''p''" "Nickname ''n''" "RunId ''R''" "client_at 0 [] []" "sample_answer True" w']
  show ?thesis by blast
qed

lemma sample_ticking: "ticking sample_env"
  unfolding ticking_def sample_env_def by (auto simp: sample_ssh_def next_tick_def ret_io_def fail_io_def)

lemma drive_terminates_witness:
  "\<exists>K x w'. (\<forall>k \<ge> K. drive_loop sample_env ''h'' ''p'' (Nickname ''n'') (RunId ''R'') k (drive_start (Nickname ''n'') (RunId ''R''))
     (client_at 0 [] []) = (x, w')) \<and> x \<noteq> Inr None"
proof -
  have "\<exists>s v'. client_run_state sample_env ''h'' ''p'' (Nickname ''n'') (RunId ''R'') v = (Inr s, v') \<and> rr_terminal s" if "1 \<le> tick v" for v
    using that by (simp add: sample_run_state sample_answer_def)
  from drive_terminates [OF sample_ticking this, of 1 "client_at 0 [] []"] show ?thesis
    by (metis (no_types, lifting) option.case(1) sum.case(2))
qed

section \<open>Operands\<close>

definition sample_args :: SyncArgs where
  "sample_args = \<lparr>sa_transform = None, sa_delete_after_import = False, sa_split = None, sa_nickname = None,
     sa_state_dir = Some ''/s'', sa_server_command = ''p'', sa_source = ''/a/x'', sa_destination = ''h:/d''\<rparr>"

definition named_env :: client_env where
  "named_env = sample_env\<lparr>ev_vars := (\<lambda>v. if v = ''USER'' then Some ''J. Doe_'' else None), ev_hostname := Some ''box''\<rparr>"

lemma sample_nickname: "choose_nickname named_env sample_args = Inr (Nickname ''J-Doe_box'')"
  by code_simp

theorem auto_nickname_valid_witness:
  "choose_nickname named_env sample_args = Inr (Nickname ''J-Doe_box'') \<and> plain_name ''J-Doe_box'' \<and> clean_name ''J-Doe_box''"
  using auto_nickname_valid [of sample_args named_env] sample_nickname by (auto simp: sample_args_def)

lemma heartbeat_pause_bounds_witness:
  "1000 \<le> unat (half_interval 60) \<and> 2 * unat (half_interval 60) \<le> 1000 * unat (60 :: u64)"
  using heartbeat_pause_bounds [of 60 GCConfig_default] by simp


section \<open>A run on the server\<close>

lemma sample_remote: "remote_elsewhere sample_env"
proof -
  have ssh: "remote.kept sample_ssh" by (auto simp: remote.kept_def sample_ssh_def elsewhere_def same_env_def next_tick_def)
  show ?thesis unfolding remote_elsewhere_def sample_env_def
    by (auto intro!: remote.kept_intros ssh)
qed

definition sample_spec :: SourceSpec where
  "sample_spec = \<lparr>sp_raw_input = ''/a/x'', sp_operation_path = ''/a/x'', sp_source_entry_name = ''x'', sp_kind = SourceRegularFile\<rparr>"

definition sample_remote_dest :: RemoteDestination where
  "sample_remote_dest = \<lparr>rd_host = ''h'', rd_path = rc_destination sample_run_config\<rparr>"

text \<open>A server that breaks when it is told to finish a run that the client has not recorded.\<close>

definition strict_ssh :: "string \<Rightarrow> string \<Rightarrow> (io_error, cmd_output) io" where
  "strict_ssh h c w = (if c \<noteq> finish_command ''p'' (Nickname ''n'') (RunId ''R'') \<or> recorded sample_env ''/s'' (Nickname ''n'') (RunId ''R'') w
     then ev_ssh sample_env h c w else (Inl IoOther, w))"

theorem finish_needs_record_witness:
  "server_run (sample_env\<lparr>ev_ssh := strict_ssh\<rparr>) ''/s'' sample_spec sample_remote_dest ''p'' (Nickname ''n'') (RunId ''R'') sample_manifest
     None Needed (client_at 0 [] []) =
   server_run sample_env ''/s'' sample_spec sample_remote_dest ''p'' (Nickname ''n'') (RunId ''R'') sample_manifest None Needed (client_at 0 [] [])"
  by (rule finish_needs_record [OF sample_remote]) (simp add: strict_ssh_def)

section \<open>Success\<close>

definition direct_args :: SyncArgs where
  "direct_args = sample_args\<lparr>sa_nickname := Some ''n''\<rparr>"

lemma sample_operands:
  "normalize_operand (Inr ''/'') ''/a/x'' = Inr (''/a/x'', ''x'')" "choose_nickname sample_env direct_args = Inr (Nickname ''n'')"
  "parse_destination ''h:/d'' = Inr sample_remote_dest"
  "fpath_of ''/s'' = [''s'']" "fpath_of (path_join ''/s'' ''runs'') = [''s'', ''runs'']" "resolve_state_dir sample_env direct_args = ''/s''"
  by code_simp+

lemma sample_normalized:
  "normalize_source (Inr ''/'') ''/a/x'' (client_at t fs sample_sources) = (Inr sample_spec, client_at (Suc t) fs sample_sources)"
  by (simp add: normalize_source_def client_step sample_operands src_lstat_def src_query_def client_prim error_of_Pass sample_found
      bind_res_def sample_spec_def)

lemma sample_direct:
  "\<exists>w'. run_sync_with_run_id sample_env direct_args (RunId ''R'') Needed
     (client_at 0 [([''s''], DirN 0)] sample_sources) = (Inr (), w')"
proof -
  let ?w = "client_at 0 [([''s''], DirN 0)] sample_sources"
  define t :: nat where "t = Suc (Suc (Suc 0))"
  have 1: "resume_pending_cleanups (ev_codecs sample_env) ''/s'' ?w = (Inr (), client_at t [([''s''], DirN 0)] sample_sources)"
    by (simp add: t_def resume_pending_cleanups_def state_dir_path_def client_step sample_operands fs_create_dir_all_def fs_exists_def
        fs_read_dir_def client_prim error_of_Pass sample_fs)
  have 2: "resume_runs sample_env ''/s'' (client_at t [([''s''], DirN 0)] sample_sources) =
      (Inr (), client_at (Suc t) [([''s''], DirN 0)] sample_sources)"
    by (simp add: resume_runs_def client_step sample_operands fs_is_dir_def client_prim sample_fs)
  have fields: "ev_cwd sample_env = Inr ''/''" "ev_rsync sample_env a w = (Inr True, w)" for a w
    by (simp_all add: sample_env_def ret_io_def)
  have args: "sa_source direct_args = ''/a/x''" "sa_destination direct_args = ''h:/d''" "sa_transform direct_args = None"
    "\<not> sa_delete_after_import direct_args" "sa_split direct_args = None"
    by (simp_all add: direct_args_def sample_args_def)
  show ?thesis
    by (simp add: run_sync_with_run_id_def sync_prologue_def sync_entry_def direct_transfer_def run_rsync_def client_step
       sample_operands 1 2 fields args sample_normalized)
qed


section \<open>Classification\<close>

text \<open>The directory \<open>/a\<close>, with a walk that finds the file in it.\<close>

definition dir_spec :: SourceSpec where
  "dir_spec = \<lparr>sp_raw_input = ''/a'', sp_operation_path = ''/a'', sp_source_entry_name = ''a'', sp_kind = SourceDirectory\<rparr>"

lemma dir_facts: "src_find sample_sources False ''/a'' = Inr ([''a''], SourceDir)" "path_join ''/a'' (rel_path [''x'']) = ''/a/x''"
  by code_simp+

lemma sample_below: "{p. p \<noteq> [] \<and> src_node sample_sources ([''a''] @ p) \<noteq> None} = {[''x'']}"
  by (auto simp: src_node_def sample_sources_def split: if_splits)

lemma sample_tidy: "tidy sample_sources"
  by (auto simp: tidy_def src_node_def sample_sources_def plain_name_def append_eq_Cons_conv split: if_splits)

theorem captured_identity_exact_witness:
  "\<exists>es w'. capture_cleanup_identity (tree_walk (\<lambda>_ _. [Inr ''/a/x''])) sample_client_codecs dir_spec (client_at 0 [] sample_sources) = (Inr es, w') \<and>
     mset es = {# dir_identity ''a'' ''/a'', file_identity ''a/x'' ''/a/x'' 1 5 ''0'' #}"
proof -
  obtain r w' where run: "capture_cleanup_identity (tree_walk (\<lambda>_ _. [Inr ''/a/x''])) sample_client_codecs dir_spec (client_at 0 [] sample_sources) = (r, w')"
    by (metis surj_pair)
  have h: "faultless (client_at 0 [] sample_sources)" "sp_operation_path dir_spec = ''/a''" "sp_source_entry_name dir_spec = ''a''"
    by (simp_all add: faultless_def dir_spec_def)
  then have found: "src_find (sources (client_at 0 [] sample_sources)) False (sp_operation_path dir_spec) = Inr ([''a''], SourceDir)"
    by (simp add: dir_facts)
  have walk: "walk_is [Inr ''/a/x''] sample_sources ''/a'' [''a''] [[''x'']]"
    using sample_below by (simp add: walk_is_def dir_facts(2))
  have below: "identities_below sample_client_codecs sample_sources dir_spec [''a''] [[''x'']] = [file_identity ''a/x'' ''/a/x'' 1 5 ''0'']"
    by (simp add: identities_below_def List.map_filter_def h dir_facts(2) src_node_def sample_sources_def identity_of_def
      sample_client_codecs_def mtime_nanos_def) (simp add: rel_path_def)
  from captured_identity_exact [OF h(1) found _ run] obtain es top where es: "r = Inr es"
    "identity_of sample_client_codecs ''a'' ''/a'' SourceDir = Some top"
    "\<forall>qs. tidy sample_sources \<and> walk_is [Inr ''/a/x''] sample_sources ''/a'' [''a''] qs \<longrightarrow>
      mset es = mset (top # identities_below sample_client_codecs sample_sources dir_spec [''a''] qs)"
    unfolding h(2,3) by auto
  with walk sample_tidy below run show ?thesis by (auto simp: identity_of_def)
qed

text \<open>A server on which every staged path is a file with the content of the source.\<close>

definition copy_host :: payload_ops where
  "copy_host = \<lparr>pl_lstat = (\<lambda>_. ret_io KFile), pl_stat = (\<lambda>_. ret_io KFile), pl_len = (\<lambda>_. ret_io 1), pl_sha256 = (\<lambda>_. ret_io ''0''),
     pl_read_link = (\<lambda>_. fail_io IoOther), pl_symlink = (\<lambda>_ _. ret_io ()), pl_names = (\<lambda>_. ret_io []), pl_walk = (\<lambda>_. ret_io []),
     pl_spawn = (\<lambda>_ _ _. fail_io IoOther), pl_text = id\<rparr>"

theorem client_manifest_accepted_witness:
  "\<exists>m e w'. build_manifest sample_client_codecs sample_spec (RunId ''R'') (Nickname ''n'') (Some ''t'') (client_at 1 [] sample_sources) = (Inr m, w') \<and>
     mf_entries m = [e] \<and> validate_envelope (Nickname ''n'') (RunId ''R'') sample_run_config m = Inr () \<and>
     manifest_from_toml (\<lambda>_. Inr m) ''m'' = Inr m \<and>
     require_compatible_toml_version (\<lambda>_. Inr (TTable [(''purgery_version'', TString (mf_purgery_version m))])) ''m'' ''manifest'' = Inr () \<and>
     (\<exists>u'. check_staged copy_host e ''/w/n/processing/R/files/x'' (client_at 2 [] []) = (Inr (), u'))"
proof -
  have "\<exists>m w'. build_manifest sample_client_codecs sample_spec (RunId ''R'') (Nickname ''n'') (Some ''t'') (client_at 1 [] sample_sources) = (Inr m, w')"
  proof -
    have "is_ok (NormalizedRelativePath_new ''x'')" "is_ok (NormalizedRelativePath_new (path_join ''files'' ''x''))"
      "is_ok (ClientLocalPath_new ''/a/x'')" by code_simp+
    then obtain a b c where "NormalizedRelativePath_new ''x'' = Inr a" "NormalizedRelativePath_new (path_join ''files'' ''x'') = Inr b"
      "ClientLocalPath_new ''/a/x'' = Inr c" by (auto simp: is_ok_def split: sum.splits)
    then show ?thesis
      by (simp add: build_manifest_def sample_spec_def client_step src_lstat_def src_query_def client_prim error_of_Pass sample_found
        bind_res_def is_regular_def is_link_def core_sha256_def src_content_def)
  qed
  then obtain m w' where m: "build_manifest sample_client_codecs sample_spec (RunId ''R'') (Nickname ''n'') (Some ''t'') (client_at 1 [] sample_sources) = (Inr m, w')"
    by blast
  have conf: "rc_nickname sample_run_config = Nickname ''n''" "rc_delete_after_import sample_run_config"
    by (simp_all add: sample_run_config_def)
  have found: "src_find sample_sources False (sp_operation_path sample_spec) = Inr ([''a'', ''x''], SourceFile ''a'' 5)"
    by (simp add: sample_found sample_spec_def)
  have copy: "holds_copy copy_host sample_client_codecs p (SourceFile ''a'' 5)" for p
    by (simp add: holds_copy_def reads_as_def copy_host_def sample_client_codecs_def ret_io_def)
  have shown: "shows_version (\<lambda>_. Inr (TTable [(''purgery_version'', TString v)])) ''m'' v" for v
    by (simp add: shows_version_def version_field_def)
  note accepted = client_manifest_accepted [OF sample_normalized _ m conf, of 0 "[]", unfolded client_fields, OF refl]
  from accepted [THEN conjunct2, THEN conjunct2, THEN conjunct1]
  have "validate_envelope (Nickname ''n'') (RunId ''R'') sample_run_config m = Inr ()" .
  moreover from accepted [THEN conjunct2, THEN conjunct1] have "manifest_from_toml (\<lambda>_. Inr m) ''m'' = Inr m" by simp
  moreover from accepted [THEN conjunct1] shown
  have "require_compatible_toml_version (\<lambda>_. Inr (TTable [(''purgery_version'', TString (mf_purgery_version m))])) ''m'' ''manifest'' = Inr ()"
    by blast
  moreover from accepted [THEN conjunct2, THEN conjunct2, THEN conjunct2, THEN conjunct2] obtain e q d where e: "mf_entries m = [e]" "src_find sample_sources False (sp_operation_path sample_spec) = Inr (q, d)"
    "\<forall>pl path. holds_copy pl sample_client_codecs (fpath_of path) d \<longrightarrow> reads_as (check_staged pl e path) ()"
    by blast
  moreover from e(2) found have "d = SourceFile ''a'' 5" by simp
  with e(3) copy have "reads_as (check_staged copy_host e ''/w/n/processing/R/files/x'') ()" by blast
  then have "\<exists>u'. check_staged copy_host e ''/w/n/processing/R/files/x'' (client_at 2 [] []) = (Inr (), u')"
    unfolding reads_as_def by blast
  ultimately show ?thesis using m by blast
qed

end
