(* ===== verification/Delete_Samples.thy ===== *)
theory Delete_Samples
  imports Sync_Samples
begin

text \<open>
  A whole server run on a concrete world, with answers of the server given by a table: the only source
  is reported imported, its cleanup state is confirmed and it is deleted. This is the witness that the
  hypotheses about the remote side and the codecs can hold together.
\<close>

section \<open>Deletion\<close>

lemma client_inject [simp]: "client_at t fs src = client_at t' fs' src' \<longleftrightarrow> t = t' \<and> fs = fs' \<and> src = src'"
  by (auto simp: client_at_def sample_at_def)

lemma publish_ok:
  assumes "view fs d = vdir" "view fs (d @ [a]) \<noteq> vdir" "view fs (d @ [b]) \<noteq> vdir" "a \<noteq> b"
  shows "\<exists>fs'. bind_io (ctx m1 (fs_write (d @ [a]) c)) (\<lambda>_. ctx m2 (fs_rename (d @ [a]) (d @ [b]))) (client_at t fs src) =
      (Inr (), client_at (Suc (Suc t)) fs' src) \<and> (\<exists>l. view fs' (d @ [b]) = Some (FileN c 0 l)) \<and> view fs' (d @ [a]) = None \<and>
    (\<forall>q. \<not> prefix (d @ [a]) q \<and> \<not> prefix (d @ [b]) q \<longrightarrow> view fs' q = view fs q) \<and> (fs_wf fs \<longrightarrow> fs_wf fs')"
proof -
  obtain fs1 where 1: "fs_write (d @ [a]) c (client_at t fs src) = (Inr (), client_at (Suc t) fs1 src)"
    using assms(1,2) by (simp add: fs_write_def client_prim is_dir_node_view error_of_Pass)
  from fs_write_effect [OF 1] obtain l where fs1: "view fs1 = (view fs)(d @ [a] \<mapsto> FileN c 0 l)" "fs_wf fs \<longrightarrow> fs_wf fs1" by auto
  have written: "\<exists>m. look fs1 (d @ [a]) = Some (FileN c m l)" using fs1(1) by (simp add: look_FileN_view)
  have target: "look fs1 (d @ [b]) = None \<or> (\<exists>c m l. look fs1 (d @ [b]) = Some (FileN c m l))"
  proof (cases "look fs1 (d @ [b])")
    case (Some n)
    have "view fs1 (d @ [b]) \<noteq> vdir" using fs1(1) assms(3,4) by simp
    with Some show ?thesis by (cases n) (auto simp: is_dir_node_view [symmetric] is_dir_node_def)
  qed simp
  have "is_dir_node (look fs1 d)" using fs1(1) assms(1) by (simp add: is_dir_node_view)
  with written target assms(4) have "rename_error fs1 (d @ [a]) (d @ [b]) = None"
    by (auto simp: rename_error_def)
  then obtain fs2 where 2: "fs_rename (d @ [a]) (d @ [b]) (client_at (Suc t) fs1 src) = (Inr (), client_at (Suc (Suc t)) fs2 src)"
    using assms(4) by (simp add: fs_rename_def client_prim error_of_Pass)
  from fs_rename_effect [OF 2] assms(4) have fs2: "view fs2 = vmove (d @ [a]) (d @ [b]) (view fs1)" "fs_wf fs1 \<longrightarrow> fs_wf fs2" by auto
  have "view fs2 (d @ [b]) = Some (FileN c 0 l)" using fs1(1) by (simp add: fs2(1) vmove_def)
  moreover have "view fs2 (d @ [a]) = None" using assms(4) by (simp add: fs2(1) vmove_def)
  moreover have "view fs2 q = view fs q" if "\<not> prefix (d @ [a]) q" "\<not> prefix (d @ [b]) q" for q
    using that fs1(1) by (auto simp: fs2(1) vmove_outside)
  ultimately show ?thesis using 1 2 fs1(2) fs2(2) by (simp add: bind_io_def ctx_def err_io_def)
qed

lemma make_dirs_ok: "(\<And>p. p \<in> set ps \<Longrightarrow> p \<noteq> [] \<and> (view fs p = None \<or> view fs p = vdir)) \<Longrightarrow> \<exists>fs'. make_dirs t ps fs = (Inr (), fs')"
proof (induction ps arbitrary: fs)
  case (Cons p ps)
  have p: "p \<noteq> []" "view fs p = None \<or> view fs p = vdir" using Cons.prems by auto
  show ?case
  proof (cases "look fs p")
    case None
    have "\<exists>fs'. make_dirs t ps (put_node p (DirN t) (touch_dir t (butlast p) fs)) = (Inr (), fs')"
      by (rule Cons.IH) (use Cons.prems p(1) in \<open>auto simp: view_put\<close>)
    with None show ?thesis by simp
  next
    case (Some n)
    with p(2) obtain m where "n = DirN m" using look_DirN_view [of fs p] look_None_view [of fs p] by auto
    with Some Cons show ?thesis by simp
  qed
qed simp

lemma create_dirs_ok:
  assumes "\<And>p. p \<noteq> [] \<Longrightarrow> prefix p d \<Longrightarrow> view fs p = None \<or> view fs p = vdir"
  shows "\<exists>fs'. fs_create_dir_all d (client_at t fs src) = (Inr (), client_at (Suc t) fs' src)"
proof -
  from make_dirs_ok [of "ancestors d" fs "int t * 10 ^ 9"] assms
  obtain fs' where "make_dirs (int t * 10 ^ 9) (ancestors d) fs = (Inr (), fs')" by (auto simp: set_ancestors)
  then show ?thesis by (intro exI [of _ fs']) (simp add: fs_create_dir_all_def client_prim error_of_Pass)
qed

abbreviation sample_run_dir :: fpath where
  "sample_run_dir \<equiv> [''s'', ''runs'', ''n-R'']"

text \<open>The directory of the run can be written, and the cleanup state is there.\<close>

definition sample_ready :: "string \<Rightarrow> fs \<Rightarrow> bool" where
  "sample_ready c fs \<longleftrightarrow> fs_wf fs \<and> (\<exists>l. view fs sample_cleanup_path = Some (FileN c 0 l)) \<and>
     (\<forall>p. p \<noteq> [] \<and> prefix p sample_run_dir \<longrightarrow> view fs p = None \<or> view fs p = vdir) \<and>
     view fs [''s''] = vdir \<and> view fs [''s'', ''cleanup-n-R.toml.tmp''] \<noteq> vdir \<and>
     view fs (sample_run_dir @ [''state.toml'']) \<noteq> vdir \<and> view fs (sample_run_dir @ [''state.toml.tmp'']) \<noteq> vdir"

lemma sample_names: "run_names (Nickname ''n'') (RunId ''R'')" "run_state_dir ''/s'' ''n'' ''R'' = sample_run_dir"
  "cleanup_path_of ''/s'' (Nickname ''n'') (RunId ''R'') = sample_cleanup_path"
  unfolding run_names_def by code_simp+

lemma sample_persists:
  assumes "sample_ready c fs" "ev_ser_manifest ev m = Inr x" "ev_ser_run_config ev rc = Inr y" "\<And>s. ev_ser_client_state ev s = Inr z"
    "fs_wf fs"
  shows "\<exists>t' fs'. persist_client_run_state ev ''/s'' (Nickname ''n'') (RunId ''R'') h sc m rc ts ph (client_at t fs src) =
    (Inr (), client_at t' fs' src) \<and> sample_ready c fs' \<and> t < t'"
proof -
  obtain fs1 where 1: "fs_create_dir_all sample_run_dir (client_at t fs src) = (Inr (), client_at (Suc t) fs1 src)"
    using create_dirs_ok [of sample_run_dir fs t src] assms(1) by (auto simp: sample_ready_def)
  note e = fs_create_dir_all_effect [OF 1]
  then have fs1: "view fs1 [''s''] = vdir" "view fs1 sample_run_dir = vdir" "view fs1 (sample_run_dir @ [''state.toml'']) = view fs (sample_run_dir @ [''state.toml''])"
    "view fs1 (sample_run_dir @ [''state.toml.tmp'']) = view fs (sample_run_dir @ [''state.toml.tmp''])"
    by (auto simp: adds_dirs_def)
  from publish_ok [of fs1 sample_run_dir "''state.toml.tmp''" "''state.toml''" "''failed to write run state''" z
      "''failed to publish run state''" "Suc t" src] fs1 assms(1)
  obtain fs2 l where 2: "bind_io (ctx ''failed to write run state'' (fs_write (sample_run_dir @ [''state.toml.tmp'']) z))
      (\<lambda>_. ctx ''failed to publish run state'' (fs_rename (sample_run_dir @ [''state.toml.tmp'']) (sample_run_dir @ [''state.toml''])))
      (client_at (Suc t) fs1 src) = (Inr (), client_at (Suc (Suc (Suc t))) fs2 src)"
    and 3: "view fs2 (sample_run_dir @ [''state.toml'']) = Some (FileN z 0 l)"
      "\<And>q. \<not> prefix (sample_run_dir @ [''state.toml.tmp'']) q \<Longrightarrow> \<not> prefix (sample_run_dir @ [''state.toml'']) q \<Longrightarrow> view fs2 q = view fs1 q"
      "view fs2 (sample_run_dir @ [''state.toml.tmp'']) \<noteq> vdir"
    by (auto simp: sample_ready_def)
  have run: "persist_client_run_state ev ''/s'' (Nickname ''n'') (RunId ''R'') h sc m rc ts ph (client_at t fs src) =
    (Inr (), client_at (Suc (Suc (Suc t))) fs2 src)"
  proof -
    have D: "run_state_dir ''/s'' (nickname_str (Nickname ''n'')) (run_id_str (RunId ''R'')) = sample_run_dir" by (simp add: sample_names)
    have "ctx msg (fs_create_dir_all sample_run_dir) (client_at t fs src) = (Inr (), client_at (Suc t) fs1 src)" for msg
      using 1 by (simp add: ctx_def err_io_def)
    then show ?thesis
      unfolding persist_client_run_state_def D to_toml_io_def manifest_to_toml_def run_config_to_toml_def assms(2-4) ser_io_def
        map_err_simps lift_Inr Let_def
      by (subst bind_io_def) (simp only: prod.case sum.case 2)
  qed
  have aside: "aside (around sample_run_dir) (client_at t fs src) (client_at (Suc (Suc (Suc t))) fs2 src)"
    using beside.keptD [OF beside_persist run] by (simp add: sample_names)
  have dirs: "view fs2 p = None \<or> view fs2 p = vdir" if "p \<noteq> []" "prefix p sample_run_dir" for p
  proof -
    have "\<not> prefix (D @ [x]) p" if "prefix p D" for x :: string and D using that by (auto dest!: prefix_length_le)
    with that(2) 3 have "view fs2 p = view fs1 p" by blast
    with e assms(1) that show ?thesis by (auto simp: adds_dirs_def sample_ready_def)
  qed
  have "sample_ready c fs2" unfolding sample_ready_def
    using aside assms(1,5) dirs 3 fs1(1) by (auto simp: aside_def sample_ready_def around_def)
  with run show ?thesis by (intro exI [of _ "Suc (Suc (Suc t))"] exI [of _ fs2]) simp
qed


definition unconfirmed_cleanup :: DurableCleanupState where
  "unconfirmed_cleanup = sample_cleanup\<lparr>cs_entries := map (\<lambda>e. e\<lparr>ce_import_confirmed := False\<rparr>) (cs_entries sample_cleanup)\<rparr>"

text \<open>A disk on which only the confirmed state can be written: marking an entry as cleaned fails.\<close>

definition delete_env :: client_env where
  "delete_env = sample_env\<lparr>ev_codecs := sample_client_codecs
     \<lparr>cc_de_cleanup := (\<lambda>t. Inr (if t = ''c'' then unconfirmed_cleanup else sample_cleanup)),
      cc_ser_cleanup := (\<lambda>s. if s = sample_cleanup then Inr ''e'' else Inl ''full'')\<rparr>\<rparr>"

lemma delete_remote: "remote_elsewhere delete_env"
  using sample_remote by (simp add: remote_elsewhere_def delete_env_def)

lemma delete_parse: "parse_cleanup (ev_codecs delete_env) t = Inr (if t = ''c'' then unconfirmed_cleanup else sample_cleanup)"
proof -
  have "require_compatible_toml_version (cc_toml (ev_codecs delete_env)) t ctxt = Inr ()" for ctxt
    using sample_accepted by (simp add: delete_env_def)
  then show ?thesis by (simp add: parse_cleanup_def delete_env_def)
qed

lemma delete_confirm: "confirm_from_status sample_imported unconfirmed_cleanup = sample_cleanup"
  by code_simp

lemma delete_reads_back: "reads_back (ev_codecs delete_env) unconfirmed_cleanup"
proof -
  have "cc_ser_cleanup (ev_codecs delete_env) s = (if s = sample_cleanup then Inr ''e'' else Inl ''full'')" for s
    by (simp add: delete_env_def)
  then show ?thesis unfolding reads_back_def by (auto simp: delete_parse split: if_splits)
qed

lemma delete_cmd: "0 < t \<Longrightarrow> server_cmd delete_env h sc args (client_at t fs src) = (Inr ''t'', client_at (Suc t) fs src)"
  by (simp add: server_cmd_def server_cmd_raw_def client_step delete_env_def sample_env_def sample_ssh_def classify_output_def
     into_protocol_result_def next_tick_def client_at_def sample_at_def)

lemma delete_requests:
  assumes "0 < t"
  shows "\<exists>x. check_server_version delete_env h sc (client_at t fs src) = (Inr x, client_at (Suc t) fs src)"
    "\<exists>x. client_begin_run delete_env h sc n r (client_at t fs src) = (Inr x, client_at (Suc t) fs src)"
    "\<exists>x. client_prepare_run delete_env h sc n r (client_at t fs src) = (Inr x, client_at (Suc t) fs src) \<and> pp_destination x = None"
    "client_heartbeat_run delete_env h sc n r (client_at t fs src) = (Inr (), client_at (Suc t) fs src)"
    "client_finish_run delete_env h sc n r (client_at t fs src) = (Inr (), client_at (Suc t) fs src)"
    "client_run_state delete_env h sc n r (client_at t fs src) = (Inr (sample_answer True), client_at (Suc t) fs src)"
    "client_read_status delete_env h sc n r (client_at t fs src) = (Inr sample_imported, client_at (Suc t) fs src)"
proof -
  note run = client_step delete_cmd [OF assms] accept_response_def bind_res_def current_accepted is_ok_def
  show "\<exists>x. check_server_version delete_env h sc (client_at t fs src) = (Inr x, client_at (Suc t) fs src)"
    by (simp add: check_server_version_def run) (simp add: delete_env_def sample_env_def current_accepted)
  show "\<exists>x. client_begin_run delete_env h sc n r (client_at t fs src) = (Inr x, client_at (Suc t) fs src)"
    by (simp add: client_begin_run_def parse_begin_response_def run) (simp add: delete_env_def sample_env_def current_accepted)
  show "\<exists>x. client_prepare_run delete_env h sc n r (client_at t fs src) = (Inr x, client_at (Suc t) fs src) \<and> pp_destination x = None"
    by (simp add: client_prepare_run_def parse_prepare_response_def run) (simp add: delete_env_def sample_env_def current_accepted)
  show "client_heartbeat_run delete_env h sc n r (client_at t fs src) = (Inr (), client_at (Suc t) fs src)"
    "client_finish_run delete_env h sc n r (client_at t fs src) = (Inr (), client_at (Suc t) fs src)"
    by (simp_all add: client_heartbeat_run_def client_finish_run_def run)
  show "client_run_state delete_env h sc n r (client_at t fs src) = (Inr (sample_answer True), client_at (Suc t) fs src)"
    by (simp add: client_run_state_def parse_run_state_response_def run)
      (simp add: delete_env_def sample_env_def sample_answer_def dummy_run_state_def current_accepted)
  show "client_read_status delete_env h sc n r (client_at t fs src) = (Inr sample_imported, client_at (Suc t) fs src)"
    by (simp add: client_read_status_def parse_status_output_def run run_status_from_toml_def)
      (simp add: delete_env_def sample_env_def sample_imported_def sample_status_def current_accepted)
qed


text \<open>Up to the status nothing fails, then the source is deleted and the record cannot be kept.\<close>

lemma bind_run: "m w = (Inr a, v) \<Longrightarrow> bind_io m f w = f a v"
  by (simp add: bind_io_def)

lemma delete_persists:
  assumes "sample_ready c fs"
  shows "\<exists>t' fs'. persist_client_run_state delete_env ''/s'' (Nickname ''n'') (RunId ''R'') h sc m rc ts ph (client_at t fs src) =
    (Inr (), client_at t' fs' src) \<and> sample_ready c fs' \<and> t < t'"
  by (rule sample_persists [OF assms, where x = "''m''" and y = "''c''" and z = "''q''"])
    (use assms in \<open>simp_all add: delete_env_def sample_env_def sample_ready_def\<close>)

lemma delete_stage:
  assumes "0 < t"
  shows "stage_run delete_env spec h sc n r m rc b (client_at t fs src) = (Inr rc, client_at (Suc (Suc (Suc t))) fs src)"
proof -
  have put_ok: "write_remote_file delete_env h p x (client_at t fs src) = (Inr (), client_at (Suc t) fs src)" for p x t
    by (simp add: write_remote_file_def client_step delete_env_def sample_env_def sample_ssh_def next_tick_def client_at_def sample_at_def)
  have rsync: "run_rsync delete_env a h d w = (Inr (), w)" for a d w
    by (simp add: run_rsync_def client_step delete_env_def sample_env_def)
  have ser: "ev_ser_manifest delete_env m = Inr ''m''" "ev_ser_run_config delete_env rc = Inr ''c''" by (simp_all add: delete_env_def sample_env_def)
  from delete_requests(3) [of "Suc (Suc t)"] obtain x where
    x: "client_prepare_run delete_env h sc n r (client_at (Suc (Suc t)) fs src) = (Inr x, client_at (Suc (Suc (Suc t))) fs src)" "pp_destination x = None"
    by blast
  show ?thesis
    by (simp add: stage_run_def to_toml_io_def manifest_to_toml_def run_config_to_toml_def ser client_step put_ok x rsync)
qed

lemma delete_entry:
  "try_clean_entry (ev_codecs delete_env) (hd (cs_entries sample_cleanup)) (client_at t fs sample_sources) =
    (Inr True, client_at (Suc (Suc (Suc (Suc t)))) fs [([''a''], SourceDir)])"
proof -
  have fields: "ce_local_path (hd (cs_entries sample_cleanup)) = ''/a/x''" "ce_kind (hd (cs_entries sample_cleanup)) = RegularFile"
    "ce_sha256 (hd (cs_entries sample_cleanup)) = Some ''0''" "file_unchanged (hd (cs_entries sample_cleanup)) (SourceFile ''a'' 5)"
    by (simp_all add: sample_cleanup_def file_unchanged_def mtime_nanos_def)
  have codec: "cc_sha256 (ev_codecs delete_env) c = ''0''" for c by (simp add: delete_env_def sample_client_codecs_def)
  show ?thesis
    by (simp add: try_clean_entry_def try_clean_file_def compute_sha256_def client_step src_lstat_def src_stat_def src_content_def
        src_remove_file_def src_remove_def src_query_def client_prim error_of_Pass sample_found fields codec bind_res_def sample_removed
        is_ok_def)
qed

lemma delete_cleans:
  assumes "sample_ready ''c'' fs"
  shows "\<exists>e w'. confirm_and_clean delete_env sample_cleanup_path sample_imported (client_at t fs sample_sources) = (Inl e, w') \<and>
    sources w' = [([''a''], SourceDir)]"
proof -
  let ?cc = "ev_codecs delete_env" and ?tmp = "[''s''] @ [''cleanup-n-R.toml.tmp'']" and ?path = "[''s''] @ [''cleanup-n-R.toml'']"
  have ser: "cc_ser_cleanup ?cc s = (if s = sample_cleanup then Inr ''e'' else Inl ''full'')" for s by (simp add: delete_env_def)
  have read: "read_cleanup_state ?cc sample_cleanup_path (client_at t fs src) = (Inr (if c = ''c'' then unconfirmed_cleanup else sample_cleanup), client_at (Suc t) fs src)"
    if "view fs sample_cleanup_path = Some (FileN c 0 l)" for t fs src c l
  proof -
    from that obtain m where "look fs sample_cleanup_path = Some (FileN c m l)" using look_FileN_view by blast
    then show ?thesis by (simp add: read_cleanup_state_def client_step fs_read_def client_prim error_of_Pass delete_parse)
  qed
  from assms publish_ok [of fs "[''s'']" "''cleanup-n-R.toml.tmp''" "''cleanup-n-R.toml''" "''failed to write cleanup state''" "''e''"
      "''failed to atomically update cleanup state''" "Suc t" sample_sources]
  obtain fs1 l where 1: "bind_io (ctx ''failed to write cleanup state'' (fs_write ?tmp ''e''))
      (\<lambda>_. ctx ''failed to atomically update cleanup state'' (fs_rename ?tmp ?path)) (client_at (Suc t) fs sample_sources) =
      (Inr (), client_at (Suc (Suc (Suc t))) fs1 sample_sources)" "view fs1 sample_cleanup_path = Some (FileN ''e'' 0 l)"
    by (auto simp: sample_ready_def)
  have stored: "write_cleanup_state_atomic ?cc sample_cleanup_path sample_cleanup (client_at (Suc t) fs sample_sources) =
      (Inr (), client_at (Suc (Suc (Suc t))) fs1 sample_sources)"
    unfolding write_cleanup_state_atomic_def sample_tmp ser Let_def ser_io_def if_True refl simp_thms map_err_simps lift_Inr
    using 1(1) by simp
  from assms obtain l0 where "view fs sample_cleanup_path = Some (FileN ''c'' 0 l0)" by (auto simp: sample_ready_def)
  note read0 = read [OF this] and read1 = read [OF 1(2)]
  have confirm: "confirm_imports_from_status ?cc sample_cleanup_path sample_imported (client_at t fs sample_sources) =
      (Inr (), client_at (Suc (Suc (Suc t))) fs1 sample_sources)"
    by (simp add: confirm_imports_from_status_def client_step read0 delete_confirm stored)
  have len: "length (cs_entries sample_cleanup) = 1" "cs_entries sample_cleanup ! 0 = hd (cs_entries sample_cleanup)"
    "ce_import_confirmed (hd (cs_entries sample_cleanup))" "\<not> ce_cleaned (hd (cs_entries sample_cleanup))"
    "ce_kind (hd (cs_entries sample_cleanup)) = RegularFile"
    by (simp_all add: sample_cleanup_def)
  have marked: "mark_cleaned 0 sample_cleanup \<noteq> sample_cleanup"
    by (simp add: mark_cleaned_def sample_cleanup_def)
  have "process_cleanup_state_file ?cc sample_cleanup_path (client_at (Suc (Suc (Suc t))) fs1 sample_sources) =
      (Inl (SerializeError ''failed to serialize cleanup state'' ''full''), client_at (Suc (Suc (Suc (Suc (Suc (Suc (Suc (Suc t)))))))) fs1 [([''a''], SourceDir)])"
    by (simp add: process_cleanup_state_file_def client_step read1 len delete_entry write_cleanup_state_atomic_def ser marked)
  with confirm show ?thesis by (simp add: confirm_and_clean_def client_step)
qed

lemma delete_runs:
  assumes "0 < t" "sample_ready ''c'' fs"
  shows "\<exists>x w'. server_run delete_env ''/s'' sample_spec sample_remote_dest ''p'' (Nickname ''n'') (RunId ''R'') sample_manifest
    (Some sample_cleanup_path) Needed (client_at t fs sample_sources) = (x, w') \<and> sources w' = [([''a''], SourceDir)]"
proof -
  let ?n = "Nickname ''n''" and ?r = "RunId ''R''" and ?h = "rd_host sample_remote_dest"
  have setup_ok: "server_setup delete_env h sc Needed (client_at t fs src) = (Inr (), client_at (Suc (Suc t)) fs src)" if "0 < t" for h sc t fs src
  proof -
    from delete_requests(1) [OF that] obtain x where "check_server_version delete_env h sc (client_at t fs src) = (Inr x, client_at (Suc t) fs src)"
      by blast
    then show ?thesis by (simp add: server_setup_def bind_run quietly_def bind_io_def attempt_io_def delete_cmd ret_io_def)
  qed
  from delete_requests(2) [of "Suc (Suc t)"] obtain b where
    begun: "client_begin_run delete_env ?h ''p'' ?n ?r (client_at (Suc (Suc t)) fs sample_sources) = (Inr b, client_at (Suc (Suc (Suc t))) fs sample_sources)"
    by blast
  have staged: "stage_run delete_env sample_spec ?h ''p'' ?n ?r sample_manifest rc b (client_at (Suc (Suc (Suc t))) fs sample_sources) =
      (Inr rc, client_at (Suc (Suc (Suc (Suc (Suc (Suc t)))))) fs sample_sources)" for rc
    by (rule delete_stage) simp
  have healthy: "heartbeat_is_healthy delete_env ?h ''p'' ?n ?r (client_at t fs src) = (Inr (), client_at (Suc t) fs src)" if "0 < t" for t fs src
    using delete_requests(4) [OF that] by (simp add: heartbeat_is_healthy_def client_step) (simp add: delete_env_def sample_env_def client_step)
  have driven: "drive_server_until_terminal delete_env ?h ''p'' ?n ?r (client_at t fs src) = (Inr (sample_answer True), client_at (Suc t) fs src)"
    if "0 < t" for t fs src
  proof -
    have "drive_loop delete_env ?h ''p'' ?n ?r (Suc k) (drive_start ?n ?r) (client_at t fs src) = (Inr (Some (sample_answer True)), client_at (Suc t) fs src)" for k
      by (simp add: client_step drive_step_def drive_polled_def drive_start_def delete_requests(6) [OF that]
         sample_answer_fields finish_worker_after_terminal_def)
    moreover have "ev_polls delete_env = Suc 4" by (simp add: delete_env_def sample_env_def)
    ultimately show ?thesis by (simp only: drive_server_until_terminal_def bind_io_def prod.case sum.case option.case ret_io_def)
  qed
  have status: "read_terminal_status delete_env ?h ''p'' ?n ?r (client_at t fs src) = (Inr sample_imported, client_at (Suc t) fs src)"
    if "0 < t" for t fs src
    using delete_requests(7) [OF that] by (simp add: read_terminal_status_def client_step sample_imported_def sample_status_def)
  have ser: "ev_ser_status delete_env s = Inr ''s''" for s by (simp add: delete_env_def sample_env_def)
  define rc where "rc = \<lparr>rc_purgery_version = PURGERY_VERSION, rc_nickname = ?n, rc_destination = rd_path sample_remote_dest,
    rc_delete_after_import = True\<rparr>"
  obtain t1 fs1 where 1: "persist_client_run_state delete_env ''/s'' ?n ?r ?h ''p'' sample_manifest rc None UploadCompleteFinishPending
      (client_at (Suc (Suc (Suc (Suc (Suc (Suc t)))))) fs sample_sources) = (Inr (), client_at t1 fs1 sample_sources)" "sample_ready ''c'' fs1" "0 < t1"
    using delete_persists [OF assms(2)] by (metis gr_zeroI less_nat_zero_code)
  obtain t2 fs2 where 2: "persist_client_run_state delete_env ''/s'' ?n ?r ?h ''p'' sample_manifest rc None WaitingForTerminalState
      (client_at (Suc (Suc t1)) fs1 sample_sources) = (Inr (), client_at t2 fs2 sample_sources)" "sample_ready ''c'' fs2" "0 < t2"
    using delete_persists [OF 1(2)] by (metis gr_zeroI less_nat_zero_code)
  obtain t3 fs3 where 3: "persist_client_run_state delete_env ''/s'' ?n ?r ?h ''p'' sample_manifest rc (Some ''s'') TerminalStatusSeen
      (client_at (Suc (Suc t2)) fs2 sample_sources) = (Inr (), client_at t3 fs3 sample_sources)" "sample_ready ''c'' fs3"
    using delete_persists [OF 2(2)] by metis
  from delete_cleans [OF 3(2)] obtain e w' where 4: "confirm_and_clean delete_env sample_cleanup_path sample_imported (client_at t3 fs3 sample_sources) = (Inl e, w')"
    "sources w' = [([''a''], SourceDir)]" by blast
  have "server_run delete_env ''/s'' sample_spec sample_remote_dest ''p'' ?n ?r sample_manifest
    (Some sample_cleanup_path) Needed (client_at t fs sample_sources) = (Inl e, w')"
    unfolding server_run_def rc_def [symmetric] Let_def
    by (simp add: client_step setup_ok assms(1) begun staged 1(1,3) healthy delete_requests(5) 2(1,3) driven status ser 3(1) 4(1))
  with 4(2) show ?thesis by blast
qed

theorem server_run_deletes_reported_witness:
  "\<exists>x w'. server_run delete_env ''/s'' sample_spec sample_remote_dest ''p'' (Nickname ''n'') (RunId ''R'') sample_manifest
      (Some sample_cleanup_path) Needed (client_at 1 sample_state_dir sample_sources) = (x, w') \<and>
    src_node sample_sources [''a'', ''x''] \<noteq> None \<and> src_node (sources w') [''a'', ''x''] = None \<and>
    (\<exists>status :: RunStatus. \<exists>st \<in> set (rs_entries status). es_status st = FsImported \<and> rs_run_id status = RunId ''R'')"
proof -
  have ready: "sample_ready ''c'' sample_state_dir"
    using sample_client_facts(1,2) unfolding sample_ready_def
    by (auto simp: view_def look_def sample_state_dir_def)
  from delete_runs [OF _ this, of 1] obtain x w' where
    run: "server_run delete_env ''/s'' sample_spec sample_remote_dest ''p'' (Nickname ''n'') (RunId ''R'') sample_manifest
      (Some sample_cleanup_path) Needed (client_at 1 sample_state_dir sample_sources) = (x, w')" "sources w' = [([''a''], SourceDir)]" by auto
  have gone: "src_node (sources w') [''a'', ''x''] \<noteq> src_node (sources (client_at 1 sample_state_dir sample_sources)) [''a'', ''x'']"
    by (simp add: run(2) src_node_def sample_sources_def)
  have parsed: "parse_cleanup (ev_codecs delete_env) ''c'' = Inr unconfirmed_cleanup" by (simp add: delete_parse)
  have start: "fs_wf (nodes (client_at 1 sample_state_dir sample_sources))" "''/s'' \<noteq> []"
    "view (nodes (client_at 1 sample_state_dir sample_sources)) (cleanup_path_of ''/s'' (Nickname ''n'') (RunId ''R'')) = Some (FileN ''c'' 0 None)"
    using sample_client_facts(1,2) by (simp_all add: sample_names)
  note only = server_run_deletes_reported [OF delete_remote start(2) sample_names(1) start(1,3) parsed delete_reads_back run(1) [folded sample_names(3)] gone]
  from conjunct2 [OF only] have "\<exists>status :: RunStatus. \<exists>st \<in> set (rs_entries status). es_status st = FsImported \<and> rs_run_id status = RunId ''R''" by blast
  with conjunct1 [OF only] run show ?thesis by (auto simp: src_node_def sample_sources_def)
qed

end
