(* ===== verification/Record_Samples.thy ===== *)
theory Record_Samples
  imports Client_Record Client_Resume Delete_Samples
begin

text \<open>A client whose state files hold only the phase, and instances of the refinement theorems on it.\<close>

definition sample_state :: "ClientRunPhase \<Rightarrow> ClientRunState" where
  "sample_state ph = \<lparr>cr_protocol_version = PROTOCOL_VERSION, cr_purgery_version = PURGERY_VERSION, cr_nickname = ''n'',
     cr_run_id = ''R'', cr_host = ''h'', cr_server_command = ''p'', cr_manifest = ''m'', cr_run_config = ''c'',
     cr_phase = ph, cr_terminal_status = None\<rparr>"

definition phase_text :: "ClientRunPhase \<Rightarrow> string" where
  "phase_text ph = (case ph of UploadCompleteFinishPending \<Rightarrow> ''u'' | WaitingForTerminalState \<Rightarrow> ''w'' | TerminalStatusSeen \<Rightarrow> ''t''
     | CleanupComplete \<Rightarrow> ''c'' | Abandoned \<Rightarrow> ''a'' | CorruptPhase \<Rightarrow> ''x'')"

definition text_phase :: "string \<Rightarrow> ClientRunPhase" where
  "text_phase t = (if t = ''u'' then UploadCompleteFinishPending else if t = ''w'' then WaitingForTerminalState
     else if t = ''t'' then TerminalStatusSeen else if t = ''c'' then CleanupComplete else if t = ''a'' then Abandoned else CorruptPhase)"

definition record_env :: client_env where
  "record_env = sample_env
     \<lparr>ev_ser_client_state := (\<lambda>s. Inr (phase_text (cr_phase s))), ev_de_client_state := (\<lambda>t. Inr (sample_state (text_phase t)))\<rparr>"

lemma record_serde: "serde_phase record_env"
proof -
  have "text_phase (phase_text ph) = ph" for ph by (cases ph) (simp_all add: text_phase_def phase_text_def)
  then show ?thesis by (simp add: serde_phase_def record_env_def sample_state_def)
qed

lemma record_remote: "remote_elsewhere record_env"
  using sample_remote by (simp add: remote_elsewhere_def record_env_def)

definition record_disk :: fs where
  "record_disk = [([''s''], DirN 0), ([''s'', ''runs''], DirN 0), (sample_run_dir, DirN 0),
     (sample_run_dir @ [''state.toml''], FileN ''c'' 0 None)]"

lemma record_durable: "durable record_env ''/s'' (Nickname ''n'') (RunId ''R'') (client_at 0 record_disk []) = Some CleanupComplete"
  by (simp add: durable_def sample_names record_disk_def view_def look_def client_at_def sample_at_def record_env_def sample_state_def text_phase_def)

lemma record_resumed:
  "\<exists>w'. drain_one record_env ''/s'' (sample_state CleanupComplete) (client_at 0 record_disk []) = (Inr (), w')"
proof -
  have names: "Nickname_new ''n'' = Inr (Nickname ''n'')" "RunId_new ''R'' = Inr (RunId ''R'')" by code_simp+
  have gates: "\<exists>m. gated ''manifest'' mf_purgery_version (ev_de_manifest record_env) ''m'' = Inr m"
    "\<exists>c. gated ''run config'' rc_purgery_version (ev_de_run_config record_env) ''c'' = Inr c"
    by (simp_all add: gated_def record_env_def sample_env_def bind_res_def sample_manifest_def sample_run_config_def current_accepted)
  have fields: "cr_nickname (sample_state ph) = ''n''" "cr_run_id (sample_state ph) = ''R''" "cr_manifest (sample_state ph) = ''m''"
    "cr_run_config (sample_state ph) = ''c''" "cr_phase (sample_state ph) = ph" for ph by (simp_all add: sample_state_def)
  have "view record_disk sample_cleanup_path = None" by (simp add: record_disk_def view_def look_def)
  then have absent: "look record_disk sample_cleanup_path = None" by (simp add: look_None_view)
  from gates show ?thesis
    by (auto simp: drain_one_def fields names client_step finish_cleanup_complete_resume_def sample_names fs_exists_def client_prim absent
        remove_client_run_state_def quietly_def split: prod.split)
qed

theorem resume_refines_protocol_witness:
  "\<exists>w'. drain_one record_env ''/s'' (sample_state CleanupComplete) (client_at 0 record_disk []) = (Inr (), w') \<and>
     (run_protocol record_env ''h'' ''p'' (Nickname ''n'') (RunId ''R''))\<^sup>*\<^sup>* (Some CleanupComplete)
       (durable record_env ''/s'' (Nickname ''n'') (RunId ''R'') w')"
proof -
  obtain w' where run: "drain_one record_env ''/s'' (sample_state CleanupComplete) (client_at 0 record_disk []) = (Inr (), w')"
    using record_resumed by blast
  have names: "Nickname_new (cr_nickname (sample_state CleanupComplete)) = Inr (Nickname ''n'')"
    "RunId_new (cr_run_id (sample_state CleanupComplete)) = Inr (RunId ''R'')" unfolding sample_state_def by code_simp+
  have state: "cr_phase (sample_state ph) = ph" "cr_host (sample_state ph) = ''h''" "cr_server_command (sample_state ph) = ''p''" for ph
    by (simp_all add: sample_state_def)
  from resume_refines_protocol [OF record_serde record_remote _ names _ run] record_durable run show ?thesis
    by (auto simp: state)
qed

theorem run_refines_protocol_witness:
  "\<exists>x w'. server_run record_env ''/s'' sample_spec sample_remote_dest ''p'' (Nickname ''n'') (RunId ''R'') sample_manifest None Needed
      (client_at 0 [([''s''], DirN 0)] []) = (x, w') \<and>
     (run_protocol record_env ''h'' ''p'' (Nickname ''n'') (RunId ''R''))\<^sup>*\<^sup>* None (durable record_env ''/s'' (Nickname ''n'') (RunId ''R'') w')"
proof -
  obtain x w' where run: "server_run record_env ''/s'' sample_spec sample_remote_dest ''p'' (Nickname ''n'') (RunId ''R'') sample_manifest None Needed
      (client_at 0 [([''s''], DirN 0)] []) = (x, w')" by (metis surj_pair)
  have start: "durable record_env ''/s'' (Nickname ''n'') (RunId ''R'') (client_at 0 [([''s''], DirN 0)] []) = None"
    by (simp add: durable_def sample_names view_def look_def client_at_def sample_at_def)
  from run_refines_protocol [OF record_serde record_remote _ sample_names(1) _ start run] run show ?thesis
    by (auto simp: sample_remote_dest_def)
qed


section \<open>Taking up earlier runs\<close>

text \<open>A client that cannot decode the state: the run is corrupt, and the sync is refused.\<close>

theorem failed_resume_refuses_sync_witness:
  "\<exists>w'. run_sync_with_run_id sample_env direct_args (RunId ''R'') Needed (client_at 0 record_disk []) =
     (Inl (Bail ''failed to resume one or more prior run states; refusing to start new sync''), w')"
proof -
  define t :: nat where "t = Suc (Suc (Suc 0))"
  have disk: "look record_disk [''s''] = Some (DirN 0)" "look record_disk [''s'', ''runs''] = Some (DirN 0)"
    "children [''s''] record_disk = [''runs'']" "children [''s'', ''runs''] record_disk = [''n-R'']" "ancestors [''s''] = [[''s'']]"
    unfolding record_disk_def by code_simp+
  have other: "\<not> cleanup_name ''runs''" by code_simp
  have 1: "resume_pending_cleanups (ev_codecs sample_env) ''/s'' (client_at 0 record_disk []) = (Inr (), client_at t record_disk [])"
    by (simp add: t_def resume_pending_cleanups_def state_dir_path_def client_step sample_operands fs_create_dir_all_def fs_exists_def
        fs_read_dir_def client_prim error_of_Pass disk resume_one_def other)
  have 2: "fs_is_dir [''s'', ''runs''] (client_at t record_disk []) = (Inr True :: (server_error, bool) result, client_at (Suc t) record_disk [])"
    by (simp add: fs_is_dir_def client_prim disk is_dir_node_def)
  have 3: "fs_read_dir [''s'', ''runs''] (client_at (Suc t) record_disk []) = (Inr [''n-R''], client_at (Suc (Suc t)) record_disk [])"
    by (simp add: fs_read_dir_def client_prim disk error_of_Pass)
  obtain y w' where run: "run_sync_with_run_id sample_env direct_args (RunId ''R'') Needed (client_at 0 record_disk []) = (y, w')"
    by (metis surj_pair)
  have "[''s'', ''runs''] = fpath_of (path_join ''/s'' ''runs'')" by (simp add: sample_operands)
  from failed_resume_refuses_sync [OF run sample_operands(6) [symmetric] this 1 2 3] obtain bads ws where
    r: "length bads = 1" "ws ! 0 = client_at (Suc (Suc t)) record_disk []" "settled sample_env ''/s'' sample_run_dir (ws ! 0) (bads ! 0) (ws ! 1)"
    "True \<in> set bads \<longrightarrow> y = Inl (Bail ''failed to resume one or more prior run states; refusing to start new sync'')"
    by auto
  have "look record_disk (sample_run_dir @ [''state.toml'']) = Some (FileN ''c'' 0 None)"
    unfolding record_disk_def by code_simp
  then have "readable_state (ws ! 0) sample_run_dir = Some ''c''"
    by (simp add: r(2) readable_state_def client_at_def sample_at_def error_of_def)
  moreover have "ev_codecs sample_env = sample_client_codecs" "ev_de_client_state sample_env ''c'' = Inl []"
    by (simp_all add: sample_env_def)
  then have "judge_run_state sample_env ''c'' = StateCorrupt"
    by (simp add: judge_run_state_def probe_purgery_version_from_toml_def sample_client_codecs_def version_field_def
        bind_res_def current_accepted)
  ultimately have "bads ! 0" using r(3) by (simp add: settled_def)
  with r(1,4) run show ?thesis by (auto simp: length_Suc_conv)
qed

end
