(* ===== verification/Server_Main.thy ===== *)
theory Server_Main
  imports Process Server_Ops
begin

text \<open>
  The command line of the server (\<open>purgery-server/src/main.rs\<close>): finding and loading the configuration,
  the commands, and what each prints and exits with. The parsing of arguments is the \<open>clap\<close> crate's, the
  set-up of logging that of \<open>tracing\<close>: both are arguments, the second as \<open>sv_init_logging\<close>. Messages on
  standard error are left out; \<open>sv_show\<close> gives the text of an error with its causes.
\<close>

section \<open>Arguments\<close>

datatype Command =
    VersionCommand
  | ProcessOnceCommand
  | BeginRunCommand string string
  | FinishRunCommand string string
  | StatusCommand string string
  | CheckCommand
  | BootstrapCommand
  | GcCommand
  | PrepareRunCommand string string
  | HeartbeatRunCommand string string
  | RunStateCommand string string
  | ProcessRunCommand string string

record Cli =
  cli_config :: "string option"
  cli_log_level :: "string option"
  cli_log_format :: "string option"
  cli_color :: "string option"
  cli_quiet :: bool
  cli_verbose :: bool
  cli_command :: Command

definition is_protocol_command :: "Command \<Rightarrow> bool" where
  "is_protocol_command cmd =
     (case cmd of
        BeginRunCommand _ _ \<Rightarrow> True | PrepareRunCommand _ _ \<Rightarrow> True | FinishRunCommand _ _ \<Rightarrow> True | HeartbeatRunCommand _ _ \<Rightarrow> True
      | RunStateCommand _ _ \<Rightarrow> True | StatusCommand _ _ \<Rightarrow> True | ProcessRunCommand _ _ \<Rightarrow> True | _ \<Rightarrow> False)"

definition command_name :: "Command \<Rightarrow> string" where
  "command_name cmd =
     (case cmd of
        BeginRunCommand _ _ \<Rightarrow> ''begin-run''
      | PrepareRunCommand _ _ \<Rightarrow> ''prepare-run''
      | FinishRunCommand _ _ \<Rightarrow> ''finish-run''
      | HeartbeatRunCommand _ _ \<Rightarrow> ''heartbeat-run''
      | RunStateCommand _ _ \<Rightarrow> ''run-state''
      | StatusCommand _ _ \<Rightarrow> ''status''
      | ProcessRunCommand _ _ \<Rightarrow> ''process-run''
      | VersionCommand \<Rightarrow> ''version''
      | ProcessOnceCommand \<Rightarrow> ''process-once''
      | CheckCommand \<Rightarrow> ''check''
      | BootstrapCommand \<Rightarrow> ''bootstrap''
      | GcCommand \<Rightarrow> ''gc'')"

section \<open>The configuration\<close>

record server_env =
  sv_codecs :: codecs
  sv_payload :: payload_ops
  sv_de_config :: "ServerConfigFile decoder"
  sv_ser_error :: "ProtocolErrorResponse encoder"
  sv_ser_run_state :: "RunStateResponse encoder"
  sv_ser_process :: "ProcessRunResponse encoder"
  sv_init_logging :: "LoggingConfig \<Rightarrow> (string, unit) result"
  sv_show :: "server_error \<Rightarrow> string"
  sv_vars :: "string \<Rightarrow> string option"
  sv_stat :: stat_fun
  sv_cwd :: "(io_error, string) result"
  sv_handle :: nat

definition load_server_config :: "server_env \<Rightarrow> string \<Rightarrow> ServerConfig server" where
  "load_server_config sv config_path =
     bind_io (ctx ''failed to read server config'' (fs_read (fpath_of config_path))) (\<lambda>config_content.
       bail ''failed to parse server config'' (server_config_from_toml (sv_de_config sv) (sv_vars sv ''HOME'') config_content))"

text \<open>A variable that is set to something.\<close>

definition set_var :: "server_env \<Rightarrow> string \<Rightarrow> string option" where
  "set_var sv v = (case sv_vars sv v of Some s \<Rightarrow> if s = [] then None else Some s | None \<Rightarrow> None)"

text \<open>The candidates for the configuration, in order.\<close>

definition config_candidates :: "server_env \<Rightarrow> string list" where
  "config_candidates sv =
     (case set_var sv ''XDG_CONFIG_HOME'' of Some d \<Rightarrow> [d @ ''/purgery/server.toml''] | None \<Rightarrow> []) @
     (case set_var sv ''HOME'' of Some d \<Rightarrow> [d @ ''/.config/purgery/server.toml''] | None \<Rightarrow> []) @
     [''/etc/purgery/server.toml'']"

fun first_present :: "string list \<Rightarrow> string server" where
  "first_present [] = fail_io (Bail ''no server config found'')"
| "first_present (p # ps) = bind_io (fs_exists (fpath_of p)) (\<lambda>ex. if ex then ret_io p else first_present ps)"

definition find_config :: "server_env \<Rightarrow> string server" where
  "find_config sv =
     (case set_var sv ''PURGERY_SERVER_CONFIG_PATH'' of
        Some path \<Rightarrow> ret_io path
      | None \<Rightarrow> first_present (config_candidates sv))"

definition apply_cli_overrides :: "Cli \<Rightarrow> LoggingConfig \<Rightarrow> (server_error, LoggingConfig) result" where
  "apply_cli_overrides cli log_cfg =
     (let cfg1 = (if cli_quiet cli then log_cfg\<lparr>lc_level := LevelError\<rparr> else log_cfg);
          cfg2 = (if cli_verbose cli then cfg1\<lparr>lc_level := LevelDebug\<rparr> else cfg1)
      in
      bind_res
        (case cli_log_level cli of
           None \<Rightarrow> Inr cfg2
         | Some level \<Rightarrow> bind_res (map_err (\<lambda>_. Bail ''invalid log level'') (log_level_from_str level))
             (\<lambda>l. Inr (cfg2\<lparr>lc_level := l\<rparr>))) (\<lambda>cfg3.
      bind_res
        (case cli_log_format cli of
           None \<Rightarrow> Inr cfg3
         | Some fmt \<Rightarrow> bind_res (map_err (\<lambda>_. Bail ''invalid log format'') (log_format_from_str fmt))
             (\<lambda>f. Inr (cfg3\<lparr>lc_format := f\<rparr>))) (\<lambda>cfg4.
        (case cli_color cli of
           None \<Rightarrow> Inr cfg4
         | Some color \<Rightarrow> bind_res (map_err (\<lambda>_. Bail ''invalid color mode'') (color_mode_from_str color))
             (\<lambda>c. Inr (cfg4\<lparr>lc_color := c\<rparr>))))))"

definition load_config_and_logging :: "server_env \<Rightarrow> Cli \<Rightarrow> (ServerConfig \<times> LoggingConfig) server" where
  "load_config_and_logging sv cli =
     (let config_path = (case cli_config cli of Some p \<Rightarrow> p | None \<Rightarrow> []) in
      bind_io (if config_path = [] then find_config sv else ret_io config_path) (\<lambda>path.
      bind_io (load_server_config sv path) (\<lambda>server_config.
      bind_io (lift_res (apply_cli_overrides cli (sc_logging server_config))) (\<lambda>log_cfg.
        ret_io (server_config, log_cfg)))))"

section \<open>Exits\<close>

text \<open>An exit is its code and what was printed on standard output.\<close>

definition error_envelope :: "server_env \<Rightarrow> string \<Rightarrow> server_error \<Rightarrow> string \<Rightarrow> ProtocolErrorResponse" where
  "error_envelope sv command err code =
     \<lparr>pe_protocol_version = PROTOCOL_VERSION, pe_purgery_version = PURGERY_VERSION, pe_command = command,
      pe_ok = False, pe_error = \<lparr>pe_code = code, pe_message = sv_show sv err\<rparr>\<rparr>"

definition exit_with_protocol_error :: "server_env \<Rightarrow> string \<Rightarrow> server_error \<Rightarrow> string \<Rightarrow> int \<times> string" where
  "exit_with_protocol_error sv command err code =
     (1, case sv_ser_error sv (error_envelope sv command err code) of Inr text \<Rightarrow> text | Inl _ \<Rightarrow> [])"

text \<open>A protocol command: it prints its answer, or the envelope of its error.\<close>

definition run_protocol :: "server_env \<Rightarrow> string \<Rightarrow> string \<Rightarrow> string server \<Rightarrow> (int \<times> string) server" where
  "run_protocol sv command code f =
     bind_io (attempt_io f) (\<lambda>r. ret_io (case r of Inr out \<Rightarrow> (0, out) | Inl e \<Rightarrow> exit_with_protocol_error sv command e code))"

text \<open>Any other command: an error is the exit code 1.\<close>

definition run_plain :: "unit server \<Rightarrow> (int \<times> string) server" where
  "run_plain f = bind_io (attempt_io f) (\<lambda>r. ret_io (if is_ok r then 0 else 1, []))"

definition protocol_error_code :: "string \<Rightarrow> string" where
  "protocol_error_code command = (if command = ''prepare-run'' then ''run_plan_invalid'' else ''server_error'')"

definition validate_nickname_and_run_id ::
    "server_env \<Rightarrow> string \<Rightarrow> string \<Rightarrow> string \<Rightarrow> (int \<times> string, Nickname \<times> RunId) result" where
  "validate_nickname_and_run_id sv command nickname run_id =
     (case Nickname_new nickname of
        Inl _ \<Rightarrow> Inl (exit_with_protocol_error sv command (Bail ''invalid nickname'') ''invalid_request'')
      | Inr n \<Rightarrow>
        (case RunId_new run_id of
           Inl _ \<Rightarrow> Inl (exit_with_protocol_error sv command (Bail ''invalid run ID'') ''invalid_request'')
         | Inr r \<Rightarrow> Inr (n, r)))"

text \<open>The common shape of the commands about one run.\<close>

definition run_command ::
    "server_env \<Rightarrow> string \<Rightarrow> string \<Rightarrow> string \<Rightarrow> string \<Rightarrow> (Nickname \<Rightarrow> RunId \<Rightarrow> string server) \<Rightarrow> (int \<times> string) server" where
  "run_command sv command code nickname run_id f =
     (case validate_nickname_and_run_id sv command nickname run_id of
        Inl e \<Rightarrow> ret_io e
      | Inr (n, r) \<Rightarrow> run_protocol sv command code (f n r))"

definition path_var :: "server_env \<Rightarrow> string" where
  "path_var sv = (case sv_vars sv ''PATH'' of Some p \<Rightarrow> p | None \<Rightarrow> [])"

text \<open>The version command is answered before the configuration is loaded; here it would be a panic.\<close>

definition dispatch :: "server_env \<Rightarrow> ServerConfig \<Rightarrow> Command \<Rightarrow> (int \<times> string) server" where
  "dispatch sv config cmd =
     (let cod = sv_codecs sv; pl = sv_payload sv; h = sv_handle sv; check = server_check (sv_stat sv) (path_var sv) config in
      case cmd of
        VersionCommand \<Rightarrow> fail_io (Bail ''panic'')
      | ProcessOnceCommand \<Rightarrow> run_plain (bind_io check (\<lambda>_. process_once_raw cod pl config h))
      | BeginRunCommand n r \<Rightarrow> run_command sv ''begin-run'' ''server_error'' n r (begin_run cod config)
      | FinishRunCommand n r \<Rightarrow> run_command sv ''finish-run'' ''server_error'' n r
          (\<lambda>nickname run_id. bind_io (finish_run cod config nickname run_id) (\<lambda>_. ret_io []))
      | StatusCommand n r \<Rightarrow> run_command sv ''status'' ''server_error'' n r
          (\<lambda>nickname run_id. bind_io (read_run_status cod config nickname run_id) (\<lambda>status.
             bail ''failed to serialize status'' (run_status_to_toml (cd_ser_status cod) status)))
      | CheckCommand \<Rightarrow> run_plain check
      | BootstrapCommand \<Rightarrow> run_plain (bootstrap config)
      | GcCommand \<Rightarrow> run_plain (run_gc cod config h)
      | PrepareRunCommand n r \<Rightarrow> run_command sv ''prepare-run'' (protocol_error_code ''prepare-run'') n r (prepare_run cod (sv_cwd sv) config)
      | HeartbeatRunCommand n r \<Rightarrow> run_command sv ''heartbeat-run'' ''server_error'' n r
          (\<lambda>nickname run_id. bind_io (heartbeat_run cod config nickname run_id) (\<lambda>_. ret_io []))
      | RunStateCommand n r \<Rightarrow> run_command sv ''run-state'' ''server_error'' n r
          (\<lambda>nickname run_id. bind_io (run_state cod h config nickname run_id) (\<lambda>response.
             ser_io ''failed to serialize run state'' (sv_ser_run_state sv response)))
      | ProcessRunCommand n r \<Rightarrow> run_command sv ''process-run'' ''server_error'' n r
          (\<lambda>nickname run_id. bind_io check (\<lambda>_. bind_io (process_run_target cod pl config h nickname run_id) (\<lambda>response.
             bind_io (ser_io ''failed to serialize process-run response'' (sv_ser_process sv response)) (\<lambda>t.
               ret_io (t @ [CHR 0x0A]))))))"

definition server_main :: "server_env \<Rightarrow> Cli \<Rightarrow> (int \<times> string) server" where
  "server_main sv cli =
     (let cmd = cli_command cli;
          invalid = (\<lambda>e. ret_io (if is_protocol_command cmd
            then exit_with_protocol_error sv (command_name cmd) e ''server_config_invalid'' else (1, [])))
      in
      if cmd = VersionCommand then ret_io (0, version_response)
      else
        bind_io (attempt_io (load_config_and_logging sv cli)) (\<lambda>r.
          case r of
            Inl e \<Rightarrow> invalid e
          | Inr (server_config, log_cfg) \<Rightarrow>
              (case sv_init_logging sv log_cfg of
                 Inl _ \<Rightarrow> invalid (Bail ''failed to initialize logging'')
               | Inr _ \<Rightarrow> dispatch sv server_config cmd)))"

end
