(* ===== verification/Wire.thy ===== *)
theory Wire
  imports Server_Main Drive_Laws Server_Laws
begin

text \<open>
  The client's requests over the server's command line: what one side prints is what the other side
  reads, so that a remote command is a call of the server's operation, and what the client is told about
  a run is what is on the server's disk.
\<close>

section \<open>A protocol command as a call\<close>

text \<open>The operation behind a protocol command, with its answer as printed.\<close>

definition protocol_operation :: "server_env \<Rightarrow> ServerConfig \<Rightarrow> Command \<Rightarrow> Nickname \<Rightarrow> RunId \<Rightarrow> string server" where
  "protocol_operation sv config cmd n r =
     (let cod = sv_codecs sv in
      case cmd of
        BeginRunCommand _ _ \<Rightarrow> begin_run cod config n r
      | FinishRunCommand _ _ \<Rightarrow> bind_io (finish_run cod config n r) (\<lambda>_. ret_io [])
      | StatusCommand _ _ \<Rightarrow> bind_io (read_run_status cod config n r) (\<lambda>status.
          bail ''failed to serialize status'' (run_status_to_toml (cd_ser_status cod) status))
      | PrepareRunCommand _ _ \<Rightarrow> prepare_run cod (sv_cwd sv) config n r
      | HeartbeatRunCommand _ _ \<Rightarrow> bind_io (heartbeat_run cod config n r) (\<lambda>_. ret_io [])
      | RunStateCommand _ _ \<Rightarrow> bind_io (run_state cod (sv_handle sv) config n r) (\<lambda>response.
          ser_io ''failed to serialize run state'' (sv_ser_run_state sv response))
      | ProcessRunCommand _ _ \<Rightarrow> bind_io (server_check (sv_stat sv) (path_var sv) config) (\<lambda>_.
          bind_io (process_run_target cod (sv_payload sv) config (sv_handle sv) n r) (\<lambda>response.
          bind_io (ser_io ''failed to serialize process-run response'' (sv_ser_process sv response)) (\<lambda>t.
            ret_io (t @ [CHR 0x0A]))))
      | _ \<Rightarrow> fail_io (Bail ''panic''))"

definition command_names :: "Command \<Rightarrow> string \<times> string" where
  "command_names cmd =
     (case cmd of
        BeginRunCommand n r \<Rightarrow> (n, r) | FinishRunCommand n r \<Rightarrow> (n, r) | StatusCommand n r \<Rightarrow> (n, r) | PrepareRunCommand n r \<Rightarrow> (n, r)
      | HeartbeatRunCommand n r \<Rightarrow> (n, r) | RunStateCommand n r \<Rightarrow> (n, r) | ProcessRunCommand n r \<Rightarrow> (n, r) | _ \<Rightarrow> ([], []))"

text \<open>The specification of a call: configuration, names, operation, and the first error of them.\<close>

definition protocol_call :: "server_env \<Rightarrow> Cli \<Rightarrow> string server" where
  "protocol_call sv cli =
     bind_io (load_config_and_logging sv cli) (\<lambda>(config, log_cfg).
     bind_io (bail ''failed to initialize logging'' (sv_init_logging sv log_cfg)) (\<lambda>_.
     bind_io (bail ''invalid nickname'' (Nickname_new (fst (command_names (cli_command cli))))) (\<lambda>n.
     bind_io (bail ''invalid run ID'' (RunId_new (snd (command_names (cli_command cli))))) (\<lambda>r.
       protocol_operation sv config (cli_command cli) n r))))"

text \<open>How the call comes out on the command line.\<close>

definition printed :: "server_env \<Rightarrow> string \<Rightarrow> (server_error, string) result \<Rightarrow> int \<times> string \<Rightarrow> bool" where
  "printed sv command y e \<longleftrightarrow>
     (case y of
        Inr out \<Rightarrow> e = (0, out)
      | Inl err \<Rightarrow> \<exists>code \<in> {''invalid_request'', ''server_config_invalid'', ''run_plan_invalid'', ''server_error''}.
          e = exit_with_protocol_error sv command err code)"

lemma printed_simps [simp]:
  "printed sv c (Inr out) e \<longleftrightarrow> e = (0, out)"
  "code \<in> {''invalid_request'', ''server_config_invalid'', ''run_plan_invalid'', ''server_error''} \<Longrightarrow>
    printed sv c (Inl err) (exit_with_protocol_error sv c err code)"
  by (auto simp: printed_def)

lemma run_protocol_prints:
  assumes "f u = (y, u')" "code \<in> {''run_plan_invalid'', ''server_error''}"
  shows "\<exists>e. run_protocol sv command code f u = (Inr e, u') \<and> printed sv command y e"
  using assms by (cases y) (auto simp: run_protocol_def bind_io_def attempt_io_def ret_io_def)

lemma run_command_prints:
  assumes "bind_io (bail ''invalid nickname'' (Nickname_new n)) (\<lambda>n. bind_io (bail ''invalid run ID'' (RunId_new r)) (f n)) u = (y, u')"
    and "code \<in> {''run_plan_invalid'', ''server_error''}"
  shows "\<exists>e. run_command sv command code n r f u = (Inr e, u') \<and> printed sv command y e"
proof (cases "Nickname_new n")
  case (Inl e)
  with assms(1) show ?thesis
    by (auto simp: run_command_def validate_nickname_and_run_id_def bail_def bind_io_def lift_res_def ret_io_def)
next
  case (Inr a)
  note n = this
  show ?thesis
  proof (cases "RunId_new r")
    case (Inl e)
    with n assms(1) show ?thesis
      by (auto simp: run_command_def validate_nickname_and_run_id_def bail_def bind_io_def lift_res_def ret_io_def)
  next
    case (Inr b)
    with n assms(1) have "f a b u = (y, u')" by (simp add: bail_def bind_io_def lift_res_def)
    from run_protocol_prints [where f = "f a b", OF this assms(2)] n Inr show ?thesis
      by (simp add: run_command_def validate_nickname_and_run_id_def)
  qed
qed

lemma dispatch_prints:
  assumes "is_protocol_command cmd"
    and "bind_io (bail ''invalid nickname'' (Nickname_new (fst (command_names cmd)))) (\<lambda>n.
      bind_io (bail ''invalid run ID'' (RunId_new (snd (command_names cmd)))) (protocol_operation sv config cmd n)) u = (y, u')"
  shows "\<exists>e. dispatch sv config cmd u = (Inr e, u') \<and> printed sv (command_name cmd) y e"
  using assms
  by (cases cmd; simp only: is_protocol_command_def Command.case dispatch_def Let_def command_name_def command_names_def
        fst_conv snd_conv protocol_operation_def [abs_def])
    (rule run_command_prints; simp add: protocol_error_code_def)+

lemma server_main_prints:
  assumes "is_protocol_command (cli_command cli)" "protocol_call sv cli u = (y, u')"
  shows "\<exists>e. server_main sv cli u = (Inr e, u') \<and> printed sv (command_name (cli_command cli)) y e"
proof -
  let ?cmd = "cli_command cli"
  have v: "?cmd \<noteq> VersionCommand" using assms(1) by (auto simp: is_protocol_command_def)
  obtain c v where 1: "load_config_and_logging sv cli u = (c, v)" by (metis surj_pair)
  show ?thesis
  proof (cases c)
    case (Inl e)
    with 1 assms v show ?thesis
      by (auto simp: server_main_def protocol_call_def Let_def bind_io_def attempt_io_def ret_io_def)
  next
    case (Inr cl)
    obtain config log_cfg where cl: "cl = (config, log_cfg)" by (cases cl)
    show ?thesis
    proof (cases "sv_init_logging sv log_cfg")
      case (Inl e)
      with 1 Inr cl assms v show ?thesis
        by (auto simp: server_main_def protocol_call_def Let_def bind_io_def attempt_io_def ret_io_def bail_def lift_res_def)
    next
      case (Inr l)
      with 1 \<open>c = Inr cl\<close> cl assms(2) have "bind_io (bail ''invalid nickname'' (Nickname_new (fst (command_names ?cmd)))) (\<lambda>n.
        bind_io (bail ''invalid run ID'' (RunId_new (snd (command_names ?cmd)))) (protocol_operation sv config ?cmd n)) v = (y, u')"
        by (simp add: protocol_call_def bind_io_def [of "load_config_and_logging sv cli"] bind_io_def [of "bail ''failed to initialize logging'' _"]
            bail_def [of "''failed to initialize logging''"] lift_res_def)
      from dispatch_prints [OF assms(1) this] 1 \<open>c = Inr cl\<close> cl Inr v show ?thesis
        by (simp add: server_main_def Let_def bind_io_def attempt_io_def)
    qed
  qed
qed


section \<open>Text\<close>

text \<open>
  Well-formed UTF-8, as the standard has it: the ranges that the bytes after a leading byte are in.
\<close>

definition utf8_lead :: "char \<Rightarrow> (char \<times> char) list option" where
  "utf8_lead c =
     (let tail = (CHR 0x80, CHR 0xBF) in
      if c < CHR 0x80 then Some []
      else if CHR 0xC2 \<le> c \<and> c \<le> CHR 0xDF then Some [tail]
      else if c = CHR 0xE0 then Some [(CHR 0xA0, CHR 0xBF), tail]
      else if c = CHR 0xED then Some [(CHR 0x80, CHR 0x9F), tail]
      else if CHR 0xE1 \<le> c \<and> c \<le> CHR 0xEF then Some [tail, tail]
      else if c = CHR 0xF0 then Some [(CHR 0x90, CHR 0xBF), tail, tail]
      else if c = CHR 0xF4 then Some [(CHR 0x80, CHR 0x8F), tail, tail]
      else if CHR 0xF1 \<le> c \<and> c \<le> CHR 0xF3 then Some [tail, tail, tail]
      else None)"

fun utf8_from :: "(char \<times> char) list \<Rightarrow> string \<Rightarrow> bool" where
  "utf8_from rs [] \<longleftrightarrow> rs = []"
| "utf8_from [] (c # s) \<longleftrightarrow> (case utf8_lead c of None \<Rightarrow> False | Some rs \<Rightarrow> utf8_from rs s)"
| "utf8_from ((lo, hi) # rs) (c # s) \<longleftrightarrow> lo \<le> c \<and> c \<le> hi \<and> utf8_from rs s"

abbreviation utf8_ok :: "string \<Rightarrow> bool" where
  "utf8_ok \<equiv> utf8_from []"

lemma utf8_append: "utf8_from rs s \<Longrightarrow> utf8_ok t \<Longrightarrow> utf8_from rs (s @ t)"
  by (induction rs s rule: utf8_from.induct) (auto split: option.splits)

text \<open>What a remote operation answers is text: every encoder of an answer gives text.\<close>

definition text_encoder :: "'a encoder \<Rightarrow> bool" where
  "text_encoder ser \<longleftrightarrow> (\<forall>a t. ser a = Inr t \<longrightarrow> utf8_ok t)"

definition gives :: "('a \<Rightarrow> bool) \<Rightarrow> ('e, 'a) io \<Rightarrow> bool" where
  "gives P m \<longleftrightarrow> (\<forall>w a w'. m w = (Inr a, w') \<longrightarrow> P a)"

lemma gives_intros:
  "gives P (fail_io e)" "P a \<Longrightarrow> gives P (ret_io a)" "(\<And>a. gives P (f a)) \<Longrightarrow> gives P (bind_io m f)"
  "text_encoder ser \<Longrightarrow> gives utf8_ok (ser_io msg (ser x))"
  by (auto simp: gives_def fail_io_def ret_io_def bind_ok ser_io_def lift_ok Inr_map_err map_err_Inr_iff text_encoder_def)

lemma gives_cases:
  "(\<And>e. gives P (f e)) \<Longrightarrow> (\<And>a. gives P (g a)) \<Longrightarrow> gives P (case x of Inl e \<Rightarrow> f e | Inr a \<Rightarrow> g a)"
  "gives P a \<Longrightarrow> gives P b \<Longrightarrow> gives P (if c then a else b)"
  "(\<And>a b. gives P (h a b)) \<Longrightarrow> gives P (case p of (a, b) \<Rightarrow> h a b)"
  by (auto split: sum.split prod.split)

lemma begin_run_text: "text_encoder (cd_ser_begin cod) \<Longrightarrow> gives utf8_ok (begin_run cod config n r)"
proof -
  assume ser: "text_encoder (cd_ser_begin cod)"
  have written: "gives utf8_ok (case cd_ser_begin cod b of Inl e \<Rightarrow> f e | Inr response \<Rightarrow> ret_io response)"
    if "\<And>e. gives utf8_ok (f e)" for b and f :: "string \<Rightarrow> string server"
    using ser that by (auto simp: text_encoder_def intro: gives_intros split: sum.split)
  then show ?thesis unfolding begin_run_def Let_def by (intro written gives_intros gives_cases)
qed

lemma prepare_run_text: "text_encoder (cd_ser_prepare cod) \<Longrightarrow> gives utf8_ok (prepare_run cod cwd config n r)"
  unfolding prepare_run_def Let_def by (intro gives_intros gives_cases)

section \<open>The client at the other end\<close>

text \<open>
  What the wire is asked for. \<open>from_utf8_lossy\<close> leaves well-formed text as it is; nothing is said of other bytes.
  The encoders give text. The envelope of an error, where it can be written, is read back as it was.
\<close>

definition wire_ok :: "server_env \<Rightarrow> client_env \<Rightarrow> bool" where
  "wire_ok sv ev \<longleftrightarrow> (\<forall>t. utf8_ok t \<longrightarrow> ev_text ev t = t) \<and>
     text_encoder (cd_ser_begin (sv_codecs sv)) \<and> text_encoder (cd_ser_prepare (sv_codecs sv)) \<and> text_encoder (cd_ser_status (sv_codecs sv)) \<and>
     text_encoder (sv_ser_run_state sv) \<and> text_encoder (sv_ser_process sv) \<and> text_encoder (sv_ser_error sv) \<and>
     (\<forall>e t. sv_ser_error sv e = Inr t \<longrightarrow> ev_de_error ev t = Inr e)"

lemma operation_text:
  assumes "wire_ok sv ev"
  shows "gives utf8_ok (protocol_operation sv config cmd n r)"
proof -
  have status: "gives utf8_ok (bail msg (run_status_to_toml (cd_ser_status (sv_codecs sv)) st))" for msg st
    using assms by (auto simp: gives_def bail_def lift_ok Inr_map_err map_err_Inr_iff run_status_to_toml_def wire_ok_def text_encoder_def)
  have line: "gives utf8_ok (bind_io (ser_io msg (sv_ser_process sv x)) (\<lambda>t. ret_io (t @ [CHR 0x0A])))" for msg x
  proof -
    have "utf8_ok [CHR 0x0A]" by code_simp
    then show ?thesis using assms
      by (auto simp: gives_def bind_ok ret_io_def ser_io_def lift_ok Inr_map_err map_err_Inr_iff wire_ok_def text_encoder_def intro!: utf8_append)
  qed
  have ser: "text_encoder (cd_ser_begin (sv_codecs sv))" "text_encoder (cd_ser_prepare (sv_codecs sv))" "text_encoder (sv_ser_run_state sv)"
    using assms by (simp_all add: wire_ok_def)
  have blank: "gives utf8_ok (bind_io m (\<lambda>_. ret_io []))" for m :: "'a server" by (intro gives_intros) simp
  show ?thesis
    by (cases cmd; simp only: protocol_operation_def Let_def Command.case)
      (intro blank begin_run_text prepare_run_text ser status line gives_intros; fact)+
qed

lemma call_text:
  assumes "wire_ok sv ev" "protocol_call sv cli u = (Inr out, u')"
  shows "ev_text ev out = out"
proof -
  have "gives utf8_ok (protocol_call sv cli)"
    unfolding protocol_call_def by (intro gives_intros gives_cases operation_text [OF assms(1)])
  with assms show ?thesis unfolding gives_def wire_ok_def by blast
qed

text \<open>An error whose text is not blank and whose envelope can be written, whatever code it goes under.\<close>

definition tells :: "server_env \<Rightarrow> string \<Rightarrow> server_error \<Rightarrow> bool" where
  "tells sv command err \<longleftrightarrow> \<not> trims_to_empty (sv_show sv err) \<and>
     (\<forall>code \<in> {''invalid_request'', ''server_config_invalid'', ''run_plan_invalid'', ''server_error''}.
        is_ok (sv_ser_error sv (error_envelope sv command err code)))"

text \<open>What the client makes of the outcome of a call.\<close>

definition understood :: "server_env \<Rightarrow> string \<Rightarrow> (server_error, string) result \<Rightarrow> (server_error, string) result \<Rightarrow> bool" where
  "understood sv command y x \<longleftrightarrow>
     (case y of
        Inr out \<Rightarrow> x = Inr out
      | Inl err \<Rightarrow> \<exists>msg. x = Inl (Bail msg) \<and> (tells sv command err \<longrightarrow> msg = sv_show sv err))"

lemma printed_understood:
  assumes "wire_ok sv ev" "printed sv command y e" "\<And>out. y = Inr out \<Longrightarrow> ev_text ev out = out"
  shows "understood sv command y
    (into_protocol_result ev command (classify_output ev \<lparr>co_code = Some (fst e), co_stdout = snd e, co_stderr = err\<rparr>))"
proof (cases y)
  case (Inr out)
  with assms(2,3) show ?thesis by (simp add: understood_def classify_output_def into_protocol_result_def)
next
  case (Inl f)
  with assms(2) obtain code where code: "code \<in> {''invalid_request'', ''server_config_invalid'', ''run_plan_invalid'', ''server_error''}"
    and e: "e = exit_with_protocol_error sv command f code" unfolding printed_def by auto
  have raw: "classify_output ev \<lparr>co_code = Some (fst e), co_stdout = snd e, co_stderr = err\<rparr> = RawRemoteFailure 1 (ev_text ev (snd e)) (ev_text ev err)"
    by (simp add: classify_output_def e exit_with_protocol_error_def)
  have "into_protocol_result ev command (RawRemoteFailure 1 (ev_text ev (snd e)) (ev_text ev err)) = Inl (Bail (sv_show sv f))" if "tells sv command f"
  proof -
    from that code obtain t where t: "sv_ser_error sv (error_envelope sv command f code) = Inr t" "\<not> trims_to_empty (sv_show sv f)"
      unfolding tells_def is_ok_iff by blast
    with assms(1) have "ev_text ev t = t" "ev_de_error ev t = Inr (error_envelope sv command f code)"
      unfolding wire_ok_def text_encoder_def by blast+
    moreover from this t(2) have "parse_protocol_error_response (ev_de_error ev) t command = Inr (error_envelope sv command f code)"
      using current_accepted by (simp add: parse_protocol_error_response_def bind_res_def error_envelope_def)
    ultimately show ?thesis by (simp add: e exit_with_protocol_error_def t(1) into_protocol_result_def) (simp add: error_envelope_def)
  qed
  then show ?thesis unfolding raw understood_def Inl
    by (auto simp: into_protocol_result_def split: sum.split)
qed

text \<open>
  C12. A remote command is a call of the server's operation. When \<open>ssh\<close> runs the server's command line
  and brings back its exit code and output, then the client gets exactly the answer that the operation gave, and
  an error exactly when the call failed; the error carries the text of the server's error when that text is not
  blank and its envelope could be written. Which configuration and names the call used, and the state it left, is that of
  the specification. Of the wire it is asked that text arrives as it was (not other bytes), that the
  encoders give text and that an envelope is read back as it was written.
\<close>

theorem remote_call_transparent:
  assumes "wire_ok sv ev" "is_protocol_command (cli_command cli)" "server_main sv cli u = (Inr e, u')"
    and "ev_ssh ev host (full_command sc (command_name (cli_command cli) # rest)) w =
      (Inr \<lparr>co_code = Some (fst e), co_stdout = snd e, co_stderr = err\<rparr>, w')"
  shows "\<exists>y x. protocol_call sv cli u = (y, u') \<and>
    server_cmd ev host sc (command_name (cli_command cli) # rest) w = (x, w') \<and>
    (case y of
       Inr out \<Rightarrow> x = Inr out
     | Inl err \<Rightarrow> \<exists>msg. x = Inl (Bail msg) \<and> (tells sv (command_name (cli_command cli)) err \<longrightarrow> msg = sv_show sv err))"
proof -
  obtain y u'' where y: "protocol_call sv cli u = (y, u'')" by (metis surj_pair)
  from server_main_prints [OF assms(2) y] assms(3) have e: "printed sv (command_name (cli_command cli)) y e" and u: "u'' = u'" by auto
  have "ev_text ev out = out" if "y = Inr out" for out using call_text [OF assms(1)] y that by blast
  note printed_understood [OF assms(1) e this, of err]
  with y u assms(4) show ?thesis
    by (simp add: server_cmd_def server_cmd_raw_def ctx_def err_io_def bind_io_def ret_io_def lift_res_def understood_def)
qed

section \<open>What the client is told about a run\<close>

text \<open>
  Where \<open>ssh\<close> reports a successful \<open>run-state\<close>, its output is what the server's command line printed at some state of
  the server, exiting with 0. It may fail, or not answer, at any poll.
\<close>

definition serves_run_state :: "server_env \<Rightarrow> (world \<Rightarrow> world) \<Rightarrow> client_env \<Rightarrow> string \<Rightarrow> string \<Rightarrow> Nickname \<Rightarrow> RunId \<Rightarrow> bool" where
  "serves_run_state sv at ev host sc n r \<longleftrightarrow> (\<forall>w out w'.
     ev_ssh ev host (full_command sc (run_args ''run-state'' n r)) w = (Inr out, w') \<and> co_code out = Some 0 \<longrightarrow>
     (\<exists>cli u'. cli_command cli = RunStateCommand (nickname_str n) (run_id_str r) \<and>
       server_main sv cli (at w) = (Inr (0, co_stdout out), u')))"

lemma load_keeps: "reads.kept (load_config_and_logging sv cli)"
proof -
  have "reads.kept (first_present ps)" for ps by (induction ps) (auto intro!: reads.kept_intros reads_prims)
  then show ?thesis
    unfolding load_config_and_logging_def find_config_def load_server_config_def bail_def ctx_def Let_def
    by (intro reads.kept_intros reads.kept_cases reads_prims)
qed

text \<open>
  C11. Driving ends only on what is on the server's disk: when the client takes a run for ended, then at some poll the
  run directory of the server's configuration held, in the phase the client was told, a readable status of this very
  run and of a compatible version. Polls may fail and \<open>ssh\<close> may not answer; it is only asked that what it brings
  back from a successful \<open>run-state\<close> is what the server's command line printed, that text arrives as it was, and
  that an answer about a run is read back as it was written.
\<close>

theorem client_end_is_on_server:
  assumes "wire_ok sv ev" "serves_run_state sv at ev host sc n r"
    and "\<And>s t. sv_ser_run_state sv s = Inr t \<Longrightarrow> ev_de_run_state ev t = Inr s"
    and "Nickname_new (nickname_str n) = Inr n" "RunId_new (run_id_str r) = Inr r"
    and "\<And>w. fresh_handle (sv_handle sv) (nodes (at w))"
    and "drive_server_until_terminal ev host sc n r w = (Inr s, w')"
  shows "\<exists>v cli config log_cfg u ph. load_config_and_logging sv cli (at v) = (Inr (config, log_cfg), u) \<and> ph \<in> {Done, Failed} \<and>
    rr_phase s = phase_str ph \<and> valid_status_in (sv_codecs sv) config n r (nodes (at v)) ph"
proof -
  from drive_answered [OF assms(7)] obtain v v' where answer: "client_run_state ev host sc n r v = (Inr s, v')" "rr_terminal s"
    unfolding answered_def by blast
  then obtain t v1 where t: "server_cmd ev host sc (run_args ''run-state'' n r) v = (Inr t, v1)" "parse_run_state_response ev t = Inr s"
    by (auto simp: client_run_state_def bind_ok lift_ok eq_commute [of "Inr s"])
  then obtain o1 where o1: "ev_ssh ev host (full_command sc (run_args ''run-state'' n r)) v = (Inr o1, v1)"
    "into_protocol_result ev ''run-state'' (classify_output ev o1) = Inr t"
    by (auto simp: server_cmd_def server_cmd_raw_def bind_ok lift_ok ctx_ok ret_io_def run_args_def eq_commute [of "Inr t"])
  then have ran: "co_code o1 = Some 0" "t = ev_text ev (co_stdout o1)"
    by (auto simp: into_protocol_result_def classify_output_def Let_def split: if_splits option.splits sum.splits)
  with assms(2) o1(1) obtain cli u' where cli: "cli_command cli = RunStateCommand (nickname_str n) (run_id_str r)"
    "server_main sv cli (at v) = (Inr (0, co_stdout o1), u')" unfolding serves_run_state_def by blast
  obtain y u'' where y: "protocol_call sv cli (at v) = (y, u'')" by (metis surj_pair)
  have "is_protocol_command (cli_command cli)" by (simp add: cli(1) is_protocol_command_def)
  from server_main_prints [OF this y] cli(2) have "y = Inr (co_stdout o1)"
    by (cases y) (auto simp: printed_def exit_with_protocol_error_def)
  with y call_text [OF assms(1)] ran(2) have out: "y = Inr t" by metis
  obtain c u1 where load: "load_config_and_logging sv cli (at v) = (c, u1)" by (metis surj_pair)
  with y out obtain config log_cfg where c: "c = Inr (config, log_cfg)"
    by (cases c) (auto simp: protocol_call_def bind_io_def)
  have nodes: "nodes u1 = nodes (at v)" using reads.keptD [OF load_keeps load] by (simp add: same_nodes_def)
  from y load c out have "protocol_operation sv config (cli_command cli) n r u1 = (Inr t, u'')"
    by (cases "sv_init_logging sv log_cfg") (auto simp: protocol_call_def bind_io_def bail_def lift_res_def cli(1) command_names_def assms(4,5))
  then have "bind_io (run_state (sv_codecs sv) (sv_handle sv) config n r) (\<lambda>response.
      ser_io ''failed to serialize run state'' (sv_ser_run_state sv response)) u1 = (Inr t, u'')"
    by (simp add: protocol_operation_def cli(1))
  then obtain response u2 where response: "run_state (sv_codecs sv) (sv_handle sv) config n r u1 = (Inr response, u2)"
    "sv_ser_run_state sv response = Inr t"
    by (elim bind_okE) (auto simp: ser_io_def lift_ok Inr_map_err map_err_Inr_iff eq_commute [of "Inr t"])
  with assms(3) t(2) have eq: "s = response"
    by (auto simp: parse_run_state_response_def accept_response_def bind_res_Inr_iff Inr_map_err map_err_Inr_iff split: if_splits)
  have fresh: "fresh_handle (sv_handle sv) (nodes u1)" using assms(6) nodes by simp
  have "\<exists>ph \<in> {Done, Failed}. rr_phase response = phase_str ph \<and> valid_status_in (sv_codecs sv) config n r (nodes u1) ph"
    using run_state_truthful [OF fresh response(1)] answer(2) unfolding eq by (metis (no_types, lifting) sum.inject(2))
  with load c show ?thesis unfolding eq nodes by blast
qed

end
