(* ===== verification/Wire_Samples.thy ===== *)
theory Wire_Samples
  imports Wire Sync_Samples Process_Samples
begin

text \<open>
  A client and a server with a finished run, joined by a wire, as an instance of the theorems of \<open>Wire\<close>.
\<close>

definition wire_disk :: fs where
  "wire_disk = sample_run Done [(''status.toml'', ''s'')] @ [([''c''], FileN ''k'' 0 None)]"

definition wire_cli :: "string \<Rightarrow> Cli" where
  "wire_cli n = \<lparr>cli_config = Some ''/c'', cli_log_level = Some ''debug'', cli_log_format = None, cli_color = None, cli_quiet = False,
     cli_verbose = False, cli_command = RunStateCommand n ''R''\<rparr>"

text \<open>The answer that the operation gives; the encoder of the wire knows this one.\<close>

definition wire_answer :: RunStateResponse where
  "wire_answer = (case fst (run_state sample_codecs 7 sample_config (Nickname ''n'') (RunId ''R'') (sample_at (Suc 0) wire_disk)) of
     Inr s \<Rightarrow> s | Inl _ \<Rightarrow> dummy_run_state (Nickname ''n'') (RunId ''R''))"

text \<open>
  Envelopes are three fields with commas, and the encoder writes those that the decoder reads back; the lossy decoder
  of bytes gives up on what is not text.
\<close>

definition wire_decoded :: "ProtocolErrorResponse decoder" where
  "wire_decoded t =
     (case split_on CHR '','' t of
        [command, code, message] \<Rightarrow> Inr \<lparr>pe_protocol_version = PROTOCOL_VERSION, pe_purgery_version = PURGERY_VERSION, pe_command = command,
          pe_ok = False, pe_error = \<lparr>pe_code = code, pe_message = message\<rparr>\<rparr>
      | _ \<Rightarrow> Inl '''')"

definition wire_encoded :: "ProtocolErrorResponse encoder" where
  "wire_encoded e =
     (let t = join_with '','' [pe_command e, pe_code (pe_error e), pe_message (pe_error e)] in
      if wire_decoded t = Inr e \<and> utf8_ok t then Inr t else Inl '''')"

definition wire_text :: "string \<Rightarrow> string" where
  "wire_text t = (if utf8_ok t then t else ''?'')"

definition wire_show :: "server_error \<Rightarrow> string" where
  "wire_show err = (case err of Bail m \<Rightarrow> m | IoContext m _ \<Rightarrow> m | SerializeError m _ \<Rightarrow> m)"

definition wire_server :: server_env where
  "wire_server = \<lparr>sv_codecs = sample_codecs, sv_payload = sample_host,
     sv_de_config = (\<lambda>_. Inr \<lparr>scf_work_dir = ''/w'', scf_transform = [], scf_gc = GCConfig_default, scf_logging = LoggingConfig_default\<rparr>),
     sv_ser_error = wire_encoded,
     sv_ser_run_state = (\<lambda>s. if s = wire_answer then Inr ''t'' else Inl ''''), sv_ser_process = (\<lambda>_. Inl ''''),
     sv_init_logging = (\<lambda>_. Inr ()), sv_show = wire_show, sv_vars = (\<lambda>_. None), sv_stat = (\<lambda>_. None), sv_cwd = Inr ''/'', sv_handle = 7\<rparr>"

definition wire_env :: "Cli \<Rightarrow> client_env" where
  "wire_env cli = sample_env
     \<lparr>ev_de_error := wire_decoded, ev_de_run_state := (\<lambda>_. Inr wire_answer), ev_text := wire_text,
      ev_ssh := (\<lambda>_ _ w. case fst (server_main wire_server cli (sample_at 0 wire_disk)) of
        Inr e \<Rightarrow> (Inr \<lparr>co_code = Some (fst e), co_stdout = snd e, co_stderr = []\<rparr>, next_tick w) | Inl _ \<Rightarrow> (Inl IoOther, next_tick w))\<rparr>"

lemma wire_fields:
  "sv_codecs wire_server = sample_codecs" "sv_handle wire_server = 7" "sv_show wire_server = wire_show" "sv_init_logging wire_server l = Inr ()"
  "sv_ser_run_state wire_server s = (if s = wire_answer then Inr ''t'' else Inl '''')" "ev_text (wire_env cli) = wire_text"
  "ev_de_run_state (wire_env cli) t = Inr wire_answer" "ev_polls (wire_env cli) = 5" "sv_ser_error wire_server = wire_encoded"
  "sv_ser_process wire_server p = Inl ''''" "ev_de_error (wire_env cli) = wire_decoded"
  by (simp_all add: wire_server_def wire_env_def sample_env_def)

text \<open>Text of every length of a character, and bytes that are none: a stray one, an overlong form, a surrogate, an end.\<close>

lemma utf8_samples:
  "utf8_ok [CHR ''a'', CHR 0xC3, CHR 0xA9, CHR 0xE2, CHR 0x82, CHR 0xAC, CHR 0xF0, CHR 0x9F, CHR 0x98, CHR 0x80]"
  "\<not> utf8_ok [CHR 0x80]" "\<not> utf8_ok [CHR 0xC0, CHR 0x80]" "\<not> utf8_ok [CHR 0xED, CHR 0xA0, CHR 0x80]" "\<not> utf8_ok [CHR 0xE2, CHR 0x82]"
  by code_simp+

lemma wire_sample_ok: "wire_ok wire_server (wire_env cli)"
proof -
  have "utf8_ok ''t''" "utf8_ok ''b''" "utf8_ok ''q''" "utf8_ok ''s''" by code_simp+
  then show ?thesis
    by (auto simp: wire_ok_def text_encoder_def wire_fields sample_codecs_def wire_text_def wire_encoded_def Let_def split: if_splits)
qed

lemma wire_loads: "\<exists>l. load_config_and_logging wire_server (wire_cli n) (sample_at 0 wire_disk) = (Inr (sample_config, l), sample_at (Suc 0) wire_disk)"
proof -
  have path: "fpath_of ''/c'' = [''c'']" by code_simp
  have disk: "look wire_disk [''c''] = Some (FileN ''k'' 0 None)" unfolding wire_disk_def by code_simp
  have config: "server_config_from_toml (sv_de_config wire_server) h c = Inr sample_config" for h c
    by (simp add: server_config_from_toml_def wire_server_def sample_config_def ServerWorkDir_new_def bind_res_def)
  have overrides: "apply_cli_overrides (wire_cli n) c = Inr (c\<lparr>lc_level := LevelDebug\<rparr>)" for c
    by (simp add: apply_cli_overrides_def wire_cli_def bind_res_def log_level_from_str_def)
  have cli: "cli_config (wire_cli n) = Some ''/c''" by (simp add: wire_cli_def)
  have "load_server_config wire_server ''/c'' (sample_at 0 wire_disk) = (Inr sample_config, sample_at (Suc 0) wire_disk)"
    by (simp add: load_server_config_def sample_io path disk bail_def config)
  then show ?thesis
    by (simp add: load_config_and_logging_def cli sample_io overrides)
qed


lemma wire_state:
  "\<exists>w'. run_state sample_codecs 7 sample_config (Nickname ''n'') (RunId ''R'') (sample_at (Suc 0) wire_disk) = (Inr wire_answer, w')"
  "rr_terminal wire_answer" "rr_protocol_version wire_answer = PROTOCOL_VERSION" "rr_purgery_version wire_answer = PURGERY_VERSION"
proof -
  have "\<exists>resp w'. run_state sample_codecs 7 sample_config (Nickname ''n'') (RunId ''R'') (sample_at (Suc 0) wire_disk) = (Inr resp, w') \<and>
    rr_terminal resp \<and> rr_protocol_version resp = PROTOCOL_VERSION \<and> rr_purgery_version resp = PURGERY_VERSION"
    by (simp add: run_state_def try_read_status_def modified_or_zero_def dir_modified_at_def sample_judged
        state_response_def bare_fields_def sample_eval wire_disk_def)
  then obtain resp w' where r: "run_state sample_codecs 7 sample_config (Nickname ''n'') (RunId ''R'') (sample_at (Suc 0) wire_disk) = (Inr resp, w')"
    "rr_terminal resp" "rr_protocol_version resp = PROTOCOL_VERSION" "rr_purgery_version resp = PURGERY_VERSION" by blast
  then have "wire_answer = resp" by (simp add: wire_answer_def)
  with r show "\<exists>w'. run_state sample_codecs 7 sample_config (Nickname ''n'') (RunId ''R'') (sample_at (Suc 0) wire_disk) = (Inr wire_answer, w')"
    "rr_terminal wire_answer" "rr_protocol_version wire_answer = PROTOCOL_VERSION" "rr_purgery_version wire_answer = PURGERY_VERSION"
    by auto
qed

lemma wire_names: "Nickname_new ''n'' = Inr (Nickname ''n'')" "RunId_new ''R'' = Inr (RunId ''R'')"
  by code_simp+

lemma wire_cli_fields: "cli_command (wire_cli n) = RunStateCommand n ''R''" "is_protocol_command (cli_command (wire_cli n))"
  "command_name (cli_command (wire_cli n)) = ''run-state''"
  by (simp_all add: wire_cli_def is_protocol_command_def command_name_def)

lemma wire_called: "\<exists>u'. protocol_call wire_server (wire_cli ''n'') (sample_at 0 wire_disk) = (Inr ''t'', u')"
  "\<exists>u'. protocol_call wire_server (wire_cli '''') (sample_at 0 wire_disk) = (Inl (Bail ''invalid nickname''), u')"
proof -
  from wire_loads obtain l where l: "load_config_and_logging wire_server (wire_cli n) (sample_at 0 wire_disk) = (Inr (sample_config, l n), sample_at (Suc 0) wire_disk)" for n
    by metis
  from wire_state(1) obtain w' where s: "run_state sample_codecs 7 sample_config (Nickname ''n'') (RunId ''R'') (sample_at (Suc 0) wire_disk) = (Inr wire_answer, w')"
    by blast
  show "\<exists>u'. protocol_call wire_server (wire_cli ''n'') (sample_at 0 wire_disk) = (Inr ''t'', u')"
    by (simp add: protocol_call_def bind_io_def l s bail_def lift_res_def wire_fields wire_cli_fields(1) command_names_def wire_names
        protocol_operation_def ser_io_def)
  have "\<not> is_ok (Nickname_new '''')" by code_simp
  then obtain e where "Nickname_new '''' = Inl e" by (cases "Nickname_new ''''") (auto simp: is_ok_def)
  then show "\<exists>u'. protocol_call wire_server (wire_cli '''') (sample_at 0 wire_disk) = (Inl (Bail ''invalid nickname''), u')"
    by (auto simp: protocol_call_def bind_io_def l bail_def lift_res_def wire_fields wire_cli_fields(1) command_names_def)
qed

lemma wire_exits: "\<exists>u'. server_main wire_server (wire_cli ''n'') (sample_at 0 wire_disk) = (Inr (0, ''t''), u')"
  "\<exists>e u'. server_main wire_server (wire_cli '''') (sample_at 0 wire_disk) = (Inr e, u')"
  using wire_called server_main_prints [OF wire_cli_fields(2)] by (metis printed_simps(1), metis)

text \<open>The error of a bad nickname is told: it is not blank and its envelope can be written under every code.\<close>

lemma wire_tells: "tells wire_server ''run-state'' (Bail ''invalid nickname'')"
proof -
  have "\<not> trims_to_empty ''invalid nickname''" by code_simp
  moreover have "utf8_ok (join_with '','' [''run-state'', code, ''invalid nickname'']) \<and>
      split_on CHR '','' (join_with '','' [''run-state'', code, ''invalid nickname'']) = [''run-state'', code, ''invalid nickname'']"
    if "code \<in> {''invalid_request'', ''server_config_invalid'', ''run_plan_invalid'', ''server_error''}" for code
    using that by (elim insertE emptyE; hypsubst) code_simp+
  ultimately show ?thesis
    by (simp add: tells_def wire_fields wire_show_def error_envelope_def wire_encoded_def wire_decoded_def is_ok_def)
qed

theorem remote_call_transparent_witness:
  "(\<exists>u'. protocol_call wire_server (wire_cli ''n'') (sample_at 0 wire_disk) = (Inr ''t'', u') \<and>
    server_cmd (wire_env (wire_cli ''n'')) ''h'' ''p'' [''run-state'', ''--nickname'', ''n'', ''--run-id'', ''R''] (sample_at 5 []) =
      (Inr ''t'', next_tick (sample_at 5 []))) \<and>
   (\<exists>u'. protocol_call wire_server (wire_cli '''') (sample_at 0 wire_disk) = (Inl (Bail ''invalid nickname''), u') \<and>
    server_cmd (wire_env (wire_cli '''')) ''h'' ''p'' [''run-state'', ''--nickname'', '''', ''--run-id'', ''R''] (sample_at 5 []) =
      (Inl (Bail ''invalid nickname''), next_tick (sample_at 5 [])))"
proof (intro conjI)
  have ssh: "ev_ssh (wire_env cli) h c w = (Inr \<lparr>co_code = Some (fst e), co_stdout = snd e, co_stderr = []\<rparr>, next_tick w)"
    if "server_main wire_server cli (sample_at 0 wire_disk) = (Inr e, u')" for cli h c w e u'
    using that by (simp add: wire_env_def)
  from wire_exits(1) obtain e u' where e: "server_main wire_server (wire_cli ''n'') (sample_at 0 wire_disk) = (Inr e, u')" by blast
  from remote_call_transparent [OF wire_sample_ok wire_cli_fields(2) e ssh [OF e], of "''h''" "''p''" "[''--nickname'', ''n'', ''--run-id'', ''R'']"] wire_called(1)
  show "\<exists>u'. protocol_call wire_server (wire_cli ''n'') (sample_at 0 wire_disk) = (Inr ''t'', u') \<and>
    server_cmd (wire_env (wire_cli ''n'')) ''h'' ''p'' [''run-state'', ''--nickname'', ''n'', ''--run-id'', ''R''] (sample_at 5 []) =
      (Inr ''t'', next_tick (sample_at 5 []))"
    by (auto simp: wire_cli_fields(3))
  from wire_exits(2) obtain e u' where e: "server_main wire_server (wire_cli '''') (sample_at 0 wire_disk) = (Inr e, u')" by blast
  from remote_call_transparent [OF wire_sample_ok wire_cli_fields(2) e ssh [OF e], of "''h''" "''p''" "[''--nickname'', '''', ''--run-id'', ''R'']"] wire_called(2) wire_tells
  show "\<exists>u'. protocol_call wire_server (wire_cli '''') (sample_at 0 wire_disk) = (Inl (Bail ''invalid nickname''), u') \<and>
    server_cmd (wire_env (wire_cli '''')) ''h'' ''p'' [''run-state'', ''--nickname'', '''', ''--run-id'', ''R''] (sample_at 5 []) =
      (Inl (Bail ''invalid nickname''), next_tick (sample_at 5 []))"
    by (auto simp: wire_cli_fields(3) wire_fields wire_show_def)
qed

lemma wire_ssh: "ev_ssh (wire_env (wire_cli ''n'')) h c w = (Inr \<lparr>co_code = Some 0, co_stdout = ''t'', co_stderr = []\<rparr>, next_tick w)"
proof -
  from wire_exits(1) obtain u' where "server_main wire_server (wire_cli ''n'') (sample_at 0 wire_disk) = (Inr (0, ''t''), u')" by blast
  then show ?thesis by (simp add: wire_env_def)
qed

lemma wire_arrives: "wire_text ''t'' = ''t''"
  by (simp add: wire_text_def) code_simp

abbreviation polled_env :: client_env where
  "polled_env \<equiv> wire_env (wire_cli ''n'')"

lemma wire_driven: "\<exists>w'. drive_server_until_terminal polled_env ''h'' ''p'' (Nickname ''n'') (RunId ''R'') (sample_at 5 []) = (Inr wire_answer, w')"
proof -
  have "client_run_state polled_env ''h'' ''p'' (Nickname ''n'') (RunId ''R'') w = (Inr wire_answer, next_tick w)" for w
    by (simp add: client_run_state_def server_cmd_def server_cmd_raw_def ctx_def err_io_def bind_io_def ret_io_def lift_res_def wire_ssh
        classify_output_def into_protocol_result_def wire_fields wire_arrives parse_run_state_response_def accept_response_def bind_res_def
        wire_state current_accepted)
  then have "\<exists>w'. drive_loop polled_env ''h'' ''p'' (Nickname ''n'') (RunId ''R'') (Suc k) (drive_start (Nickname ''n'') (RunId ''R'')) (sample_at 5 []) =
      (Inr (Some wire_answer), w')" for k
    by (simp add: bind_io_def ret_io_def attempt_io_def drive_step_def drive_polled_def drive_start_def finish_worker_after_terminal_def wire_state(2))
  from this [of 4] obtain w' where "drive_loop polled_env ''h'' ''p'' (Nickname ''n'') (RunId ''R'') (Suc 4) (drive_start (Nickname ''n'') (RunId ''R''))
    (sample_at 5 []) = (Inr (Some wire_answer), w')" by blast
  moreover have "ev_polls polled_env = Suc 4" by (simp add: wire_fields)
  ultimately show ?thesis
    by (simp only: drive_server_until_terminal_def bind_io_def ret_io_def prod.case sum.case option.case) (rule exI, rule refl)
qed

theorem client_end_is_on_server_witness:
  "\<exists>config ph. ph \<in> {Done, Failed} \<and> rr_phase wire_answer = phase_str ph \<and>
    valid_status_in sample_codecs config (Nickname ''n'') (RunId ''R'') wire_disk ph"
proof -
  from wire_driven obtain w' where run: "drive_server_until_terminal polled_env ''h'' ''p'' (Nickname ''n'') (RunId ''R'') (sample_at 5 []) = (Inr wire_answer, w')"
    by blast
  from wire_exits(1) obtain u' where e: "server_main wire_server (wire_cli ''n'') (sample_at 0 wire_disk) = (Inr (0, ''t''), u')" by blast
  have serves: "serves_run_state wire_server (\<lambda>_. sample_at 0 wire_disk) polled_env ''h'' ''p'' (Nickname ''n'') (RunId ''R'')"
    unfolding serves_run_state_def using e wire_cli_fields(1) by (auto simp: wire_ssh intro!: exI [of _ "wire_cli ''n''"])
  have codec: "ev_de_run_state polled_env t = Inr s" if "sv_ser_run_state wire_server s = Inr t" for s t
    using that by (simp add: wire_fields split: if_splits)
  have fresh: "fresh_handle (sv_handle wire_server) (nodes (sample_at 0 wire_disk))"
    by (simp add: wire_fields fresh_handle_def sample_at_def wire_disk_def sample_fs)
  from client_end_is_on_server [OF wire_sample_ok serves codec _ _ fresh run] wire_names show ?thesis
    by (auto simp: sample_at_def wire_fields)
qed

end
