(* ===== verification/Client_Main.thy ===== *)
theory Client_Main
  imports Client_Run
begin

text \<open>
  The command line of the client (\<open>purgery-client/src/main.rs\<close>): the logging configuration that its
  options give, and the exit code. The parsing of arguments is the \<open>clap\<close> crate's and the set-up of
  logging that of \<open>tracing\<close>, an argument here.
\<close>

datatype LogLevelArg = ErrorArg | WarnArg | InfoArg | DebugArg | TraceArg
datatype LogFormatArg = PrettyArg | CompactArg | JsonArg
datatype ColorModeArg = AutoArg | AlwaysArg | NeverArg

fun level_of_arg :: "LogLevelArg \<Rightarrow> LogLevel" where
  "level_of_arg ErrorArg = LevelError"
| "level_of_arg WarnArg = LevelWarn"
| "level_of_arg InfoArg = LevelInfo"
| "level_of_arg DebugArg = LevelDebug"
| "level_of_arg TraceArg = LevelTrace"

fun format_of_arg :: "LogFormatArg \<Rightarrow> LogFormat" where
  "format_of_arg PrettyArg = Pretty"
| "format_of_arg CompactArg = Compact"
| "format_of_arg JsonArg = Json"

fun color_of_arg :: "ColorModeArg \<Rightarrow> ColorMode" where
  "color_of_arg AutoArg = Auto"
| "color_of_arg AlwaysArg = Always"
| "color_of_arg NeverArg = Never"

record ClientCli =
  cl_quiet :: bool
  cl_verbose :: bool
  cl_log_level :: "LogLevelArg option"
  cl_log_format :: "LogFormatArg option"
  cl_color :: "ColorModeArg option"
  cl_sync :: SyncArgs

definition build_logging_config :: "ClientCli \<Rightarrow> LoggingConfig" where
  "build_logging_config cli =
     \<lparr>lc_level =
        (if cl_quiet cli then LevelError
         else if cl_verbose cli then LevelDebug
         else case cl_log_level cli of Some l \<Rightarrow> level_of_arg l | None \<Rightarrow> LevelInfo),
      lc_format = (case cl_log_format cli of Some f \<Rightarrow> format_of_arg f | None \<Rightarrow> lc_format LoggingConfig_default),
      lc_color = (case cl_color cli of Some c \<Rightarrow> color_of_arg c | None \<Rightarrow> lc_color LoggingConfig_default)\<rparr>"

text \<open>The exit code: any error, of the set-up or of the sync, gives 1.\<close>

definition client_main :: "(LoggingConfig \<Rightarrow> (string, unit) result) \<Rightarrow> client_env \<Rightarrow> ClientCli \<Rightarrow> int client" where
  "client_main init_logging ev cli =
     (case init_logging (build_logging_config cli) of
        Inl _ \<Rightarrow> ret_io 1
      | Inr _ \<Rightarrow> bind_io (attempt_io (run_sync ev (cl_sync cli))) (\<lambda>r. ret_io (if is_ok r then 0 else 1)))"

end
