(* ===== verification/Spec2Isabelle.thy ===== *)
theory Spec2Isabelle
  imports Destination Version Transform_Def Shell Records Split Process_Samples Record_Samples Wire_Samples Client_Main
begin

text \<open>
  A verification library for Purgery, a tool that uploads directory entries to a server, has them
  transformed there and deletes the local sources once the import is confirmed. The crates are
  \<open>purgery-core\<close> (shared data and rules), \<open>purgery-server\<close> (the work directory and its runs) and
  \<open>purgery-client\<close> (sources, uploads, clean-up).

  \<^bold>\<open>The program.\<close> The client classifies a source, records the identity of everything it may delete later,
  and asks the server over \<open>ssh\<close> to begin a run, a directory \<open>work_dir/nickname/phase/run_id\<close>. It is
  created in \<open>incoming\<close> under a lease; the client uploads the payload, renews the lease by heartbeats,
  writes a durable record of the run and has it moved to \<open>ready\<close>. A processor locks a ready run, moves
  it to \<open>processing\<close>, checks the staged entry against the manifest, plans the destination, runs the
  transform on a work copy and publishes a status; the run then moves to \<open>done\<close> or \<open>failed\<close>. The client
  drives this by polling, starts a worker where one is missing, reads the terminal status, confirms the
  imported entries and deletes those sources that are still what they were. The next processor recovers
  a run that a crashed one left behind, the next sync resumes what an interrupted one left, and garbage
  collection removes what has expired.

  \<^bold>\<open>Conventions.\<close> A Rust \<open>String\<close> is the list of its UTF-8 bytes; \<open>Result\<close> is a sum with the error
  on the left; \<open>u64\<close> is \<open>64 word\<close>, so \<open>+\<close> wraps as a release build does, and \<open>saturating_add\<close> is
  written out. A panic is \<open>None\<close>. Operations thread a \<open>world\<close> (theory \<open>Fs\<close>): the tree \<open>nodes\<close> of the side
  that runs (the server's work directory, or the client's state directory), the tree \<open>sources\<close> of what the
  client may delete, with symbolic links, a clock, and a schedule of faults, one entry per operation: an
  operation may fail, write a prefix, remove or create only a part, or fail to stat. A theorem for all
  worlds therefore holds for every combination of I/O failures. Error values keep the outermost message of
  the code; interpolated values and log output are left out.

  \<^bold>\<open>Termination and fuel.\<close> Definitions are total, by structural recursion or with a proof of
  termination. The only fuel is \<open>ev_polls\<close>, the number of polls of the client's loop, and \<open>ev_beats\<close>, the
  number of heartbeats before the client asks for their health: both loops run as long as the server lets
  them. \<open>drive_terminates\<close> shows that a large enough bound makes no difference once the server answers
  every poll with a terminal state; the safety theorems hold for every bound.

  \<^bold>\<open>Theories and what they show.\<close>

  \<^item> \<open>Prelude\<close>: strings, results and ordered maps of the standard library, with their lemmas;
    \<open>Utf8_Path\<close>: \<open>std::path\<close> on Unix path strings.
  \<^item> \<open>Names\<close>, \<open>Destination\<close> (\<open>core/path.rs\<close>): validated names, the run layout and rsync's
    destination decision. Run directories do not collide, a destination plan stays where the
    operand says, the symlink guard is exact. The locales \<open>validated_newtype\<close>, \<open>exact_newtype\<close> and
    \<open>named_enum\<close> state what serde relies on; each is interpreted on the types of the program.
  \<^item> \<open>Version\<close> (\<open>core/version.rs\<close>), \<open>Transform_Def\<close> (\<open>core/transform.rs\<close>), \<open>Records\<close>
    (\<open>core/status.rs\<close>, \<open>manifest.rs\<close>, \<open>config.rs\<close>, \<open>cleanup_state.rs\<close>, \<open>lib.rs\<close>), \<open>Shell\<close>
    (\<open>core/lib.rs\<close>): version gates, placeholder expansion and confinement of outputs, round trips of
    records, shell escaping.
  \<^item> \<open>Split\<close> (\<open>client/split.rs\<close>): the glob matcher against the meaning of a pattern's parsed items
    (\<open>described_by\<close>, which shares nothing with the matching loop), discovery with pruning, filter rules.
  \<^item> \<open>Fs\<close>, \<open>Fs_Laws\<close>, \<open>Wp\<close>: the file system, its laws, and weakest preconditions. The locale
    \<open>world_relation\<close> (a preorder on worlds) proves once that composed programs keep a relation that their
    operations keep; it is interpreted for every frame condition of the development.
  \<^item> \<open>Phases\<close>, \<open>Run_Laws\<close> (\<open>server/phases.rs\<close>): beginning, finishing, failing and finalizing
    runs; publications are all or nothing, moves lose nothing and touch no other run.
  \<^item> \<open>Gc\<close>, \<open>Gc_Laws\<close>, \<open>Gc_Collect\<close> (\<open>server/gc.rs\<close>): collection only removes, spares locked and
    ready runs whatever fails and the other live runs when nothing does or their directory is young, and without faults
    removes exactly what is due.
  \<^item> \<open>Server_Ops\<close>, \<open>Server_Laws\<close> (\<open>server/lib.rs\<close>): prepare, heartbeat, status and state of runs,
    with the truth of their answers.
  \<^item> \<open>Transform_Run\<close>, \<open>Entries\<close>, \<open>Transform_Laws\<close> (\<open>server/transform.rs\<close>, \<open>process.rs\<close>): bounded
    output, the transform of one entry, and that nothing is reported imported unverified.
  \<^item> \<open>Process\<close>, \<open>Process_Laws\<close>, \<open>Claim_Laws\<close> (\<open>server/process.rs\<close>, \<open>recover.rs\<close>): claiming,
    processing and recovery; mutual exclusion, honest answers, and that claiming loses no run.
  \<^item> \<open>Server_Main\<close> (\<open>server/main.rs\<close>): the configuration, the dispatch of commands, exit codes and what is
    printed.
  \<^item> \<open>Sources\<close>, \<open>Cleanup\<close>, \<open>Cleanup_Laws\<close> (\<open>client/cleanup.rs\<close>): the tree of sources and the durable
    cleanup state; only what was confirmed and is unchanged is deleted, and the state file is true.
  \<^item> \<open>Classify\<close>, \<open>Classify_Laws\<close> (\<open>client/classify.rs\<close>): operands, manifests and identities; the
    manifest and a staged copy pass the server's checks, and the captured identities are those of the nodes below the
    source (as far as the walk yields them) and are what clean-up needs.
  \<^item> \<open>Runner\<close>, \<open>Drive\<close>, \<open>Drive_Laws\<close> (\<open>client/runner.rs\<close>, \<open>run.rs\<close>): remote commands, requests, and the
    loop that drives a run: it returns only what the server said, keeps at most one worker and leaves none.
  \<^item> \<open>Client_Run\<close>, \<open>Client_Laws\<close>, \<open>Client_Sync\<close> (\<open>client/run.rs\<close>): nicknames, operands, heartbeats,
    persistence, resumption, splitting and the sync itself; the record is written before the run is finished, deletions
    are those the server reported, and a sync that succeeds has taken exactly the steps of the protocol, one right after the
    other (\<open>in_order\<close>). \<open>Client_Main\<close> (\<open>client/main.rs\<close>) is its
    command line.
  \<^item> \<open>Client_Record\<close>, \<open>Client_Resume\<close>: the durable record refines a protocol of five steps, each behind the
    server's answer that allows it; resumption attempts every earlier run, also after failures, in exact ways
    (\<open>settled\<close>), and refuses a sync after a failure.
  \<^item> \<open>Wire\<close>: both programs joined at the command line. A remote command is a call of the server's
    operation, and a run that the client takes for ended has its status on the server's disk.
  \<^item> \<open>Run_Samples\<close>, \<open>Server_Samples\<close>, \<open>Gc_Samples\<close>, \<open>Process_Samples\<close>, \<open>Client_Samples\<close>, \<open>Sync_Samples\<close>,
    \<open>Delete_Samples\<close>, \<open>Record_Samples\<close>, \<open>Wire_Samples\<close>: concrete worlds and environments at which the hypotheses
    of the theorems hold.

  \<^bold>\<open>Parameters and hypotheses.\<close> Serde's TOML codecs (\<open>codecs\<close>, \<open>client_codecs\<close>), the parser of the \<open>toml\<close> crate,
  SHA-256, the spawned transform with its pipes, symbolic links and directory walks (\<open>payload_ops\<close>), and
  \<open>ssh\<close>, \<open>rsync\<close>, children, environment variables and the host name (\<open>client_env\<close>, \<open>server_env\<close>) are arguments of
  the definitions. A program's pipe is the list of the events that reading it gives; a
  program is taken to end after finitely many polls. The theorems ask of them, by name: \<open>remote_elsewhere\<close> (what
  runs elsewhere leaves the client's disk alone), \<open>reaps\<close> (a child that was waited for is gone), \<open>ticking\<close> (time
  passes), \<open>reads_back\<close> and \<open>serde_phase\<close> (what is serialized is read back), \<open>wire_ok\<close> (well-formed UTF-8 survives
  \<open>from_utf8_lossy\<close>, encoders give UTF-8, the envelope of an error is read back; nothing of other bytes or of errors
  that cannot be written), \<open>serves_run_state\<close> (what \<open>ssh\<close> reports as the output of a successful command is what the
  server printed), \<open>decodes_destinations\<close> (decoded destinations are ones the constructor accepts), \<open>holds_copy\<close> (the staged
  entry is a copy of the source) and \<open>walk_is\<close> (a walk that yields every node).

  \<^bold>\<open>Not modelled.\<close> The parsing of arguments (\<open>clap\<close>) and the set-up of logging (\<open>init_logging\<close>, which only
  configures \<open>tracing\<close>); the drawing of run ids; the scripted runner and the transforms with a callback that only tests call;
  interleavings of two processes inside one operation sequence, other than through the locks they hold (the
  heartbeat thread is the number of its beats); symbolic links inside the work directory.
\<close>

end
